(* ===== verification/Go_Prelude.thy ===== *)
theory Go_Prelude
  imports
    Main
    "HOL-Library.Char_ord"
    "HOL-Library.List_Lexorder"
    "HOL-Library.Sublist"
begin

text \<open>
  Prelude of the development: the error values of the Go code, results as sums, and the parts
  of the packages \<^verbatim>\<open>strings\<close>, \<^verbatim>\<open>bytes\<close> and \<^verbatim>\<open>unicode/utf8\<close> that the program uses, on byte
  strings. A Go string is a \<^typ>\<open>string\<close>, one \<^typ>\<open>char\<close> per byte, so \<^verbatim>\<open>len\<close> is \<open>length\<close> and
  non-ASCII text is its UTF-8 encoding. White space is Go's \<^verbatim>\<open>unicode.IsSpace\<close> in full;
  case mapping is exact on ASCII and on the non-ASCII runes that map to ASCII letters, and leaves
  other runes alone.
\<close>

named_theorems go_simps \<open>rewriting rules of the Go library model\<close>
named_theorems item_simps \<open>rewriting rules of the item model\<close>
named_theorems store_simps \<open>rewriting rules of the storage model\<close>

section \<open>Errors and results\<close>

text \<open>
  The error values the modelled code returns: \<^verbatim>\<open>*domain.ValidationError\<close> (parameter and
  message), the sentinel errors of the packages \<^verbatim>\<open>domain\<close>, \<^verbatim>\<open>storage\<close> and \<^verbatim>\<open>service\<close>, the typed
  errors of the package \<^verbatim>\<open>llama\<close> and of the package \<^verbatim>\<open>httpapi\<close>, the errors of the context and of the
  network (\<open>NetError\<close> says whether it is a timeout), a run-time panic (\<open>GoPanic\<close>), and \<^verbatim>\<open>fmt.Errorf\<close> errors: \<open>Errorf\<close> for a plain one and
  \<open>Wrap\<close> for one that wraps its cause with \<^verbatim>\<open>%w\<close>.
\<close>

datatype error =
    ValidationError string string
  | ErrUnsupportedShape
  | StorageErrNotFound
  | StorageErrConflict
  | ErrNotFound
  | ErrConflict
  | ErrUpstreamFailure
  | ErrUpstreamTimeout
  | TimeoutError string
  | UpstreamError int string
  | InvalidResponseError string
  | RawToolCallMarkupError
  | UpstreamBodyTooLargeError string int
  | ToolChoiceIncompatibleError string
  | RateLimitExceededError string string
  | DeadlineExceeded
  | NetError bool string
  | JSONError
  | GoPanic string
  | Errorf string
  | Wrap string error

type_synonym 'a res = "error + 'a"

fun res_bind :: "'a res \<Rightarrow> ('a \<Rightarrow> 'b res) \<Rightarrow> 'b res" where
  "res_bind (Inl e) f = Inl e"
| "res_bind (Inr x) f = f x"

fun map_res :: "('a \<Rightarrow> 'b res) \<Rightarrow> 'a list \<Rightarrow> 'b list res" where
  "map_res f [] = Inr []"
| "map_res f (x # xs) =
     (case f x of Inl e \<Rightarrow> Inl e
      | Inr y \<Rightarrow> (case map_res f xs of Inl e \<Rightarrow> Inl e | Inr ys \<Rightarrow> Inr (y # ys)))"

lemma res_bind_Inr_iff: "res_bind m f = Inr y \<longleftrightarrow> (\<exists>x. m = Inr x \<and> f x = Inr y)"
  by (cases m) auto

lemma map_res_Inr_iff:
  "map_res f xs = Inr ys \<longleftrightarrow> list_all2 (\<lambda>x y. f x = Inr y) xs ys"
proof (induction xs arbitrary: ys)
  case (Cons x xs)
  show ?case
    by (cases ys) (auto simp: Cons.IH [symmetric] split: sum.splits)
qed auto

lemma map_res_length: "map_res f xs = Inr ys \<Longrightarrow> length ys = length xs"
  by (auto simp: map_res_Inr_iff dest: list_all2_lengthD)

lemma map_res_nth:
  "map_res f xs = Inr ys \<Longrightarrow> i < length xs \<Longrightarrow> f (xs ! i) = Inr (ys ! i)"
  by (auto simp: map_res_Inr_iff list_all2_conv_all_nth)

lemma map_res_ok:
  assumes "\<And>x. x \<in> set xs \<Longrightarrow> f x = Inr (g x)"
  shows "map_res f xs = Inr (map g xs)"
  using assms by (induction xs) auto

lemma map_res_set:
  "map_res f xs = Inr ys \<Longrightarrow> y \<in> set ys \<Longrightarrow> \<exists>x \<in> set xs. f x = Inr y"
  by (induction xs arbitrary: ys) (auto split: sum.splits)

lemma map_res_append:
  "map_res f (xs @ ys) =
     (case map_res f xs of Inl e \<Rightarrow> Inl e
      | Inr us \<Rightarrow> (case map_res f ys of Inl e \<Rightarrow> Inl e | Inr vs \<Rightarrow> Inr (us @ vs)))"
  by (induction xs) (auto split: sum.splits)

section \<open>Byte classes\<close>

abbreviation byte :: "char \<Rightarrow> nat" where
  "byte c \<equiv> of_char c"

definition ascii_space :: "char \<Rightarrow> bool" where
  "ascii_space c \<longleftrightarrow> (9 \<le> byte c \<and> byte c \<le> 13) \<or> byte c = 32"

text \<open>The two- and three-byte white-space runes: U+0085, U+00A0, U+1680, U+2000 to U+200A,
  U+2028, U+2029, U+202F, U+205F and U+3000.\<close>

definition two_space :: "char \<Rightarrow> char \<Rightarrow> bool" where
  "two_space a b \<longleftrightarrow> byte a = 0xC2 \<and> (byte b = 0x85 \<or> byte b = 0xA0)"

definition three_space :: "char \<Rightarrow> char \<Rightarrow> char \<Rightarrow> bool" where
  "three_space a b c \<longleftrightarrow>
     (byte a = 0xE1 \<and> byte b = 0x9A \<and> byte c = 0x80) \<or>
     (byte a = 0xE2 \<and> byte b = 0x80 \<and>
        ((0x80 \<le> byte c \<and> byte c \<le> 0x8A) \<or> byte c = 0xA8 \<or> byte c = 0xA9 \<or> byte c = 0xAF)) \<or>
     (byte a = 0xE2 \<and> byte b = 0x81 \<and> byte c = 0x9F) \<or>
     (byte a = 0xE3 \<and> byte b = 0x80 \<and> byte c = 0x80)"

text \<open>Width of the white-space rune at the front of a string, and at the front of a reversed
  string; 0 if there is none.\<close>

fun space_width :: "string \<Rightarrow> nat" where
  "space_width [] = 0"
| "space_width [a] = (if ascii_space a then 1 else 0)"
| "space_width [a, b] = (if ascii_space a then 1 else if two_space a b then 2 else 0)"
| "space_width (a # b # c # _) =
     (if ascii_space a then 1 else if two_space a b then 2 else if three_space a b c then 3 else 0)"

fun space_width_rev :: "string \<Rightarrow> nat" where
  "space_width_rev [] = 0"
| "space_width_rev [a] = (if ascii_space a then 1 else 0)"
| "space_width_rev [b, a] = (if ascii_space b then 1 else if two_space a b then 2 else 0)"
| "space_width_rev (c # b # a # _) =
     (if ascii_space c then 1 else if two_space b c then 2 else if three_space a b c then 3 else 0)"

section \<open>Trimming\<close>

fun strip :: "(string \<Rightarrow> nat) \<Rightarrow> string \<Rightarrow> string" where
  "strip w [] = []"
| "strip w (c # cs) =
     (if w (c # cs) = 0 then c # cs else strip w (drop (w (c # cs) - 1) cs))"

definition trim_space :: "string \<Rightarrow> string" where
  "trim_space s = rev (strip space_width_rev (rev (strip space_width s)))"

lemma strip_suffix: "suffix (strip w s) s"
proof (induction w s rule: strip.induct)
  case (1 w)
  show ?case by simp
next
  case (2 w c cs)
  show ?case
  proof (cases "w (c # cs) = 0")
    case False
    then have "suffix (strip w (drop (w (c # cs) - 1) cs)) (drop (w (c # cs) - 1) cs)"
      by (rule "2.IH")
    also have "suffix (drop (w (c # cs) - 1) cs) (c # cs)"
      by (meson suffix_ConsI suffix_drop)
    finally show ?thesis using False by simp
  qed simp
qed

lemma strip_width: "w [] = 0 \<Longrightarrow> w (strip w s) = 0"
  by (induction w s rule: strip.induct) auto

lemma strip_id: "w s = 0 \<Longrightarrow> strip w s = s"
  by (cases s) auto

lemma space_width_prefix:
  assumes "prefix t s" and "space_width s = 0"
  shows "space_width t = 0"
proof -
  from assms(1) obtain u where s: "s = t @ u" by (auto simp: prefix_def)
  show ?thesis
    using assms(2) unfolding s
    by (cases t rule: space_width.cases; cases u rule: space_width.cases)
      (auto split: if_splits)
qed

lemma trim_space_width: "space_width (trim_space s) = 0"
proof -
  have "prefix (trim_space s) (strip space_width s)"
    unfolding trim_space_def using strip_suffix [of space_width_rev "rev (strip space_width s)"]
    by (metis rev_rev_ident suffix_to_prefix)
  moreover have "space_width (strip space_width s) = 0"
    by (rule strip_width) simp
  ultimately show ?thesis by (rule space_width_prefix)
qed

lemma trim_space_width_rev: "space_width_rev (rev (trim_space s)) = 0"
  by (simp add: trim_space_def strip_width)

lemma trim_space_fixed:
  "space_width s = 0 \<Longrightarrow> space_width_rev (rev s) = 0 \<Longrightarrow> trim_space s = s"
  by (simp add: trim_space_def strip_id)

lemma trim_space_idem [simp, go_simps]: "trim_space (trim_space s) = trim_space s"
  by (rule trim_space_fixed) (rule trim_space_width trim_space_width_rev)+

lemma trim_space_Nil [simp, go_simps]: "trim_space [] = []"
  by (simp add: trim_space_def)

lemma trim_space_infix: "\<exists>a b. s = a @ trim_space s @ b"
proof -
  obtain a where a: "s = a @ strip space_width s"
    using strip_suffix [of space_width s] by (auto simp: suffix_def)
  obtain b where "rev (strip space_width s) = b @ strip space_width_rev (rev (strip space_width s))"
    using strip_suffix [of space_width_rev "rev (strip space_width s)"] by (auto simp: suffix_def)
  then have "strip space_width s = trim_space s @ rev b"
    unfolding trim_space_def by (metis rev_append rev_rev_ident)
  with a show ?thesis by metis
qed

lemma trim_space_length: "length (trim_space s) \<le> length s"
  using trim_space_infix [of s] by (metis le_add1 le_add2 le_trans length_append)

text \<open>A text whose first and last bytes are printable ASCII is trimmed already.\<close>

lemma space_width_word: "s \<noteq> [] \<Longrightarrow> 33 \<le> byte (hd s) \<Longrightarrow> byte (hd s) < 127 \<Longrightarrow> space_width s = 0"
  by (cases s rule: space_width.cases)
    (auto simp: ascii_space_def two_space_def three_space_def)

lemma space_width_rev_word:
  "s \<noteq> [] \<Longrightarrow> 33 \<le> byte (hd s) \<Longrightarrow> byte (hd s) < 127 \<Longrightarrow> space_width_rev s = 0"
  by (cases s rule: space_width_rev.cases)
    (auto simp: ascii_space_def two_space_def three_space_def)

lemma trim_space_word:
  assumes "s \<noteq> []" and "33 \<le> byte (hd s)" and "byte (hd s) < 127"
    and "33 \<le> byte (last s)" and "byte (last s) < 127"
  shows "trim_space s = s"
  using assms by (intro trim_space_fixed space_width_word space_width_rev_word) (auto simp: hd_rev)

definition trim_chars :: "string \<Rightarrow> string \<Rightarrow> string" where
  "trim_chars cutset s =
     rev (dropWhile (\<lambda>c. c \<in> set cutset) (rev (dropWhile (\<lambda>c. c \<in> set cutset) s)))"

end
