(* ===== verification/Go_Strings.thy ===== *)
theory Go_Strings
  imports Go_Prelude
begin

text \<open>
  The searching, splitting and case-mapping functions of the Go package \<^verbatim>\<open>strings\<close> that the
  program uses, with the facts the components rely on.
\<close>

section \<open>Case mapping\<close>

definition lower_char :: "char \<Rightarrow> char" where
  "lower_char c = (if 65 \<le> byte c \<and> byte c \<le> 90 then char_of (byte c + 32) else c)"

definition upper_char :: "char \<Rightarrow> char" where
  "upper_char c = (if 97 \<le> byte c \<and> byte c \<le> 122 then char_of (byte c - 32) else c)"

text \<open>\<^verbatim>\<open>strings.ToLower\<close>. Besides the ASCII letters, U+212A (Kelvin sign) has the lower case
  \<^verbatim>\<open>k\<close> and U+0130 the lower case \<^verbatim>\<open>i\<close>; these are the only runes that become ASCII.\<close>

fun to_lower :: "string \<Rightarrow> string" where
  "to_lower [] = []"
| "to_lower (c # cs) =
     (if map byte (take 3 (c # cs)) = [0xE2, 0x84, 0xAA] then CHR ''k'' # to_lower (drop 2 cs)
      else if map byte (take 2 (c # cs)) = [0xC4, 0xB0] then CHR ''i'' # to_lower (drop 1 cs)
      else lower_char c # to_lower cs)"

text \<open>\<^verbatim>\<open>strings.ToUpper\<close> on ASCII, the only use the program makes of it.\<close>

definition to_upper :: "string \<Rightarrow> string" where
  "to_upper s = map upper_char s"

text \<open>Simple case folding as \<^verbatim>\<open>strings.EqualFold\<close> and the field matching of \<^verbatim>\<open>encoding/json\<close>
  use it when one side is ASCII: U+212A folds to \<^verbatim>\<open>k\<close> and U+017F to \<^verbatim>\<open>s\<close>.\<close>

fun fold_case :: "string \<Rightarrow> string" where
  "fold_case [] = []"
| "fold_case (c # cs) =
     (if map byte (take 3 (c # cs)) = [0xE2, 0x84, 0xAA] then CHR ''k'' # fold_case (drop 2 cs)
      else if map byte (take 2 (c # cs)) = [0xC5, 0xBF] then CHR ''s'' # fold_case (drop 1 cs)
      else lower_char c # fold_case cs)"

declare to_lower.simps [simp del] fold_case.simps [simp del]

definition equal_fold :: "string \<Rightarrow> string \<Rightarrow> bool" where
  "equal_fold s t \<longleftrightarrow> fold_case s = fold_case t"

lemma equal_fold_refl [simp]: "equal_fold s s"
  by (simp add: equal_fold_def)

lemma equal_fold_sym: "equal_fold s t \<longleftrightarrow> equal_fold t s"
  by (auto simp: equal_fold_def)

section \<open>Prefixes, suffixes and searching\<close>

definition has_prefix :: "string \<Rightarrow> string \<Rightarrow> bool" where
  "has_prefix s p \<longleftrightarrow> take (length p) s = p"

definition has_suffix :: "string \<Rightarrow> string \<Rightarrow> bool" where
  "has_suffix s p \<longleftrightarrow> has_prefix (rev s) (rev p)"

definition trim_prefix :: "string \<Rightarrow> string \<Rightarrow> string" where
  "trim_prefix s p = (if has_prefix s p then drop (length p) s else s)"

definition trim_suffix :: "string \<Rightarrow> string \<Rightarrow> string" where
  "trim_suffix s p = (if has_suffix s p then take (length s - length p) s else s)"

text \<open>\<^verbatim>\<open>strings.Index\<close>: the position of the first occurrence; \<open>None\<close> stands for -1.\<close>

fun index_of :: "string \<Rightarrow> string \<Rightarrow> nat option" where
  "index_of [] p = (if p = [] then Some 0 else None)"
| "index_of (c # cs) p =
     (if has_prefix (c # cs) p then Some 0 else map_option Suc (index_of cs p))"

definition contains :: "string \<Rightarrow> string \<Rightarrow> bool" where
  "contains s p \<longleftrightarrow> index_of s p \<noteq> None"

lemma has_prefix_iff: "has_prefix s p \<longleftrightarrow> (\<exists>t. s = p @ t)"
  by (metis append_eq_conv_conj append_take_drop_id has_prefix_def)

lemma has_prefix_append [simp, go_simps]: "has_prefix (p @ t) p"
  by (auto simp: has_prefix_iff)

lemma has_prefix_Nil [simp, go_simps]: "has_prefix s []"
  by (simp add: has_prefix_def)

lemma has_suffix_iff: "has_suffix s p \<longleftrightarrow> (\<exists>t. s = t @ p)"
  unfolding has_suffix_def has_prefix_iff
  by (metis rev_append rev_rev_ident)

lemma trim_prefix_append [simp, go_simps]: "trim_prefix (p @ t) p = t"
  by (simp add: trim_prefix_def)

lemma has_prefix_length: "has_prefix s p \<Longrightarrow> length p \<le> length s"
  by (metis has_prefix_def length_take min.cobounded1)

lemma index_of_Some:
  "index_of s p = Some i \<Longrightarrow> i + length p \<le> length s \<and> has_prefix (drop i s) p"
proof (induction s arbitrary: i)
  case Nil
  then show ?case by (auto split: if_splits)
next
  case (Cons c cs)
  show ?case
  proof (cases "has_prefix (c # cs) p")
    case True
    with Cons.prems has_prefix_length [OF True] show ?thesis by auto
  next
    case False
    with Cons show ?thesis by auto
  qed
qed

lemma contains_iff: "contains s p \<longleftrightarrow> (\<exists>a b. s = a @ p @ b)"
proof
  assume "contains s p"
  then obtain i where "index_of s p = Some i" by (auto simp: contains_def)
  then have "has_prefix (drop i s) p" by (blast dest: index_of_Some)
  then obtain b where "drop i s = p @ b" by (auto simp: has_prefix_iff)
  then have "s = take i s @ p @ b" by (metis append_take_drop_id)
  then show "\<exists>a b. s = a @ p @ b" by blast
next
  have "contains (a @ p @ b) p" for a b
  proof (induction a)
    case Nil
    have "index_of (p @ b) p = Some 0"
      using has_prefix_append [of p b] by (cases "p @ b") auto
    then show ?case by (simp add: contains_def)
  next
    case (Cons x a)
    then show ?case by (auto simp: contains_def)
  qed
  then show "\<exists>a b. s = a @ p @ b \<Longrightarrow> contains s p" by blast
qed

lemma contains_append_left: "contains t p \<Longrightarrow> contains (s @ t) p"
  by (metis append.assoc contains_iff)

lemma contains_append_right: "contains s p \<Longrightarrow> contains (s @ t) p"
  by (metis append.assoc contains_iff)

lemma contains_refl [simp]: "contains p p"
  by (metis append_Nil append_Nil2 contains_iff)

lemma contains_trans: "contains s t \<Longrightarrow> contains t p \<Longrightarrow> contains s p"
  by (metis append.assoc contains_iff)

section \<open>Replacing, splitting and joining\<close>

text \<open>\<^verbatim>\<open>strings.ReplaceAll\<close> for a non-empty pattern.\<close>

fun replace_all :: "string \<Rightarrow> string \<Rightarrow> string \<Rightarrow> string" where
  "replace_all [] p r = []"
| "replace_all (c # cs) p r =
     (if p \<noteq> [] \<and> has_prefix (c # cs) p then r @ replace_all (drop (length p - 1) cs) p r
      else c # replace_all cs p r)"

definition newline :: string where
  "newline = [CHR 10]"

text \<open>\<^verbatim>\<open>strings.Join\<close>.\<close>

fun join :: "string list \<Rightarrow> string \<Rightarrow> string" where
  "join [] sep = []"
| "join [s] sep = s"
| "join (s # t # ts) sep = s @ sep @ join (t # ts) sep"

text \<open>\<^verbatim>\<open>strings.Fields\<close>: the maximal pieces free of white-space runes; the accumulator holds the
  current piece, reversed.\<close>

fun fields_acc :: "string \<Rightarrow> string \<Rightarrow> string list" where
  "fields_acc acc [] = (if acc = [] then [] else [rev acc])"
| "fields_acc acc (c # cs) =
     (let w = space_width (c # cs) in
      if w = 0 then fields_acc (c # acc) cs
      else if acc = [] then fields_acc [] (drop (w - 1) cs)
      else rev acc # fields_acc [] (drop (w - 1) cs))"

definition fields :: "string \<Rightarrow> string list" where
  "fields s = fields_acc [] s"

lemma fields_acc_nonempty: "f \<in> set (fields_acc acc s) \<Longrightarrow> f \<noteq> []"
  by (induction acc s rule: fields_acc.induct) (auto simp: Let_def split: if_splits)

lemma fields_nonempty: "f \<in> set (fields s) \<Longrightarrow> f \<noteq> []"
  unfolding fields_def by (rule fields_acc_nonempty)

text \<open>Decimal digits of a number, for the integer verbs of \<^verbatim>\<open>fmt\<close>.\<close>

function digits_acc :: "int \<Rightarrow> string \<Rightarrow> string" where
  "digits_acc n acc =
     (if n < 10 then char_of (48 + nat n) # acc
      else digits_acc (n div 10) (char_of (48 + nat (n mod 10)) # acc))"
  by pat_completeness auto
termination
  by (relation "measure (\<lambda>(n, acc). nat n)") auto

declare digits_acc.simps [simp del]

definition int_text :: "int \<Rightarrow> string" where
  "int_text i = (if i < 0 then CHR ''-'' # digits_acc (- i) [] else digits_acc i [])"

definition nat_text :: "nat \<Rightarrow> string" where
  "nat_text n = int_text (int n)"

end
