(* ===== verification/Go_Utf8.thy ===== *)
theory Go_Utf8
  imports Go_Strings
begin

text \<open>
  UTF-8 as Go decodes it, byte for byte: \<open>rune_width\<close> is the table of \<^verbatim>\<open>utf8.DecodeRune\<close>,
  \<open>runes\<close> the conversion \<^verbatim>\<open>[]rune(s)\<close> (each rune as the bytes that encode it, an invalid byte
  as U+FFFD), and \<open>go_quote\<close> the verb \<^verbatim>\<open>%q\<close> of \<^verbatim>\<open>fmt\<close> together with the string-literal reader
  of \<^verbatim>\<open>encoding/json\<close>.
\<close>

section \<open>Runes\<close>

definition cont :: "char \<Rightarrow> bool" where
  "cont c \<longleftrightarrow> 0x80 \<le> byte c \<and> byte c \<le> 0xBF"

text \<open>Number of bytes of the well-formed rune at the front, 0 if the first byte starts none.\<close>

definition width2 :: "char \<Rightarrow> char \<Rightarrow> bool" where
  "width2 a b \<longleftrightarrow> 0xC2 \<le> byte a \<and> byte a \<le> 0xDF \<and> cont b"

definition width3 :: "char \<Rightarrow> char \<Rightarrow> char \<Rightarrow> bool" where
  "width3 a b c \<longleftrightarrow> 0xE0 \<le> byte a \<and> byte a \<le> 0xEF \<and> cont b \<and> cont c \<and>
     (byte a = 0xE0 \<longrightarrow> 0xA0 \<le> byte b) \<and> (byte a = 0xED \<longrightarrow> byte b \<le> 0x9F)"

definition width4 :: "char \<Rightarrow> char \<Rightarrow> char \<Rightarrow> char \<Rightarrow> bool" where
  "width4 a b c d \<longleftrightarrow> 0xF0 \<le> byte a \<and> byte a \<le> 0xF4 \<and> cont b \<and> cont c \<and> cont d \<and>
     (byte a = 0xF0 \<longrightarrow> 0x90 \<le> byte b) \<and> (byte a = 0xF4 \<longrightarrow> byte b \<le> 0x8F)"

fun rune_width :: "string \<Rightarrow> nat" where
  "rune_width [] = 0"
| "rune_width [a] = (if byte a < 0x80 then 1 else 0)"
| "rune_width [a, b] = (if byte a < 0x80 then 1 else if width2 a b then 2 else 0)"
| "rune_width [a, b, c] =
     (if byte a < 0x80 then 1 else if width2 a b then 2 else if width3 a b c then 3 else 0)"
| "rune_width (a # b # c # d # _) =
     (if byte a < 0x80 then 1 else if width2 a b then 2 else if width3 a b c then 3
      else if width4 a b c d then 4 else 0)"

abbreviation rune_error :: string where
  "rune_error \<equiv> [CHR 0xEF, CHR 0xBF, CHR 0xBD]"

fun runes :: "string \<Rightarrow> string list" where
  "runes [] = []"
| "runes (c # cs) =
     (let w = rune_width (c # cs) in
      if w = 0 then rune_error # runes cs
      else (c # take (w - 1) cs) # runes (drop (w - 1) cs))"

definition rune_count :: "string \<Rightarrow> nat" where
  "rune_count s = length (runes s)"

fun valid_utf8 :: "string \<Rightarrow> bool" where
  "valid_utf8 [] \<longleftrightarrow> True"
| "valid_utf8 (c # cs) \<longleftrightarrow>
     (let w = rune_width (c # cs) in w \<noteq> 0 \<and> valid_utf8 (drop (w - 1) cs))"

text \<open>A rune is a byte sequence that decodes to itself in front of anything.\<close>

definition is_rune :: "string \<Rightarrow> bool" where
  "is_rune r \<longleftrightarrow> r \<noteq> [] \<and> rune_width r = length r"

lemma rune_width_le: "rune_width s \<le> length s"
  by (induction s rule: rune_width.induct) auto

lemma rune_width_append: "is_rune r \<Longrightarrow> rune_width (r @ s) = length r"
  by (cases r rule: rune_width.cases; cases s rule: rune_width.cases)
    (auto simp: is_rune_def split: if_splits)

lemma rune_width_take: "rune_width (c # cs) = w \<Longrightarrow> w \<noteq> 0 \<Longrightarrow> is_rune (c # take (w - 1) cs)"
  by (cases "c # cs" rule: rune_width.cases) (auto simp: is_rune_def split: if_splits)

lemma is_rune_error: "is_rune rune_error"
  by (simp add: is_rune_def width2_def width3_def cont_def)

lemma is_rune_length: "is_rune r \<Longrightarrow> 1 \<le> length r \<and> length r \<le> 4"
  by (cases r rule: rune_width.cases) (auto simp: is_rune_def split: if_splits)

lemma runes_Cons: "is_rune r \<Longrightarrow> runes (r @ s) = r # runes s"
proof -
  assume r: "is_rune r"
  then obtain c cs where c: "r = c # cs" by (cases r) (auto simp: is_rune_def)
  with rune_width_append [OF r, of s] show ?thesis by (simp add: Let_def)
qed

lemma runes_are_runes: "r \<in> set (runes s) \<Longrightarrow> is_rune r"
proof (induction s rule: runes.induct)
  case (2 c cs)
  then show ?case
    by (auto simp: Let_def is_rune_error rune_width_take [OF refl, simplified] split: if_splits)
qed simp

lemma runes_concat: "\<forall>r \<in> set rs. is_rune r \<Longrightarrow> runes (concat rs @ s) = rs @ runes s"
  by (induction rs) (auto simp: runes_Cons)

lemma runes_of_concat: "\<forall>r \<in> set rs. is_rune r \<Longrightarrow> runes (concat rs) = rs"
  using runes_concat [of rs "[]"] by simp

lemma rune_count_le: "rune_count s \<le> length s"
  unfolding rune_count_def by (induction s rule: runes.induct) (auto simp: Let_def)

lemma concat_runes_valid: "valid_utf8 s \<Longrightarrow> concat (runes s) = s"
proof (induction s rule: runes.induct)
  case (2 c cs)
  then show ?case by (auto simp: Let_def)
qed simp

lemma valid_utf8_rune: "is_rune r \<Longrightarrow> valid_utf8 (r @ s) \<longleftrightarrow> valid_utf8 s"
proof -
  assume r: "is_rune r"
  then obtain c cs where c: "r = c # cs" by (cases r) (auto simp: is_rune_def)
  with rune_width_append [OF r, of s] show ?thesis by (simp add: Let_def)
qed

lemma valid_utf8_concat: "\<forall>r \<in> set rs. is_rune r \<Longrightarrow> valid_utf8 (concat rs)"
  by (induction rs) (auto simp: valid_utf8_rune)

section \<open>The verb \<open>%q\<close> and JSON string literals\<close>

text \<open>
  \<^verbatim>\<open>strconv.Quote\<close> on one rune (or one invalid byte). ASCII control bytes without a letter escape,
  DEL and invalid bytes become \<^verbatim>\<open>\x..\<close>. Runes from U+0080 up are kept: where Go writes one as
  \<^verbatim>\<open>\u....\<close> instead, the JSON reader returns the same rune.
\<close>

definition hex_digit :: "nat \<Rightarrow> char" where
  "hex_digit n = (if n < 10 then char_of (48 + n) else char_of (87 + n))"

definition quote_ascii :: "char \<Rightarrow> string" where
  "quote_ascii c =
     (if byte c = 34 then [CHR 92, CHR 34]
      else if byte c = 92 then [CHR 92, CHR 92]
      else if byte c = 7 then [CHR 92, CHR ''a'']
      else if byte c = 8 then [CHR 92, CHR ''b'']
      else if byte c = 9 then [CHR 92, CHR ''t'']
      else if byte c = 10 then [CHR 92, CHR ''n'']
      else if byte c = 11 then [CHR 92, CHR ''v'']
      else if byte c = 12 then [CHR 92, CHR ''f'']
      else if byte c = 13 then [CHR 92, CHR ''r'']
      else if byte c < 32 \<or> byte c = 127
        then [CHR 92, CHR ''x'', hex_digit (byte c div 16), hex_digit (byte c mod 16)]
      else [c])"

fun quote_body :: "string \<Rightarrow> string" where
  "quote_body [] = []"
| "quote_body (c # cs) =
     (let w = rune_width (c # cs) in
      if w = 0 then [CHR 92, CHR ''x'', hex_digit (byte c div 16), hex_digit (byte c mod 16)]
                    @ quote_body cs
      else if w = 1 then quote_ascii c @ quote_body cs
      else (c # take (w - 1) cs) @ quote_body (drop (w - 1) cs))"

text \<open>
  The reader of JSON string bodies, for the escapes \<^verbatim>\<open>%q\<close> can produce: \<open>None\<close> is the syntax
  error \<^verbatim>\<open>encoding/json\<close> reports (\<^verbatim>\<open>\a\<close>, \<^verbatim>\<open>\v\<close> and \<^verbatim>\<open>\x..\<close> are no JSON escapes, and a raw control
  byte is not allowed).
\<close>

fun json_unescape :: "string \<Rightarrow> string option" where
  "json_unescape [] = Some []"
| "json_unescape (c # cs) =
     (if byte c = 92 then
        (case cs of [] \<Rightarrow> None
         | e # es \<Rightarrow>
            (let r = json_unescape es in
             if byte e = 34 \<or> byte e = 92 \<or> byte e = 47 then map_option ((#) e) r
             else if e = CHR ''b'' then map_option ((#) (CHR 8)) r
             else if e = CHR ''t'' then map_option ((#) (CHR 9)) r
             else if e = CHR ''n'' then map_option ((#) (CHR 10)) r
             else if e = CHR ''f'' then map_option ((#) (CHR 12)) r
             else if e = CHR ''r'' then map_option ((#) (CHR 13)) r
             else None))
      else if byte c < 32 \<or> byte c = 34 then None
      else map_option ((#) c) (json_unescape cs))"

text \<open>What a Go string becomes when it is printed with \<^verbatim>\<open>%q\<close> and read back as JSON.\<close>

definition reread_quoted :: "string \<Rightarrow> string option" where
  "reread_quoted s = json_unescape (quote_body s)"

text \<open>The bytes that \<^verbatim>\<open>%q\<close> writes as an escape JSON does not have.\<close>

definition unquotable :: "char \<Rightarrow> bool" where
  "unquotable c \<longleftrightarrow> byte c < 8 \<or> byte c = 11 \<or> (14 \<le> byte c \<and> byte c < 32) \<or> byte c = 127"

text \<open>A string survives \<^verbatim>\<open>%q\<close> and the JSON reader exactly when it is valid UTF-8 without such bytes.\<close>

definition quotable :: "string \<Rightarrow> bool" where
  "quotable s \<longleftrightarrow> valid_utf8 s \<and> list_all (\<lambda>c. \<not> unquotable c) s"

lemma byte_inject: "byte c = byte d \<longleftrightarrow> c = d"
  by (metis char_of_char)

lemma quote_ascii_reread:
  "json_unescape (quote_ascii c @ rest) =
     (if unquotable c then None else map_option ((#) c) (json_unescape rest))"
proof -
  have "byte c = 8 \<Longrightarrow> c = CHR 8" "byte c = 9 \<Longrightarrow> c = CHR 9" "byte c = 10 \<Longrightarrow> c = CHR 10"
    "byte c = 12 \<Longrightarrow> c = CHR 12" "byte c = 13 \<Longrightarrow> c = CHR 13"
    "byte c = 34 \<Longrightarrow> c = CHR 34" "byte c = 92 \<Longrightarrow> c = CHR 92"
    using byte_inject [of c "CHR 8"] byte_inject [of c "CHR 9"] byte_inject [of c "CHR 10"]
      byte_inject [of c "CHR 12"] byte_inject [of c "CHR 13"] byte_inject [of c "CHR 34"]
      byte_inject [of c "CHR 92"] by simp_all
  then show ?thesis by (auto simp: quote_ascii_def unquotable_def)
qed

lemma json_unescape_high:
  "list_all (\<lambda>c. 0x80 \<le> byte c) r \<Longrightarrow>
     json_unescape (r @ rest) = map_option ((@) r) (json_unescape rest)"
  by (cases "json_unescape rest"; induction r) auto

lemma rune_high: "is_rune r \<Longrightarrow> length r \<noteq> 1 \<Longrightarrow> list_all (\<lambda>c. 0x80 \<le> byte c) r"
  by (cases r rule: rune_width.cases)
    (auto simp: is_rune_def width2_def width3_def width4_def cont_def split: if_splits)

lemma reread_quoted_eq: "reread_quoted s = (if quotable s then Some s else None)"
  unfolding reread_quoted_def
proof (induction s rule: runes.induct)
  case 1
  show ?case by (simp add: quotable_def)
next
  case (2 c cs)
  let ?w = "rune_width (c # cs)"
  show ?case
  proof (cases "?w \<le> 1")
    case True
    then consider "?w = 0" | "?w = 1" by linarith
    then show ?thesis
    proof cases
      case 1
      then show ?thesis by (simp add: quotable_def Let_def)
    next
      case 2
      with "2.IH"(2) show ?thesis
        by (auto simp: quote_ascii_reread quotable_def)
    qed
  next
    case False
    let ?r = "c # take (?w - 1) cs" and ?cs = "drop (?w - 1) cs"
    have r: "is_rune ?r" using rune_width_take [OF refl] False by simp
    moreover have "length ?r \<noteq> 1" using rune_width_le [of "c # cs"] False by simp
    ultimately have high: "list_all (\<lambda>c. 0x80 \<le> byte c) ?r" by (rule rune_high)
    have split: "c # cs = ?r @ ?cs" by simp
    have "list_all (\<lambda>c. \<not> unquotable c) ?r"
      using high by (auto simp: list_all_iff unquotable_def)
    then have "quotable (c # cs) \<longleftrightarrow> quotable ?cs"
      unfolding quotable_def
      by (subst (1 2) split) (simp only: valid_utf8_rune [OF r] list_all_append simp_thms)
    moreover have "json_unescape (quote_body (c # cs)) =
        map_option ((@) ?r) (json_unescape (quote_body ?cs))"
      using False json_unescape_high [OF high] by (simp add: Let_def)
    ultimately show ?thesis using "2.IH"(2) False by auto
  qed
qed

section \<open>Cutting at rune boundaries\<close>

text \<open>Where the next byte is no continuation byte, the runes before it do not depend on it.\<close>

definition rune_start :: "string \<Rightarrow> bool" where
  "rune_start u \<longleftrightarrow> u = [] \<or> \<not> cont (hd u)"

lemma rune_width_cut: "s \<noteq> [] \<Longrightarrow> rune_start u \<Longrightarrow> rune_width (s @ u) = rune_width s"
  by (cases s rule: rune_width.cases; cases u rule: rune_width.cases)
    (auto simp: rune_start_def width2_def width3_def width4_def)

lemma runes_append: "rune_start u \<Longrightarrow> runes (s @ u) = runes s @ runes u"
proof (induction s rule: runes.induct)
  case (2 c cs)
  have w: "rune_width (c # cs @ u) = rune_width (c # cs)"
    using rune_width_cut [of "c # cs" u] 2(3) by simp
  have "rune_width (c # cs) \<le> length (c # cs)" by (rule rune_width_le)
  then have "rune_width (c # cs) - 1 - length cs = 0" by simp
  with 2 w show ?case by (simp add: Let_def)
qed simp

lemma valid_utf8_append: "rune_start u \<Longrightarrow> valid_utf8 (s @ u) \<longleftrightarrow> valid_utf8 s \<and> valid_utf8 u"
proof (induction s rule: valid_utf8.induct)
  case (2 c cs)
  have w: "rune_width (c # cs @ u) = rune_width (c # cs)"
    using rune_width_cut [of "c # cs" u] 2(2) by simp
  have "rune_width (c # cs) \<le> length (c # cs)" by (rule rune_width_le)
  then have "rune_width (c # cs) - 1 - length cs = 0" by simp
  with 2 w show ?case by (simp add: Let_def)
qed simp

lemma rune_start_ascii: "byte c < 0x80 \<Longrightarrow> rune_start (c # u)"
  by (simp add: rune_start_def cont_def)

lemma rune_count_append: "rune_start u \<Longrightarrow> rune_count (s @ u) = rune_count s + rune_count u"
  by (simp add: rune_count_def runes_append)

lemma rune_count_ascii: "byte c < 0x80 \<Longrightarrow> rune_count (c # u) = Suc (rune_count u)"
  by (cases "c # u" rule: rune_width.cases) (auto simp: rune_count_def)

lemma valid_utf8_ascii: "byte c < 0x80 \<Longrightarrow> valid_utf8 (c # u) = valid_utf8 u"
  by (cases "c # u" rule: rune_width.cases) auto

lemma valid_utf8_all_ascii: "list_all (\<lambda>c. byte c < 0x80) s \<Longrightarrow> valid_utf8 s"
  by (induction s) (auto simp: valid_utf8_ascii simp del: valid_utf8.simps(2))

subsection \<open>Trimming keeps valid texts valid\<close>

lemma space_bytes:
  "ascii_space a \<Longrightarrow> byte a < 128"
  "two_space a b \<Longrightarrow> width2 a b \<and> \<not> byte a < 128"
  "three_space a b c \<Longrightarrow> width3 a b c \<and> \<not> width2 a b \<and> \<not> byte a < 128"
  by (auto simp: ascii_space_def two_space_def three_space_def width2_def width3_def cont_def)

lemma space_width_rune: "space_width s \<noteq> 0 \<Longrightarrow> rune_width s = space_width s"
  using space_bytes by (cases s rule: rune_width.cases) (simp_all split: if_splits)

lemma valid_utf8_strip: "valid_utf8 s \<Longrightarrow> valid_utf8 (strip space_width s)"
proof (induction "length s" arbitrary: s rule: less_induct)
  case less
  show ?case
  proof (cases s)
    case (Cons c cs)
    show ?thesis
    proof (cases "space_width s = 0")
      case False
      then have "valid_utf8 (drop (space_width s - 1) cs)"
        using less.prems space_width_rune [OF False] Cons by (simp add: Let_def)
      then show ?thesis using less.hyps [of "drop (space_width s - 1) cs"] False Cons by simp
    qed (use less.prems Cons in simp)
  qed simp
qed

lemma space_width_rev_cut:
  assumes "space_width_rev r \<noteq> 0"
  shows "\<exists>u. rev r = rev (drop (space_width_rev r) r) @ u \<and> rune_start u"
proof (intro exI conjI)
  show "rev r = rev (drop (space_width_rev r) r) @ rev (take (space_width_rev r) r)"
    by (metis append_take_drop_id rev_append)
  show "rune_start (rev (take (space_width_rev r) r))"
    using assms by (cases r rule: space_width_rev.cases)
      (auto simp: rune_start_def cont_def ascii_space_def two_space_def three_space_def numeral_2_eq_2
        numeral_3_eq_3 split: if_splits)
qed

lemma valid_utf8_strip_rev: "valid_utf8 (rev r) \<Longrightarrow> valid_utf8 (rev (strip space_width_rev r))"
proof (induction "length r" arbitrary: r rule: less_induct)
  case less
  show ?case
  proof (cases r)
    case (Cons c cs)
    show ?thesis
    proof (cases "space_width_rev r = 0")
      case False
      then have d: "drop (space_width_rev r) r = drop (space_width_rev r - 1) cs"
        using Cons by (cases "space_width_rev r") auto
      obtain u where "rev r = rev (drop (space_width_rev r - 1) cs) @ u" "rune_start u"
        using space_width_rev_cut [OF False] d by auto
      then have "valid_utf8 (rev (drop (space_width_rev r - 1) cs))"
        using less.prems by (simp add: valid_utf8_append)
      then show ?thesis using less.hyps [of "drop (space_width_rev r - 1) cs"] False Cons by simp
    qed (use less.prems Cons in simp)
  qed simp
qed

lemma valid_utf8_trim [simp]: "valid_utf8 s \<Longrightarrow> valid_utf8 (trim_space s)"
  unfolding trim_space_def by (intro valid_utf8_strip_rev) (simp add: valid_utf8_strip)

end
