(* ===== verification/Go_Json.thy ===== *)
theory Go_Json
  imports Go_Utf8
begin

text \<open>
  The package \<^verbatim>\<open>encoding/json\<close> as the program uses it. A \<^verbatim>\<open>json.RawMessage\<close> is modelled by
  what it denotes: no bytes (\<open>RawEmpty\<close>), bytes that are no JSON document (\<open>RawBad\<close>, with the
  trimmed text), or a document (\<open>RawJson\<close>). White space and the spelling of string escapes are
  not kept; the spelling of numbers is, since a number that is decoded into \<^verbatim>\<open>any\<close> goes
  through \<^verbatim>\<open>float64\<close> and is printed again in its shortest form.

  A Go map with string keys is an association list with strictly increasing keys, the order in
  which \<^verbatim>\<open>json.Marshal\<close> prints it; a loop over a map, which Go runs in an unspecified order, is run
  in key order.
\<close>

section \<open>Documents\<close>

datatype json =
    JNull
  | JBool bool
  | JNum string
  | JStr string
  | JArr "json list"
  | JObj "(string \<times> json) list"

datatype raw = RawEmpty | RawBad string | RawJson json

text \<open>\<^verbatim>\<open>len(bytes.TrimSpace(raw)) == 0 || bytes.Equal(bytes.TrimSpace(raw), []byte("null"))\<close>.\<close>

definition raw_absent :: "raw \<Rightarrow> bool" where
  "raw_absent r \<longleftrightarrow> r = RawEmpty \<or> r = RawJson JNull"

section \<open>Maps with string keys\<close>

type_synonym 'a gomap = "(string \<times> 'a) list"

fun gomap_set :: "string \<Rightarrow> 'a \<Rightarrow> 'a gomap \<Rightarrow> 'a gomap" where
  "gomap_set k v [] = [(k, v)]"
| "gomap_set k v ((k', v') # m) =
     (if k < k' then (k, v) # (k', v') # m
      else if k = k' then (k, v) # m
      else (k', v') # gomap_set k v m)"

definition gomap_del :: "string \<Rightarrow> 'a gomap \<Rightarrow> 'a gomap" where
  "gomap_del k m = filter (\<lambda>(k', v). k' \<noteq> k) m"

definition gomap_of :: "(string \<times> 'a) list \<Rightarrow> 'a gomap" where
  "gomap_of kvs = fold (\<lambda>(k, v). gomap_set k v) kvs []"

definition gomap_wf :: "'a gomap \<Rightarrow> bool" where
  "gomap_wf m \<longleftrightarrow> sorted_wrt (<) (map fst m)"

text \<open>The laws of a Go map, as its users rely on them.\<close>

locale string_map =
  fixes empty :: 'm
    and get :: "'m \<Rightarrow> string \<Rightarrow> 'a option"
    and set_entry :: "string \<Rightarrow> 'a \<Rightarrow> 'm \<Rightarrow> 'm"
    and del_entry :: "string \<Rightarrow> 'm \<Rightarrow> 'm"
    and wf :: "'m \<Rightarrow> bool"
  assumes get_empty: "get empty k = None"
    and get_set: "get (set_entry k v m) k' = (if k' = k then Some v else get m k')"
    and get_del: "get (del_entry k m) k' = (if k' = k then None else get m k')"
    and wf_empty: "wf empty"
    and wf_set: "wf m \<Longrightarrow> wf (set_entry k v m)"
    and wf_del: "wf m \<Longrightarrow> wf (del_entry k m)"
    and ext: "wf m \<Longrightarrow> wf m' \<Longrightarrow> (\<And>k. get m k = get m' k) \<Longrightarrow> m = m'"
begin

lemma set_same: "wf m \<Longrightarrow> get m k = Some v \<Longrightarrow> set_entry k v m = m"
  by (rule ext) (auto simp: get_set wf_set)

lemma set_set: "wf m \<Longrightarrow> set_entry k v (set_entry k w m) = set_entry k v m"
  by (rule ext) (auto simp: get_set wf_set)

lemma set_commute:
  "wf m \<Longrightarrow> k \<noteq> k' \<Longrightarrow> set_entry k v (set_entry k' w m) = set_entry k' w (set_entry k v m)"
  by (rule ext) (auto simp: get_set wf_set)

lemma del_absent: "wf m \<Longrightarrow> get m k = None \<Longrightarrow> del_entry k m = m"
  by (rule ext) (auto simp: get_del wf_del)

end

lemma keys_gomap_set: "fst ` set (gomap_set k v m) = insert k (fst ` set m)"
proof (induction m)
  case (Cons a m)
  obtain k' v' where "a = (k', v')" by fastforce
  with Cons show ?case by (simp add: insert_commute)
qed simp

lemma gomap_wf_Cons: "gomap_wf ((k, v) # m) \<longleftrightarrow> (\<forall>k' \<in> fst ` set m. k < k') \<and> gomap_wf m"
  by (auto simp: gomap_wf_def)

lemma map_of_gomap_set: "map_of (gomap_set k v m) k' = (if k' = k then Some v else map_of m k')"
  by (induction m) auto

lemma gomap_wf_set: "gomap_wf m \<Longrightarrow> gomap_wf (gomap_set k v m)"
proof (induction m)
  case Nil
  show ?case by (simp add: gomap_wf_def)
next
  case (Cons a m)
  obtain k' v' where a: "a = (k', v')" by fastforce
  from Cons show ?case
    unfolding a by (auto simp: gomap_wf_Cons keys_gomap_set ball_Un simp del: image_iff)
qed

lemma map_of_gomap_del: "map_of (gomap_del k m) k' = (if k' = k then None else map_of m k')"
  by (induction m) (auto simp: gomap_del_def)

lemma gomap_wf_del: "gomap_wf m \<Longrightarrow> gomap_wf (gomap_del k m)"
  by (induction m) (auto simp: gomap_del_def gomap_wf_Cons)

lemma gomap_wf_distinct: "gomap_wf m \<Longrightarrow> distinct (map fst m)"
  by (auto simp: gomap_wf_def strict_sorted_iff)

lemma gomap_canonical:
  assumes "gomap_wf m"
  shows "m = map (\<lambda>k. (k, the (map_of m k))) (sorted_list_of_set (dom (map_of m)))"
proof -
  have "map fst m = sorted_list_of_set (set (map fst m))"
    using assms by (simp add: gomap_wf_def strict_sorted_iff sorted_list_of_set.idem_if_sorted_distinct
        del: set_map)
  then have keys: "sorted_list_of_set (dom (map_of m)) = map fst m"
    by (simp add: dom_map_of_conv_image_fst)
  have "map (\<lambda>k. (k, the (map_of m k))) (map fst m) = m"
    unfolding map_map using gomap_wf_distinct [OF assms] by (intro map_idI) auto
  then show ?thesis unfolding keys by (rule sym)
qed

lemma gomap_ext:
  assumes "gomap_wf m" and "gomap_wf m'" and "\<And>k. map_of m k = map_of m' k"
  shows "m = m'"
proof -
  have "map_of m = map_of m'" using assms(3) by auto
  then show ?thesis using gomap_canonical [OF assms(1)] gomap_canonical [OF assms(2)] by simp
qed

interpretation gm: string_map "[]" "map_of" gomap_set gomap_del gomap_wf
proof unfold_locales
  show "gomap_wf m \<Longrightarrow> gomap_wf m' \<Longrightarrow> (\<And>k. map_of m k = map_of m' k) \<Longrightarrow> m = m'"
    for m m' :: "'a gomap"
    by (rule gomap_ext)
  show "gomap_wf ([] :: 'a gomap)" by (simp add: gomap_wf_def)
qed (simp_all add: map_of_gomap_set map_of_gomap_del gomap_wf_set gomap_wf_del)


lemma gomap_wf_of: "gomap_wf (gomap_of kvs)"
proof -
  have "gomap_wf m \<Longrightarrow> gomap_wf (fold (\<lambda>(k, v). gomap_set k v) kvs m)" for m
    by (induction kvs arbitrary: m) (auto simp: gomap_wf_set)
  then show ?thesis by (simp add: gomap_of_def gomap_wf_def)
qed

lemma map_of_gomap_of: "map_of (gomap_of kvs) k = map_of (rev kvs) k"
proof -
  have "map_of (fold (\<lambda>(k, v). gomap_set k v) kvs m) k =
      (case map_of (rev kvs) k of None \<Rightarrow> map_of m k | Some v \<Rightarrow> Some v)" for m
    by (induction kvs arbitrary: m) (auto simp: map_of_gomap_set map_add_def split: option.splits)
  then show ?thesis by (auto simp: gomap_of_def split: option.splits)
qed

lemma map_of_rev_distinct: "distinct (map fst m) \<Longrightarrow> map_of (rev m) k = map_of m k"
  by (rule map_of_eqI [THEN fun_cong]) (auto simp: rev_map [symmetric] intro!: map_of_is_SomeI)

lemma gomap_of_wf: "gomap_wf m \<Longrightarrow> gomap_of m = m"
  by (rule gomap_ext)
    (simp_all add: gomap_wf_of map_of_gomap_of gomap_wf_distinct map_of_rev_distinct)

section \<open>Numbers as \<open>float64\<close>\<close>

text \<open>
  A JSON number literal is read as the nearest double (ties to even) and printed in the shortest
  decimal form that reads back as the same double, without an exponent for magnitudes from
  \<open>1e-6\<close> up to \<open>1e21\<close>; a literal beyond the largest double is an error.
\<close>

definition is_digit :: "char \<Rightarrow> bool" where
  "is_digit c \<longleftrightarrow> 48 \<le> byte c \<and> byte c \<le> 57"

definition digits_value :: "string \<Rightarrow> int" where
  "digits_value ds = foldl (\<lambda>n c. 10 * n + (of_char c - 48)) 0 ds"

text \<open>Sign, decimal mantissa and decimal exponent of a literal.\<close>

definition num_parts :: "string \<Rightarrow> bool \<times> int \<times> int" where
  "num_parts t =
     (let neg = (has_prefix t ''-'');
          u = (if neg then drop 1 t else t);
          ip = takeWhile is_digit u;
          u1 = dropWhile is_digit u;
          fp = (if has_prefix u1 ''.'' then takeWhile is_digit (drop 1 u1) else []);
          u2 = (if has_prefix u1 ''.'' then dropWhile is_digit (drop 1 u1) else u1);
          u3 = drop 1 u2;
          eneg = has_prefix u3 ''-'';
          ed = (if eneg \<or> has_prefix u3 ''+'' then drop 1 u3 else u3);
          e = (if u2 = [] then 0 else if eneg then - digits_value ed else digits_value ed)
      in (neg, digits_value (ip @ fp), e - int (length fp)))"

function bit_len :: "int \<Rightarrow> int" where
  "bit_len n = (if n \<le> 0 then 0 else 1 + bit_len (n div 2))"
  by pat_completeness auto
termination
  by (relation "measure nat") auto

declare bit_len.simps [simp del]

text \<open>\<open>Some (m, e)\<close>: the double \<open>m * 2 ^ e\<close> nearest to \<open>num / den\<close>; \<open>None\<close>: out of range.\<close>

definition round_f64 :: "int \<Rightarrow> int \<Rightarrow> (int \<times> int) option" where
  "round_f64 num den =
     (if num = 0 then Some (0, 0)
      else
        let e0 = bit_len num - bit_len den - 53;
            big = (if e0 + 53 \<ge> 0 then num \<ge> den * 2 ^ nat (e0 + 53)
                   else num * 2 ^ nat (- (e0 + 53)) \<ge> den);
            e = max (if big then e0 + 1 else e0) (- 1074);
            n = (if e \<ge> 0 then num else num * 2 ^ nat (- e));
            d = (if e \<ge> 0 then den * 2 ^ nat e else den);
            q = n div d;
            r = n mod d;
            m = (if 2 * r > d \<or> (2 * r = d \<and> q mod 2 = 1) then q + 1 else q);
            (m', e') = (if m = 2 ^ 53 then (2 ^ 52, e + 1) else (m, e))
        in if e' > 971 then None else Some (m', e'))"

definition dec_ratio :: "int \<Rightarrow> int \<Rightarrow> int \<times> int" where
  "dec_ratio c e = (if e \<ge> 0 then (c * 10 ^ nat e, 1) else (c, 10 ^ nat (- e)))"

text \<open>The shortest decimal \<open>c * 10 ^ x\<close> that is read as a given double.\<close>

definition shortest :: "int \<times> int \<Rightarrow> int \<times> int" where
  "shortest f =
     (let (m, e) = f;
          vn = (if e \<ge> 0 then m * 2 ^ nat e else m);
          vd = (if e \<ge> 0 then 1 else 2 ^ nat (- e));
          k = (if vn \<ge> vd then int (length (int_text (vn div vd)))
               else 1 - int (the (find (\<lambda>j. vn * 10 ^ j \<ge> vd) [1..<400])));
          same = (\<lambda>c x. case dec_ratio c x of (a, b) \<Rightarrow> round_f64 a b = Some f);
          cand = (\<lambda>n. let x = k - int n;
                          sn = (if x \<ge> 0 then vn else vn * 10 ^ nat (- x));
                          sd = (if x \<ge> 0 then vd * 10 ^ nat x else vd);
                          lo = sn div sd;
                          near = (if 2 * (sn mod sd) > sd then lo + 1 else lo);
                          far = (if near = lo then lo + 1 else lo)
                      in if same near x then Some (near, x)
                         else if same far x then Some (far, x) else None)
      in the (cand (the (find (\<lambda>n. cand n \<noteq> None) [1..<19]))))"

definition f64_text :: "string \<Rightarrow> string option" where
  "f64_text t =
     (case num_parts t of (neg, mant, e10) \<Rightarrow>
        (case dec_ratio mant e10 of (a, b) \<Rightarrow>
           (case round_f64 a b of
              None \<Rightarrow> None
            | Some (m, e) \<Rightarrow>
                if m = 0 then Some (if neg then ''-0'' else ''0'')
                else
                  let (c, x) = shortest (m, e);
                      cs = int_text c;
                      ds = rev (dropWhile (\<lambda>d. d = CHR ''0'') (rev cs));
                      p = int (length cs) + x;
                      body =
                        (if p \<le> -6 \<or> p > 21 then
                           [hd ds] @ (if length ds > 1 then ''.'' @ tl ds else []) @ ''e'' @
                           (if p - 1 < 0 then ''-'' @ int_text (1 - p)
                            else ''+'' @ int_text (p - 1))
                         else if p \<le> 0 then ''0.'' @ replicate (nat (- p)) (CHR ''0'') @ ds
                         else if nat p \<ge> length ds
                           then ds @ replicate (nat p - length ds) (CHR ''0'')
                         else take (nat p) ds @ ''.'' @ drop (nat p) ds)
                  in Some (if neg then ''-'' @ body else body))))"

section \<open>Decoding\<close>

text \<open>
  Decoding into \<^verbatim>\<open>any\<close>: numbers become \<^verbatim>\<open>float64\<close>, objects become maps (the last of two equal
  keys wins). \<open>None\<close> is the error for a number that is out of range.
\<close>

fun any_of :: "json \<Rightarrow> json option"
  and any_list :: "json list \<Rightarrow> json list option"
  and any_fields :: "(string \<times> json) list \<Rightarrow> (string \<times> json) list option" where
  "any_of JNull = Some JNull"
| "any_of (JBool b) = Some (JBool b)"
| "any_of (JNum t) = map_option JNum (f64_text t)"
| "any_of (JStr s) = Some (JStr s)"
| "any_of (JArr js) = map_option JArr (any_list js)"
| "any_of (JObj kvs) = map_option (\<lambda>m. JObj (gomap_of m)) (any_fields kvs)"
| "any_list [] = Some []"
| "any_list (j # js) =
     (case any_of j of None \<Rightarrow> None
      | Some v \<Rightarrow> (case any_list js of None \<Rightarrow> None | Some vs \<Rightarrow> Some (v # vs)))"
| "any_fields [] = Some []"
| "any_fields (kv # kvs) =
     (case any_of (snd kv) of None \<Rightarrow> None
      | Some v \<Rightarrow> (case any_fields kvs of None \<Rightarrow> None | Some m \<Rightarrow> Some ((fst kv, v) # m)))"

text \<open>\<^verbatim>\<open>json.Unmarshal\<close> into \<^verbatim>\<open>map[string]any\<close>, \<^verbatim>\<open>map[string]json.RawMessage\<close>,
  \<^verbatim>\<open>[]map[string]any\<close>, \<^verbatim>\<open>[]json.RawMessage\<close>, \<^verbatim>\<open>[]any\<close>, \<^verbatim>\<open>string\<close> and \<^verbatim>\<open>bool\<close>. The document
  \<^verbatim>\<open>null\<close> decodes into the nil map, the nil slice and the zero value.\<close>

fun unmarshal_any_map :: "raw \<Rightarrow> json gomap option" where
  "unmarshal_any_map (RawJson (JObj kvs)) = map_option gomap_of (any_fields kvs)"
| "unmarshal_any_map (RawJson JNull) = Some []"
| "unmarshal_any_map _ = None"

fun unmarshal_raw_map :: "raw \<Rightarrow> json gomap option" where
  "unmarshal_raw_map (RawJson (JObj kvs)) = Some (gomap_of kvs)"
| "unmarshal_raw_map (RawJson JNull) = Some []"
| "unmarshal_raw_map _ = None"

fun unmarshal_raw_list :: "raw \<Rightarrow> json list option" where
  "unmarshal_raw_list (RawJson (JArr js)) = Some js"
| "unmarshal_raw_list (RawJson JNull) = Some []"
| "unmarshal_raw_list _ = None"

fun unmarshal_any_list :: "raw \<Rightarrow> json list option" where
  "unmarshal_any_list (RawJson (JArr js)) = any_list js"
| "unmarshal_any_list (RawJson JNull) = Some []"
| "unmarshal_any_list _ = None"

fun all_some :: "'a option list \<Rightarrow> 'a list option" where
  "all_some [] = Some []"
| "all_some (x # xs) =
     (case x of None \<Rightarrow> None
      | Some y \<Rightarrow> (case all_some xs of None \<Rightarrow> None | Some ys \<Rightarrow> Some (y # ys)))"

definition unmarshal_any_maps :: "raw \<Rightarrow> json gomap list option" where
  "unmarshal_any_maps r =
     (case unmarshal_raw_list r of None \<Rightarrow> None
      | Some js \<Rightarrow> all_some (map (\<lambda>j. unmarshal_any_map (RawJson j)) js))"

definition unmarshal_raw_maps :: "raw \<Rightarrow> json gomap list option" where
  "unmarshal_raw_maps r =
     (case unmarshal_raw_list r of None \<Rightarrow> None
      | Some js \<Rightarrow> all_some (map (\<lambda>j. unmarshal_raw_map (RawJson j)) js))"

fun unmarshal_string :: "raw \<Rightarrow> string option" where
  "unmarshal_string (RawJson (JStr s)) = Some s"
| "unmarshal_string (RawJson JNull) = Some []"
| "unmarshal_string _ = None"

text \<open>The value a map of raw messages yields for a key: nil when the key is absent.\<close>

definition raw_entry :: "json gomap \<Rightarrow> string \<Rightarrow> raw" where
  "raw_entry m k = (case map_of m k of None \<Rightarrow> RawEmpty | Some j \<Rightarrow> RawJson j)"

text \<open>\<^verbatim>\<open>asString(payload[k])\<close>: the string under the key, or the empty string.\<close>

definition str_entry :: "json gomap \<Rightarrow> string \<Rightarrow> string" where
  "str_entry m k = (case map_of m k of Some (JStr s) \<Rightarrow> s | _ \<Rightarrow> [])"

text \<open>
  Decoding into a struct field: every key that equals the field's name up to case is a value for
  it, in document order. A string field keeps its value at \<^verbatim>\<open>null\<close> and is an error at any other
  kind of value; a field of type \<^verbatim>\<open>json.RawMessage\<close> takes every value.
\<close>

fun struct_string :: "string \<Rightarrow> (string \<times> json) list \<Rightarrow> string \<Rightarrow> string option" where
  "struct_string f [] acc = Some acc"
| "struct_string f ((k, v) # kvs) acc =
     (if equal_fold k f
      then (case v of JNull \<Rightarrow> struct_string f kvs acc
            | JStr s \<Rightarrow> struct_string f kvs s
            | _ \<Rightarrow> None)
      else struct_string f kvs acc)"

fun struct_raw :: "string \<Rightarrow> (string \<times> json) list \<Rightarrow> raw \<Rightarrow> raw" where
  "struct_raw f [] acc = acc"
| "struct_raw f ((k, v) # kvs) acc =
     struct_raw f kvs (if equal_fold k f then RawJson v else acc)"

section \<open>Printing\<close>

definition esc_char :: "char \<Rightarrow> string" where
  "esc_char c =
     (if byte c = 34 then [CHR 92, CHR 34]
      else if byte c = 92 then [CHR 92, CHR 92]
      else if byte c = 8 then [CHR 92, CHR ''b'']
      else if byte c = 9 then [CHR 92, CHR ''t'']
      else if byte c = 10 then [CHR 92, CHR ''n'']
      else if byte c = 12 then [CHR 92, CHR ''f'']
      else if byte c = 13 then [CHR 92, CHR ''r'']
      else if byte c < 32 \<or> byte c = 60 \<or> byte c = 62 \<or> byte c = 38
        then [CHR 92] @ ''u00'' @ [hex_digit (byte c div 16), hex_digit (byte c mod 16)]
      else [c])"

text \<open>\<^verbatim>\<open>json.Marshal\<close> of a string: U+2028 and U+2029 are escaped, invalid bytes become
  \<^verbatim>\<open>\ufffd\<close>.\<close>

fun esc_string :: "string \<Rightarrow> string" where
  "esc_string [] = []"
| "esc_string (c # cs) =
     (let w = rune_width (c # cs); r = c # take (w - 1) cs in
      if w = 0 then [CHR 92] @ ''ufffd'' @ esc_string cs
      else (if w = 1 then esc_char c
            else if map byte r = [0xE2, 0x80, 0xA8] then [CHR 92] @ ''u2028''
            else if map byte r = [0xE2, 0x80, 0xA9] then [CHR 92] @ ''u2029''
            else r) @ esc_string (drop (w - 1) cs))"

fun json_text :: "json \<Rightarrow> string" and fields_text :: "(string \<times> json) list \<Rightarrow> string list"
  and list_text :: "json list \<Rightarrow> string list" where
  "json_text JNull = ''null''"
| "json_text (JBool b) = (if b then ''true'' else ''false'')"
| "json_text (JNum t) = t"
| "json_text (JStr s) = [CHR 34] @ esc_string s @ [CHR 34]"
| "json_text (JArr js) = ''['' @ join (list_text js) '','' @ '']''"
| "json_text (JObj kvs) = ''{'' @ join (fields_text kvs) '','' @ ''}''"
| "list_text [] = []"
| "list_text (j # js) = json_text j # list_text js"
| "fields_text [] = []"
| "fields_text (kv # kvs) =
     ([CHR 34] @ esc_string (fst kv) @ [CHR 34] @ '':'' @ json_text (snd kv)) # fields_text kvs"

end
