(* ===== verification/Items.thy ===== *)
theory Items
  imports Go_Json
begin

text \<open>
  The item model of \<^verbatim>\<open>internal/domain/items.go\<close> (and the identifiers of \<^verbatim>\<open>ids.go\<close>): items, their
  metadata and accessors, the storage codec with its envelope, the index of tool calls, the
  canonical form of tool outputs, and the assignment of identifiers. A \<^verbatim>\<open>uuid.NewV7\<close> call is a
  parameter: \<open>uuid n\<close> is what the \<open>n\<close>-th call returns, \<open>None\<close> for its error; the operations that
  make identifiers take and return the number of calls made so far.
\<close>

section \<open>Identifiers\<close>

definition NewPrefixedID :: "(nat \<Rightarrow> string option) \<Rightarrow> nat \<Rightarrow> string \<Rightarrow> string res" where
  "NewPrefixedID uuid n pre =
     (case uuid n of
        None \<Rightarrow> Inl (Wrap ''generate uuidv7'' (Errorf ''uuid''))
      | Some u \<Rightarrow> Inr (pre @ ''_'' @ u))"

definition MustNewRequestID :: "(nat \<Rightarrow> string option) \<Rightarrow> nat \<Rightarrow> string" where
  "MustNewRequestID uuid n =
     (case NewPrefixedID uuid n ''req'' of Inl e \<Rightarrow> ''req_unknown'' | Inr i \<Rightarrow> i)"

section \<open>Data\<close>

record text_part =
  part_type :: string
  part_text :: string

record item_meta =
  transport :: string
  synthetic_name :: string
  canonical_type :: string
  tool_name :: string
  tool_namespace :: string
  mcp_server_url :: string
  mcp_connector_id :: string
  mcp_authorization :: string
  mcp_approval :: string
  mcp_transport :: string
  mcp_tool_names :: "string list"
  mcp_headers :: "string gomap"

definition empty_meta :: item_meta where
  "empty_meta = \<lparr>transport = [], synthetic_name = [], canonical_type = [], tool_name = [],
     tool_namespace = [], mcp_server_url = [], mcp_connector_id = [], mcp_authorization = [],
     mcp_approval = [], mcp_transport = [], mcp_tool_names = [], mcp_headers = []\<rparr>"

record item =
  iRaw :: raw
  iMeta :: "item_meta option"
  iType :: string
  iRole :: string
  iContent :: "text_part list"

definition empty_item :: item where
  "empty_item = \<lparr>iRaw = RawEmpty, iMeta = None, iType = [], iRole = [], iContent = []\<rparr>"

record tool_call_reference =
  ref_type :: string
  ref_name :: string
  ref_namespace :: string
  ref_meta :: "item_meta option"

section \<open>Reading items\<close>

definition extractTextPart :: "json gomap \<Rightarrow> text_part option" where
  "extractTextPart part =
     (let partType =
        (case map_of part ''type'' of
           None \<Rightarrow> ''text''
         | Some j \<Rightarrow> (case unmarshal_string (RawJson j) of
             Some v \<Rightarrow> (if trim_space v \<noteq> [] then trim_space v else ''text'')
           | None \<Rightarrow> ''text''))
      in case map_of part ''text'' of
           None \<Rightarrow> None
         | Some j \<Rightarrow> (case unmarshal_string (RawJson j) of
             None \<Rightarrow> None
           | Some text \<Rightarrow>
               if text = [] then None else Some \<lparr>part_type = partType, part_text = text\<rparr>))"

definition extractTextParts :: "raw \<Rightarrow> text_part list" where
  "extractTextParts r =
     (if raw_absent r then []
      else case r of
        RawJson (JStr text) \<Rightarrow> [\<lparr>part_type = ''text'', part_text = text\<rparr>]
      | _ \<Rightarrow> (case unmarshal_raw_maps r of
                None \<Rightarrow> []
              | Some parts \<Rightarrow> List.map_filter extractTextPart parts))"

definition looksLikeMessageItem :: "raw \<Rightarrow> string \<Rightarrow> bool" where
  "looksLikeMessageItem content role \<longleftrightarrow> trim_space role \<noteq> [] \<or> \<not> raw_absent content"

text \<open>\<^verbatim>\<open>Item.UnmarshalJSON\<close> and \<^verbatim>\<open>NewItem\<close>.\<close>

definition NewItem :: "raw \<Rightarrow> item res" where
  "NewItem r =
     (case r of
        RawBad s \<Rightarrow> Inl JSONError
      | RawEmpty \<Rightarrow> Inl (Wrap ''decode item payload'' JSONError)
      | RawJson JNull \<Rightarrow> Inl (Errorf ''item payload must be a JSON object'')
      | RawJson (JObj kvs) \<Rightarrow>
          (case (struct_string ''type'' kvs [], struct_string ''role'' kvs []) of
             (Some t, Some role) \<Rightarrow>
               (let content = struct_raw ''content'' kvs RawEmpty;
                    ty = trim_space t
                in Inr \<lparr>iRaw = r, iMeta = None,
                        iType = (if ty = [] \<and> looksLikeMessageItem content role then ''message'' else ty),
                        iRole = trim_space role,
                        iContent = extractTextParts content\<rparr>)
           | _ \<Rightarrow> Inl (Wrap ''decode item payload'' JSONError))
      | RawJson _ \<Rightarrow> Inl (Wrap ''decode item payload'' JSONError))"

definition part_json :: "text_part \<Rightarrow> json" where
  "part_json p = JObj [(''type'', JStr (part_type p)), (''text'', JStr (part_text p))]"

definition Item_MarshalJSON :: "item \<Rightarrow> raw" where
  "Item_MarshalJSON i =
     (if iRaw i \<noteq> RawEmpty then iRaw i
      else
        let p1 = (if trim_space (iType i) \<noteq> [] then gomap_set ''type'' (JStr (iType i)) [] else []);
            p2 = (if trim_space (iRole i) \<noteq> [] then gomap_set ''role'' (JStr (iRole i)) p1 else p1);
            p3 = (if iContent i \<noteq> []
                  then gomap_set ''content'' (JArr (map part_json (iContent i))) p2 else p2)
        in if p3 = [] then RawJson JNull else RawJson (JObj p3))"

definition Item_RawField :: "item \<Rightarrow> string \<Rightarrow> raw" where
  "Item_RawField i name =
     (if iRaw i = RawEmpty then RawEmpty
      else case unmarshal_raw_map (iRaw i) of
        None \<Rightarrow> RawEmpty
      | Some payload \<Rightarrow> raw_entry payload name)"

definition Item_StringField :: "item \<Rightarrow> string \<Rightarrow> string" where
  "Item_StringField i name =
     (let r = Item_RawField i name in
      if r = RawEmpty then []
      else case unmarshal_string r of None \<Rightarrow> [] | Some v \<Rightarrow> trim_space v)"

abbreviation Item_ID :: "item \<Rightarrow> string" where "Item_ID i \<equiv> Item_StringField i ''id''"
abbreviation Item_CallID :: "item \<Rightarrow> string" where "Item_CallID i \<equiv> Item_StringField i ''call_id''"
abbreviation Item_Name :: "item \<Rightarrow> string" where "Item_Name i \<equiv> Item_StringField i ''name''"
abbreviation Item_Namespace :: "item \<Rightarrow> string" where
  "Item_Namespace i \<equiv> Item_StringField i ''namespace''"
abbreviation Item_Status :: "item \<Rightarrow> string" where "Item_Status i \<equiv> Item_StringField i ''status''"
abbreviation Item_OutputRaw :: "item \<Rightarrow> raw" where "Item_OutputRaw i \<equiv> Item_RawField i ''output''"

definition text_part_types :: "string list" where
  "text_part_types = [[], ''text'', ''input_text'', ''output_text'']"

definition Item_HasNonTextMessageContent :: "item \<Rightarrow> bool" where
  "Item_HasNonTextMessageContent i \<longleftrightarrow>
     (if iType i \<noteq> ''message'' then False
      else case Item_RawField i ''content'' of
        RawEmpty \<Rightarrow> False
      | RawJson (JStr s) \<Rightarrow> False
      | r \<Rightarrow> (case unmarshal_any_maps r of
                None \<Rightarrow> True
              | Some parts \<Rightarrow>
                  list_ex (\<lambda>part. trim_space (str_entry part ''type'') \<notin> set text_part_types) parts))"

definition Item_Map :: "item \<Rightarrow> json gomap" where
  "Item_Map i =
     (if iRaw i = RawEmpty then []
      else case unmarshal_any_map (iRaw i) of None \<Rightarrow> [] | Some m \<Rightarrow> m)"

section \<open>Changing items\<close>

definition Item_WithMap :: "item \<Rightarrow> json gomap \<Rightarrow> item res" where
  "Item_WithMap i payload =
     (case NewItem (RawJson (JObj payload)) of
        Inl e \<Rightarrow> Inl e
      | Inr it \<Rightarrow> Inr (it\<lparr>iMeta := iMeta i\<rparr>))"

definition Item_WithField :: "item \<Rightarrow> string \<Rightarrow> json \<Rightarrow> item res" where
  "Item_WithField i name v = Item_WithMap i (gomap_set name v (Item_Map i))"

definition Item_WithID :: "item \<Rightarrow> string \<Rightarrow> item res" where
  "Item_WithID i id' =
     (if trim_space (Item_ID i) \<noteq> [] then Inr i else Item_WithField i ''id'' (JStr id'))"

definition Item_WithMeta :: "item \<Rightarrow> item_meta \<Rightarrow> item" where
  "Item_WithMeta i m = i\<lparr>iMeta := Some m\<rparr>"

section \<open>The storage codec\<close>

abbreviation storedItemEnvelopeKey :: string where
  "storedItemEnvelopeKey \<equiv> ''__llama_shim_item''"

definition opt_str :: "string \<Rightarrow> string \<Rightarrow> (string \<times> json) list" where
  "opt_str k s = (if s = [] then [] else [(k, JStr s)])"

text \<open>\<^verbatim>\<open>json.Marshal\<close> of an \<^verbatim>\<open>ItemMeta\<close>: every field has \<^verbatim>\<open>omitempty\<close>.\<close>

definition meta_json :: "item_meta \<Rightarrow> json" where
  "meta_json m = JObj (
     opt_str ''transport'' (transport m) @ opt_str ''synthetic_name'' (synthetic_name m) @
     opt_str ''canonical_type'' (canonical_type m) @ opt_str ''tool_name'' (tool_name m) @
     opt_str ''tool_namespace'' (tool_namespace m) @ opt_str ''mcp_server_url'' (mcp_server_url m) @
     opt_str ''mcp_connector_id'' (mcp_connector_id m) @
     opt_str ''mcp_authorization'' (mcp_authorization m) @
     opt_str ''mcp_approval'' (mcp_approval m) @ opt_str ''mcp_transport'' (mcp_transport m) @
     (if mcp_tool_names m = [] then [] else [(''mcp_tool_names'', JArr (map JStr (mcp_tool_names m)))]) @
     (if mcp_headers m = [] then []
      else [(''mcp_headers'', JObj (map (\<lambda>(k, v). (k, JStr v)) (mcp_headers m)))]))"

text \<open>Decoding string lists and string maps inside a struct.\<close>

fun str_or_null :: "json \<Rightarrow> string option" where
  "str_or_null (JStr s) = Some s"
| "str_or_null JNull = Some []"
| "str_or_null _ = None"

fun struct_strings :: "string \<Rightarrow> (string \<times> json) list \<Rightarrow> string list \<Rightarrow> string list option" where
  "struct_strings f [] acc = Some acc"
| "struct_strings f ((k, v) # kvs) acc =
     (if equal_fold k f
      then (case v of JNull \<Rightarrow> struct_strings f kvs []
            | JArr js \<Rightarrow> (case all_some (map str_or_null js) of
                None \<Rightarrow> None | Some ss \<Rightarrow> struct_strings f kvs ss)
            | _ \<Rightarrow> None)
      else struct_strings f kvs acc)"

definition string_entries :: "(string \<times> json) list \<Rightarrow> (string \<times> string) list option" where
  "string_entries kvs =
     map_option (zip (map fst kvs)) (all_some (map (\<lambda>kv. str_or_null (snd kv)) kvs))"

fun struct_string_map ::
  "string \<Rightarrow> (string \<times> json) list \<Rightarrow> string gomap \<Rightarrow> string gomap option" where
  "struct_string_map f [] acc = Some acc"
| "struct_string_map f ((k, v) # kvs) acc =
     (if equal_fold k f
      then (case v of JNull \<Rightarrow> struct_string_map f kvs []
            | JObj es \<Rightarrow> (case string_entries es of
                None \<Rightarrow> None
              | Some ss \<Rightarrow> struct_string_map f kvs (fold (\<lambda>(k, v). gomap_set k v) ss acc))
            | _ \<Rightarrow> None)
      else struct_string_map f kvs acc)"

definition meta_into :: "item_meta \<Rightarrow> (string \<times> json) list \<Rightarrow> item_meta option" where
  "meta_into b kvs =
     (case (struct_string ''transport'' kvs (transport b),
            struct_string ''synthetic_name'' kvs (synthetic_name b),
            struct_string ''canonical_type'' kvs (canonical_type b),
            struct_string ''tool_name'' kvs (tool_name b),
            struct_string ''tool_namespace'' kvs (tool_namespace b),
            struct_string ''mcp_server_url'' kvs (mcp_server_url b)) of
        (Some v1, Some v2, Some v3, Some v4, Some v5, Some v6) \<Rightarrow>
        (case (struct_string ''mcp_connector_id'' kvs (mcp_connector_id b),
               struct_string ''mcp_authorization'' kvs (mcp_authorization b),
               struct_string ''mcp_approval'' kvs (mcp_approval b),
               struct_string ''mcp_transport'' kvs (mcp_transport b),
               struct_strings ''mcp_tool_names'' kvs (mcp_tool_names b),
               struct_string_map ''mcp_headers'' kvs (mcp_headers b)) of
           (Some v7, Some v8, Some v9, Some v10, Some v11, Some v12) \<Rightarrow>
             Some \<lparr>transport = v1, synthetic_name = v2, canonical_type = v3, tool_name = v4,
               tool_namespace = v5, mcp_server_url = v6, mcp_connector_id = v7,
               mcp_authorization = v8, mcp_approval = v9, mcp_transport = v10,
               mcp_tool_names = v11, mcp_headers = v12\<rparr>
         | _ \<Rightarrow> None)
      | _ \<Rightarrow> None)"

text \<open>The \<^verbatim>\<open>meta\<close> field of an envelope, a pointer to an \<^verbatim>\<open>ItemMeta\<close>.\<close>

fun envelope_meta ::
  "(string \<times> json) list \<Rightarrow> item_meta option \<Rightarrow> item_meta option option" where
  "envelope_meta [] acc = Some acc"
| "envelope_meta ((k, v) # kvs) acc =
     (if equal_fold k ''meta''
      then (case v of JNull \<Rightarrow> envelope_meta kvs None
            | JObj es \<Rightarrow>
                (case meta_into (case acc of None \<Rightarrow> empty_meta | Some m \<Rightarrow> m) es of
                   None \<Rightarrow> None | Some m \<Rightarrow> envelope_meta kvs (Some m))
            | _ \<Rightarrow> None)
      else envelope_meta kvs acc)"

text \<open>\<^verbatim>\<open>json.Marshal\<close> of a \<^verbatim>\<open>json.RawMessage\<close>: nil prints as \<^verbatim>\<open>null\<close>, bytes that are no document are
  an error.\<close>

fun marshal_raw :: "raw \<Rightarrow> json res" where
  "marshal_raw RawEmpty = Inr JNull"
| "marshal_raw (RawBad s) = Inl JSONError"
| "marshal_raw (RawJson j) = Inr j"

definition MarshalStoredItem :: "item \<Rightarrow> raw res" where
  "MarshalStoredItem i =
     (case iMeta i of
        None \<Rightarrow> Inr (Item_MarshalJSON i)
      | Some m \<Rightarrow>
          (case marshal_raw (Item_MarshalJSON i) of
             Inl e \<Rightarrow> Inl e
           | Inr j \<Rightarrow> Inr (RawJson (JObj [(storedItemEnvelopeKey,
                            JObj [(''item'', j), (''meta'', meta_json m)])]))))"

definition UnmarshalStoredItem :: "raw \<Rightarrow> item res" where
  "UnmarshalStoredItem r =
     (if raw_absent r then Inr empty_item
      else case unmarshal_raw_map r of
        None \<Rightarrow> NewItem r
      | Some wrapper \<Rightarrow>
          (case map_of wrapper storedItemEnvelopeKey of
             None \<Rightarrow> NewItem r
           | Some JNull \<Rightarrow> NewItem RawEmpty
           | Some (JObj env) \<Rightarrow>
               (case envelope_meta env None of
                  None \<Rightarrow> Inl (Wrap ''decode item envelope'' JSONError)
                | Some meta \<Rightarrow>
                    (case NewItem (struct_raw ''item'' env RawEmpty) of
                       Inl e \<Rightarrow> Inl e
                     | Inr i \<Rightarrow> Inr (i\<lparr>iMeta := meta\<rparr>)))
           | Some _ \<Rightarrow> Inl (Wrap ''decode item envelope'' JSONError)))"

text \<open>Lists of items: a JSON array of stored items.\<close>

definition MarshalStoredItems :: "item list \<Rightarrow> raw res" where
  "MarshalStoredItems items =
     (case map_res MarshalStoredItem items of
        Inl e \<Rightarrow> Inl e
      | Inr rawItems \<Rightarrow>
          (case map_res marshal_raw rawItems of
             Inl e \<Rightarrow> Inl e
           | Inr js \<Rightarrow> Inr (RawJson (JArr js))))"

definition UnmarshalStoredItems :: "raw \<Rightarrow> item list res" where
  "UnmarshalStoredItems r =
     (case unmarshal_raw_list r of
        None \<Rightarrow> Inl JSONError
      | Some rawItems \<Rightarrow> map_res (\<lambda>j. UnmarshalStoredItem (RawJson j)) rawItems)"


section \<open>Tool calls and their outputs\<close>

definition ValidateLocalShimItems :: "item list \<Rightarrow> unit res" where
  "ValidateLocalShimItems items =
     (if list_all (\<lambda>i. iType i = ''message'' \<and> \<not> Item_HasNonTextMessageContent i \<and>
            iRole i \<in> set [''system'', ''developer'', ''user'', ''assistant'']) items
      then Inr () else Inl ErrUnsupportedShape)"

fun CollectToolCallReferences_loop ::
  "item list \<Rightarrow> tool_call_reference gomap \<Rightarrow> tool_call_reference gomap" where
  "CollectToolCallReferences_loop [] refs = refs"
| "CollectToolCallReferences_loop (i # items) refs =
     (let callID = trim_space (Item_CallID i) in
      if callID = [] then CollectToolCallReferences_loop items refs
      else if iType i = ''function_call'' \<or> iType i = ''custom_tool_call''
        then CollectToolCallReferences_loop items
               (gomap_set callID \<lparr>ref_type = iType i, ref_name = Item_Name i,
                  ref_namespace = Item_Namespace i, ref_meta = iMeta i\<rparr> refs)
      else CollectToolCallReferences_loop items refs)"

definition CollectToolCallReferences :: "item list \<Rightarrow> tool_call_reference gomap" where
  "CollectToolCallReferences items = CollectToolCallReferences_loop items []"

definition canonicalizeToolOutput :: "tool_call_reference gomap \<Rightarrow> item \<Rightarrow> item res" where
  "canonicalizeToolOutput refs i =
     (if iType i \<noteq> ''function_call_output'' \<and> iType i \<noteq> ''custom_tool_call_output'' then Inr i
      else case map_of refs (Item_CallID i) of
        None \<Rightarrow> Inr i
      | Some ref \<Rightarrow>
          if ref_type ref \<noteq> ''custom_tool_call'' then Inr i
          else if iType i = ''custom_tool_call_output''
            then (if iMeta i = None \<and> ref_meta ref \<noteq> None
                  then Inr (i\<lparr>iMeta := ref_meta ref\<rparr>) else Inr i)
          else
            (case Item_WithMap i (gomap_set ''type'' (JStr ''custom_tool_call_output'') (Item_Map i)) of
               Inl e \<Rightarrow> Inl e
             | Inr normalized \<Rightarrow>
                 (case ref_meta ref of
                    None \<Rightarrow> Inr normalized
                  | Some m \<Rightarrow> Inr (normalized\<lparr>iMeta := Some
                      (if canonical_type m = []
                       then m\<lparr>canonical_type := ''custom_tool_call_output''\<rparr> else m)\<rparr>))))"

definition CanonicalizeToolOutputs ::
  "item list \<Rightarrow> tool_call_reference gomap \<Rightarrow> item list res" where
  "CanonicalizeToolOutputs items refs =
     (if items = [] \<or> refs = [] then Inr items else map_res (canonicalizeToolOutput refs) items)"

section \<open>Assigning identifiers\<close>

text \<open>The result carries the number of \<^verbatim>\<open>uuid\<close> calls made so far.\<close>

fun EnsureItemIDs :: "(nat \<Rightarrow> string option) \<Rightarrow> nat \<Rightarrow> item list \<Rightarrow> (item list \<times> nat) res" where
  "EnsureItemIDs uuid n [] = Inr ([], n)"
| "EnsureItemIDs uuid n (i # items) =
     (if trim_space (Item_ID i) \<noteq> [] then
        (case EnsureItemIDs uuid n items of
           Inl e \<Rightarrow> Inl e | Inr (out, n') \<Rightarrow> Inr (i # out, n'))
      else
        (case NewPrefixedID uuid n ''item'' of
           Inl e \<Rightarrow> Inl e
         | Inr itemID \<Rightarrow>
             (case Item_WithID i itemID of
                Inl e \<Rightarrow> Inl e
              | Inr withID \<Rightarrow>
                  (case EnsureItemIDs uuid (Suc n) items of
                     Inl e \<Rightarrow> Inl e | Inr (out, n') \<Rightarrow> Inr (withID # out, n')))))"

section \<open>Well-formed items and the storage round trip\<close>

text \<open>An item as the decoder makes it: everything but the metadata is determined by the raw
  document.\<close>

definition item_wf :: "item \<Rightarrow> bool" where
  "item_wf i \<longleftrightarrow> NewItem (iRaw i) = Inr (i\<lparr>iMeta := None\<rparr>)"

definition meta_wf :: "item_meta option \<Rightarrow> bool" where
  "meta_wf m \<longleftrightarrow> (case m of None \<Rightarrow> True | Some m \<Rightarrow> gomap_wf (mcp_headers m))"

text \<open>The raw document has the key that marks an envelope.\<close>

definition has_envelope_key :: "item \<Rightarrow> bool" where
  "has_envelope_key i \<longleftrightarrow> Item_RawField i storedItemEnvelopeKey \<noteq> RawEmpty"

lemma NewItem_Inr_obtain:
  assumes "NewItem r = Inr i"
  obtains kvs where "r = RawJson (JObj kvs)" "iRaw i = r" "iMeta i = None"
  using assms by (auto simp: NewItem_def Let_def split: raw.splits json.splits option.splits)

lemma NewItem_wf: "NewItem r = Inr i \<Longrightarrow> item_wf i"
proof -
  assume i: "NewItem r = Inr i"
  then have "iRaw i = r" "iMeta i = None" by (auto elim: NewItem_Inr_obtain)
  with i show ?thesis by (simp add: item_wf_def)
qed

lemma item_wf_meta [simp, item_simps]: "item_wf (i\<lparr>iMeta := m\<rparr>) = item_wf i"
  by (simp add: item_wf_def)

lemma item_wf_obtain:
  assumes "item_wf i"
  obtains kvs where "iRaw i = RawJson (JObj kvs)"
  using assms unfolding item_wf_def by (auto elim: NewItem_Inr_obtain)

lemma struct_string_append:
  "struct_string f (xs @ ys) acc =
     (case struct_string f xs acc of None \<Rightarrow> None | Some a \<Rightarrow> struct_string f ys a)"
  by (induction f xs acc rule: struct_string.induct) (auto split: json.splits)

lemma struct_strings_append:
  "struct_strings f (xs @ ys) acc =
     (case struct_strings f xs acc of None \<Rightarrow> None | Some a \<Rightarrow> struct_strings f ys a)"
  by (induction f xs acc rule: struct_strings.induct) (auto split: json.splits option.splits)

lemma struct_string_map_append:
  "struct_string_map f (xs @ ys) acc =
     (case struct_string_map f xs acc of None \<Rightarrow> None | Some a \<Rightarrow> struct_string_map f ys a)"
  by (induction f xs acc rule: struct_string_map.induct) (auto split: json.splits option.splits)

lemma struct_string_opt:
  "struct_string f (opt_str k s) acc = Some (if equal_fold k f \<and> s \<noteq> [] then s else acc)"
  by (auto simp: opt_str_def)

lemma struct_strings_opt:
  "\<not> equal_fold k f \<Longrightarrow> struct_strings f (opt_str k s) acc = Some acc"
  by (auto simp: opt_str_def)

lemma struct_string_map_opt:
  "\<not> equal_fold k f \<Longrightarrow> struct_string_map f (opt_str k s) acc = Some acc"
  by (auto simp: opt_str_def)

lemma all_some_map: "(\<And>x. x \<in> set xs \<Longrightarrow> f x = Some (g x)) \<Longrightarrow> all_some (map f xs) = Some (map g xs)"
  by (induction xs) auto

lemma all_some_JStr: "all_some (map (str_or_null \<circ> JStr) xs) = Some xs"
  using all_some_map [of xs "str_or_null \<circ> JStr" id] by simp

lemma string_entries_JStr: "string_entries (map (\<lambda>(k, v). (k, JStr v)) m) = Some m"
proof -
  have "all_some (map (\<lambda>kv. str_or_null (snd kv)) (map (\<lambda>(k, v). (k, JStr v)) m)) = Some (map snd m)"
    unfolding map_map by (rule all_some_map) auto
  moreover have "map fst (map (\<lambda>(k, v). (k, JStr v)) m) = map fst m" by auto
  ultimately show ?thesis by (simp only: string_entries_def option.map zip_map_fst_snd)
qed

lemma fold_case_keys:
  "fold_case ''transport'' = ''transport''"
  "fold_case ''synthetic_name'' = ''synthetic_name''"
  "fold_case ''canonical_type'' = ''canonical_type''"
  "fold_case ''tool_name'' = ''tool_name''"
  "fold_case ''tool_namespace'' = ''tool_namespace''"
  "fold_case ''mcp_server_url'' = ''mcp_server_url''"
  "fold_case ''mcp_connector_id'' = ''mcp_connector_id''"
  "fold_case ''mcp_authorization'' = ''mcp_authorization''"
  "fold_case ''mcp_approval'' = ''mcp_approval''"
  "fold_case ''mcp_transport'' = ''mcp_transport''"
  "fold_case ''mcp_tool_names'' = ''mcp_tool_names''"
  "fold_case ''mcp_headers'' = ''mcp_headers''"
  "fold_case ''item'' = ''item''"
  "fold_case ''meta'' = ''meta''"
  "fold_case ''type'' = ''type''"
  "fold_case ''role'' = ''role''"
  "fold_case ''content'' = ''content''"
  by (simp_all add: fold_case.simps lower_char_def)

lemmas key_folds = equal_fold_def fold_case_keys


lemma struct_string_names: "struct_string f (if xs = [] then [] else [(''mcp_tool_names'', JArr js)]) acc =
   (if equal_fold ''mcp_tool_names'' f \<and> xs \<noteq> [] then None else Some acc)"
  by auto

lemma struct_string_headers: "struct_string f (if xs = [] then [] else [(''mcp_headers'', JObj js)]) acc =
   (if equal_fold ''mcp_headers'' f \<and> xs \<noteq> [] then None else Some acc)"
  by auto

lemmas meta_steps = struct_string_append struct_strings_append struct_string_map_append
  struct_string_opt struct_strings_opt struct_string_map_opt struct_string_names
  struct_string_headers

lemma meta_roundtrip:
  assumes "gomap_wf (mcp_headers m)"
  shows "\<exists>kvs. meta_json m = JObj kvs \<and> meta_into empty_meta kvs = Some m"
proof -
  have "fold (\<lambda>(k, v). gomap_set k v) (mcp_headers m) [] = mcp_headers m"
    using gomap_of_wf [OF assms] by (simp add: gomap_of_def)
  then show ?thesis
    by (simp add: meta_json_def meta_into_def empty_meta_def meta_steps key_folds all_some_JStr
        string_entries_JStr)
qed

text \<open>Items the storage codec keeps: decoded items, and the zero item.\<close>

definition storable :: "item \<Rightarrow> bool" where
  "storable i \<longleftrightarrow> i = empty_item \<or>
     (item_wf i \<and> meta_wf (iMeta i) \<and> (iMeta i = None \<longrightarrow> \<not> has_envelope_key i))"

lemma stored_item_roundtrip_aux:
  assumes "storable i"
  shows "\<exists>j. MarshalStoredItem i = Inr (RawJson j) \<and> UnmarshalStoredItem (RawJson j) = Inr i"
proof (cases "i = empty_item")
  case True
  then show ?thesis
    by (simp add: MarshalStoredItem_def UnmarshalStoredItem_def Item_MarshalJSON_def empty_item_def
        raw_absent_def)
next
  case False
  with assms have wf: "item_wf i" and mwf: "meta_wf (iMeta i)"
    and env: "iMeta i = None \<Longrightarrow> \<not> has_envelope_key i" by (auto simp: storable_def)
  obtain kvs where raw: "iRaw i = RawJson (JObj kvs)" by (rule item_wf_obtain [OF wf])
  have new: "NewItem (RawJson (JObj kvs)) = Inr (i\<lparr>iMeta := None\<rparr>)"
    using wf raw by (simp add: item_wf_def)
  show ?thesis
  proof (cases "iMeta i")
    case None
    from env [OF None] have "map_of (gomap_of kvs) storedItemEnvelopeKey = None"
      using raw by (simp add: has_envelope_key_def Item_RawField_def raw_entry_def split: option.splits)
    moreover have "i\<lparr>iMeta := None\<rparr> = i" using None by simp
    ultimately show ?thesis
      using None raw new
      by (simp add: MarshalStoredItem_def Item_MarshalJSON_def UnmarshalStoredItem_def raw_absent_def)
  next
    case (Some m)
    with mwf have "gomap_wf (mcp_headers m)" by (simp add: meta_wf_def)
    then obtain ms where ms: "meta_json m = JObj ms" "meta_into empty_meta ms = Some m"
      using meta_roundtrip by blast
    let ?env = "[(''item'', JObj kvs), (''meta'', JObj ms)]"
    have "envelope_meta ?env None = Some (Some m)" and "struct_raw ''item'' ?env RawEmpty = RawJson (JObj kvs)"
      using ms by (simp_all add: key_folds)
    moreover have "i\<lparr>iMeta := Some m\<rparr> = i" using Some by simp
    ultimately show ?thesis
      using Some raw new ms
      by (simp add: MarshalStoredItem_def Item_MarshalJSON_def UnmarshalStoredItem_def raw_absent_def
          gomap_of_def)
  qed
qed

lemma stored_items_roundtrip_aux:
  assumes "\<forall>i \<in> set items. storable i"
  shows "\<exists>js. MarshalStoredItems items = Inr (RawJson (JArr js)) \<and>
           map_res (\<lambda>j. UnmarshalStoredItem (RawJson j)) js = Inr items"
  using assms
proof (induction items)
  case Nil
  show ?case by (simp add: MarshalStoredItems_def)
next
  case (Cons i items)
  from Cons.prems obtain j where j: "MarshalStoredItem i = Inr (RawJson j)"
    "UnmarshalStoredItem (RawJson j) = Inr i" using stored_item_roundtrip_aux by fastforce
  from Cons obtain js where js: "MarshalStoredItems items = Inr (RawJson (JArr js))"
    "map_res (\<lambda>j. UnmarshalStoredItem (RawJson j)) js = Inr items" by auto
  have "MarshalStoredItems (i # items) = Inr (RawJson (JArr (j # js)))"
    using j(1) js(1) by (auto simp: MarshalStoredItems_def split: sum.splits)
  with j(2) js(2) show ?case by auto
qed


section \<open>Properties\<close>


definition sample_item :: item where
  "sample_item = \<lparr>iRaw = RawJson (JObj [(''id'', JStr ''i1''), (''type'', JStr ''shell_call'')]),
     iMeta = Some (empty_meta\<lparr>transport := ''local_builtin''\<rparr>), iType = ''shell_call'', iRole = [],
     iContent = []\<rparr>"

lemma sample_item_storable: "storable sample_item"
proof -
  have "fold_case ''id'' = ''id''" by (simp add: fold_case.simps lower_char_def)
  moreover have "trim_space ''shell_call'' = ''shell_call''" by (simp add: trim_space_word)
  ultimately show ?thesis
    by (simp add: storable_def item_wf_def meta_wf_def sample_item_def empty_meta_def gomap_wf_def
        NewItem_def key_folds Let_def looksLikeMessageItem_def raw_absent_def extractTextParts_def)
qed




end
