(* ===== verification/Normalize.thy ===== *)
theory Normalize
  imports Items
begin

text \<open>
  Input normalisation, \<^verbatim>\<open>internal/domain/normalize.go\<close>, and metadata,
  \<^verbatim>\<open>internal/domain/conversation_metadata.go\<close>: what a request may contain and the items it becomes.
  A write to a nil map is Go's run-time panic, the error \<open>GoPanic\<close>.
\<close>

section \<open>Text messages\<close>

text \<open>The document printed by \<^verbatim>\<open>fmt.Sprintf\<close> with the verb \<^verbatim>\<open>%q\<close>; the error of \<^verbatim>\<open>NewItem\<close> is
  dropped and the zero item returned.\<close>

definition item_or_zero :: "item res \<Rightarrow> item" where
  "item_or_zero r = (case r of Inl e \<Rightarrow> empty_item | Inr i \<Rightarrow> i)"

definition NewInputTextMessage :: "string \<Rightarrow> string \<Rightarrow> item" where
  "NewInputTextMessage role text =
     item_or_zero (NewItem
       (case (reread_quoted role, reread_quoted text) of
          (Some r, Some t) \<Rightarrow>
            RawJson (JObj [(''type'', JStr ''message''), (''role'', JStr r),
              (''content'', JArr [JObj [(''type'', JStr ''input_text''), (''text'', JStr t)]])])
        | _ \<Rightarrow> RawBad []))"

definition NewOutputTextMessage :: "string \<Rightarrow> item" where
  "NewOutputTextMessage text =
     item_or_zero (NewItem
       (case reread_quoted text of
          Some t \<Rightarrow>
            RawJson (JObj [(''type'', JStr ''message''), (''status'', JStr ''completed''),
              (''role'', JStr ''assistant''),
              (''content'', JArr [JObj [(''type'', JStr ''output_text''), (''text'', JStr t),
                 (''annotations'', JArr []), (''logprobs'', JArr [])]])])
        | None \<Rightarrow> RawBad []))"

definition MessageText :: "item \<Rightarrow> string" where
  "MessageText i = (if iType i \<noteq> ''message'' then [] else concat (map part_text (iContent i)))"

section \<open>Message content\<close>

fun normalizeMessageParts :: "json gomap list \<Rightarrow> text_part list" where
  "normalizeMessageParts [] = []"
| "normalizeMessageParts (rawPart # rawParts) =
     (let partType = trim_space (str_entry rawPart ''type'');
          text = trim_space (str_entry rawPart ''text'')
      in if text \<noteq> []
         then \<lparr>part_type = (if partType = [] then ''text'' else partType), part_text = text\<rparr>
              # normalizeMessageParts rawParts
         else normalizeMessageParts rawParts)"

definition normalizeMessageContent :: "json \<Rightarrow> text_part list res" where
  "normalizeMessageContent value =
     (case value of
        JNull \<Rightarrow> Inl (ValidationError ''content'' ''content is required'')
      | JStr text \<Rightarrow> Inr [\<lparr>part_type = ''input_text'', part_text = text\<rparr>]
      | JArr js \<Rightarrow>
          (case unmarshal_any_maps (RawJson value) of
             None \<Rightarrow> Inl (Wrap ''decode content array'' JSONError)
           | Some rawParts \<Rightarrow>
               if rawParts = []
               then Inl (ValidationError ''content'' ''content array must not be empty'')
               else Inr (normalizeMessageParts rawParts))
      | _ \<Rightarrow> Inl (ValidationError ''content'' ''unsupported content shape''))"

section \<open>Items\<close>

abbreviation message_roles :: "string list" where
  "message_roles \<equiv> [''system'', ''developer'', ''user'', ''assistant'']"

text \<open>A required field that must hold a non-blank string, and one that must be present.\<close>

definition need_text :: "json gomap \<Rightarrow> string \<Rightarrow> error \<Rightarrow> unit res" where
  "need_text payload k e = (if trim_space (str_entry payload k) = [] then Inl e else Inr ())"

definition need_key :: "json gomap \<Rightarrow> string \<Rightarrow> error \<Rightarrow> unit res" where
  "need_key payload k e = (if map_of payload k = None then Inl e else Inr ())"

text \<open>The \<^verbatim>\<open>case "message"\<close> branch of \<^verbatim>\<open>normalizeItemObject\<close>; it may set the role.\<close>

definition normalizeMessagePayload :: "json gomap \<Rightarrow> string \<Rightarrow> json gomap res" where
  "normalizeMessagePayload payload source =
     (let role = trim_space (str_entry payload ''role'') in
      if role = [] \<and> source \<noteq> ''input'' then Inl (ValidationError ''role'' ''role is required'')
      else
        let role' = (if role = [] then ''user'' else role);
            payload' = (if role = [] then gomap_set ''role'' (JStr ''user'') payload else payload)
        in if role' \<notin> set message_roles then Inl (ValidationError ''role'' ''unsupported role'')
           else case map_of payload' ''content'' of
             None \<Rightarrow> Inl (ValidationError ''content'' ''content is required'')
           | Some JNull \<Rightarrow> Inl (ValidationError ''content'' ''content is required'')
           | Some content \<Rightarrow>
               (case normalizeMessageContent content of
                  Inl e \<Rightarrow> Inl e
                | Inr parts \<Rightarrow> Inr payload'))"

text \<open>The other branches: two required fields each; item families the code does not know pass.\<close>

definition validateItemPayload :: "json gomap \<Rightarrow> string \<Rightarrow> string \<Rightarrow> unit res" where
  "validateItemPayload payload itemType param =
     (if itemType = ''function_call'' then
        res_bind (need_text payload ''name'' (ValidationError param ''function_call name is required''))
          (\<lambda>_. need_key payload ''arguments''
                 (ValidationError param ''function_call arguments are required''))
      else if itemType = ''custom_tool_call'' then
        res_bind (need_text payload ''name'' (ValidationError param ''custom_tool_call name is required''))
          (\<lambda>_. need_key payload ''input''
                 (ValidationError param ''custom_tool_call input is required''))
      else if itemType = ''shell_call'' then
        res_bind (need_text payload ''call_id'' (ValidationError param ''shell_call call_id is required''))
          (\<lambda>_. need_key payload ''action'' (ValidationError param ''shell_call action is required''))
      else if itemType = ''apply_patch_call'' then
        res_bind (need_text payload ''call_id''
                   (ValidationError param ''apply_patch_call call_id is required''))
          (\<lambda>_. need_key payload ''operation''
                 (ValidationError param ''apply_patch_call operation is required''))
      else if itemType = ''function_call_output'' \<or> itemType = ''custom_tool_call_output'' then
        res_bind (need_text payload ''call_id'' (ValidationError param (itemType @ '' call_id is required'')))
          (\<lambda>_. need_key payload ''output'' (ValidationError param (itemType @ '' output is required'')))
      else if itemType = ''shell_call_output'' then
        res_bind (need_text payload ''call_id''
                   (ValidationError param ''shell_call_output call_id is required''))
          (\<lambda>_. need_key payload ''output''
                 (ValidationError param ''shell_call_output output is required''))
      else if itemType = ''apply_patch_call_output'' then
        res_bind (need_text payload ''call_id''
                   (ValidationError param ''apply_patch_call_output call_id is required''))
          (\<lambda>_. need_text payload ''status''
                 (ValidationError param ''apply_patch_call_output status is required''))
      else Inr ())"

text \<open>The metadata attached to the normalised item, by its type.\<close>

definition normalizedItemMeta :: "item \<Rightarrow> item_meta option" where
  "normalizedItemMeta i =
     (if iType i = ''custom_tool_call'' then
        Some (empty_meta\<lparr>transport := ''passthrough'', canonical_type := ''custom_tool_call'',
                tool_name := Item_Name i, tool_namespace := Item_Namespace i\<rparr>)
      else if iType i = ''custom_tool_call_output'' then
        Some (empty_meta\<lparr>transport := ''passthrough'', canonical_type := ''custom_tool_call_output''\<rparr>)
      else if iType i = ''shell_call'' then
        Some (empty_meta\<lparr>transport := ''local_builtin'', canonical_type := ''shell_call'',
                tool_name := ''shell''\<rparr>)
      else if iType i = ''shell_call_output'' then
        Some (empty_meta\<lparr>transport := ''local_builtin'', canonical_type := ''shell_call_output'',
                tool_name := ''shell''\<rparr>)
      else if iType i = ''apply_patch_call'' then
        Some (empty_meta\<lparr>transport := ''local_builtin'', canonical_type := ''apply_patch_call'',
                tool_name := ''apply_patch''\<rparr>)
      else if iType i = ''apply_patch_call_output'' then
        Some (empty_meta\<lparr>transport := ''local_builtin'', canonical_type := ''apply_patch_call_output'',
                tool_name := ''apply_patch''\<rparr>)
      else None)"

definition normalizeItemObject :: "raw \<Rightarrow> string \<Rightarrow> string \<Rightarrow> item res" where
  "normalizeItemObject r source param =
     (case unmarshal_any_map r of
        None \<Rightarrow> Inl (Wrap ''decode item'' JSONError)
      | Some payload \<Rightarrow>
          let itemType0 = trim_space (str_entry payload ''type'') in
          if itemType0 = [] \<and> r = RawJson JNull
          then Inl (GoPanic ''assignment to entry in nil map'')
          else
            let itemType = (if itemType0 = [] then ''message'' else itemType0);
                payload' = (if itemType0 = [] then gomap_set ''type'' (JStr ''message'') payload
                            else payload)
            in case (if itemType = ''message'' then normalizeMessagePayload payload' source
                     else res_bind (validateItemPayload payload' itemType param) (\<lambda>_. Inr payload')) of
                 Inl e \<Rightarrow> Inl e
               | Inr normalized \<Rightarrow>
                   (case NewItem (RawJson (JObj normalized)) of
                      Inl e \<Rightarrow> Inl e
                    | Inr i \<Rightarrow> Inr (i\<lparr>iMeta := normalizedItemMeta i\<rparr>)))"

definition NormalizeInput :: "raw \<Rightarrow> item list res" where
  "NormalizeInput r =
     (if raw_absent r then Inl (ValidationError ''input'' ''input is required'')
      else case r of
        RawJson (JStr text) \<Rightarrow> Inr [NewInputTextMessage ''user'' text]
      | RawJson (JObj kvs) \<Rightarrow>
          (case normalizeItemObject r ''input'' ''input'' of Inl e \<Rightarrow> Inl e | Inr i \<Rightarrow> Inr [i])
      | RawJson (JArr rawItems) \<Rightarrow>
          if rawItems = [] then Inl (ValidationError ''input'' ''input array must not be empty'')
          else map_res (\<lambda>j. normalizeItemObject (RawJson j) ''input'' ''input'') rawItems
      | RawBad s \<Rightarrow>
          (if has_prefix s [CHR 34] then Inl (Wrap ''decode string input'' JSONError)
           else if has_prefix s ''{'' then Inl (Wrap ''decode item'' JSONError)
           else if has_prefix s ''['' then Inl (Wrap ''decode array input'' JSONError)
           else Inl (ValidationError ''input'' ''unsupported input shape''))
      | _ \<Rightarrow> Inl (ValidationError ''input'' ''unsupported input shape''))"

definition NormalizeConversationItems :: "raw list \<Rightarrow> item list res" where
  "NormalizeConversationItems rawItems =
     (if rawItems = [] then Inl (ValidationError ''items'' ''items must not be empty'')
      else map_res (\<lambda>r. normalizeItemObject r ''conversation'' ''items'') rawItems)"

section \<open>Metadata\<close>

abbreviation maxMetadataEntries :: nat where "maxMetadataEntries \<equiv> 16"
abbreviation maxMetadataKeyLen :: nat where "maxMetadataKeyLen \<equiv> 64"
abbreviation maxMetadataValLen :: nat where "maxMetadataValLen \<equiv> 512"

definition metadata_error :: "string \<Rightarrow> error" where
  "metadata_error param = ValidationError param ''metadata must be an object with string values''"

fun metadataEntry :: "string \<Rightarrow> string \<times> json \<Rightarrow> (string \<times> string) res" where
  "metadataEntry param (key, value) =
     (if rune_count key > maxMetadataKeyLen
      then Inl (ValidationError param ''metadata keys must be at most 64 characters'')
      else case value of
        JStr text \<Rightarrow>
          if rune_count text > maxMetadataValLen
          then Inl (ValidationError param ''metadata values must be at most 512 characters'')
          else Inr (key, text)
      | _ \<Rightarrow> Inl (metadata_error param))"

definition normalizeMetadata :: "raw \<Rightarrow> string \<Rightarrow> string gomap res" where
  "normalizeMetadata r param =
     (if raw_absent r then Inr []
      else case unmarshal_any_map r of
        None \<Rightarrow> Inl (metadata_error param)
      | Some payload \<Rightarrow>
          if length payload > maxMetadataEntries
          then Inl (ValidationError param ''metadata may include at most 16 entries'')
          else map_res (metadataEntry param) payload)"

definition NormalizeConversationMetadata :: "raw \<Rightarrow> string gomap res" where
  "NormalizeConversationMetadata r = normalizeMetadata r ''metadata''"

definition NormalizeResponseMetadata :: "raw \<Rightarrow> string gomap res" where
  "NormalizeResponseMetadata r = normalizeMetadata r ''metadata''"

definition InferResponseMetadataFromRequestJSON :: "raw \<Rightarrow> string gomap" where
  "InferResponseMetadataFromRequestJSON requestJSON =
     (case unmarshal_raw_map requestJSON of
        None \<Rightarrow> []
      | Some payload \<Rightarrow>
          (case NormalizeResponseMetadata (raw_entry payload ''metadata'') of
             Inl e \<Rightarrow> [] | Inr m \<Rightarrow> m))"

definition MarshalConversationMetadata :: "string gomap \<Rightarrow> raw" where
  "MarshalConversationMetadata m = RawJson (JObj (map (\<lambda>(k, v). (k, JStr v)) m))"

definition UnmarshalConversationMetadata :: "raw \<Rightarrow> string gomap res" where
  "UnmarshalConversationMetadata r =
     (case r of
        RawEmpty \<Rightarrow> Inr []
      | RawJson JNull \<Rightarrow> Inr []
      | RawJson (JObj kvs) \<Rightarrow>
          (case string_entries kvs of
             None \<Rightarrow> Inl (Wrap ''decode conversation metadata'' JSONError)
           | Some ss \<Rightarrow> Inr (gomap_of ss))
      | _ \<Rightarrow> Inl (Wrap ''decode conversation metadata'' JSONError))"

section \<open>Field names and sorted maps\<close>

text \<open>A lower-case field name is the greatest of the keys that match it, so in a sorted map it
  decides the value of the struct field.\<close>

lemma lower_char_ge: "c \<le> lower_char c"
  by (auto simp: lower_char_def less_eq_char_def)

lemma fold_case_le:
  assumes "fold_case k = f" and "CHR ''k'' \<notin> set f" and "CHR ''s'' \<notin> set f"
  shows "k \<le> f"
  using assms
proof (induction k arbitrary: f rule: fold_case.induct)
  case 1
  then show ?case by (simp add: fold_case.simps)
next
  case (2 c cs)
  show ?case
  proof (cases "map byte (take 3 (c # cs)) = [226, 132, 170] \<or> map byte (take 2 (c # cs)) = [197, 191]")
    case True
    with "2.prems" show ?thesis by (auto simp: fold_case.simps split: if_splits)
  next
    case False
    with "2.prems"(1) have f: "f = lower_char c # fold_case cs"
      by (auto simp: fold_case.simps)
    with False "2.IH"(3) "2.prems" have "cs \<le> fold_case cs" by auto
    with lower_char_ge [of c] show ?thesis
      unfolding f by (auto simp: Cons_le_Cons)
  qed
qed

lemma struct_string_other:
  "(\<And>k v. (k, v) \<in> set kvs \<Longrightarrow> \<not> equal_fold k f) \<Longrightarrow> struct_string f kvs acc = Some acc"
  by (induction f kvs acc rule: struct_string.induct) auto

lemma gomap_split:
  assumes "gomap_wf m" and "map_of m f = Some v"
  obtains xs ys where "m = xs @ (f, v) # ys" "\<And>k w. (k, w) \<in> set ys \<Longrightarrow> f < k"
proof -
  from map_of_SomeD [OF assms(2)] obtain xs ys where m: "m = xs @ (f, v) # ys"
    by (meson split_list)
  have "f < k" if "(k, w) \<in> set ys" for k w
    using assms(1) that unfolding m gomap_wf_def
    by (auto simp: sorted_wrt_append image_iff)
  with m that show thesis by blast
qed

lemma struct_string_exact:
  assumes "gomap_wf m" and "map_of m f = Some (JStr s)" and "struct_string f m acc = Some t"
    and "\<And>k. equal_fold k f \<Longrightarrow> k \<le> f"
  shows "t = s"
proof -
  obtain xs ys where m: "m = xs @ (f, JStr s) # ys" and ys: "\<And>k w. (k, w) \<in> set ys \<Longrightarrow> f < k"
    using gomap_split [OF assms(1,2)] by blast
  have "struct_string f ys s = Some s"
    by (rule struct_string_other) (meson assms(4) ys leD)
  with assms(3) show ?thesis
    unfolding m by (auto simp: struct_string_append split: option.splits)
qed

lemma match_type: "equal_fold k ''type'' \<Longrightarrow> k \<le> ''type''"
  by (rule fold_case_le) (simp_all add: equal_fold_def fold_case_keys)

lemma match_role: "equal_fold k ''role'' \<Longrightarrow> k \<le> ''role''"
  by (rule fold_case_le) (simp_all add: equal_fold_def fold_case_keys)

lemma str_entry_Some: "str_entry m k \<noteq> [] \<Longrightarrow> map_of m k = Some (JStr (str_entry m k))"
  by (auto simp: str_entry_def split: option.splits json.splits)

lemma str_entry_trim: "trim_space (str_entry m k) \<noteq> [] \<Longrightarrow> map_of m k = Some (JStr (str_entry m k))"
  by (rule str_entry_Some) auto

text \<open>The type and the role of an item decoded from a sorted payload.\<close>

lemma NewItem_type:
  assumes "gomap_wf m" and "NewItem (RawJson (JObj m)) = Inr i"
    and "trim_space (str_entry m ''type'') \<noteq> []"
  shows "iType i = trim_space (str_entry m ''type'')"
proof -
  from assms(2) obtain t where t: "struct_string ''type'' m [] = Some t"
    and i: "trim_space t \<noteq> [] \<Longrightarrow> iType i = trim_space t"
    by (auto simp: NewItem_def Let_def split: option.splits)
  have "t = str_entry m ''type''"
    by (rule struct_string_exact [OF assms(1) str_entry_trim [OF assms(3)] t match_type])
  with i assms(3) show ?thesis by simp
qed

lemma NewItem_role:
  assumes "gomap_wf m" and "NewItem (RawJson (JObj m)) = Inr i"
    and "trim_space (str_entry m ''role'') \<noteq> []"
  shows "iRole i = trim_space (str_entry m ''role'')"
proof -
  from assms(2) obtain t where t: "struct_string ''role'' m [] = Some t"
    and i: "iRole i = trim_space t"
    by (auto simp: NewItem_def Let_def split: option.splits)
  have "t = str_entry m ''role''"
    by (rule struct_string_exact [OF assms(1) str_entry_trim [OF assms(3)] t match_role])
  with i show ?thesis by simp
qed

section \<open>Normalised items\<close>

lemma unmarshal_any_map_wf: "unmarshal_any_map r = Some m \<Longrightarrow> gomap_wf m"
  by (cases r rule: unmarshal_any_map.cases) (auto simp: gomap_wf_of, simp add: gomap_wf_def)

lemma str_entry_set: "str_entry (gomap_set k v m) k' = (if k' = k then (case v of JStr s \<Rightarrow> s | _ \<Rightarrow> []) else str_entry m k')"
  by (simp add: str_entry_def map_of_gomap_set)

definition normalized_ok :: "item \<Rightarrow> bool" where
  "normalized_ok i \<longleftrightarrow> item_wf i \<and> meta_wf (iMeta i) \<and> iType i \<noteq> [] \<and>
     (iType i = ''message'' \<longrightarrow> iRole i \<in> set message_roles)"

lemma normalizedItemMeta_wf: "meta_wf (normalizedItemMeta i)"
  by (simp add: normalizedItemMeta_def meta_wf_def empty_meta_def gomap_wf_def)

lemma trim_space_consts [simp]:
  "trim_space ''user'' = ''user''" "trim_space ''message'' = ''message''"
  "trim_space ''custom_tool_call_output'' = ''custom_tool_call_output''"
  by (simp_all add: trim_space_word)

lemma normalizeMessagePayload_ok:
  assumes "normalizeMessagePayload m source = Inr m'" and "gomap_wf m"
  shows "gomap_wf m'" and "str_entry m' ''type'' = str_entry m ''type''"
    and "trim_space (str_entry m' ''role'') \<in> set message_roles"
  using assms
  by (auto simp: normalizeMessagePayload_def Let_def str_entry_set gomap_wf_set
      split: if_splits option.splits json.splits sum.splits)

lemma normalizeItemObject_ok:
  assumes "normalizeItemObject r source param = Inr i"
  shows "normalized_ok i"
proof -
  from assms obtain payload where p: "unmarshal_any_map r = Some payload"
    by (auto simp: normalizeItemObject_def split: option.splits)
  define ty0 where "ty0 = trim_space (str_entry payload ''type'')"
  define ty where "ty = (if ty0 = [] then ''message'' else ty0)"
  define payload' where
    "payload' = (if ty0 = [] then gomap_set ''type'' (JStr ''message'') payload else payload)"
  have wf: "gomap_wf payload'"
    unfolding payload'_def using unmarshal_any_map_wf [OF p] by (simp add: gomap_wf_set)
  have ty: "trim_space (str_entry payload' ''type'') = ty"
    by (simp add: payload'_def ty_def str_entry_set ty0_def)
  from assms p obtain m j where
    m: "(if ty = ''message'' then normalizeMessagePayload payload' source
         else res_bind (validateItemPayload payload' ty param) (\<lambda>_. Inr payload')) = Inr m"
    and j: "NewItem (RawJson (JObj m)) = Inr j" and i: "i = j\<lparr>iMeta := normalizedItemMeta j\<rparr>"
    by (auto simp: normalizeItemObject_def Let_def ty0_def [symmetric] ty_def [symmetric]
        payload'_def [symmetric] split: if_splits sum.splits)
  have mw: "gomap_wf m \<and> str_entry m ''type'' = str_entry payload' ''type''"
    using m wf normalizeMessagePayload_ok by (auto simp: res_bind_Inr_iff split: if_splits)
  have "ty \<noteq> []" by (simp add: ty_def)
  then have jt: "iType j = ty"
    using NewItem_type [OF _ j] mw ty by simp
  moreover have "iRole j \<in> set message_roles" if "ty = ''message''"
  proof -
    have r: "trim_space (str_entry m ''role'') \<in> set message_roles"
      using m that normalizeMessagePayload_ok(3) wf by auto
    then have "trim_space (str_entry m ''role'') \<noteq> []" by auto
    with r mw NewItem_role [OF _ j] show ?thesis by simp
  qed
  ultimately show ?thesis
    using \<open>ty \<noteq> []\<close> NewItem_wf [OF j]
    by (auto simp: normalized_ok_def i normalizedItemMeta_wf)
qed

section \<open>Text messages\<close>

definition input_message :: "string \<Rightarrow> string \<Rightarrow> item" where
  "input_message role text =
     \<lparr>iRaw = RawJson (JObj [(''type'', JStr ''message''), (''role'', JStr role),
        (''content'', JArr [JObj [(''type'', JStr ''input_text''), (''text'', JStr text)]])]),
      iMeta = None, iType = ''message'', iRole = trim_space role,
      iContent = (if text = [] then [] else [\<lparr>part_type = ''input_text'', part_text = text\<rparr>])\<rparr>"

lemma trim_input_text [simp]: "trim_space ''input_text'' = ''input_text''"
  "trim_space ''output_text'' = ''output_text''" "trim_space ''assistant'' = ''assistant''"
  by (simp_all add: trim_space_word)

lemma NewInputTextMessage_eq:
  "NewInputTextMessage role text =
     (if quotable role \<and> quotable text then input_message role text else empty_item)"
  by (auto simp: NewInputTextMessage_def item_or_zero_def reread_quoted_eq NewItem_def key_folds
      Let_def input_message_def extractTextParts_def raw_absent_def unmarshal_raw_maps_def
      gomap_of_def List.map_filter_def extractTextPart_def less_list_code)
lemma quotable_roles: "role \<in> set message_roles \<Longrightarrow> quotable role"
  by (auto simp: quotable_def unquotable_def)

lemma MessageText_input: "MessageText (input_message role text) = text"
  by (simp add: MessageText_def input_message_def)

lemma MessageText_empty: "MessageText empty_item = []"
  by (simp add: MessageText_def empty_item_def)

lemma quotable_Nil: "quotable []"
  by (simp add: quotable_def)



text \<open>Every item that normalisation accepts is decoded from its own raw document, carries
  well-formed metadata and a non-empty type, and, if it is a message, one of the four roles.\<close>

theorem normalized_items_ok:
  assumes "normalizeItemObject r source param = Inr i"
  shows "normalized_ok i"
  using assms by (rule normalizeItemObject_ok)

theorem normalized_items_ok_witness:
  "\<exists>i. normalizeItemObject (RawJson (JObj [(''content'', JStr ''hi'')])) ''input'' ''input'' = Inr i
     \<and> normalized_ok i"
proof -
  have "\<exists>i. normalizeItemObject (RawJson (JObj [(''content'', JStr ''hi'')])) ''input'' ''input'' = Inr i"
    by (simp add: normalizeItemObject_def normalizeMessagePayload_def normalizeMessageContent_def
        str_entry_def gomap_of_def NewItem_def key_folds Let_def less_list_code less_char_def)
  then show ?thesis using normalized_items_ok by blast
qed

lemma metadataEntry_Inr:
  "metadataEntry param kv = Inr kv' \<longleftrightarrow>
     fst kv' = fst kv \<and> snd kv = JStr (snd kv') \<and> rune_count (fst kv) \<le> 64 \<and>
     rune_count (snd kv') \<le> 512"
  by (cases kv; cases kv') (auto split: json.splits)

definition metadata_ok :: "string gomap \<Rightarrow> bool" where
  "metadata_ok m \<longleftrightarrow> gomap_wf m \<and> length m \<le> maxMetadataEntries \<and>
     list_all (\<lambda>(k, v). rune_count k \<le> maxMetadataKeyLen \<and> rune_count v \<le> maxMetadataValLen) m"

lemma map_res_metadata_keys:
  "map_res (metadataEntry param) payload = Inr m \<Longrightarrow> map fst m = map fst payload"
  by (induction payload arbitrary: m) (auto simp: metadataEntry_Inr split: sum.splits)

lemma normalizeMetadata_sound: "normalizeMetadata r param = Inr m \<Longrightarrow> metadata_ok m"
proof -
  assume r: "normalizeMetadata r param = Inr m"
  show ?thesis
  proof (cases "raw_absent r")
    case True
    with r show ?thesis by (simp add: normalizeMetadata_def metadata_ok_def gomap_wf_def)
  next
    case False
    with r obtain payload where p: "unmarshal_any_map r = Some payload" and len: "length payload \<le> 16"
      and m: "map_res (metadataEntry param) payload = Inr m"
      by (auto simp: normalizeMetadata_def split: option.splits if_splits)
    have "gomap_wf m"
      using unmarshal_any_map_wf [OF p] map_res_metadata_keys [OF m] by (simp add: gomap_wf_def)
    moreover have "length m \<le> 16" using map_res_length [OF m] len by simp
    moreover have "rune_count k \<le> 64 \<and> rune_count v \<le> 512" if "(k, v) \<in> set m" for k v
      using map_res_set [OF m that] by (auto simp: metadataEntry_Inr)
    ultimately show ?thesis by (auto simp: metadata_ok_def list_all_iff)
  qed
qed

lemma any_fields_JStr: "any_fields (map (\<lambda>(k, v). (k, JStr v)) m) = Some (map (\<lambda>(k, v). (k, JStr v)) m)"
  by (induction m) auto

lemma gomap_wf_map: "gomap_wf (map (\<lambda>(k, v). (k, f v)) m) \<longleftrightarrow> gomap_wf m"
  by (simp add: gomap_wf_def comp_def case_prod_beta)

lemma map_res_metadata:
  "list_all (\<lambda>(k, v). rune_count k \<le> maxMetadataKeyLen \<and> rune_count v \<le> maxMetadataValLen) m \<Longrightarrow>
     map_res (metadataEntry param) (map (\<lambda>(k, v). (k, JStr v)) m) = Inr m"
  by (induction m) (auto simp: not_less [symmetric])

text \<open>Metadata within the limits survives storage and can be submitted again: marshalling followed by
  unmarshalling, and marshalling followed by the request validation, both return it unchanged.\<close>

theorem metadata_marshal_roundtrip:
  assumes "metadata_ok m"
  shows "UnmarshalConversationMetadata (MarshalConversationMetadata m) = Inr m \<and>
    NormalizeConversationMetadata (MarshalConversationMetadata m) = Inr m"
proof -
  have wf: "gomap_wf m" using assms by (simp add: metadata_ok_def)
  have "UnmarshalConversationMetadata (MarshalConversationMetadata m) = Inr m"
    by (simp add: UnmarshalConversationMetadata_def MarshalConversationMetadata_def
        string_entries_JStr gomap_of_wf [OF wf])
  moreover have "gomap_of (map (\<lambda>(k, v). (k, JStr v)) m) = map (\<lambda>(k, v). (k, JStr v)) m"
    by (rule gomap_of_wf) (simp add: gomap_wf_map wf)
  ultimately show ?thesis
    using assms
    by (simp add: NormalizeConversationMetadata_def normalizeMetadata_def raw_absent_def
        MarshalConversationMetadata_def any_fields_JStr map_res_metadata metadata_ok_def)
qed

theorem metadata_marshal_roundtrip_witness:
  "UnmarshalConversationMetadata (MarshalConversationMetadata [(''k'', ''v'')]) = Inr [(''k'', ''v'')] \<and>
   NormalizeConversationMetadata (MarshalConversationMetadata [(''k'', ''v'')]) = Inr [(''k'', ''v'')]"
proof -
  have "metadata_ok [(''k'', ''v'')]"
    by (simp add: metadata_ok_def gomap_wf_def rune_count_def)
  then show ?thesis by (rule metadata_marshal_roundtrip)
qed

text \<open>The metadata limits are enforced: whatever the validation accepts has at most 16 entries with
  distinct keys of at most 64 runes and values of at most 512 runes.\<close>

theorem metadata_limits:
  assumes "NormalizeResponseMetadata r = Inr m"
  shows "metadata_ok m"
  using assms unfolding NormalizeResponseMetadata_def by (rule normalizeMetadata_sound)

theorem metadata_limits_witness:
  "NormalizeResponseMetadata (RawJson (JObj [(''k'', JStr ''v'')])) = Inr [(''k'', ''v'')] \<and>
   metadata_ok [(''k'', ''v'')]"
proof -
  have "NormalizeResponseMetadata (RawJson (JObj [(''k'', JStr ''v'')])) = Inr [(''k'', ''v'')]"
    by (simp add: NormalizeResponseMetadata_def normalizeMetadata_def raw_absent_def gomap_of_def
        rune_count_def)
  then show ?thesis using metadata_limits by blast
qed

text \<open>A JSON \<^verbatim>\<open>null\<close> among the input items is not rejected with a validation error: when
  the items before it are accepted, normalisation writes to a nil map, a run-time panic.\<close>

theorem null_input_item_panics:
  assumes "map_res (\<lambda>j. normalizeItemObject (RawJson j) ''input'' ''input'') before = Inr items"
  shows "NormalizeInput (RawJson (JArr (before @ JNull # rest))) =
    Inl (GoPanic ''assignment to entry in nil map'')"
  using assms
  by (simp add: NormalizeInput_def raw_absent_def map_res_append normalizeItemObject_def str_entry_def
      Let_def)

theorem null_input_item_panics_witness:
  "NormalizeInput (RawJson (JArr [JNull])) = Inl (GoPanic ''assignment to entry in nil map'')"
  using null_input_item_panics [of "[]" "[]" "[]"] by simp

end
