(* ===== verification/Item_Ids.thy ===== *)
theory Item_Ids
  imports Items
begin

text \<open>
  The identifiers of items: how a field that is set is read back, that setting one keeps an item
  storable, and what \<^verbatim>\<open>EnsureItemIDs\<close> (\<^verbatim>\<open>internal/domain/items.go\<close>) guarantees.
\<close>

section \<open>Identifiers of items\<close>

lemma any_fields_keys: "any_fields kvs = Some m \<Longrightarrow> map fst m = map fst kvs"
  by (induction kvs arbitrary: m) (auto split: option.splits)

lemma Item_Map_cases:
  "Item_Map i = [] \<or> (\<exists>kvs m. iRaw i = RawJson (JObj kvs) \<and> any_fields kvs = Some m \<and> Item_Map i = gomap_of m)"
proof (cases "unmarshal_any_map (iRaw i)")
  case (Some m)
  then show ?thesis
    by (cases "iRaw i" rule: unmarshal_any_map.cases) (auto simp: Item_Map_def)
qed (simp add: Item_Map_def)

lemma Item_Map_wf: "gomap_wf (Item_Map i)"
  using Item_Map_cases [of i] by (auto simp: gomap_wf_of gomap_wf_def [of "[]"])

lemma map_of_gomap_of_None: "map_of (gomap_of kvs) k = None \<longleftrightarrow> k \<notin> fst ` set kvs"
  by (simp add: map_of_gomap_of map_of_eq_None_iff)

lemma Item_Map_key: "k \<in> fst ` set (Item_Map i) \<Longrightarrow> Item_RawField i k \<noteq> RawEmpty"
proof -
  assume k: "k \<in> fst ` set (Item_Map i)"
  then obtain kvs m where raw: "iRaw i = RawJson (JObj kvs)" and m: "any_fields kvs = Some m"
    and "Item_Map i = gomap_of m" using Item_Map_cases [of i] by auto
  with k have "map_of (gomap_of m) k \<noteq> None" by (metis map_of_eq_None_iff)
  then have "k \<in> fst ` set kvs"
    using any_fields_keys [OF m] map_of_gomap_of_None [of m k] by (metis set_map)
  then show ?thesis
    using raw map_of_gomap_of_None [of kvs k] by (auto simp: Item_RawField_def raw_entry_def split: option.splits)
qed

lemma Item_WithField_Inr:
  assumes "Item_WithField i name (JStr v) = Inr i'"
  shows "iRaw i' = RawJson (JObj (gomap_set name (JStr v) (Item_Map i)))" "iMeta i' = iMeta i" "item_wf i'"
    "Item_StringField i' name = trim_space v"
    "k \<noteq> name \<Longrightarrow> Item_RawField i' k \<noteq> RawEmpty \<Longrightarrow> Item_RawField i k \<noteq> RawEmpty"
proof -
  let ?m = "gomap_set name (JStr v) (Item_Map i)"
  obtain j where j: "NewItem (RawJson (JObj ?m)) = Inr j" "i' = j\<lparr>iMeta := iMeta i\<rparr>"
    using assms by (auto simp: Item_WithField_def Item_WithMap_def split: sum.splits)
  show raw: "iRaw i' = RawJson (JObj ?m)" using j by (auto elim: NewItem_Inr_obtain)
  show "iMeta i' = iMeta i" "item_wf i'" using j NewItem_wf by auto
  have wf: "gomap_of ?m = ?m" by (simp add: gomap_of_wf gomap_wf_set Item_Map_wf)
  show "Item_StringField i' name = trim_space v"
    by (simp add: Item_StringField_def Item_RawField_def raw wf raw_entry_def map_of_gomap_set)
  show "Item_RawField i k \<noteq> RawEmpty" if "k \<noteq> name" "Item_RawField i' k \<noteq> RawEmpty"
  proof -
    have "map_of (Item_Map i) k \<noteq> None"
      using that by (auto simp: Item_RawField_def raw wf raw_entry_def map_of_gomap_set split: option.splits)
    then have "k \<in> fst ` set (Item_Map i)" by (metis map_of_eq_None_iff)
    then show ?thesis by (rule Item_Map_key)
  qed
qed

lemma Item_WithField_storable:
  assumes "Item_WithField i name (JStr v) = Inr i'" "storable i" "name \<noteq> storedItemEnvelopeKey"
  shows "storable i'"
proof -
  note w = Item_WithField_Inr [OF assms(1)]
  have "meta_wf (iMeta i')" using assms(2) w(2) by (auto simp: storable_def empty_item_def meta_wf_def)
  moreover have "\<not> has_envelope_key i'" if "iMeta i' = None"
  proof
    assume "has_envelope_key i'"
    then have "Item_RawField i storedItemEnvelopeKey \<noteq> RawEmpty"
      using w(5) [of storedItemEnvelopeKey] assms(3) by (simp add: has_envelope_key_def)
    with that w(2) assms(2) show False
      by (auto simp: storable_def has_envelope_key_def empty_item_def Item_RawField_def)
  qed
  ultimately show ?thesis using w(3) by (simp add: storable_def)
qed

lemma space_width_rev_end:
  assumes "33 \<le> byte c" "byte c < 127"
  shows "space_width_rev (ys @ [c]) \<le> length ys"
proof -
  have c: "\<not> ascii_space c" "\<not> two_space c y" "\<not> three_space c x y" for x y
    using assms by (auto simp: ascii_space_def two_space_def three_space_def)
  then show ?thesis by (cases ys rule: space_width_rev.cases) auto
qed

lemma strip_end:
  assumes "33 \<le> byte c" "byte c < 127"
  shows "\<exists>zs. strip space_width_rev (ys @ [c]) = zs @ [c]"
proof (induction ys rule: length_induct)
  case (1 ys)
  note w = space_width_rev_end [OF assms, of ys]
  show ?case
  proof (cases ys)
    case Nil
    with w show ?thesis by simp
  next
    case (Cons y ys')
    show ?thesis
    proof (cases "space_width_rev (ys @ [c]) = 0")
      case True
      with Cons show ?thesis by simp
    next
      case False
      let ?k = "space_width_rev (ys @ [c]) - 1"
      have "?k \<le> length ys'" using w Cons by simp
      then have "drop ?k (ys' @ [c]) = drop ?k ys' @ [c]" by simp
      moreover have "\<exists>zs. strip space_width_rev (drop ?k ys' @ [c]) = zs @ [c]" using 1 Cons by simp
      ultimately show ?thesis using False Cons by simp
    qed
  qed
qed

lemma trim_word_prefix:
  assumes "33 \<le> byte c" "byte c < 127"
  shows "trim_space (c # cs) \<noteq> []"
proof -
  have "strip space_width (c # cs) = c # cs"
    using space_width_word [of "c # cs"] assms by simp
  then show ?thesis using strip_end [OF assms, of "rev cs"] by (auto simp: trim_space_def)
qed

section \<open>Assigned identifiers\<close>

text \<open>Every item has an identifier, items that had one are unchanged, and the others get the next
  generated identifiers in turn.\<close>

lemma Item_StringField_trim [simp]: "trim_space (Item_StringField i f) = Item_StringField i f"
  by (simp add: Item_StringField_def Let_def split: option.splits)

definition assigned :: "(nat \<Rightarrow> string option) \<Rightarrow> nat \<Rightarrow> nat \<Rightarrow> item \<Rightarrow> item \<Rightarrow> bool" where
  "assigned uuid n n' i j \<longleftrightarrow> Item_ID j \<noteq> [] \<and> iMeta j = iMeta i \<and>
     (if Item_ID i \<noteq> [] then j = i else \<exists>m \<in> {n..<n'}. \<exists>u. uuid m = Some u \<and>
        Item_ID j = trim_space (''item_'' @ u) \<and> Item_WithField i ''id'' (JStr (''item_'' @ u)) = Inr j)"

lemma assigned_mono: "assigned uuid (Suc n) n' i j \<Longrightarrow> assigned uuid n n' i j"
  unfolding assigned_def by (metis atLeastLessThan_iff Suc_leD)

lemma assigned_storable: "assigned uuid n n' i j \<Longrightarrow> storable i \<Longrightarrow> storable j"
  using Item_WithField_storable by (auto simp: assigned_def split: if_splits)

lemma EnsureItemIDs_spec:
  "EnsureItemIDs uuid n items = Inr (out, n') \<Longrightarrow>
     list_all2 (assigned uuid n n') items out \<and> n' = n + length (filter (\<lambda>i. Item_ID i = []) items)"
proof (induction uuid n items arbitrary: out n' rule: EnsureItemIDs.induct)
  case (2 uuid n i items)
  show ?case
  proof (cases "Item_ID i = []")
    case False
    with 2(3) obtain out' where "EnsureItemIDs uuid n items = Inr (out', n')" "out = i # out'"
      by (auto split: sum.splits)
    moreover have "assigned uuid n n' i i" using False by (simp add: assigned_def)
    ultimately show ?thesis using 2(1) False by auto
  next
    case True
    with 2(3) obtain u j out' where u: "uuid n = Some u" "Item_WithID i (''item_'' @ u) = Inr j"
      "EnsureItemIDs uuid (Suc n) items = Inr (out', n')" "out = j # out'"
      by (auto simp: NewPrefixedID_def split: sum.splits option.splits)
    then have w: "Item_WithField i ''id'' (JStr (''item_'' @ u)) = Inr j" using True by (simp add: Item_WithID_def)
    have ne: "trim_space (''item_'' @ u) \<noteq> []" using trim_word_prefix [of "CHR ''i''" "''tem_'' @ u"] by simp
    from 2(2) [of "''item_'' @ u" j out' n'] u True
    have ih: "list_all2 (assigned uuid (Suc n) n') items out'"
      and n': "n' = Suc n + length (filter (\<lambda>i. Item_ID i = []) items)"
      by (auto simp: NewPrefixedID_def)
    have "list_all2 (assigned uuid n n') items out'" using ih by (rule list_all2_mono) (rule assigned_mono)
    moreover have "assigned uuid n n' i j"
      using True w Item_WithField_Inr [OF w] ne u(1) n' by (auto simp: assigned_def)
    ultimately show ?thesis using u True n' by auto
  qed
qed auto

section \<open>Properties\<close>

text \<open>\<^verbatim>\<open>EnsureItemIDs\<close> keeps the number and order of the items and their metadata; every item of the
  result has a non-empty identifier; an item that had one is unchanged, and each of the others gets
  an identifier made from one of the generated values, of which exactly as many are used as items
  lacked an identifier. Storable items stay storable.\<close>

theorem ensured_ids:
  assumes "EnsureItemIDs uuid n items = Inr (out, n')"
  shows "length out = length items \<and> n' = n + length (filter (\<lambda>i. Item_ID i = []) items) \<and>
    (\<forall>k < length items. Item_ID (out ! k) \<noteq> [] \<and> iMeta (out ! k) = iMeta (items ! k) \<and>
       (Item_ID (items ! k) \<noteq> [] \<longrightarrow> out ! k = items ! k) \<and>
       (Item_ID (items ! k) = [] \<longrightarrow> (\<exists>m \<in> {n..<n'}. \<exists>u. uuid m = Some u \<and>
          Item_ID (out ! k) = trim_space (''item_'' @ u))) \<and>
       (storable (items ! k) \<longrightarrow> storable (out ! k)))"
proof -
  note spec = EnsureItemIDs_spec [OF assms]
  have "Item_ID (out ! k) \<noteq> [] \<and> iMeta (out ! k) = iMeta (items ! k) \<and>
       (Item_ID (items ! k) \<noteq> [] \<longrightarrow> out ! k = items ! k) \<and>
       (Item_ID (items ! k) = [] \<longrightarrow> (\<exists>m \<in> {n..<n'}. \<exists>u. uuid m = Some u \<and>
          Item_ID (out ! k) = trim_space (''item_'' @ u))) \<and>
       (storable (items ! k) \<longrightarrow> storable (out ! k))" if "k < length items" for k
  proof -
    have a: "assigned uuid n n' (items ! k) (out ! k)"
      using conjunct1 [OF spec] that by (simp add: list_all2_conv_all_nth)
    then show ?thesis using assigned_storable [OF a] unfolding assigned_def by (metis (no_types))
  qed
  then show ?thesis using conjunct2 [OF spec] list_all2_lengthD [OF conjunct1 [OF spec]] by simp
qed

theorem ensured_ids_witness:
  "\<exists>out. EnsureItemIDs (\<lambda>_. Some ''u'') 3 [sample_item, empty_item] = Inr (out, 4) \<and>
     length out = 2 \<and> out ! 0 = sample_item \<and> Item_ID (out ! 1) = ''item_u''"
proof -
  have id1: "Item_ID sample_item = ''i1''" and id2: "Item_ID empty_item = []"
    by (simp_all add: Item_StringField_def Item_RawField_def sample_item_def empty_item_def
        raw_entry_def map_of_gomap_of trim_space_word)
  have k: "fold_case ''id'' = ''id''" by (simp add: fold_case.simps lower_char_def)
  have "\<exists>j. Item_WithField empty_item ''id'' (JStr ''item_u'') = Inr j"
    by (simp add: Item_WithField_def Item_WithMap_def Item_Map_def empty_item_def NewItem_def key_folds k Let_def)
  then obtain out where out: "EnsureItemIDs (\<lambda>_. Some ''u'') 3 [sample_item, empty_item] = Inr (out, 4)"
    using id1 id2 by (auto simp: NewPrefixedID_def Item_WithID_def trim_space_word)
  from ensured_ids [OF out] have "length out = 2" "out ! 0 = sample_item" "Item_ID (out ! 1) = trim_space ''item_u''"
    using id1 id2 by (auto dest: spec [of _ 0] spec [of _ "Suc 0"])
  with out show ?thesis by (simp add: trim_space_word)
qed

end
