(* ===== verification/Store_Schema.thy ===== *)
theory Store_Schema
  imports Normalize Item_Ids
begin

text \<open>
  The SQLite store: tables with their constraints and the statements the code runs on them, the rows
  of the schema in \<^verbatim>\<open>internal/storage/migrations\<close>, and the database. A table is the list of its rows
  in insertion order. A statement that violates a constraint is an error and changes nothing; a
  transaction that returns an error is rolled back, so operations return the new database only with
  a result. Failures of the database itself (input/output, a lock that times out) are not modelled.
\<close>

section \<open>Tables\<close>

definition tbl_find :: "('r \<Rightarrow> 'k) \<Rightarrow> 'k \<Rightarrow> 'r list \<Rightarrow> 'r option" where
  "tbl_find key k t = find (\<lambda>r. key r = k) t"

definition tbl_has :: "('r \<Rightarrow> 'k) \<Rightarrow> 'k \<Rightarrow> 'r list \<Rightarrow> bool" where
  "tbl_has key k t \<longleftrightarrow> list_ex (\<lambda>r. key r = k) t"

text \<open>\<^verbatim>\<open>INSERT\<close> into a table with a primary key.\<close>

definition tbl_insert :: "('r \<Rightarrow> 'k) \<Rightarrow> 'r \<Rightarrow> 'r list \<Rightarrow> 'r list option" where
  "tbl_insert key r t = (if tbl_has key (key r) t then None else Some (t @ [r]))"

text \<open>\<^verbatim>\<open>INSERT ... ON CONFLICT DO UPDATE\<close>: \<open>merge\<close> gives the updated row from the old one.\<close>

definition tbl_upsert :: "('r \<Rightarrow> 'k) \<Rightarrow> ('r \<Rightarrow> 'r) \<Rightarrow> 'r \<Rightarrow> 'r list \<Rightarrow> 'r list" where
  "tbl_upsert key merge r t =
     (if tbl_has key (key r) t then map (\<lambda>q. if key q = key r then merge q else q) t else t @ [r])"

text \<open>\<^verbatim>\<open>UPDATE ... WHERE\<close> and \<^verbatim>\<open>DELETE ... WHERE\<close>, with the number of affected rows.\<close>

definition tbl_update :: "('r \<Rightarrow> bool) \<Rightarrow> ('r \<Rightarrow> 'r) \<Rightarrow> 'r list \<Rightarrow> 'r list \<times> nat" where
  "tbl_update p f t = (map (\<lambda>r. if p r then f r else r) t, length (filter p t))"

definition tbl_delete :: "('r \<Rightarrow> bool) \<Rightarrow> 'r list \<Rightarrow> 'r list \<times> nat" where
  "tbl_delete p t = (filter (\<lambda>r. \<not> p r) t, length (filter p t))"

text \<open>\<^verbatim>\<open>LIMIT n\<close>: a negative limit is none.\<close>

definition sql_limit :: "int \<Rightarrow> 'r list \<Rightarrow> 'r list" where
  "sql_limit n xs = (if n < 0 then xs else take (nat n) xs)"

text \<open>What a table with a primary key promises, on the operations that touch one row.\<close>

locale primary_key =
  fixes key :: "'r \<Rightarrow> 'k"
    and find_row :: "'k \<Rightarrow> 't \<Rightarrow> 'r option"
    and insert_row :: "'r \<Rightarrow> 't \<Rightarrow> 't option"
    and upsert_row :: "('r \<Rightarrow> 'r) \<Rightarrow> 'r \<Rightarrow> 't \<Rightarrow> 't"
    and wf :: "'t \<Rightarrow> bool"
  assumes find_key: "find_row k t = Some r \<Longrightarrow> key r = k"
    and insert_None: "insert_row r t = None \<longleftrightarrow> find_row (key r) t \<noteq> None"
    and insert_find: "insert_row r t = Some t' \<Longrightarrow>
          find_row k t' = (if k = key r then Some r else find_row k t)"
    and insert_wf: "wf t \<Longrightarrow> insert_row r t = Some t' \<Longrightarrow> wf t'"
    and upsert_find: "(\<And>q. key q = key r \<Longrightarrow> key (merge q) = key r) \<Longrightarrow> find_row k (upsert_row merge r t) =
          (if k = key r then Some (case find_row (key r) t of None \<Rightarrow> r | Some q \<Rightarrow> merge q)
           else find_row k t)"
    and upsert_wf: "(\<And>q. key q = key r \<Longrightarrow> key (merge q) = key r) \<Longrightarrow> wf t \<Longrightarrow> wf (upsert_row merge r t)"
begin

lemma insert_once: "insert_row r t = Some t' \<Longrightarrow> key q = key r \<Longrightarrow> insert_row q t' = None"
  by (simp add: insert_None insert_find)

lemma insert_commute:
  assumes "insert_row r t = Some u" "insert_row q u = Some v"
  obtains u' v' where "insert_row q t = Some u'" "insert_row r u' = Some v'"
    "\<And>k. find_row k v' = find_row k v"
proof -
  from assms have q: "find_row (key q) t = None" "key q \<noteq> key r" and r: "find_row (key r) t = None"
    using insert_None [of q u] insert_None [of r t] insert_find [of r t u "key q"]
    by (auto split: if_splits)
  then obtain u' where u': "insert_row q t = Some u'" using insert_None [of q t] by auto
  with q r have "find_row (key r) u' = None" by (simp add: insert_find)
  then obtain v' where v': "insert_row r u' = Some v'" using insert_None [of r u'] by auto
  with assms u' q(2) show thesis by (intro that [OF u' v']) (simp add: insert_find)
qed

lemma upsert_same:
  assumes "\<And>q. key q = key r \<Longrightarrow> key (merge q) = key r" "merge r = r"
    and "\<And>q. merge (merge q) = merge q"
  shows "find_row k (upsert_row merge r (upsert_row merge r t)) = find_row k (upsert_row merge r t)"
  using assms by (simp add: upsert_find split: option.splits)

end

lemma tbl_has_iff: "tbl_has key k t \<longleftrightarrow> k \<in> key ` set t"
  by (auto simp: tbl_has_def list_ex_iff)

lemma tbl_find_None: "tbl_find key k t = None \<longleftrightarrow> k \<notin> key ` set t"
  by (auto simp: tbl_find_def find_None_iff)

lemma tbl_find_SomeD: "tbl_find key k t = Some r \<Longrightarrow> r \<in> set t \<and> key r = k"
  by (auto simp: tbl_find_def find_Some_iff)

lemma tbl_find_append:
  "tbl_find key k (t @ u) = (case tbl_find key k t of None \<Rightarrow> tbl_find key k u | Some r \<Rightarrow> Some r)"
  by (induction t) (auto simp: tbl_find_def)

lemma tbl_find_mem: "distinct (map key t) \<Longrightarrow> r \<in> set t \<Longrightarrow> tbl_find key (key r) t = Some r"
  by (induction t) (auto simp: tbl_find_def image_iff)

lemma tbl_find_map:
  "(\<And>r. key (f r) = key r) \<Longrightarrow> tbl_find key k (map f t) = map_option f (tbl_find key k t)"
  by (induction t) (auto simp: tbl_find_def)

lemma tbl_find_filter:
  "distinct (map key t) \<Longrightarrow> tbl_find key k (filter p t) =
     (case tbl_find key k t of None \<Rightarrow> None | Some r \<Rightarrow> if p r then Some r else None)"
proof (induction t)
  case (Cons r t)
  have "key r = k \<Longrightarrow> tbl_find key k (filter p t) = None"
    using Cons.prems by (auto simp: tbl_find_None)
  with Cons show ?case by (auto simp: tbl_find_def)
qed (simp add: tbl_find_def)

lemma tbl_find_single: "tbl_find key k [r] = (if key r = k then Some r else None)"
  by (simp add: tbl_find_def)

lemma tbl_upsert_find:
  assumes "\<And>q. key q = key r \<Longrightarrow> key (merge q) = key r"
  shows "tbl_find key k (tbl_upsert key merge r t) =
     (if k = key r then Some (case tbl_find key (key r) t of None \<Rightarrow> r | Some q \<Rightarrow> merge q)
      else tbl_find key k t)"
proof (cases "tbl_has key (key r) t")
  case True
  let ?m = "\<lambda>q. if key q = key r then merge q else q"
  have m: "tbl_find key k (map ?m t) = map_option ?m (tbl_find key k t)"
    using assms by (intro tbl_find_map) auto
  from True obtain q where q: "tbl_find key (key r) t = Some q"
    by (cases "tbl_find key (key r) t") (auto simp: tbl_has_iff tbl_find_None)
  show ?thesis
  proof (cases "k = key r")
    case True
    with q m \<open>tbl_has key (key r) t\<close> show ?thesis
      by (auto simp: tbl_upsert_def dest: tbl_find_SomeD)
  next
    case False
    with m \<open>tbl_has key (key r) t\<close> show ?thesis
      by (cases "tbl_find key k t") (auto simp: tbl_upsert_def dest: tbl_find_SomeD)
  qed
next
  case False
  then have "tbl_find key (key r) t = None" by (simp add: tbl_has_iff tbl_find_None)
  with False show ?thesis
    by (auto simp: tbl_upsert_def tbl_find_append tbl_find_single split: option.splits)
qed

lemma tbl_upsert_keys:
  assumes "\<And>q. key q = key r \<Longrightarrow> key (merge q) = key r"
  shows "map key (tbl_upsert key merge r t) =
     (if key r \<in> key ` set t then map key t else map key t @ [key r])"
  using assms by (auto simp: tbl_upsert_def tbl_has_iff)

lemma tbl_insert_None: "tbl_insert key r t = None \<longleftrightarrow> tbl_find key (key r) t \<noteq> None"
  by (simp add: tbl_insert_def tbl_has_iff tbl_find_None del: not_None_eq)

lemma tbl_insert_SomeD: "tbl_insert key r t = Some t' \<Longrightarrow> t' = t @ [r] \<and> key r \<notin> key ` set t"
  by (auto simp: tbl_insert_def tbl_has_iff split: if_splits)

lemma tbl_insert_find:
  assumes "tbl_insert key r t = Some t'"
  shows "tbl_find key k t' = (if k = key r then Some r else tbl_find key k t)"
proof -
  have "t' = t @ [r]" "tbl_find key (key r) t = None"
    using tbl_insert_SomeD [OF assms] by (auto simp: tbl_find_None)
  then show ?thesis by (auto simp: tbl_find_append tbl_find_single split: option.splits)
qed

interpretation tbl: primary_key key "tbl_find key" "tbl_insert key" "tbl_upsert key"
    "\<lambda>t. distinct (map key t)" for key :: "'r \<Rightarrow> 'k"
proof unfold_locales
  fix merge :: "'r \<Rightarrow> 'r" and r :: 'r and t :: "'r list" and k
  assume m: "\<And>q. key q = key r \<Longrightarrow> key (merge q) = key r"
  show "tbl_find key k (tbl_upsert key merge r t) =
     (if k = key r then Some (case tbl_find key (key r) t of None \<Rightarrow> r | Some q \<Rightarrow> merge q)
      else tbl_find key k t)"
    using m by (rule tbl_upsert_find)
  assume "distinct (map key t)"
  then show "distinct (map key (tbl_upsert key merge r t))"
    using tbl_upsert_keys [of key r merge t] m by auto
qed (auto simp: tbl_insert_None tbl_insert_find dest: tbl_find_SomeD tbl_insert_SomeD)

section \<open>Rows and the database\<close>

text \<open>The structs of \<^verbatim>\<open>internal/domain/models.go\<close> and \<^verbatim>\<open>memory.go\<close> that are stored.\<close>

record conversation =
  c_id :: string
  c_object :: string
  c_metadata :: "string gomap"
  c_items :: "item list"
  c_version :: int
  c_created :: string
  c_updated :: string

record conversation_item =
  ci_id :: string
  ci_conversation :: string
  ci_seq :: int
  ci_source :: string
  ci_role :: string
  ci_type :: string
  ci_item :: item
  ci_created :: string

record stored_response =
  sr_id :: string
  sr_model :: string
  sr_request :: raw
  sr_response :: raw
  sr_input :: "item list"
  sr_effective :: "item list"
  sr_output :: "item list"
  sr_output_text :: string
  sr_previous :: string
  sr_conversation :: string
  sr_store :: bool
  sr_created :: string
  sr_completed :: string

record replay_artifact =
  ra_response :: string
  ra_sequence :: int
  ra_event :: string
  ra_payload :: string

record memory_note =
  mn_id :: string
  mn_scope :: string
  mn_session :: string
  mn_text :: string
  mn_source :: string
  mn_source_response :: string
  mn_metadata :: "string gomap"
  mn_created :: string
  mn_updated :: string
  mn_last_used :: string

text \<open>The rows: a nullable column is an option, a JSON column the raw document.\<close>

record conversation_row =
  cr_id :: string
  cr_version :: int
  cr_metadata :: "raw option"
  cr_created :: string
  cr_updated :: string

record item_row =
  ir_id :: string
  ir_conversation :: string
  ir_seq :: int
  ir_source :: string
  ir_role :: "string option"
  ir_type :: string
  ir_json :: raw
  ir_created :: string

record response_row =
  rr_id :: string
  rr_model :: string
  rr_request :: raw
  rr_input :: raw
  rr_effective :: raw
  rr_output :: raw
  rr_output_text :: string
  rr_previous :: "string option"
  rr_conversation :: "string option"
  rr_store :: int
  rr_created :: string
  rr_completed :: string
  rr_response :: "raw option"

record note_row =
  nr_id :: string
  nr_scope :: string
  nr_session :: string
  nr_text :: string
  nr_source :: string
  nr_source_response :: string
  nr_metadata :: raw
  nr_created :: string
  nr_updated :: string
  nr_last_used :: string

record db =
  conversations :: "conversation_row list"
  conversation_items :: "item_row list"
  responses :: "response_row list"
  replay_artifacts :: "replay_artifact list"
  memory_notes :: "note_row list"

definition empty_db :: db where
  "empty_db = \<lparr>conversations = [], conversation_items = [], responses = [], replay_artifacts = [],
     memory_notes = []\<rparr>"

text \<open>\<^verbatim>\<open>nullableString\<close> and \<^verbatim>\<open>boolToInt\<close> of \<^verbatim>\<open>tx.go\<close>, and \<^verbatim>\<open>COALESCE(column, '')\<close>.\<close>

definition nullableString :: "string \<Rightarrow> string option" where
  "nullableString s = (if s = [] then None else Some s)"

definition nullableRaw :: "raw \<Rightarrow> raw option" where
  "nullableRaw r = (if r = RawEmpty then None else Some r)"

definition boolToInt :: "bool \<Rightarrow> int" where
  "boolToInt b = (if b then 1 else 0)"

definition coalesce :: "'a option \<Rightarrow> 'a \<Rightarrow> 'a" where
  "coalesce v d = (case v of None \<Rightarrow> d | Some x \<Rightarrow> x)"

lemma coalesce_nullable [simp, store_simps]:
  "coalesce (nullableString s) [] = s" "coalesce (nullableRaw r) RawEmpty = r"
  "(boolToInt b \<noteq> 0) = b"
  by (simp_all add: coalesce_def nullableString_def nullableRaw_def boolToInt_def)

end
