(* ===== verification/Conversation_Store.thy ===== *)
theory Conversation_Store
  imports Store_Schema
begin

text \<open>
  The conversation tables of the SQLite store, \<^verbatim>\<open>internal/storage/sqlite/conversations.go\<close>: one
  definition per method, its tables' invariant, what each operation does to the conversations a
  client sees, optimistic locking by version, and paging.
\<close>

section \<open>Rows\<close>

definition conv_rows :: "db \<Rightarrow> string \<Rightarrow> item_row list" where
  "conv_rows d cid = filter (\<lambda>r. ir_conversation r = cid) (conversation_items d)"

definition scanConversationItem :: "item_row \<Rightarrow> conversation_item res" where
  "scanConversationItem r =
     (case UnmarshalStoredItem (ir_json r) of
        Inl e \<Rightarrow> Inl (Wrap ''unmarshal conversation item'' e)
      | Inr it \<Rightarrow> Inr \<lparr>ci_id = ir_id r, ci_conversation = ir_conversation r, ci_seq = ir_seq r,
           ci_source = ir_source r, ci_role = coalesce (ir_role r) [], ci_type = ir_type r,
           ci_item = it, ci_created = ir_created r\<rparr>)"

abbreviation scanConversationItems :: "item_row list \<Rightarrow> conversation_item list res" where
  "scanConversationItems rows \<equiv> map_res scanConversationItem rows"

definition item_row_of :: "conversation_item \<Rightarrow> raw \<Rightarrow> item_row" where
  "item_row_of ci json = \<lparr>ir_id = ci_id ci, ir_conversation = ci_conversation ci, ir_seq = ci_seq ci,
     ir_source = ci_source ci, ir_role = nullableString (ci_role ci), ir_type = ci_type ci,
     ir_json = json, ir_created = ci_created ci\<rparr>"

text \<open>The insert checks the primary key, the uniqueness of (conversation, sequence number) and the
  foreign key.\<close>

definition insertConversationItem :: "conversation_item \<Rightarrow> db \<Rightarrow> db res" where
  "insertConversationItem ci d =
     (case MarshalStoredItem (ci_item ci) of
        Inl e \<Rightarrow> Inl (Wrap ''marshal conversation item'' e)
      | Inr json \<Rightarrow>
          if \<not> tbl_has cr_id (ci_conversation ci) (conversations d) \<or>
             list_ex (\<lambda>r. ir_seq r = ci_seq ci) (conv_rows d (ci_conversation ci))
          then Inl (Wrap ''insert conversation item'' (Errorf ''constraint failed''))
          else case tbl_insert ir_id (item_row_of ci json) (conversation_items d) of
            None \<Rightarrow> Inl (Wrap ''insert conversation item'' (Errorf ''constraint failed''))
          | Some rows \<Rightarrow> Inr (d\<lparr>conversation_items := rows\<rparr>))"

definition nextConversationItemSeq :: "string \<Rightarrow> db \<Rightarrow> int" where
  "nextConversationItemSeq cid d =
     (let seqs = map ir_seq (conv_rows d cid)
      in (if seqs = [] then - 1 else Max (set seqs)) + 1)"

text \<open>The identifier of an item that is about to be inserted: its own, or a new one.\<close>

definition itemWithID ::
  "(nat \<Rightarrow> string option) \<Rightarrow> string \<Rightarrow> nat \<Rightarrow> item \<Rightarrow> (string \<times> item \<times> nat) res" where
  "itemWithID uuid what n it =
     (if Item_ID it \<noteq> [] then Inr (Item_ID it, it, n)
      else case NewPrefixedID uuid n ''item'' of
        Inl e \<Rightarrow> Inl (Wrap (''generate '' @ what @ '' id'') e)
      | Inr itemID \<Rightarrow>
          (case Item_WithID it itemID of
             Inl e \<Rightarrow> Inl (Wrap (''assign '' @ what @ '' id'') e)
           | Inr it' \<Rightarrow> Inr (itemID, it', Suc n)))"

text \<open>The loops of \<^verbatim>\<open>CreateConversation\<close> (source \<^verbatim>\<open>seed\<close>) and \<^verbatim>\<open>AppendConversationItems\<close> (source
  \<^verbatim>\<open>append\<close>).\<close>

fun insertItems ::
  "(nat \<Rightarrow> string option) \<Rightarrow> string \<Rightarrow> string \<Rightarrow> string \<Rightarrow> string \<Rightarrow> int \<Rightarrow> item list \<Rightarrow> nat \<Rightarrow> db \<Rightarrow>
   (conversation_item list \<times> nat \<times> db) res" where
  "insertItems uuid what cid source at seq [] n d = Inr ([], n, d)"
| "insertItems uuid what cid source at seq (it # items) n d =
     (case itemWithID uuid what n it of
        Inl e \<Rightarrow> Inl e
      | Inr (itemID, it', n') \<Rightarrow>
          (let ci = \<lparr>ci_id = itemID, ci_conversation = cid, ci_seq = seq, ci_source = source,
                     ci_role = iRole it', ci_type = iType it', ci_item = it', ci_created = at\<rparr>
           in case insertConversationItem ci d of
                Inl e \<Rightarrow> Inl e
              | Inr d' \<Rightarrow>
                  (case insertItems uuid what cid source at (seq + 1) items n' d' of
                     Inl e \<Rightarrow> Inl e
                   | Inr (cis, n'', d'') \<Rightarrow> Inr (ci # cis, n'', d''))))"

text \<open>The loop of \<^verbatim>\<open>SaveResponseAndAppendConversation\<close> over the prepared items.\<close>

fun insertPrepared ::
  "(nat \<Rightarrow> string option) \<Rightarrow> string \<Rightarrow> string \<Rightarrow> conversation_item list \<Rightarrow> nat \<Rightarrow> db \<Rightarrow>
   (conversation_item list \<times> nat \<times> db) res" where
  "insertPrepared uuid cid at [] n d = Inr ([], n, d)"
| "insertPrepared uuid cid at (c # cs) n d =
     (case itemWithID uuid ''appended conversation item'' n (ci_item c) of
        Inl e \<Rightarrow> Inl e
      | Inr (itemID, it', n') \<Rightarrow>
          (let ci = c\<lparr>ci_id := itemID, ci_conversation := cid, ci_item := it', ci_created := at\<rparr>
           in case insertConversationItem ci d of
                Inl e \<Rightarrow> Inl e
              | Inr d' \<Rightarrow>
                  (case insertPrepared uuid cid at cs n' d' of
                     Inl e \<Rightarrow> Inl e
                   | Inr (cis, n'', d'') \<Rightarrow> Inr (ci # cis, n'', d''))))"

text \<open>\<^verbatim>\<open>domain.BuildConversationAppendItems\<close>.\<close>

fun number_items :: "int \<Rightarrow> string \<Rightarrow> item list \<Rightarrow> conversation_item list" where
  "number_items seq source [] = []"
| "number_items seq source (it # items) =
     \<lparr>ci_id = [], ci_conversation = [], ci_seq = seq, ci_source = source, ci_role = iRole it,
      ci_type = iType it, ci_item = it, ci_created = []\<rparr> # number_items (seq + 1) source items"

definition BuildConversationAppendItems ::
  "int \<Rightarrow> item list \<Rightarrow> item list \<Rightarrow> conversation_item list" where
  "BuildConversationAppendItems startSeq input output =
     number_items startSeq ''response_input'' input @
     number_items (startSeq + int (length input)) ''response_output'' output"

section \<open>Operations\<close>

definition CreateConversation ::
  "(nat \<Rightarrow> string option) \<Rightarrow> conversation \<Rightarrow> nat \<Rightarrow> db \<Rightarrow> (nat \<times> db) res" where
  "CreateConversation uuid c n d =
     (case tbl_insert cr_id \<lparr>cr_id = c_id c, cr_version = c_version c,
             cr_metadata = Some (MarshalConversationMetadata (c_metadata c)),
             cr_created = c_created c, cr_updated = c_updated c\<rparr> (conversations d) of
        None \<Rightarrow> Inl (Wrap ''insert conversation'' (Errorf ''constraint failed''))
      | Some rows \<Rightarrow>
          (case insertItems uuid ''conversation item'' (c_id c) ''seed'' (c_created c) 0 (c_items c) n
                  (d\<lparr>conversations := rows\<rparr>) of
             Inl e \<Rightarrow> Inl e
           | Inr (cis, n', d') \<Rightarrow> Inr (n', d')))"

definition GetConversation :: "string \<Rightarrow> db \<Rightarrow> (conversation \<times> conversation_item list) res" where
  "GetConversation cid d =
     (case tbl_find cr_id cid (conversations d) of
        None \<Rightarrow> Inl StorageErrNotFound
      | Some row \<Rightarrow>
          (case UnmarshalConversationMetadata (coalesce (cr_metadata row) (RawJson (JObj []))) of
             Inl e \<Rightarrow> Inl e
           | Inr md \<Rightarrow>
               (case scanConversationItems (sort_key ir_seq (conv_rows d cid)) of
                  Inl e \<Rightarrow> Inl e
                | Inr items \<Rightarrow>
                    Inr (\<lparr>c_id = cr_id row, c_object = ''conversation'', c_metadata = md,
                          c_items = map ci_item items, c_version = cr_version row,
                          c_created = cr_created row, c_updated = cr_updated row\<rparr>, items))))"

definition ensureConversationExists :: "string \<Rightarrow> db \<Rightarrow> unit res" where
  "ensureConversationExists cid d =
     (if tbl_has cr_id cid (conversations d) then Inr () else Inl StorageErrNotFound)"

definition GetConversationItem :: "string \<Rightarrow> string \<Rightarrow> db \<Rightarrow> conversation_item res" where
  "GetConversationItem cid itemID d =
     (case ensureConversationExists cid d of
        Inl e \<Rightarrow> Inl e
      | Inr _ \<Rightarrow>
          (case scanConversationItems (filter (\<lambda>r. ir_id r = itemID) (conv_rows d cid)) of
             Inl e \<Rightarrow> Inl e
           | Inr [] \<Rightarrow> Inl StorageErrNotFound
           | Inr (ci # _) \<Rightarrow> Inr ci))"

definition lookupConversationItemSeq :: "string \<Rightarrow> string \<Rightarrow> db \<Rightarrow> int res" where
  "lookupConversationItemSeq cid itemID d =
     (case filter (\<lambda>r. ir_id r = itemID) (conv_rows d cid) of
        [] \<Rightarrow> Inl (ValidationError ''after'' ''after must reference an existing item in the conversation'')
      | r # _ \<Rightarrow> Inr (ir_seq r))"

record list_query =
  q_conversation :: string
  q_after :: string
  q_limit :: int
  q_order :: string

record item_page =
  p_items :: "conversation_item list"
  p_more :: bool

text \<open>\<^verbatim>\<open>ORDER BY seq\<close> followed by the caller's order in upper case; anything but \<^verbatim>\<open>ASC\<close>, \<^verbatim>\<open>DESC\<close> and
  the empty text is taken as a statement the database refuses.\<close>

definition order_rows :: "string \<Rightarrow> item_row list \<Rightarrow> item_row list option" where
  "order_rows order rows =
     (if order = ''ASC'' \<or> order = [] then Some (sort_key ir_seq rows)
      else if order = ''DESC'' then Some (rev (sort_key ir_seq rows)) else None)"

definition ListConversationItems :: "list_query \<Rightarrow> db \<Rightarrow> item_page res" where
  "ListConversationItems q d =
     (case ensureConversationExists (q_conversation q) d of
        Inl e \<Rightarrow> Inl e
      | Inr _ \<Rightarrow>
          (case (if q_after q \<noteq> []
                 then lookupConversationItemSeq (q_conversation q) (q_after q) d else Inr (- 1)) of
             Inl e \<Rightarrow> Inl e
           | Inr cursorSeq \<Rightarrow>
               (let rows = (if q_after q = [] then conv_rows d (q_conversation q)
                      else if q_order q = ''desc''
                        then filter (\<lambda>r. ir_seq r < cursorSeq) (conv_rows d (q_conversation q))
                      else filter (\<lambda>r. ir_seq r > cursorSeq) (conv_rows d (q_conversation q)))
                in case order_rows (to_upper (q_order q)) rows of
                  None \<Rightarrow> Inl (Wrap ''select paged conversation items'' (Errorf ''syntax error''))
                | Some ordered \<Rightarrow>
                    (case scanConversationItems (sql_limit (q_limit q + 1) ordered) of
                       Inl e \<Rightarrow> Inl e
                     | Inr items \<Rightarrow>
                         if q_limit q < 0 then Inl (GoPanic ''makeslice: cap out of range'')
                         else if int (length items) > q_limit q
                         then Inr \<lparr>p_items = take (nat (q_limit q)) items, p_more = True\<rparr>
                         else Inr \<lparr>p_items = items, p_more = False\<rparr>))))"

text \<open>\<^verbatim>\<open>UPDATE conversations SET version = version + 1, updated_at = ? WHERE id = ? AND version = ?\<close>.\<close>

definition bumpVersion :: "string \<Rightarrow> int \<Rightarrow> string \<Rightarrow> db \<Rightarrow> db res" where
  "bumpVersion cid version at d =
     (case tbl_update (\<lambda>r. cr_id r = cid \<and> cr_version r = version)
             (\<lambda>r. r\<lparr>cr_version := cr_version r + 1, cr_updated := at\<rparr>) (conversations d) of
        (rows, affected) \<Rightarrow>
          if affected = 0 then Inl StorageErrConflict else Inr (d\<lparr>conversations := rows\<rparr>))"

definition AppendConversationItems ::
  "(nat \<Rightarrow> string option) \<Rightarrow> conversation \<Rightarrow> item list \<Rightarrow> string \<Rightarrow> nat \<Rightarrow> db \<Rightarrow>
   (conversation_item list \<times> nat \<times> db) res" where
  "AppendConversationItems uuid c items createdAt n d =
     (case bumpVersion (c_id c) (c_version c) createdAt d of
        Inl e \<Rightarrow> Inl e
      | Inr d1 \<Rightarrow>
          insertItems uuid ''appended conversation item'' (c_id c) ''append'' createdAt
            (nextConversationItemSeq (c_id c) d1) items n d1)"

definition DeleteConversationItem ::
  "conversation \<Rightarrow> string \<Rightarrow> string \<Rightarrow> db \<Rightarrow> db res" where
  "DeleteConversationItem c itemID updatedAt d =
     (case bumpVersion (c_id c) (c_version c) updatedAt d of
        Inl e \<Rightarrow> Inl e
      | Inr d1 \<Rightarrow>
          (case tbl_delete (\<lambda>r. ir_conversation r = c_id c \<and> ir_id r = itemID) (conversation_items d1) of
             (rows, affected) \<Rightarrow>
               if affected = 0 then Inl StorageErrNotFound
               else Inr (d1\<lparr>conversation_items := rows\<rparr>)))"

text \<open>\<^verbatim>\<open>insertResponse\<close> of \<^verbatim>\<open>tx.go\<close>: a plain insert, an existing identifier is an error.\<close>

definition response_row_of :: "stored_response \<Rightarrow> raw \<Rightarrow> raw \<Rightarrow> raw \<Rightarrow> response_row" where
  "response_row_of r input effective output =
     \<lparr>rr_id = sr_id r, rr_model = sr_model r, rr_request = sr_request r, rr_input = input,
      rr_effective = effective, rr_output = output, rr_output_text = sr_output_text r,
      rr_previous = nullableString (sr_previous r), rr_conversation = nullableString (sr_conversation r),
      rr_store = boolToInt (sr_store r), rr_created = sr_created r, rr_completed = sr_completed r,
      rr_response = nullableRaw (sr_response r)\<rparr>"

definition encodeResponse :: "stored_response \<Rightarrow> response_row res" where
  "encodeResponse r =
     (case MarshalStoredItems (sr_input r) of
        Inl e \<Rightarrow> Inl (Wrap ''marshal normalized input items'' e)
      | Inr input \<Rightarrow>
          (case MarshalStoredItems (sr_effective r) of
             Inl e \<Rightarrow> Inl (Wrap ''marshal effective input items'' e)
           | Inr effective \<Rightarrow>
               (case MarshalStoredItems (sr_output r) of
                  Inl e \<Rightarrow> Inl (Wrap ''marshal output'' e)
                | Inr output \<Rightarrow> Inr (response_row_of r input effective output))))"

definition insertResponse :: "stored_response \<Rightarrow> db \<Rightarrow> db res" where
  "insertResponse r d =
     (case encodeResponse r of
        Inl e \<Rightarrow> Inl e
      | Inr row \<Rightarrow>
          (case tbl_insert rr_id row (responses d) of
             None \<Rightarrow> Inl (Wrap ''insert response'' (Errorf ''constraint failed''))
           | Some rows \<Rightarrow> Inr (d\<lparr>responses := rows\<rparr>)))"

definition SaveResponseAndAppendConversation ::
  "(nat \<Rightarrow> string option) \<Rightarrow> conversation \<Rightarrow> stored_response \<Rightarrow> item list \<Rightarrow> item list \<Rightarrow> nat \<Rightarrow> db \<Rightarrow>
   (nat \<times> db) res" where
  "SaveResponseAndAppendConversation uuid c response input output n d =
     (case bumpVersion (c_id c) (c_version c) (sr_completed response) d of
        Inl e \<Rightarrow> Inl e
      | Inr d1 \<Rightarrow>
          (case insertResponse response d1 of
             Inl e \<Rightarrow> Inl e
           | Inr d2 \<Rightarrow>
               (case insertPrepared uuid (c_id c) (sr_completed response)
                       (BuildConversationAppendItems (nextConversationItemSeq (c_id c) d2) input output)
                       n d2 of
                  Inl e \<Rightarrow> Inl e
                | Inr (cis, n', d3) \<Rightarrow> Inr (n', d3))))"

section \<open>The tables' invariant\<close>

text \<open>The constraints of the schema, and that the rows of a conversation are stored in the order of
  their sequence numbers.\<close>

definition conv_inv :: "db \<Rightarrow> bool" where
  "conv_inv d \<longleftrightarrow> distinct (map cr_id (conversations d)) \<and> distinct (map ir_id (conversation_items d)) \<and>
     (\<forall>r \<in> set (conversation_items d). ir_conversation r \<in> cr_id ` set (conversations d) \<and> 0 \<le> ir_seq r \<and>
        sorted_wrt (<) (map ir_seq (conv_rows d (ir_conversation r))))"

lemma conv_rows_more [simp, store_simps]:
  "conv_rows (d\<lparr>conversation_items := conversation_items d @ rs\<rparr>) cid =
     conv_rows d cid @ filter (\<lambda>r. ir_conversation r = cid) rs"
  "conv_rows (d\<lparr>conversations := cs\<rparr>) cid = conv_rows d cid"
  "conv_rows (d\<lparr>responses := qs\<rparr>) cid = conv_rows d cid"
  by (simp_all add: conv_rows_def)

lemma conv_rows_delete:
  "conv_rows (d\<lparr>conversation_items := filter p (conversation_items d)\<rparr>) cid = filter p (conv_rows d cid)"
  by (simp add: conv_rows_def filter_filter conj_commute)

lemma conv_rows_mem: "r \<in> set (conv_rows d cid) \<longleftrightarrow> r \<in> set (conversation_items d) \<and> ir_conversation r = cid"
  by (auto simp: conv_rows_def)

lemma conv_inv_sorted: "conv_inv d \<Longrightarrow> sorted_wrt (<) (map ir_seq (conv_rows d cid))"
proof (cases "conv_rows d cid")
  case (Cons r rs)
  assume "conv_inv d"
  moreover have "r \<in> set (conversation_items d)" "ir_conversation r = cid"
    using conv_rows_mem [of r d cid] Cons by auto
  ultimately show ?thesis by (auto simp: conv_inv_def)
qed simp

lemma conv_inv_order [simp, store_simps]: "conv_inv d \<Longrightarrow> sort_key ir_seq (conv_rows d cid) = conv_rows d cid"
  using conv_inv_sorted [of d cid] by (intro sort_key_id_if_sorted strict_sorted_imp_sorted)

lemma conv_inv_empty: "conv_inv empty_db"
  by (simp add: conv_inv_def empty_db_def)

text \<open>Changing only other tables, or a conversation's row, keeps the invariant.\<close>

lemma conv_inv_frame:
  assumes "conv_inv d" "map cr_id (conversations d') = map cr_id (conversations d)"
    "conversation_items d' = conversation_items d"
  shows "conv_inv d'"
proof -
  have "cr_id ` set (conversations d') = cr_id ` set (conversations d)"
    using assms(2) by (metis set_map)
  with assms show ?thesis by (simp add: conv_inv_def conv_rows_def)
qed

section \<open>Inserting items\<close>

definition stored_row :: "conversation_item \<Rightarrow> item_row \<Rightarrow> bool" where
  "stored_row ci r \<longleftrightarrow> (\<exists>json. MarshalStoredItem (ci_item ci) = Inr json \<and> r = item_row_of ci json)"

lemma stored_row_fields:
  "stored_row ci r \<Longrightarrow> ir_id r = ci_id ci \<and> ir_conversation r = ci_conversation ci \<and> ir_seq r = ci_seq ci"
  by (auto simp: stored_row_def item_row_of_def)

lemma stored_row_scan:
  assumes "stored_row ci r" "storable (ci_item ci)"
  shows "scanConversationItem r = Inr ci"
  using stored_item_roundtrip_aux [OF assms(2)] assms(1)
  by (auto simp: stored_row_def scanConversationItem_def item_row_of_def)

lemma stored_rows_scan:
  "list_all2 stored_row cis rs \<Longrightarrow> \<forall>ci \<in> set cis. storable (ci_item ci) \<Longrightarrow> scanConversationItems rs = Inr cis"
  by (induction rule: list_all2_induct) (auto simp: stored_row_scan)

lemma stored_rows_conversation:
  "list_all2 stored_row cis rs \<Longrightarrow> \<forall>ci \<in> set cis. ci_conversation ci = cid \<Longrightarrow>
     \<forall>r \<in> set rs. ir_conversation r = cid"
  by (induction rule: list_all2_induct) (auto dest: stored_row_fields)

lemma insertConversationItem_Inr_iff:
  "insertConversationItem ci d = Inr d' \<longleftrightarrow>
     (\<exists>r. stored_row ci r \<and> d' = d\<lparr>conversation_items := conversation_items d @ [r]\<rparr>) \<and>
     ci_conversation ci \<in> cr_id ` set (conversations d) \<and>
     ci_seq ci \<notin> ir_seq ` set (conv_rows d (ci_conversation ci)) \<and>
     ci_id ci \<notin> ir_id ` set (conversation_items d)"
  by (auto simp: insertConversationItem_def stored_row_def tbl_insert_def tbl_has_iff list_ex_iff
      item_row_of_def intro: rev_image_eqI split: sum.splits if_splits)

fun insertAll :: "conversation_item list \<Rightarrow> db \<Rightarrow> db res" where
  "insertAll [] d = Inr d"
| "insertAll (c # cs) d = (case insertConversationItem c d of Inl e \<Rightarrow> Inl e | Inr d' \<Rightarrow> insertAll cs d')"

text \<open>A block of items of one conversation, numbered consecutively.\<close>

fun numbered :: "string \<Rightarrow> int \<Rightarrow> conversation_item list \<Rightarrow> bool" where
  "numbered cid s [] \<longleftrightarrow> True"
| "numbered cid s (c # cs) \<longleftrightarrow> ci_conversation c = cid \<and> ci_seq c = s \<and> numbered cid (s + 1) cs"

lemma insertItems_all:
  "insertItems uuid what cid source at s items n d = Inr (cis, n', d') \<Longrightarrow>
     insertAll cis d = Inr d' \<and> numbered cid s cis \<and> length cis = length items"
  by (induction uuid what cid source at s items n d arbitrary: cis n' d' rule: insertItems.induct)
    (auto simp: Let_def split: sum.splits prod.splits)

lemma insertPrepared_all:
  "insertPrepared uuid cid at cs n d = Inr (cis, n', d') \<Longrightarrow> numbered [] s cs \<Longrightarrow>
     insertAll cis d = Inr d' \<and> numbered cid s cis \<and> length cis = length cs"
  by (induction uuid cid at cs n d arbitrary: s cis n' d' rule: insertPrepared.induct)
    (auto simp: Let_def split: sum.splits prod.splits)

lemma numbered_append:
  "numbered cid s (xs @ ys) \<longleftrightarrow> numbered cid s xs \<and> numbered cid (s + int (length xs)) ys"
  by (induction cid s xs rule: numbered.induct) (auto simp: add.assoc)

lemma numbered_items: "numbered [] s (number_items s source items) \<and> length (number_items s source items) = length items"
  by (induction s source items rule: number_items.induct) auto

lemma numbered_build: "numbered [] s (BuildConversationAppendItems s input output)"
  by (simp add: BuildConversationAppendItems_def numbered_append numbered_items)

lemma numbered_mem: "numbered cid s cis \<Longrightarrow> ci \<in> set cis \<Longrightarrow> ci_conversation ci = cid \<and> s \<le> ci_seq ci"
  by (induction cid s cis rule: numbered.induct) auto

lemma insertAll_rows:
  "insertAll cis d = Inr d' \<Longrightarrow>
     \<exists>rs. d' = d\<lparr>conversation_items := conversation_items d @ rs\<rparr> \<and> list_all2 stored_row cis rs"
proof (induction cis d arbitrary: d' rule: insertAll.induct)
  case (2 c cs d)
  then obtain d1 where d1: "insertConversationItem c d = Inr d1" "insertAll cs d1 = Inr d'"
    by (auto split: sum.splits)
  obtain r where r: "stored_row c r" "d1 = d\<lparr>conversation_items := conversation_items d @ [r]\<rparr>"
    using d1(1) by (auto simp: insertConversationItem_Inr_iff)
  from 2(1) [OF d1] r obtain rs where
    "d' = d1\<lparr>conversation_items := conversation_items d1 @ rs\<rparr>" "list_all2 stored_row cs rs" by blast
  with r show ?case by (intro exI [of _ "r # rs"]) simp
qed (intro exI [of _ "[]"], simp)

lemma conv_inv_insert:
  assumes "conv_inv d" "insertConversationItem ci d = Inr d'" "0 \<le> ci_seq ci"
    and "\<forall>r \<in> set (conv_rows d (ci_conversation ci)). ir_seq r < ci_seq ci"
  shows "conv_inv d'"
proof -
  obtain r where r: "stored_row ci r" "d' = d\<lparr>conversation_items := conversation_items d @ [r]\<rparr>"
    and new: "ci_conversation ci \<in> cr_id ` set (conversations d)"
      "ci_id ci \<notin> ir_id ` set (conversation_items d)"
    using assms(2) by (auto simp: insertConversationItem_Inr_iff)
  note f = stored_row_fields [OF r(1)]
  have "sorted_wrt (<) (map ir_seq (conv_rows d' cid))" for cid
    using assms(4) f conv_inv_sorted [OF assms(1), of cid] r(2) by (auto simp: sorted_wrt_append)
  then show ?thesis using assms(1,3) f new r(2) by (auto simp: conv_inv_def)
qed

lemma conv_inv_insertAll:
  assumes "conv_inv d" "insertAll cis d = Inr d'" "numbered cid s cis" "0 \<le> s"
    and "\<forall>r \<in> set (conv_rows d cid). ir_seq r < s"
  shows "conv_inv d'"
  using assms
proof (induction cis d arbitrary: s rule: insertAll.induct)
  case (2 c cs d)
  then obtain d1 where d1: "insertConversationItem c d = Inr d1" "insertAll cs d1 = Inr d'"
    by (auto split: sum.splits)
  obtain r where r: "stored_row c r" "d1 = d\<lparr>conversation_items := conversation_items d @ [r]\<rparr>"
    using d1(1) by (auto simp: insertConversationItem_Inr_iff)
  have "conv_inv d1"
    using 2(2,4-6) by (intro conv_inv_insert [OF 2(2) d1(1)]) auto
  moreover have "\<forall>q \<in> set (conv_rows d1 cid). ir_seq q < s + 1"
    using 2(4,6) r stored_row_fields [OF r(1)] by auto
  moreover have "numbered cid (s + 1) cs" "0 \<le> s + 1" using 2(4,5) by auto
  ultimately show ?case using 2(1) [OF d1(1) _ d1(2)] by blast
qed simp

lemma next_seq:
  assumes "conv_inv d"
  shows "0 \<le> nextConversationItemSeq cid d" "\<forall>r \<in> set (conv_rows d cid). ir_seq r < nextConversationItemSeq cid d"
proof -
  have pos: "\<forall>r \<in> set (conv_rows d cid). 0 \<le> ir_seq r"
    using assms by (auto simp: conv_inv_def conv_rows_mem)
  show less: "\<forall>r \<in> set (conv_rows d cid). ir_seq r < nextConversationItemSeq cid d"
  proof
    fix r assume "r \<in> set (conv_rows d cid)"
    moreover from this have "ir_seq r \<le> Max (ir_seq ` set (conv_rows d cid))" by (intro Max_ge) auto
    ultimately show "ir_seq r < nextConversationItemSeq cid d"
      by (auto simp: nextConversationItemSeq_def Let_def)
  qed
  show "0 \<le> nextConversationItemSeq cid d"
  proof (cases "conv_rows d cid")
    case (Cons r rs)
    with pos less show ?thesis by force
  qed (simp add: nextConversationItemSeq_def)
qed

section \<open>What the operations do\<close>

definition bump_row :: "string \<Rightarrow> conversation_row \<Rightarrow> conversation_row" where
  "bump_row at r = r\<lparr>cr_version := cr_version r + 1, cr_updated := at\<rparr>"

lemma bumpVersion_Inr:
  assumes "distinct (map cr_id (conversations d))" "bumpVersion cid v at d = Inr d'"
  obtains row rows where "tbl_find cr_id cid (conversations d) = Some row" "cr_version row = v"
    "d' = d\<lparr>conversations := rows\<rparr>" "map cr_id rows = map cr_id (conversations d)"
    "\<And>k. tbl_find cr_id k rows =
       (if k = cid then Some (bump_row at row) else tbl_find cr_id k (conversations d))"
proof -
  let ?f = "\<lambda>r. if cr_id r = cid \<and> cr_version r = v then bump_row at r else r"
  let ?rows = "map ?f (conversations d)"
  from assms(2) obtain row where row: "row \<in> set (conversations d)" "cr_id row = cid" "cr_version row = v"
    and d': "d' = d\<lparr>conversations := ?rows\<rparr>"
    by (auto simp: bumpVersion_def tbl_update_def filter_empty_conv bump_row_def split: if_splits)
  have find: "tbl_find cr_id cid (conversations d) = Some row"
    using tbl_find_mem [OF assms(1) row(1)] row(2) by simp
  moreover have "map cr_id ?rows = map cr_id (conversations d)" by (simp add: bump_row_def)
  moreover have "tbl_find cr_id k ?rows = map_option ?f (tbl_find cr_id k (conversations d))" for k
    by (intro tbl_find_map) (simp add: bump_row_def)
  then have "tbl_find cr_id k ?rows =
       (if k = cid then Some (bump_row at row) else tbl_find cr_id k (conversations d))" for k
    using find row by (cases "tbl_find cr_id k (conversations d)") (auto dest: tbl_find_SomeD)
  ultimately show thesis using row d' that by blast
qed

lemma bumpVersion_Inl:
  assumes "distinct (map cr_id (conversations d))"
  shows "bumpVersion cid v at d = Inl e \<longleftrightarrow> e = StorageErrConflict \<and>
     (\<forall>row. tbl_find cr_id cid (conversations d) = Some row \<longrightarrow> cr_version row \<noteq> v)"
proof -
  have "(\<exists>row \<in> set (conversations d). cr_id row = cid \<and> cr_version row = v) \<longleftrightarrow>
        (\<exists>row. tbl_find cr_id cid (conversations d) = Some row \<and> cr_version row = v)"
    using tbl_find_mem [OF assms] by (auto dest: tbl_find_SomeD)
  then show ?thesis
    by (auto simp: bumpVersion_def tbl_update_def filter_empty_conv split: if_splits)
qed

lemma GetConversation_Inr_iff:
  assumes "conv_inv d"
  shows "GetConversation cid d = Inr (c, cis) \<longleftrightarrow>
     (\<exists>row md. tbl_find cr_id cid (conversations d) = Some row \<and>
        UnmarshalConversationMetadata (coalesce (cr_metadata row) (RawJson (JObj []))) = Inr md \<and>
        scanConversationItems (conv_rows d cid) = Inr cis \<and>
        c = \<lparr>c_id = cid, c_object = ''conversation'', c_metadata = md, c_items = map ci_item cis,
             c_version = cr_version row, c_created = cr_created row, c_updated = cr_updated row\<rparr>)"
  using assms by (auto simp: GetConversation_def dest: tbl_find_SomeD split: option.splits sum.splits)

lemma get_row:
  "GetConversation cid d = Inr (c, cis) \<Longrightarrow>
     \<exists>row. tbl_find cr_id cid (conversations d) = Some row \<and> c_version c = cr_version row \<and> c_id c = cid"
  by (auto simp: GetConversation_def dest: tbl_find_SomeD split: option.splits sum.splits)

lemma GetConversation_cong:
  assumes "tbl_find cr_id cid (conversations d') = tbl_find cr_id cid (conversations d)"
    "conv_rows d' cid = conv_rows d cid"
  shows "GetConversation cid d' = GetConversation cid d"
  unfolding GetConversation_def by (simp only: assms)

definition touched :: "conversation \<Rightarrow> string \<Rightarrow> conversation_item list \<Rightarrow> conversation" where
  "touched c at cis = c\<lparr>c_version := c_version c + 1, c_updated := at, c_items := map ci_item cis\<rparr>"

text \<open>The effect of a write on what a client reads: conversation \<open>cid\<close> now is \<open>touched c at cis\<close>
  with the items \<open>cis\<close>, every other conversation is as before, and the invariant holds.\<close>

definition conv_written ::
  "string \<Rightarrow> conversation \<Rightarrow> string \<Rightarrow> conversation_item list \<Rightarrow> db \<Rightarrow> db \<Rightarrow> bool" where
  "conv_written cid c at cis d d' \<longleftrightarrow> conv_inv d' \<and> GetConversation cid d' = Inr (touched c at cis, cis) \<and>
     (\<forall>k. k \<noteq> cid \<longrightarrow> GetConversation k d' = GetConversation k d)"

lemma written_after_bump:
  assumes inv: "conv_inv d" and get: "GetConversation cid d = Inr (c, old)"
    and bump: "bumpVersion cid v at d = Inr d1"
    and d2: "conversations d2 = conversations d1" "conv_inv d2"
    and rows: "\<And>k. k \<noteq> cid \<Longrightarrow> conv_rows d2 k = conv_rows d k"
    and scan: "scanConversationItems (conv_rows d2 cid) = Inr cis"
  shows "conv_written cid c at cis d d2"
proof -
  have dist: "distinct (map cr_id (conversations d))" using inv by (simp add: conv_inv_def)
  obtain row rs where b: "tbl_find cr_id cid (conversations d) = Some row"
    "d1 = d\<lparr>conversations := rs\<rparr>"
    "\<And>k. tbl_find cr_id k rs =
       (if k = cid then Some (bump_row at row) else tbl_find cr_id k (conversations d))"
    using bumpVersion_Inr [OF dist bump] by metis
  have "GetConversation cid d2 = Inr (touched c at cis, cis)"
    using get b d2(1) scan unfolding GetConversation_Inr_iff [OF inv] GetConversation_Inr_iff [OF d2(2)]
    by (auto simp: bump_row_def touched_def)
  moreover have "GetConversation k d2 = GetConversation k d" if "k \<noteq> cid" for k
    using that b d2(1) rows by (intro GetConversation_cong) auto
  ultimately show ?thesis using d2 by (simp add: conv_written_def)
qed

lemma bump_inv:
  assumes "conv_inv d" "bumpVersion cid v at d = Inr d1"
  shows "conv_inv d1" "conversation_items d1 = conversation_items d" "responses d1 = responses d"
    "conv_rows d1 k = conv_rows d k"
proof -
  have "distinct (map cr_id (conversations d))" using assms(1) by (simp add: conv_inv_def)
  from bumpVersion_Inr [OF this assms(2)] obtain rs where
    "d1 = d\<lparr>conversations := rs\<rparr>" "map cr_id rs = map cr_id (conversations d)" by metis
  then show "conv_inv d1" "conversation_items d1 = conversation_items d" "responses d1 = responses d"
    "conv_rows d1 k = conv_rows d k"
    using conv_inv_frame [OF assms(1), of d1] by simp_all
qed

text \<open>A block of items inserted after a version bump.\<close>

lemma written_insertAll:
  assumes inv: "conv_inv d" and get: "GetConversation cid d = Inr (c, old)"
    and bump: "bumpVersion cid v at d = Inr d1"
    and d1': "conv_inv d1'" "conversations d1' = conversations d1" "\<And>k. conv_rows d1' k = conv_rows d k"
    and ins: "insertAll cis d1' = Inr d2" "numbered cid (nextConversationItemSeq cid d1') cis"
    and stor: "\<forall>ci \<in> set cis. storable (ci_item ci)"
  shows "conv_written cid c at (old @ cis) d d2"
proof -
  obtain rs where rs: "d2 = d1'\<lparr>conversation_items := conversation_items d1' @ rs\<rparr>"
    "list_all2 stored_row cis rs" using insertAll_rows [OF ins(1)] by blast
  have conv: "\<forall>r \<in> set rs. ir_conversation r = cid"
    using stored_rows_conversation [OF rs(2)] numbered_mem [OF ins(2)] by blast
  have "conv_inv d2"
    using conv_inv_insertAll [OF d1'(1) ins] next_seq [OF d1'(1)] by blast
  moreover have "scanConversationItems (conv_rows d2 cid) = Inr (old @ cis)"
    using get stored_rows_scan [OF rs(2) stor] conv rs(1) d1'(3)
    by (auto simp: GetConversation_Inr_iff [OF inv] map_res_append filter_id_conv)
  moreover have "conv_rows d2 k = conv_rows d k" if "k \<noteq> cid" for k
    using that conv rs(1) d1'(3) by (auto simp: filter_empty_conv)
  ultimately show ?thesis
    using rs(1) d1'(2) by (intro written_after_bump [OF inv get bump]) auto
qed

lemma append_written:
  assumes "conv_inv d" "GetConversation (c_id c0) d = Inr (c, old)"
    and "AppendConversationItems uuid c0 items at n d = Inr (new, n', d')"
    and "\<forall>ci \<in> set new. storable (ci_item ci)"
  shows "conv_written (c_id c0) c at (old @ new) d d'"
proof -
  from assms(3) obtain d1 where b: "bumpVersion (c_id c0) (c_version c0) at d = Inr d1"
    and "insertItems uuid ''appended conversation item'' (c_id c0) ''append'' at
            (nextConversationItemSeq (c_id c0) d1) items n d1 = Inr (new, n', d')"
    by (auto simp: AppendConversationItems_def split: sum.splits)
  then have "insertAll new d1 = Inr d'" "numbered (c_id c0) (nextConversationItemSeq (c_id c0) d1) new"
    using insertItems_all by blast+
  then show ?thesis
    using assms bump_inv [OF assms(1) b] by (intro written_insertAll [OF assms(1,2) b]) auto
qed

lemma map_res_filter:
  "map_res f xs = Inr ys \<Longrightarrow> (\<And>x y. f x = Inr y \<Longrightarrow> P x = Q y) \<Longrightarrow>
     map_res f (filter P xs) = Inr (filter Q ys)"
  by (induction xs arbitrary: ys) (auto split: sum.splits)

lemma delete_parts:
  assumes inv: "conv_inv d" and del: "DeleteConversationItem c0 itemID at d = Inr d'"
  obtains d1 where "bumpVersion (c_id c0) (c_version c0) at d = Inr d1" "conversations d' = conversations d1"
    "conv_inv d'" "conv_rows d' (c_id c0) = filter (\<lambda>r. ir_id r \<noteq> itemID) (conv_rows d (c_id c0))"
    "\<And>k. k \<noteq> c_id c0 \<Longrightarrow> conv_rows d' k = conv_rows d k"
proof -
  let ?p = "\<lambda>r. \<not> (ir_conversation r = c_id c0 \<and> ir_id r = itemID)"
  from del obtain d1 where b: "bumpVersion (c_id c0) (c_version c0) at d = Inr d1"
    and d': "d' = d1\<lparr>conversation_items := filter ?p (conversation_items d1)\<rparr>"
    by (auto simp: DeleteConversationItem_def tbl_delete_def split: sum.splits if_splits)
  note b1 = bump_inv [OF inv b]
  have rows: "conv_rows d' k = filter ?p (conv_rows d k)" for k
    using d' b1(4) by (simp add: conv_rows_delete)
  have "conv_rows d' (c_id c0) = filter (\<lambda>r. ir_id r \<noteq> itemID) (conv_rows d (c_id c0))"
    unfolding rows by (rule filter_cong) (auto simp: conv_rows_mem)
  moreover have "conv_rows d' k = conv_rows d k" if "k \<noteq> c_id c0" for k
    unfolding rows using that by (auto simp: filter_id_conv conv_rows_mem)
  moreover have "conv_inv d'"
    using b1 d' rows conv_inv_sorted [OF inv]
    by (auto simp: conv_inv_def distinct_map_filter sorted_wrt_map sorted_wrt_filter)
  ultimately show thesis using that [OF b] d' by simp
qed

lemma delete_written:
  assumes inv: "conv_inv d" and get: "GetConversation (c_id c0) d = Inr (c, old)"
    and del: "DeleteConversationItem c0 itemID at d = Inr d'"
  shows "conv_written (c_id c0) c at (filter (\<lambda>ci. ci_id ci \<noteq> itemID) old) d d'"
proof (rule delete_parts [OF inv del])
  fix d1
  assume p: "bumpVersion (c_id c0) (c_version c0) at d = Inr d1" "conversations d' = conversations d1"
    "conv_inv d'" "conv_rows d' (c_id c0) = filter (\<lambda>r. ir_id r \<noteq> itemID) (conv_rows d (c_id c0))"
    "\<And>k. k \<noteq> c_id c0 \<Longrightarrow> conv_rows d' k = conv_rows d k"
  have "scanConversationItems (conv_rows d (c_id c0)) = Inr old"
    using get by (auto simp: GetConversation_Inr_iff [OF inv])
  then have "scanConversationItems (filter (\<lambda>r. ir_id r \<noteq> itemID) (conv_rows d (c_id c0))) =
      Inr (filter (\<lambda>ci. ci_id ci \<noteq> itemID) old)"
    by (rule map_res_filter) (auto simp: scanConversationItem_def split: sum.splits)
  with p show ?thesis by (intro written_after_bump [OF inv get p(1)]) auto
qed

lemma insertResponse_Inr:
  "insertResponse r d = Inr d' \<Longrightarrow> \<exists>row. encodeResponse r = Inr row \<and>
     d' = d\<lparr>responses := responses d @ [row]\<rparr> \<and> rr_id row \<notin> rr_id ` set (responses d)"
  by (auto simp: insertResponse_def dest: tbl_insert_SomeD split: sum.splits option.splits)

lemma save_append_parts:
  assumes inv: "conv_inv d"
    and sv: "SaveResponseAndAppendConversation uuid c0 response input output n d = Inr (n', d')"
  obtains d1 d2 cis row where "bumpVersion (c_id c0) (c_version c0) (sr_completed response) d = Inr d1"
    "insertResponse response d1 = Inr d2" "conv_inv d2" "conversations d2 = conversations d1"
    "\<And>k. conv_rows d2 k = conv_rows d k" "responses d2 = responses d @ [row]"
    "encodeResponse response = Inr row"
    "insertPrepared uuid (c_id c0) (sr_completed response)
       (BuildConversationAppendItems (nextConversationItemSeq (c_id c0) d2) input output) n d2 =
       Inr (cis, n', d')"
    "insertAll cis d2 = Inr d'" "numbered (c_id c0) (nextConversationItemSeq (c_id c0) d2) cis"
proof -
  from sv obtain d1 d2 cis where p: "bumpVersion (c_id c0) (c_version c0) (sr_completed response) d = Inr d1"
    "insertResponse response d1 = Inr d2"
    "insertPrepared uuid (c_id c0) (sr_completed response)
       (BuildConversationAppendItems (nextConversationItemSeq (c_id c0) d2) input output) n d2 =
       Inr (cis, n', d')"
    by (auto simp: SaveResponseAndAppendConversation_def split: sum.splits)
  note b = bump_inv [OF inv p(1)]
  from insertResponse_Inr [OF p(2)] obtain row where
    r: "encodeResponse response = Inr row" "d2 = d1\<lparr>responses := responses d1 @ [row]\<rparr>" by blast
  have "conv_inv d2" using conv_inv_frame [OF b(1), of d2] r(2) by simp
  then show thesis
    using that [OF p(1,2) _ _ _ _ r(1) p(3)] insertPrepared_all [OF p(3) numbered_build] b r(2) by auto
qed

lemma save_append_written:
  assumes inv: "conv_inv d" and get: "GetConversation (c_id c0) d = Inr (c, old)"
    and sv: "SaveResponseAndAppendConversation uuid c0 response input output n d = Inr (n', d')"
    and stor: "\<And>cis d2 m. insertPrepared uuid (c_id c0) (sr_completed response)
       (BuildConversationAppendItems m input output) n d2 = Inr (cis, n', d') \<Longrightarrow>
       \<forall>ci \<in> set cis. storable (ci_item ci)"
  shows "\<exists>new. conv_written (c_id c0) c (sr_completed response) (old @ new) d d' \<and>
     length new = length input + length output"
proof (rule save_append_parts [OF inv sv])
  fix d1 d2 cis row
  assume a: "bumpVersion (c_id c0) (c_version c0) (sr_completed response) d = Inr d1"
    "conv_inv d2" "conversations d2 = conversations d1" "\<And>k. conv_rows d2 k = conv_rows d k"
    "insertPrepared uuid (c_id c0) (sr_completed response)
       (BuildConversationAppendItems (nextConversationItemSeq (c_id c0) d2) input output) n d2 =
       Inr (cis, n', d')"
    "insertAll cis d2 = Inr d'" "numbered (c_id c0) (nextConversationItemSeq (c_id c0) d2) cis"
  have "conv_written (c_id c0) c (sr_completed response) (old @ cis) d d'"
    using a stor [OF a(5)] by (intro written_insertAll [OF inv get a(1)]) auto
  moreover have "length cis = length input + length output"
    using insertPrepared_all [OF a(5) numbered_build]
    by (simp add: BuildConversationAppendItems_def numbered_items)
  ultimately show ?thesis by blast
qed

section \<open>Optimistic locking\<close>

text \<open>The writes of the store, as steps between databases.\<close>

inductive conv_step :: "(nat \<Rightarrow> string option) \<Rightarrow> db \<Rightarrow> db \<Rightarrow> bool" for uuid where
  create: "CreateConversation uuid c n d = Inr (n', d') \<Longrightarrow> conv_step uuid d d'"
| append: "AppendConversationItems uuid c items at n d = Inr (new, n', d') \<Longrightarrow> conv_step uuid d d'"
| delete: "DeleteConversationItem c itemID at d = Inr d' \<Longrightarrow> conv_step uuid d d'"
| save: "SaveResponseAndAppendConversation uuid c r input output n d = Inr (n', d') \<Longrightarrow>
    conv_step uuid d d'"

text \<open>Every conversation is as it was, or its version is higher.\<close>

definition advances :: "db \<Rightarrow> db \<Rightarrow> bool" where
  "advances d d' \<longleftrightarrow> conv_inv d' \<and> (\<forall>k row. tbl_find cr_id k (conversations d) = Some row \<longrightarrow>
     (\<exists>row'. tbl_find cr_id k (conversations d') = Some row' \<and>
        (row' = row \<and> conv_rows d' k = conv_rows d k \<or> cr_version row < cr_version row')))"

lemma advances_bump:
  assumes inv: "conv_inv d" and b: "bumpVersion cid v at d = Inr d1"
    and d2: "conv_inv d2" "conversations d2 = conversations d1" "\<And>k. k \<noteq> cid \<Longrightarrow> conv_rows d2 k = conv_rows d k"
  shows "advances d d2"
proof -
  have "distinct (map cr_id (conversations d))" using inv by (simp add: conv_inv_def)
  then obtain row rs where "tbl_find cr_id cid (conversations d) = Some row"
    "d1 = d\<lparr>conversations := rs\<rparr>"
    "\<And>k. tbl_find cr_id k rs =
       (if k = cid then Some (bump_row at row) else tbl_find cr_id k (conversations d))"
    using bumpVersion_Inr [OF _ b] by metis
  with d2 show ?thesis by (auto simp: advances_def bump_row_def)
qed

lemma insertAll_frame:
  assumes "conv_inv d" "insertAll cis d = Inr d'" "numbered cid (nextConversationItemSeq cid d) cis"
  shows "conv_inv d'" "conversations d' = conversations d" "k \<noteq> cid \<Longrightarrow> conv_rows d' k = conv_rows d k"
proof -
  obtain rs where rs: "d' = d\<lparr>conversation_items := conversation_items d @ rs\<rparr>"
    "list_all2 stored_row cis rs" using insertAll_rows [OF assms(2)] by blast
  have "\<forall>r \<in> set rs. ir_conversation r = cid"
    using stored_rows_conversation [OF rs(2)] numbered_mem [OF assms(3)] by blast
  with rs show "conversations d' = conversations d" "k \<noteq> cid \<Longrightarrow> conv_rows d' k = conv_rows d k"
    by (auto simp: filter_empty_conv)
  show "conv_inv d'" using conv_inv_insertAll [OF assms] next_seq [OF assms(1)] by blast
qed

lemma create_parts:
  assumes inv: "conv_inv d" and cr: "CreateConversation uuid c n d = Inr (n', d')"
  obtains row d1 cis where "d1 = d\<lparr>conversations := conversations d @ [row]\<rparr>" "cr_id row = c_id c"
    "cr_version row = c_version c" "cr_metadata row = Some (MarshalConversationMetadata (c_metadata c))"
    "cr_created row = c_created c" "cr_updated row = c_updated c"
    "c_id c \<notin> cr_id ` set (conversations d)" "conv_inv d1" "conv_rows d (c_id c) = []"
    "insertItems uuid ''conversation item'' (c_id c) ''seed'' (c_created c) 0 (c_items c) n d1 =
       Inr (cis, n', d')"
    "insertAll cis d1 = Inr d'" "numbered (c_id c) (nextConversationItemSeq (c_id c) d1) cis"
proof -
  let ?row = "\<lparr>cr_id = c_id c, cr_version = c_version c,
             cr_metadata = Some (MarshalConversationMetadata (c_metadata c)),
             cr_created = c_created c, cr_updated = c_updated c\<rparr>"
  let ?d1 = "d\<lparr>conversations := conversations d @ [?row]\<rparr>"
  from cr obtain cis where c: "c_id c \<notin> cr_id ` set (conversations d)"
    "insertItems uuid ''conversation item'' (c_id c) ''seed'' (c_created c) 0 (c_items c) n ?d1 =
       Inr (cis, n', d')"
    by (auto simp: CreateConversation_def dest!: tbl_insert_SomeD split: option.splits sum.splits)
  have rows: "conv_rows d (c_id c) = []"
    using inv c(1) unfolding conv_inv_def conv_rows_def filter_empty_conv by metis
  moreover have "conv_inv ?d1" using inv c(1) by (auto simp: conv_inv_def)
  moreover have "nextConversationItemSeq (c_id c) ?d1 = 0"
    using rows by (simp add: nextConversationItemSeq_def)
  ultimately show thesis
    using that [of ?d1 ?row cis] c insertItems_all [OF c(2)] by auto
qed

lemma advances_create:
  assumes inv: "conv_inv d" and cr: "CreateConversation uuid c n d = Inr (n', d')"
  shows "advances d d'"
proof (rule create_parts [OF assms])
  fix row d1 cis
  assume a: "d1 = d\<lparr>conversations := conversations d @ [row]\<rparr>" "cr_id row = c_id c"
    "c_id c \<notin> cr_id ` set (conversations d)" "conv_inv d1"
    "insertAll cis d1 = Inr d'" "numbered (c_id c) (nextConversationItemSeq (c_id c) d1) cis"
  have "k \<noteq> c_id c" if "tbl_find cr_id k (conversations d) = Some r" for k r
    using that a(3) tbl_find_None [of cr_id k "conversations d"] by (metis option.distinct(1))
  with a insertAll_frame [OF a(4-6)] show ?thesis
    by (auto simp: advances_def tbl_find_append)
qed

lemma conv_step_advances: "conv_step uuid d d' \<Longrightarrow> conv_inv d \<Longrightarrow> advances d d'"
proof (induction rule: conv_step.induct)
  case (create c n d n' d')
  then show ?case by (rule advances_create [rotated])
next
  case (append c items at n d new n' d')
  then obtain d1 where b: "bumpVersion (c_id c) (c_version c) at d = Inr d1"
    and "insertAll new d1 = Inr d'" "numbered (c_id c) (nextConversationItemSeq (c_id c) d1) new"
    using insertItems_all by (fastforce simp: AppendConversationItems_def split: sum.splits)
  then show ?case
    using append(2) bump_inv [OF append(2) b] insertAll_frame [of d1 new d' "c_id c"]
    by (intro advances_bump [OF _ b]) auto
next
  case (delete c itemID at d d')
  show ?case
    by (rule delete_parts [OF delete(2,1)]) (rule advances_bump [OF delete(2)], auto)
next
  case (save c r inp outp n d n' d')
  show ?case
  proof (rule save_append_parts [OF save(2,1)])
    fix d1 d2 cis
    assume a: "bumpVersion (c_id c) (c_version c) (sr_completed r) d = Inr d1" "conv_inv d2"
      "conversations d2 = conversations d1" "\<And>k. conv_rows d2 k = conv_rows d k"
      "insertAll cis d2 = Inr d'" "numbered (c_id c) (nextConversationItemSeq (c_id c) d2) cis"
    then show ?thesis
      using insertAll_frame [OF a(2,5,6)] by (intro advances_bump [OF save(2) a(1)]) auto
  qed
qed

abbreviation conv_run :: "(nat \<Rightarrow> string option) \<Rightarrow> db \<Rightarrow> db \<Rightarrow> bool" where
  "conv_run uuid \<equiv> (conv_step uuid)\<^sup>*\<^sup>*"

lemma advances_trans: "advances d d1 \<Longrightarrow> advances d1 d2 \<Longrightarrow> advances d d2"
  unfolding advances_def by (smt (verit, ccfv_threshold) order_less_trans)

lemma conv_run_advances: "conv_run uuid d d' \<Longrightarrow> conv_inv d \<Longrightarrow> advances d d'"
proof (induction rule: rtranclp_induct)
  case base
  then show ?case by (simp add: advances_def)
next
  case (step d1 d2)
  then have "advances d d1" by simp
  moreover from this have "conv_inv d1" by (simp add: advances_def)
  ultimately show ?case using step conv_step_advances advances_trans by blast
qed

lemma bump_unchanged:
  assumes inv: "conv_inv d" and get: "GetConversation cid d = Inr (c, old)"
    and run: "conv_run uuid d d1" and b: "bumpVersion cid (c_version c) at d1 = Inr d2"
  shows "GetConversation cid d1 = Inr (c, old)"
proof -
  have adv: "advances d d1" using conv_run_advances [OF run inv] .
  then have dist: "distinct (map cr_id (conversations d1))" by (simp add: advances_def conv_inv_def)
  obtain row where row: "tbl_find cr_id cid (conversations d) = Some row" "c_version c = cr_version row"
    using get_row [OF get] by auto
  obtain row' where "tbl_find cr_id cid (conversations d1) = Some row'" "cr_version row' = c_version c"
    using bumpVersion_Inr [OF dist b] by metis
  then have "tbl_find cr_id cid (conversations d1) = tbl_find cr_id cid (conversations d)"
    "conv_rows d1 cid = conv_rows d cid"
    using adv row unfolding advances_def by (metis less_irrefl option.inject)+
  then show ?thesis using GetConversation_cong get by metis
qed

section \<open>Creating and reading back\<close>

lemma insertItems_own_ids:
  "insertItems uuid what cid source at s items n d = Inr (cis, n', d') \<Longrightarrow>
     \<forall>it \<in> set items. Item_ID it \<noteq> [] \<Longrightarrow> map ci_item cis = items \<and> map ci_id cis = map Item_ID items \<and> n' = n"
  by (induction uuid what cid source at s items n d arbitrary: cis n' d' rule: insertItems.induct)
    (auto simp: Let_def itemWithID_def split: sum.splits prod.splits)

text \<open>Items that bring fresh, distinct identifiers are inserted without error.\<close>

definition fresh_items :: "item list \<Rightarrow> db \<Rightarrow> bool" where
  "fresh_items items d \<longleftrightarrow> (\<forall>it \<in> set items. Item_ID it \<noteq> [] \<and> storable it \<and>
     \<not> tbl_has ir_id (Item_ID it) (conversation_items d)) \<and> distinct (map Item_ID items)"

lemma insertItems_ok:
  assumes "fresh_items items d" "cid \<in> cr_id ` set (conversations d)"
    and "\<forall>r \<in> set (conv_rows d cid). ir_seq r < s"
  shows "\<exists>cis d'. insertItems uuid what cid source at s items n d = Inr (cis, n, d')"
  using assms
proof (induction items arbitrary: s d)
  case (Cons it items)
  let ?ci = "\<lparr>ci_id = Item_ID it, ci_conversation = cid, ci_seq = s, ci_source = source,
     ci_role = iRole it, ci_type = iType it, ci_item = it, ci_created = at\<rparr>"
  obtain json where "MarshalStoredItem it = Inr json"
    using Cons.prems(1) stored_item_roundtrip_aux [of it] by (auto simp: fresh_items_def)
  then have r: "stored_row ?ci (item_row_of ?ci json)" by (simp add: stored_row_def)
  let ?d = "d\<lparr>conversation_items := conversation_items d @ [item_row_of ?ci json]\<rparr>"
  have ins: "insertConversationItem ?ci d = Inr ?d"
    using Cons.prems r by (auto simp: insertConversationItem_Inr_iff fresh_items_def tbl_has_iff)
  have "fresh_items items ?d"
    using Cons.prems(1) stored_row_fields [OF r]
    by (auto simp: fresh_items_def tbl_has_iff) (metis image_eqI)
  moreover have "\<forall>r \<in> set (conv_rows ?d cid). ir_seq r < s + 1"
    using Cons.prems(3) stored_row_fields [OF r] by auto
  ultimately obtain cis d' where "insertItems uuid what cid source at (s + 1) items n ?d = Inr (cis, n, d')"
    using Cons.IH [of ?d "s + 1"] Cons.prems(2) by auto
  with ins Cons.prems(1) show ?case by (simp add: itemWithID_def fresh_items_def Let_def)
qed simp

lemma create_ok:
  assumes inv: "conv_inv d" and c: "c_id c \<notin> cr_id ` set (conversations d)" "fresh_items (c_items c) d"
  shows "\<exists>d'. CreateConversation uuid c n d = Inr (n, d')"
proof -
  let ?row = "\<lparr>cr_id = c_id c, cr_version = c_version c,
             cr_metadata = Some (MarshalConversationMetadata (c_metadata c)),
             cr_created = c_created c, cr_updated = c_updated c\<rparr>"
  let ?d1 = "d\<lparr>conversations := conversations d @ [?row]\<rparr>"
  have rows: "conv_rows d (c_id c) = []"
    using inv c(1) unfolding conv_inv_def conv_rows_def filter_empty_conv by metis
  have "fresh_items (c_items c) ?d1" using c(2) by (simp add: fresh_items_def)
  then obtain cis d' where "insertItems uuid ''conversation item'' (c_id c) ''seed'' (c_created c) 0
      (c_items c) n ?d1 = Inr (cis, n, d')"
    using insertItems_ok [of "c_items c" ?d1 "c_id c" 0] rows by fastforce
  with c(1) show ?thesis by (simp add: CreateConversation_def tbl_insert_def tbl_has_iff)
qed

lemma create_written:
  assumes inv: "conv_inv d" and cr: "CreateConversation uuid c n d = Inr (n', d')"
    and ids: "\<forall>it \<in> set (c_items c). Item_ID it \<noteq> [] \<and> storable it"
    and md: "gomap_wf (c_metadata c)" and obj: "c_object c = ''conversation''"
  shows "conv_inv d' \<and> (\<exists>cis. GetConversation (c_id c) d' = Inr (c, cis) \<and> map ci_id cis = map Item_ID (c_items c)) \<and>
     (\<forall>k. k \<noteq> c_id c \<longrightarrow> GetConversation k d' = GetConversation k d)"
proof (rule create_parts [OF inv cr])
  fix row d1 cis
  assume a: "d1 = d\<lparr>conversations := conversations d @ [row]\<rparr>" "cr_id row = c_id c"
    "cr_version row = c_version c" "cr_metadata row = Some (MarshalConversationMetadata (c_metadata c))"
    "cr_created row = c_created c" "cr_updated row = c_updated c"
    "c_id c \<notin> cr_id ` set (conversations d)" "conv_inv d1" "conv_rows d (c_id c) = []"
    "insertItems uuid ''conversation item'' (c_id c) ''seed'' (c_created c) 0 (c_items c) n d1 =
       Inr (cis, n', d')"
    "insertAll cis d1 = Inr d'" "numbered (c_id c) (nextConversationItemSeq (c_id c) d1) cis"
  note own = insertItems_own_ids [OF a(10)]
  have own: "map ci_item cis = c_items c" "map ci_id cis = map Item_ID (c_items c)"
    using own ids by auto
  note fr = insertAll_frame [OF a(8,11,12)]
  obtain rs where rs: "d' = d1\<lparr>conversation_items := conversation_items d1 @ rs\<rparr>"
    "list_all2 stored_row cis rs" using insertAll_rows [OF a(11)] by blast
  have "\<forall>r \<in> set rs. ir_conversation r = c_id c"
    using stored_rows_conversation [OF rs(2)] numbered_mem [OF a(12)] by blast
  then have rows: "conv_rows d' (c_id c) = rs" using rs(1) a(1,9) by (auto simp: conv_rows_def filter_id_conv)
  have "set (c_items c) = ci_item ` set cis" using own(1) by (metis set_map)
  then have "scanConversationItems rs = Inr cis" using ids by (intro stored_rows_scan [OF rs(2)]) auto
  moreover have "tbl_find cr_id (c_id c) (conversations d) = None" using a(7) by (simp add: tbl_find_None)
  then have "tbl_find cr_id (c_id c) (conversations d') = Some row"
    using fr(2) a(1,2) by (simp add: tbl_find_append tbl_find_single)
  moreover have "UnmarshalConversationMetadata (MarshalConversationMetadata (c_metadata c)) = Inr (c_metadata c)"
    using md by (simp add: UnmarshalConversationMetadata_def MarshalConversationMetadata_def
        string_entries_JStr gomap_of_wf)
  ultimately have "GetConversation (c_id c) d' = Inr (c, cis)"
    unfolding GetConversation_Inr_iff [OF fr(1)] using a(3-6) rows own obj
    by (intro exI [of _ row] exI [of _ "c_metadata c"]) (simp add: coalesce_def)
  moreover have "GetConversation k d' = GetConversation k d" if "k \<noteq> c_id c" for k
    using that fr(2,3) a(1,2) by (intro GetConversation_cong)
      (auto simp: tbl_find_append tbl_find_single split: option.splits)
  ultimately show ?thesis using own(2) fr(1) by blast
qed

lemma append_ok:
  assumes inv: "conv_inv d" and get: "GetConversation (c_id c) d = Inr (c, old)"
    and fresh: "fresh_items items d"
  shows "\<exists>new d'. AppendConversationItems uuid c items at n d = Inr (new, n, d') \<and> map ci_item new = items"
proof -
  have dist: "distinct (map cr_id (conversations d))" using inv by (simp add: conv_inv_def)
  obtain row where row: "tbl_find cr_id (c_id c) (conversations d) = Some row" "c_version c = cr_version row"
    using get_row [OF get] by auto
  with bumpVersion_Inl [OF dist] obtain d1 where b: "bumpVersion (c_id c) (c_version c) at d = Inr d1"
    by (cases "bumpVersion (c_id c) (c_version c) at d") auto
  note b1 = bump_inv [OF inv b]
  obtain rs where rs: "d1 = d\<lparr>conversations := rs\<rparr>" "map cr_id rs = map cr_id (conversations d)"
    using bumpVersion_Inr [OF dist b] by metis
  have "c_id c \<in> cr_id ` set (conversations d)"
    using row(1) tbl_find_None [of cr_id "c_id c" "conversations d"] by (metis option.distinct(1))
  then have "c_id c \<in> cr_id ` set (conversations d1)" using rs by (metis db.select_convs(1) db.surjective db.update_convs(1) set_map)
  moreover have "fresh_items items d1" using fresh b1(2) by (simp add: fresh_items_def)
  ultimately obtain new d' where "insertItems uuid ''appended conversation item'' (c_id c) ''append'' at
            (nextConversationItemSeq (c_id c) d1) items n d1 = Inr (new, n, d')"
    using insertItems_ok next_seq(2) [OF b1(1)] by blast
  moreover from this have "map ci_item new = items"
    using insertItems_own_ids fresh by (auto simp: fresh_items_def)
  ultimately show ?thesis using b by (simp add: AppendConversationItems_def)
qed

section \<open>Paging\<close>

lemma scan_id: "scanConversationItem r = Inr ci \<Longrightarrow> ci_id ci = ir_id r"
  by (auto simp: scanConversationItem_def split: sum.splits)

lemma tbl_find_has: "tbl_find key k t = Some r \<Longrightarrow> k \<in> key ` set t"
  using tbl_find_None [of key k t] by (metis option.distinct(1))

lemma filter_after:
  fixes f :: "'a \<Rightarrow> int"
  assumes "sorted_wrt (<) (map f xs)" "i < length xs"
  shows "filter (\<lambda>r. f r > f (xs ! i)) xs = drop (Suc i) xs"
  using assms
proof (induction xs arbitrary: i)
  case (Cons x xs)
  show ?case
  proof (cases i)
    case 0
    with Cons.prems show ?thesis by (auto simp: filter_id_conv)
  next
    case (Suc j)
    with Cons.prems have "f x < f (xs ! j)" by simp
    then have "\<not> f (xs ! j) < f x" by simp
    with Cons Suc show ?thesis by simp
  qed
qed simp

lemma filter_before:
  fixes f :: "'a \<Rightarrow> int"
  assumes "sorted_wrt (<) (map f xs)" "i < length xs"
  shows "filter (\<lambda>r. f r < f (xs ! i)) xs = take i xs"
  using assms
proof (induction xs arbitrary: i)
  case (Cons x xs)
  show ?case
  proof (cases i)
    case 0
    with Cons.prems show ?thesis by (fastforce simp: filter_empty_conv)
  next
    case (Suc j)
    with Cons.prems have "f x < f (xs ! j)" by simp
    with Cons Suc show ?thesis by simp
  qed
qed simp

lemma sorted_rows_sub:
  assumes "sorted_wrt (<) (map ir_seq rows)"
  shows "sort_key ir_seq (drop k rows) = drop k rows" "sort_key ir_seq (take k rows) = take k rows"
proof -
  have "sorted (map ir_seq rows)" using assms by (rule strict_sorted_imp_sorted)
  then show "sort_key ir_seq (drop k rows) = drop k rows" "sort_key ir_seq (take k rows) = take k rows"
    by (simp_all add: sort_key_id_if_sorted sorted_wrt_drop sorted_wrt_take flip: drop_map take_map)
qed

lemma filter_unique:
  "distinct (map f xs) \<Longrightarrow> i < length xs \<Longrightarrow> filter (\<lambda>r. f r = f (xs ! i)) xs = [xs ! i]"
proof (induction xs arbitrary: i)
  case (Cons x xs)
  show ?case
  proof (cases i)
    case 0
    with Cons.prems show ?thesis by (auto simp: filter_empty_conv image_iff)
  next
    case (Suc j)
    with Cons.prems have "f x \<noteq> f (xs ! j)" by (auto simp: image_iff)
    with Cons Suc show ?thesis by simp
  qed
qed simp

lemma lookup_seq:
  assumes inv: "conv_inv d" and i: "i < length (conv_rows d cid)"
  shows "lookupConversationItemSeq cid (ir_id (conv_rows d cid ! i)) d = Inr (ir_seq (conv_rows d cid ! i))"
proof -
  have "distinct (map ir_id (conv_rows d cid))"
    using inv by (simp add: conv_inv_def conv_rows_def distinct_map_filter)
  from filter_unique [OF this i] show ?thesis by (simp add: lookupConversationItemSeq_def)
qed

text \<open>Which rows a page query sees, before its limit: the whole conversation in the order asked for,
  or what follows the cursor in that order.\<close>

definition page_start :: "conversation_item list \<Rightarrow> string \<Rightarrow> nat \<Rightarrow> bool" where
  "page_start items after k \<longleftrightarrow>
     after = [] \<and> k = 0 \<or> 0 < k \<and> k \<le> length items \<and> after \<noteq> [] \<and> after = ci_id (items ! (k - 1))"

definition in_order :: "string \<Rightarrow> 'a list \<Rightarrow> 'a list" where
  "in_order order xs = (if order = ''desc'' then rev xs else xs)"

lemma order_upper: "to_upper ''asc'' = ''ASC''" "to_upper ''desc'' = ''DESC''"
  by code_simp+

lemma page_rows:
  assumes inv: "conv_inv d" and scan: "scanConversationItems (conv_rows d cid) = Inr cis"
    and ord: "order = ''asc'' \<or> order = ''desc''" and start: "page_start (in_order order cis) after k"
  shows "\<exists>s. (if after \<noteq> [] then lookupConversationItemSeq cid after d else Inr (- 1)) = Inr s \<and>
     order_rows (to_upper order) (if after = [] then conv_rows d cid
        else if order = ''desc'' then filter (\<lambda>r. ir_seq r < s) (conv_rows d cid)
        else filter (\<lambda>r. ir_seq r > s) (conv_rows d cid)) =
     Some (drop k (in_order order (conv_rows d cid)))"
proof (cases "after = []")
  case True
  with ord inv start show ?thesis
    by (auto simp: page_start_def in_order_def order_rows_def order_upper)
next
  case False
  let ?rows = "conv_rows d cid"
  have len: "length cis = length ?rows" using map_res_length [OF scan] .
  have srt: "sorted_wrt (<) (map ir_seq ?rows)" using conv_inv_sorted [OF inv] .
  have id_eq: "ci_id (cis ! i) = ir_id (?rows ! i)" if "i < length ?rows" for i
    using scan_id [OF map_res_nth [OF scan that]] .
  let ?i = "if order = ''desc'' then length cis - k else k - 1"
  have k: "0 < k" "k \<le> length cis" "?i < length ?rows" and "after = ci_id (cis ! ?i)"
    using False start len by (auto simp: page_start_def in_order_def rev_nth split: if_splits)
  then have look: "lookupConversationItemSeq cid after d = Inr (ir_seq (?rows ! ?i))"
    using lookup_seq [OF inv k(3)] id_eq [OF k(3)] by simp
  show ?thesis
    using False look ord k len filter_after [OF srt k(3)] filter_before [OF srt k(3)]
    by (auto simp: order_rows_def order_upper in_order_def sorted_rows_sub [OF srt] rev_take)
qed

lemma list_items_page_aux:
  assumes inv: "conv_inv d" and get: "GetConversation (q_conversation q) d = Inr (c, cis)"
    and ord: "q_order q = ''asc'' \<or> q_order q = ''desc''" and lim: "0 \<le> q_limit q"
    and start: "page_start (in_order (q_order q) cis) (q_after q) k"
  shows "ListConversationItems q d = Inr \<lparr>p_items = take (nat (q_limit q)) (drop k (in_order (q_order q) cis)),
     p_more = (q_limit q < int (length cis - k))\<rparr>"
proof -
  let ?cid = "q_conversation q" and ?o = "in_order (q_order q)"
  have scan: "scanConversationItems (conv_rows d ?cid) = Inr cis"
    using get by (auto simp: GetConversation_Inr_iff [OF inv])
  have ex: "ensureConversationExists ?cid d = Inr ()"
    using get_row [OF get] by (auto simp: ensureConversationExists_def tbl_has_iff dest: tbl_find_has)
  obtain s where s: "(if q_after q \<noteq> [] then lookupConversationItemSeq ?cid (q_after q) d else Inr (- 1)) = Inr s"
    "order_rows (to_upper (q_order q)) (if q_after q = [] then conv_rows d ?cid
        else if q_order q = ''desc'' then filter (\<lambda>r. ir_seq r < s) (conv_rows d ?cid)
        else filter (\<lambda>r. ir_seq r > s) (conv_rows d ?cid)) = Some (drop k (?o (conv_rows d ?cid)))"
    using page_rows [OF inv scan ord start] by blast
  have "scanConversationItems (sql_limit (q_limit q + 1) (drop k (?o (conv_rows d ?cid)))) =
      Inr (take (nat (q_limit q + 1)) (drop k (?o cis)))"
    using scan lim
    by (auto simp: map_res_Inr_iff sql_limit_def in_order_def intro!: list_all2_takeI list_all2_dropI)
  then show ?thesis
    using lim unfolding ListConversationItems_def ex s Let_def
    by (auto simp: s in_order_def min_def nat_add_distrib)
qed

lemma scan_ids: "scanConversationItems rows = Inr cis \<Longrightarrow> map ir_id rows = map ci_id cis"
  by (induction rows arbitrary: cis) (auto simp: scan_id split: sum.splits)

section \<open>Properties\<close>

definition sample_conversation :: conversation where
  "sample_conversation = \<lparr>c_id = ''conv_1'', c_object = ''conversation'', c_metadata = [],
     c_items = [sample_item], c_version = 1, c_created = ''t0'', c_updated = ''t0''\<rparr>"

definition sample_item2 :: item where
  "sample_item2 = \<lparr>iRaw = RawJson (JObj [(''id'', JStr ''i2''), (''type'', JStr ''shell_call'')]),
     iMeta = Some (empty_meta\<lparr>transport := ''local_builtin''\<rparr>), iType = ''shell_call'', iRole = [],
     iContent = []\<rparr>"

lemma sample_item2_storable: "storable sample_item2"
proof -
  have "fold_case ''id'' = ''id''" by (simp add: fold_case.simps lower_char_def)
  moreover have "trim_space ''shell_call'' = ''shell_call''" by (simp add: trim_space_word)
  ultimately show ?thesis
    by (simp add: storable_def item_wf_def meta_wf_def sample_item2_def empty_meta_def gomap_wf_def
        NewItem_def key_folds Let_def looksLikeMessageItem_def raw_absent_def extractTextParts_def)
qed

lemma sample_ids: "Item_ID sample_item = ''i1''" "Item_ID sample_item2 = ''i2''"
  by (simp_all add: Item_StringField_def Item_RawField_def sample_item_def sample_item2_def
      raw_entry_def map_of_gomap_of trim_space_word)


definition sample_db :: db where
  "sample_db = empty_db\<lparr>
     conversations := [\<lparr>cr_id = ''conv_1'', cr_version = 1, cr_metadata = Some (RawJson (JObj [])),
       cr_created = ''t0'', cr_updated = ''t0''\<rparr>],
     conversation_items := [\<lparr>ir_id = ''i1'', ir_conversation = ''conv_1'', ir_seq = 0, ir_source = ''seed'',
       ir_role = None, ir_type = ''shell_call'', ir_json = RawJson (JObj [(storedItemEnvelopeKey,
         JObj [(''item'', JObj [(''id'', JStr ''i1''), (''type'', JStr ''shell_call'')]),
               (''meta'', JObj [(''transport'', JStr ''local_builtin'')])])]),
       ir_created = ''t0''\<rparr>]\<rparr>"

definition sample_stored :: conversation_item where
  "sample_stored = \<lparr>ci_id = ''i1'', ci_conversation = ''conv_1'', ci_seq = 0, ci_source = ''seed'',
     ci_role = [], ci_type = ''shell_call'', ci_item = sample_item, ci_created = ''t0''\<rparr>"

lemma sample_created: "CreateConversation (\<lambda>_. None) sample_conversation 0 empty_db = Inr (0, sample_db)"
  by (simp add: CreateConversation_def sample_conversation_def empty_db_def sample_db_def tbl_insert_def
      tbl_has_def MarshalConversationMetadata_def itemWithID_def sample_ids insertConversationItem_def
      conv_rows_def MarshalStoredItem_def sample_item_def Item_MarshalJSON_def meta_json_def empty_meta_def
      opt_str_def item_row_of_def nullableString_def Item_StringField_def Item_RawField_def raw_entry_def
      map_of_gomap_of trim_space_word)

lemma sample_read: "GetConversation ''conv_1'' sample_db = Inr (sample_conversation, [sample_stored])"
proof -
  have "fold_case ''id'' = ''id''" by (simp add: fold_case.simps lower_char_def)
  then show ?thesis
    by (simp add: GetConversation_def sample_db_def empty_db_def tbl_find_def conv_rows_def coalesce_def
        UnmarshalConversationMetadata_def string_entries_def scanConversationItem_def
        UnmarshalStoredItem_def raw_absent_def gomap_of_def key_folds meta_into_def NewItem_def Let_def
        empty_meta_def looksLikeMessageItem_def trim_space_word extractTextParts_def
        sample_conversation_def sample_stored_def sample_item_def)
qed

lemma sample_inv: "conv_inv sample_db"
  by (simp add: conv_inv_def sample_db_def empty_db_def conv_rows_def)

lemma sample_fresh: "fresh_items [sample_item2] sample_db"
  using sample_item2_storable by (simp add: fresh_items_def sample_ids sample_db_def tbl_has_def)

text \<open>A conversation that is created with items that carry fresh identifiers is stored without
  error, reads back as it was given, and no other conversation changes.\<close>

theorem create_conversation_reads_back:
  assumes "conv_inv d" "c_id c \<notin> cr_id ` set (conversations d)" "fresh_items (c_items c) d"
    and "gomap_wf (c_metadata c)" "c_object c = ''conversation''"
  shows "\<exists>d' cis. CreateConversation uuid c n d = Inr (n, d') \<and> conv_inv d' \<and>
     GetConversation (c_id c) d' = Inr (c, cis) \<and> map ci_id cis = map Item_ID (c_items c) \<and>
     (\<forall>k. k \<noteq> c_id c \<longrightarrow> GetConversation k d' = GetConversation k d)"
proof -
  obtain d' where d': "CreateConversation uuid c n d = Inr (n, d')" using create_ok [OF assms(1-3)] by blast
  have "\<forall>it \<in> set (c_items c). Item_ID it \<noteq> [] \<and> storable it" using assms(3) by (simp add: fresh_items_def)
  from d' create_written [OF assms(1) d' this assms(4,5)] show ?thesis by blast
qed

theorem create_conversation_reads_back_witness:
  "\<exists>d' cis. CreateConversation (\<lambda>_. None) sample_conversation 7 empty_db = Inr (7, d') \<and> conv_inv d' \<and>
     GetConversation (c_id sample_conversation) d' = Inr (sample_conversation, cis) \<and>
     map ci_id cis = map Item_ID (c_items sample_conversation) \<and>
     (\<forall>k. k \<noteq> c_id sample_conversation \<longrightarrow> GetConversation k d' = GetConversation k empty_db)"
  using sample_item_storable conv_inv_empty
  by (intro create_conversation_reads_back)
    (simp_all add: fresh_items_def sample_conversation_def empty_db_def tbl_has_def sample_ids gomap_wf_def)

text \<open>Appending to a conversation that was read at its current version succeeds when the items
  carry fresh identifiers; the conversation then has the new items after the old ones, its version
  is one higher, and no other conversation changes.\<close>

theorem append_items_appends:
  assumes "conv_inv d" "GetConversation cid d = Inr (c, old)" "fresh_items items d"
  shows "\<exists>new d'. AppendConversationItems uuid c items at n d = Inr (new, n, d') \<and>
     map ci_item new = items \<and> conv_inv d' \<and>
     GetConversation cid d' = Inr (c\<lparr>c_version := c_version c + 1, c_updated := at,
        c_items := c_items c @ items\<rparr>, old @ new) \<and>
     (\<forall>k. k \<noteq> cid \<longrightarrow> GetConversation k d' = GetConversation k d)"
proof -
  have cid: "c_id c = cid" using get_row [OF assms(2)] by blast
  then have get: "GetConversation (c_id c) d = Inr (c, old)" using assms(2) by simp
  obtain new d' where w: "AppendConversationItems uuid c items at n d = Inr (new, n, d')" "map ci_item new = items"
    using append_ok [OF assms(1) get assms(3)] by blast
  have "\<forall>ci \<in> set new. storable (ci_item ci)" using assms(3) w(2) by (auto simp: fresh_items_def)
  from append_written [OF assms(1) get w(1) this] have "conv_written cid c at (old @ new) d d'"
    using cid by simp
  moreover have "touched c at (old @ new) =
      c\<lparr>c_version := c_version c + 1, c_updated := at, c_items := c_items c @ items\<rparr>"
    using assms(2) w(2) by (auto simp: touched_def GetConversation_Inr_iff [OF assms(1)])
  ultimately show ?thesis using w by (auto simp: conv_written_def)
qed

theorem append_items_appends_witness:
  "\<exists>new d'. AppendConversationItems (\<lambda>_. None) sample_conversation [sample_item2] ''t1'' 0 sample_db =
       Inr (new, 0, d') \<and> map ci_item new = [sample_item2] \<and> conv_inv d' \<and>
     GetConversation ''conv_1'' d' = Inr (sample_conversation\<lparr>c_version := c_version sample_conversation + 1,
        c_updated := ''t1'', c_items := c_items sample_conversation @ [sample_item2]\<rparr>, [sample_stored] @ new) \<and>
     (\<forall>k. k \<noteq> ''conv_1'' \<longrightarrow> GetConversation k d' = GetConversation k sample_db)"
  by (rule append_items_appends [OF sample_inv sample_read sample_fresh])

text \<open>Deleting an item of a conversation that was read at its current version succeeds, removes
  exactly that item, raises the version by one and leaves every other conversation as it was; an
  identifier the conversation does not have gives the not-found error.\<close>

theorem delete_item_removes:
  assumes "conv_inv d" "GetConversation cid d = Inr (c, old)"
  shows "if itemID \<in> set (map ci_id old)
     then \<exists>d'. DeleteConversationItem c itemID at d = Inr d' \<and> conv_inv d' \<and>
       GetConversation cid d' = Inr (c\<lparr>c_version := c_version c + 1, c_updated := at,
          c_items := map ci_item (filter (\<lambda>ci. ci_id ci \<noteq> itemID) old)\<rparr>,
          filter (\<lambda>ci. ci_id ci \<noteq> itemID) old) \<and>
       (\<forall>k. k \<noteq> cid \<longrightarrow> GetConversation k d' = GetConversation k d)
     else DeleteConversationItem c itemID at d = Inl StorageErrNotFound"
proof -
  have dist: "distinct (map cr_id (conversations d))" using assms(1) by (simp add: conv_inv_def)
  obtain row where row: "tbl_find cr_id cid (conversations d) = Some row" "c_version c = cr_version row"
    "c_id c = cid" using get_row [OF assms(2)] by blast
  with bumpVersion_Inl [OF dist] obtain d1 where b: "bumpVersion cid (c_version c) at d = Inr d1"
    by (cases "bumpVersion cid (c_version c) at d") auto
  note b1 = bump_inv [OF assms(1) b]
  have "scanConversationItems (conv_rows d cid) = Inr old"
    using assms(2) by (auto simp: GetConversation_Inr_iff [OF assms(1)])
  then have "map ir_id (conv_rows d cid) = map ci_id old"
    by (rule scan_ids)
  then have "set (map ci_id old) = ir_id ` set (conv_rows d cid)" by (metis set_map)
  then have "itemID \<in> set (map ci_id old) \<longleftrightarrow>
      (\<exists>r \<in> set (conversation_items d1). ir_conversation r = cid \<and> ir_id r = itemID)"
    unfolding b1(2) by (auto simp: conv_rows_mem image_iff)
  then have res: "DeleteConversationItem c itemID at d = (if itemID \<in> set (map ci_id old)
      then Inr (d1\<lparr>conversation_items := filter (\<lambda>r. \<not> (ir_conversation r = cid \<and> ir_id r = itemID))
        (conversation_items d1)\<rparr>)
      else Inl StorageErrNotFound)"
    using b row(3) by (auto simp: DeleteConversationItem_def tbl_delete_def filter_empty_conv)
  have get: "GetConversation (c_id c) d = Inr (c, old)" using assms(2) row(3) by simp
  show ?thesis
  proof (cases "itemID \<in> set (map ci_id old)")
    case True
    then obtain d' where d': "DeleteConversationItem c itemID at d = Inr d'" using res by simp
    from True d' delete_written [OF assms(1) get d'] row(3) show ?thesis
      by (auto simp: conv_written_def touched_def)
  qed (simp add: res)
qed

theorem delete_item_removes_witness:
  "\<exists>d'. DeleteConversationItem sample_conversation ''i1'' ''t1'' sample_db = Inr d' \<and>
     GetConversation ''conv_1'' d' = Inr (sample_conversation\<lparr>c_version := 2, c_updated := ''t1'', c_items := []\<rparr>, [])"
  using delete_item_removes [OF sample_inv sample_read, of "''i1''" "''t1''"]
  by (auto simp: sample_stored_def sample_conversation_def)

text \<open>C1: optimistic locking. Whatever writes happen between reading a conversation and writing it
  back, an append, a deletion or a response save that succeeds finds the conversation exactly as it
  was read: no update is lost.\<close>

theorem no_lost_update:
  assumes "conv_inv d" "GetConversation cid d = Inr (c, old)" "conv_run uuid d d1"
    and "(\<exists>items at n r. AppendConversationItems uuid c items at n d1 = Inr r) \<or>
         (\<exists>itemID at r. DeleteConversationItem c itemID at d1 = Inr r) \<or>
         (\<exists>resp inp outp n r. SaveResponseAndAppendConversation uuid c resp inp outp n d1 = Inr r)"
  shows "GetConversation cid d1 = Inr (c, old)"
proof -
  have cid: "c_id c = cid" using get_row [OF assms(2)] by blast
  have "\<exists>at d2. bumpVersion cid (c_version c) at d1 = Inr d2"
    using assms(4) cid
    by (elim disjE exE) (auto simp: AppendConversationItems_def DeleteConversationItem_def
        SaveResponseAndAppendConversation_def split: sum.splits)
  then show ?thesis using bump_unchanged [OF assms(1-3)] by blast
qed

theorem no_lost_update_witness:
  "(\<exists>r. DeleteConversationItem sample_conversation ''i1'' ''t1'' sample_db = Inr r) \<and>
   GetConversation ''conv_1'' sample_db = Inr (sample_conversation, [sample_stored])"
proof -
  have "\<exists>r. DeleteConversationItem sample_conversation ''i1'' ''t1'' sample_db = Inr r"
    by (simp add: DeleteConversationItem_def bumpVersion_def tbl_update_def tbl_delete_def
        sample_db_def sample_conversation_def empty_db_def)
  then show ?thesis
    using no_lost_update [OF sample_inv sample_read, of "\<lambda>_. None" sample_db] by blast
qed

text \<open>Of two writers that read the same version only the first wins: after a successful append,
  every later write with the version read before fails with the conflict error.\<close>

theorem stale_writer_conflicts:
  assumes "conv_inv d" "AppendConversationItems uuid c items at n d = Inr (new, n', d1)"
    and "conv_run uuid d1 d2" "c_id c' = c_id c" "c_version c' \<le> c_version c"
  shows "AppendConversationItems uuid c' items' at' n'' d2 = Inl StorageErrConflict \<and>
     DeleteConversationItem c' itemID at' d2 = Inl StorageErrConflict \<and>
     SaveResponseAndAppendConversation uuid c' resp inp outp n'' d2 = Inl StorageErrConflict"
proof -
  have dist: "distinct (map cr_id (conversations d))" using assms(1) by (simp add: conv_inv_def)
  have inv1: "conv_inv d1"
    using conv_step_advances [OF conv_step.append [OF assms(2)] assms(1)] by (simp add: advances_def)
  have adv: "advances d1 d2" using conv_run_advances [OF assms(3) inv1] .
  obtain d0 where b: "bumpVersion (c_id c) (c_version c) at d = Inr d0"
    and "insertAll new d0 = Inr d1" "numbered (c_id c) (nextConversationItemSeq (c_id c) d0) new"
    using assms(2) insertItems_all by (fastforce simp: AppendConversationItems_def split: sum.splits)
  then have conv: "conversations d1 = conversations d0"
    using insertAll_frame bump_inv [OF assms(1) b] by blast
  obtain row rs where row: "cr_version row = c_version c" "d0 = d\<lparr>conversations := rs\<rparr>"
    "tbl_find cr_id (c_id c) rs = Some (bump_row at row)"
    by (rule bumpVersion_Inr [OF dist b]) simp
  obtain row2 where row2: "tbl_find cr_id (c_id c) (conversations d2) = Some row2"
    "cr_version (bump_row at row) \<le> cr_version row2"
    using adv row(2,3) conv unfolding advances_def by fastforce
  have "distinct (map cr_id (conversations d2))" using adv by (simp add: advances_def conv_inv_def)
  then have "bumpVersion (c_id c') (c_version c') t d2 = Inl StorageErrConflict" for t
    using row(1) row2 assms(4,5) by (auto simp: bumpVersion_Inl bump_row_def)
  then show ?thesis
    by (simp add: AppendConversationItems_def DeleteConversationItem_def SaveResponseAndAppendConversation_def)
qed

theorem stale_writer_conflicts_witness:
  "\<exists>new d1. AppendConversationItems (\<lambda>_. None) sample_conversation [sample_item2] ''t1'' 0 sample_db =
      Inr (new, 0, d1) \<and>
    DeleteConversationItem sample_conversation ''i1'' ''t2'' d1 = Inl StorageErrConflict"
proof -
  have "c_id sample_conversation = ''conv_1''" by (simp add: sample_conversation_def)
  then have id_read: "GetConversation (c_id sample_conversation) sample_db =
      Inr (sample_conversation, [sample_stored])" using sample_read by simp
  obtain new d1 where a: "AppendConversationItems (\<lambda>_. None) sample_conversation [sample_item2] ''t1'' 0
      sample_db = Inr (new, 0, d1)"
    using append_ok [OF sample_inv id_read sample_fresh] by blast
  from stale_writer_conflicts [OF sample_inv a rtranclp.rtrancl_refl refl order_refl] a show ?thesis by blast
qed

text \<open>Paging. With no cursor a page starts at the first item in the order asked for, with the
  identifier of the \<open>k\<close>-th item as the cursor it starts right after that item; it has the next items
  up to the limit and says whether more follow. Pages chained by their last item therefore visit
  every item once.\<close>

theorem list_items_page:
  assumes "conv_inv d" "GetConversation (q_conversation q) d = Inr (c, cis)"
    and "q_order q = ''asc'' \<or> q_order q = ''desc''" "0 \<le> q_limit q"
    and "page_start (in_order (q_order q) cis) (q_after q) k"
  shows "ListConversationItems q d = Inr \<lparr>p_items = take (nat (q_limit q)) (drop k (in_order (q_order q) cis)),
     p_more = (q_limit q < int (length cis - k))\<rparr>"
  using assms by (rule list_items_page_aux)

theorem list_items_page_witness:
  "ListConversationItems \<lparr>q_conversation = ''conv_1'', q_after = [], q_limit = 5, q_order = ''desc''\<rparr> sample_db =
     Inr \<lparr>p_items = [sample_stored], p_more = False\<rparr>"
  using list_items_page [OF sample_inv, of "\<lparr>q_conversation = ''conv_1'', q_after = [], q_limit = 5, q_order = ''desc''\<rparr>"
      sample_conversation "[sample_stored]" 0] sample_read
  by (simp add: page_start_def in_order_def)

end
