(* ===== verification/Response_Store.thy ===== *)
theory Response_Store
  imports Conversation_Store "HOL-Library.Multiset"
begin

text \<open>
  The response tables of the SQLite store, \<^verbatim>\<open>internal/storage/sqlite/responses.go\<close> and
  \<^verbatim>\<open>response_replay_artifacts.go\<close>: saving and reading responses, the chain of previous responses
  with its cycle check and limit, deletion with its cascade, and the bounded replay artifacts.
\<close>

section \<open>Responses\<close>

text \<open>\<^verbatim>\<open>INSERT ... ON CONFLICT(id) DO UPDATE\<close> of every column: the row replaces an old one.\<close>

definition SaveResponse :: "stored_response \<Rightarrow> db \<Rightarrow> db res" where
  "SaveResponse r d =
     (case encodeResponse r of
        Inl e \<Rightarrow> Inl e
      | Inr row \<Rightarrow> Inr (d\<lparr>responses := tbl_upsert rr_id (\<lambda>_. row) row (responses d)\<rparr>))"

definition scanStoredResponse :: "response_row \<Rightarrow> stored_response res" where
  "scanStoredResponse row =
     (case UnmarshalStoredItems (rr_input row) of
        Inl e \<Rightarrow> Inl (Wrap ''unmarshal normalized input items'' e)
      | Inr items \<Rightarrow>
          (case UnmarshalStoredItems (rr_effective row) of
             Inl e \<Rightarrow> Inl (Wrap ''unmarshal effective input items'' e)
           | Inr effectiveItems \<Rightarrow>
               (case UnmarshalStoredItems (rr_output row) of
                  Inl e \<Rightarrow> Inl (Wrap ''unmarshal output'' e)
                | Inr outputItems \<Rightarrow>
                    Inr \<lparr>sr_id = rr_id row, sr_model = rr_model row, sr_request = rr_request row,
                         sr_response = coalesce (rr_response row) RawEmpty, sr_input = items,
                         sr_effective = effectiveItems, sr_output = outputItems,
                         sr_output_text = rr_output_text row, sr_previous = coalesce (rr_previous row) [],
                         sr_conversation = coalesce (rr_conversation row) [], sr_store = (rr_store row \<noteq> 0),
                         sr_created = rr_created row, sr_completed = rr_completed row\<rparr>)))"

definition GetResponse :: "string \<Rightarrow> db \<Rightarrow> stored_response res" where
  "GetResponse rid d =
     (case tbl_find rr_id rid (responses d) of
        None \<Rightarrow> Inl StorageErrNotFound
      | Some row \<Rightarrow> scanStoredResponse row)"

text \<open>A node of the chain is read without the request and response documents.\<close>

definition scanStoredResponseLineageNode :: "response_row \<Rightarrow> stored_response res" where
  "scanStoredResponseLineageNode row =
     (case UnmarshalStoredItems (rr_input row) of
        Inl e \<Rightarrow> Inl (Wrap ''unmarshal normalized input items'' e)
      | Inr items \<Rightarrow>
          (case UnmarshalStoredItems (rr_effective row) of
             Inl e \<Rightarrow> Inl (Wrap ''unmarshal effective input items'' e)
           | Inr effectiveItems \<Rightarrow>
               (case UnmarshalStoredItems (rr_output row) of
                  Inl e \<Rightarrow> Inl (Wrap ''unmarshal output'' e)
                | Inr outputItems \<Rightarrow>
                    Inr \<lparr>sr_id = rr_id row, sr_model = rr_model row, sr_request = RawEmpty,
                         sr_response = RawEmpty, sr_input = items,
                         sr_effective = effectiveItems, sr_output = outputItems,
                         sr_output_text = rr_output_text row, sr_previous = coalesce (rr_previous row) [],
                         sr_conversation = coalesce (rr_conversation row) [], sr_store = (rr_store row \<noteq> 0),
                         sr_created = rr_created row, sr_completed = rr_completed row\<rparr>)))"

definition getResponseLineageNode :: "string \<Rightarrow> db \<Rightarrow> stored_response res" where
  "getResponseLineageNode rid d =
     (case tbl_find rr_id rid (responses d) of
        None \<Rightarrow> Inl StorageErrNotFound
      | Some row \<Rightarrow> scanStoredResponseLineageNode row)"

lemma lineage_node_mem: "getResponseLineageNode rid d = Inr r \<Longrightarrow> rid \<in> rr_id ` set (responses d) \<and> sr_id r = rid"
  by (auto simp: getResponseLineageNode_def scanStoredResponseLineageNode_def dest: tbl_find_has tbl_find_SomeD
      split: option.splits sum.splits)

text \<open>The walk up the chain of previous responses, newest first; \<open>seen\<close> are the identifiers visited.\<close>

function lineageLoop ::
  "db \<Rightarrow> int \<Rightarrow> string list \<Rightarrow> stored_response list \<Rightarrow> string \<Rightarrow> stored_response list res" where
  "lineageLoop d maxItems seen lineage currentID =
     (if currentID = [] then Inr lineage
      else if currentID \<in> set seen
        then Inl (Errorf (''response lineage cycle detected for '' @ currentID))
      else case getResponseLineageNode currentID d of
        Inl e \<Rightarrow> Inl e
      | Inr response \<Rightarrow>
          if maxItems > 0 \<and> int (length (lineage @ [response])) \<ge> maxItems
          then Inr (lineage @ [response])
          else lineageLoop d maxItems (currentID # seen) (lineage @ [response]) (sr_previous response))"
  by pat_completeness auto
termination
proof (relation "measure (\<lambda>(d, maxItems, seen, lineage, currentID).
    card (rr_id ` set (responses d) - set seen))", simp, goal_cases)
  case (1 d maxItems seen lineage currentID response)
  then have "currentID \<in> rr_id ` set (responses d) - set seen" using lineage_node_mem by auto
  then have "card (rr_id ` set (responses d) - set seen - {currentID}) <
      card (rr_id ` set (responses d) - set seen)" by (intro card_Diff1_less) auto
  moreover have "rr_id ` set (responses d) - set (currentID # seen) =
      rr_id ` set (responses d) - set seen - {currentID}" by auto
  ultimately show ?case by simp
qed

declare lineageLoop.simps [simp del]

definition GetResponseLineage :: "string \<Rightarrow> int \<Rightarrow> db \<Rightarrow> stored_response list res" where
  "GetResponseLineage rid maxItems d =
     (case lineageLoop d maxItems [] [] rid of Inl e \<Rightarrow> Inl e | Inr lineage \<Rightarrow> Inr (rev lineage))"

text \<open>Deleting a response also deletes its replay artifacts (\<^verbatim>\<open>ON DELETE CASCADE\<close>).\<close>

definition DeleteResponse :: "string \<Rightarrow> db \<Rightarrow> db res" where
  "DeleteResponse rid d =
     (case tbl_delete (\<lambda>r. rr_id r = rid) (responses d) of
        (rows, affected) \<Rightarrow>
          if affected = 0 then Inl StorageErrNotFound
          else Inr (d\<lparr>responses := rows,
                 replay_artifacts := filter (\<lambda>a. ra_response a \<noteq> rid) (replay_artifacts d)\<rparr>))"

section \<open>Replay artifacts\<close>

definition responseReplayArtifactsMaxCount :: nat where "responseReplayArtifactsMaxCount = 64"
definition responseReplayArtifactsMaxPayloadBytes :: nat where
  "responseReplayArtifactsMaxPayloadBytes = 1048576"
definition responseReplayArtifactsMaxTotalPayloadBytes :: nat where
  "responseReplayArtifactsMaxTotalPayloadBytes = 8388608"

abbreviation artifact_key :: "replay_artifact \<Rightarrow> string \<times> int" where
  "artifact_key a \<equiv> (ra_response a, ra_sequence a)"

definition insertArtifact :: "replay_artifact \<Rightarrow> db \<Rightarrow> db res" where
  "insertArtifact a d =
     (if \<not> tbl_has rr_id (ra_response a) (responses d)
      then Inl (Wrap ''insert response replay artifact'' (Errorf ''constraint failed''))
      else case tbl_insert artifact_key a (replay_artifacts d) of
        None \<Rightarrow> Inl (Wrap ''insert response replay artifact'' (Errorf ''constraint failed''))
      | Some rows \<Rightarrow> Inr (d\<lparr>replay_artifacts := rows\<rparr>))"

fun saveArtifacts ::
  "string \<Rightarrow> replay_artifact list \<Rightarrow> int \<Rightarrow> nat \<Rightarrow> nat \<Rightarrow> db \<Rightarrow> db res" where
  "saveArtifacts responseID [] nextSequence totalPayloadBytes writtenCount d = Inr d"
| "saveArtifacts responseID (artifact # artifacts) nextSequence totalPayloadBytes writtenCount d =
     (let payload = ra_payload artifact in
      if payload = [] \<or> length payload > responseReplayArtifactsMaxPayloadBytes
        then saveArtifacts responseID artifacts nextSequence totalPayloadBytes writtenCount d
      else if writtenCount \<ge> responseReplayArtifactsMaxCount then Inr d
      else if totalPayloadBytes + length payload > responseReplayArtifactsMaxTotalPayloadBytes then Inr d
      else
        let seqno = (if ra_sequence artifact \<le> 0 then nextSequence else ra_sequence artifact) in
        case insertArtifact \<lparr>ra_response = responseID, ra_sequence = seqno,
               ra_event = trim_space (ra_event artifact), ra_payload = payload\<rparr> d of
          Inl e \<Rightarrow> Inl e
        | Inr d' \<Rightarrow> saveArtifacts responseID artifacts (seqno + 1)
                     (totalPayloadBytes + length payload) (writtenCount + 1) d')"

definition SaveResponseReplayArtifacts :: "string \<Rightarrow> replay_artifact list \<Rightarrow> db \<Rightarrow> db res" where
  "SaveResponseReplayArtifacts responseID artifacts d =
     (let rid = trim_space responseID in
      if rid = [] then Inr d
      else
        let d1 = d\<lparr>replay_artifacts := filter (\<lambda>a. ra_response a \<noteq> rid) (replay_artifacts d)\<rparr> in
        if artifacts = [] then Inr d1
        else saveArtifacts rid (sort_key ra_sequence artifacts) 1 0 0 d1)"

definition GetResponseReplayArtifacts :: "string \<Rightarrow> db \<Rightarrow> replay_artifact list" where
  "GetResponseReplayArtifacts responseID d =
     sort_key ra_sequence (filter (\<lambda>a. ra_response a = trim_space responseID) (replay_artifacts d))"

definition deleteResponseReplayArtifacts :: "string \<Rightarrow> db \<Rightarrow> db" where
  "deleteResponseReplayArtifacts responseID d =
     d\<lparr>replay_artifacts := filter (\<lambda>a. ra_response a \<noteq> trim_space responseID) (replay_artifacts d)\<rparr>"

section \<open>Saving and reading back\<close>

lemma stored_items_read:
  assumes "\<forall>i \<in> set items. storable i"
  shows "\<exists>r. MarshalStoredItems items = Inr r \<and> UnmarshalStoredItems r = Inr items"
  using stored_items_roundtrip_aux [OF assms] by (auto simp: UnmarshalStoredItems_def)

definition storable_response :: "stored_response \<Rightarrow> bool" where
  "storable_response r \<longleftrightarrow> (\<forall>i \<in> set (sr_input r) \<union> set (sr_effective r) \<union> set (sr_output r). storable i)"

lemma encode_scan:
  assumes "storable_response r"
  shows "\<exists>row. encodeResponse r = Inr row \<and> scanStoredResponse row = Inr r \<and> rr_id row = sr_id r \<and>
     scanStoredResponseLineageNode row = Inr (r\<lparr>sr_request := RawEmpty, sr_response := RawEmpty\<rparr>)"
proof -
  obtain a b c where "MarshalStoredItems (sr_input r) = Inr a" "UnmarshalStoredItems a = Inr (sr_input r)"
    "MarshalStoredItems (sr_effective r) = Inr b" "UnmarshalStoredItems b = Inr (sr_effective r)"
    "MarshalStoredItems (sr_output r) = Inr c" "UnmarshalStoredItems c = Inr (sr_output r)"
    using assms stored_items_read [of "sr_input r"] stored_items_read [of "sr_effective r"]
      stored_items_read [of "sr_output r"] by (auto simp: storable_response_def)
  then show ?thesis
    by (simp add: encodeResponse_def response_row_of_def scanStoredResponse_def
        scanStoredResponseLineageNode_def)
qed

lemma encode_id: "encodeResponse r = Inr row \<Longrightarrow> rr_id row = sr_id r"
  by (auto simp: encodeResponse_def response_row_of_def split: sum.splits)

lemma save_find:
  assumes "encodeResponse r = Inr row" "SaveResponse r d = Inr d'"
  shows "tbl_find rr_id k (responses d') = (if k = sr_id r then Some row else tbl_find rr_id k (responses d))"
proof -
  have "tbl_find rr_id k (tbl_upsert rr_id (\<lambda>_. row) row (responses d)) =
      (if k = rr_id row then Some row else tbl_find rr_id k (responses d))"
    using tbl.upsert_find [of rr_id row "\<lambda>_. row" k] by (auto split: option.splits)
  then show ?thesis using assms encode_id [OF assms(1)] by (auto simp: SaveResponse_def)
qed

section \<open>The chain of previous responses\<close>

text \<open>The specification of the walk: the responses from \<open>rid\<close> up to one without a previous response,
  newest first.\<close>

inductive chain :: "db \<Rightarrow> string \<Rightarrow> stored_response list \<Rightarrow> bool" for d where
  root: "chain d [] []"
| node: "rid \<noteq> [] \<Longrightarrow> getResponseLineageNode rid d = Inr r \<Longrightarrow> chain d (sr_previous r) rs \<Longrightarrow>
    chain d rid (r # rs)"

inductive_cases chain_NilE: "chain d [] xs"
inductive_cases chain_nodeE: "chain d rid (r # rs)"
inductive_simps chain_simps: "chain d rid []" "chain d rid (r # rs)"

lemma chain_unique: "chain d rid xs \<Longrightarrow> chain d rid ys \<Longrightarrow> xs = ys"
proof (induction arbitrary: ys rule: chain.induct)
  case root
  then show ?case by (rule chain_NilE) auto
next
  case (node rid r rs)
  from node(5,1) obtain r' rs' where y: "ys = r' # rs'" "getResponseLineageNode rid d = Inr r'"
    "chain d (sr_previous r') rs'" by (auto elim: chain.cases)
  with node(2) have "r' = r" by simp
  with node(4) y show ?case by metis
qed

lemma chain_tail: "chain d rid xs \<Longrightarrow> q \<in> set xs \<Longrightarrow> \<exists>ys. chain d (sr_id q) ys \<and> length ys \<le> length xs"
proof (induction rule: chain.induct)
  case (node rid r rs)
  show ?case
  proof (cases "q = r")
    case True
    with node lineage_node_mem have "chain d (sr_id q) (r # rs)" by (auto simp: chain_simps)
    then show ?thesis by auto
  next
    case False
    with node show ?thesis by fastforce
  qed
qed simp

lemma chain_acyclic: "chain d rid (r # rs) \<Longrightarrow> rid \<notin> sr_id ` set rs"
proof
  assume c: "chain d rid (r # rs)" and "rid \<in> sr_id ` set rs"
  then obtain q where q: "q \<in> set rs" "sr_id q = rid" by auto
  from c have "chain d (sr_previous r) rs" by (rule chain_nodeE)
  from chain_tail [OF this q(1)] q(2) obtain ys where "chain d rid ys" "length ys \<le> length rs" by auto
  with chain_unique [OF c, of ys] show False by auto
qed

lemma lineageLoop_chain:
  "chain d rid xs \<Longrightarrow> set seen \<inter> sr_id ` set xs = {} \<Longrightarrow> (0 < m \<longrightarrow> length acc < nat m) \<Longrightarrow>
     lineageLoop d m seen acc rid = Inr (acc @ (if 0 < m then take (nat m - length acc) xs else xs))"
proof (induction arbitrary: seen acc rule: chain.induct)
  case root
  then show ?case by (simp add: lineageLoop.simps)
next
  case (node rid r rs)
  have rid: "sr_id r = rid" using node(2) lineage_node_mem by blast
  have "chain d rid (r # rs)" using node by (auto intro: chain.node)
  then have "rid \<notin> sr_id ` set rs" by (rule chain_acyclic)
  with node(5) rid have seen: "rid \<notin> set seen" "set (rid # seen) \<inter> sr_id ` set rs = {}" by auto
  show ?case
  proof (cases "0 < m \<and> m \<le> int (length (acc @ [r]))")
    case True
    then have "nat m - length acc = 1" using node(6) by auto
    with True node(1,2) seen show ?thesis by (simp add: lineageLoop.simps)
  next
    case False
    have "lineageLoop d m seen acc rid = lineageLoop d m (rid # seen) (acc @ [r]) (sr_previous r)"
      using False node(1,2) seen(1) by (auto simp: lineageLoop.simps [of d m seen])
    moreover have "0 < m \<longrightarrow> length (acc @ [r]) < nat m" using False by auto
    moreover have "0 < m \<Longrightarrow> nat m - length acc = Suc (nat m - length (acc @ [r]))"
      using \<open>0 < m \<longrightarrow> length (acc @ [r]) < nat m\<close> by auto
    ultimately show ?thesis using node(4) [OF seen(2), of "acc @ [r]"] by simp
  qed
qed

lemma lineageLoop_sound:
  "lineageLoop d m seen acc rid = Inr res \<Longrightarrow> m \<le> 0 \<Longrightarrow> \<exists>xs. res = acc @ xs \<and> chain d rid xs"
proof (induction d m seen acc rid rule: lineageLoop.induct)
  case (1 d m seen acc rid)
  show ?case
  proof (cases "rid = []")
    case True
    with 1(2) show ?thesis by (auto simp: lineageLoop.simps intro: chain.root)
  next
    case False
    then obtain r where r: "rid \<notin> set seen" "getResponseLineageNode rid d = Inr r"
      "lineageLoop d m (rid # seen) (acc @ [r]) (sr_previous r) = Inr res"
      using 1(2,3) by (subst (asm) lineageLoop.simps) (auto split: if_splits sum.splits)
    from 1(1) [OF False r(1,2) _ r(3) 1(3)] 1(3) obtain xs where
      "res = (acc @ [r]) @ xs" "chain d (sr_previous r) xs" by auto
    with False r(2) show ?thesis by (intro exI [of _ "r # xs"]) (auto intro: chain.node)
  qed
qed

text \<open>What every result satisfies: newest first, each response is the previous one of the one before,
  no identifier twice, and the limit holds.\<close>

fun linked :: "string \<Rightarrow> stored_response list \<Rightarrow> bool" where
  "linked rid [] \<longleftrightarrow> True"
| "linked rid (r # rs) \<longleftrightarrow> sr_id r = rid \<and> rid \<noteq> [] \<and> linked (sr_previous r) rs"

lemma lineageLoop_linked:
  "lineageLoop d m seen acc rid = Inr res \<Longrightarrow> (0 < m \<longrightarrow> length acc < nat m) \<Longrightarrow>
     \<exists>xs. res = acc @ xs \<and> linked rid xs \<and> distinct (map sr_id xs) \<and> set seen \<inter> sr_id ` set xs = {} \<and>
       (0 < m \<longrightarrow> length res \<le> nat m)"
proof (induction d m seen acc rid rule: lineageLoop.induct)
  case (1 d m seen acc rid)
  show ?case
  proof (cases "rid = []")
    case True
    with 1(2,3) show ?thesis by (auto simp: lineageLoop.simps)
  next
    case False
    then obtain r where r: "rid \<notin> set seen" "getResponseLineageNode rid d = Inr r"
      using 1(2) by (subst (asm) lineageLoop.simps) (auto split: if_splits sum.splits)
    have rid: "sr_id r = rid" using r(2) lineage_node_mem by blast
    show ?thesis
    proof (cases "0 < m \<and> m \<le> int (length (acc @ [r]))")
      case True
      with 1(2,3) False r rid show ?thesis by (auto simp: lineageLoop.simps)
    next
      case stop: False
      then have l: "lineageLoop d m (rid # seen) (acc @ [r]) (sr_previous r) = Inr res"
        using 1(2) False r by (auto simp: lineageLoop.simps [of d m seen])
      have "0 < m \<longrightarrow> length (acc @ [r]) < nat m" using stop by auto
      from 1(1) [OF False r(1,2) _ l this] stop obtain xs where
        "res = (acc @ [r]) @ xs" "linked (sr_previous r) xs" "distinct (map sr_id xs)"
        "set (rid # seen) \<inter> sr_id ` set xs = {}" "0 < m \<longrightarrow> length res \<le> nat m" by auto
      with False r rid show ?thesis by (intro exI [of _ "r # xs"]) auto
    qed
  qed
qed

section \<open>Replay artifacts\<close>

definition arts :: "string \<Rightarrow> db \<Rightarrow> replay_artifact list" where
  "arts rid d = filter (\<lambda>a. ra_response a = rid) (replay_artifacts d)"

definition payload_bytes :: "replay_artifact list \<Rightarrow> nat" where
  "payload_bytes as = sum_list (map (\<lambda>a. length (ra_payload a)) as)"

lemma payload_bytes_sort: "payload_bytes (sort_key f as) = payload_bytes as"
  by (simp add: payload_bytes_def flip: sum_mset_sum_list)

definition arts_within :: "replay_artifact list \<Rightarrow> bool" where
  "arts_within as \<longleftrightarrow> length as \<le> responseReplayArtifactsMaxCount \<and>
     payload_bytes as \<le> responseReplayArtifactsMaxTotalPayloadBytes \<and>
     (\<forall>a \<in> set as. ra_payload a \<noteq> [] \<and> length (ra_payload a) \<le> responseReplayArtifactsMaxPayloadBytes)"

definition artifact_inv :: "db \<Rightarrow> bool" where
  "artifact_inv d \<longleftrightarrow> distinct (map artifact_key (replay_artifacts d)) \<and>
     (\<forall>a \<in> set (replay_artifacts d). ra_response a \<in> rr_id ` set (responses d) \<and>
        arts_within (arts (ra_response a) d))"

lemma arts_mem: "a \<in> set (arts rid d) \<longleftrightarrow> a \<in> set (replay_artifacts d) \<and> ra_response a = rid"
  by (auto simp: arts_def)

lemma artifact_inv_within: "artifact_inv d \<Longrightarrow> arts_within (arts rid d)"
proof (cases "arts rid d")
  case Nil
  then show ?thesis by (simp add: arts_within_def payload_bytes_def)
next
  case (Cons a as)
  then have "a \<in> set (replay_artifacts d)" "ra_response a = rid" using arts_mem [of a rid d] by auto
  then show "artifact_inv d \<Longrightarrow> arts_within (arts rid d)" by (auto simp: artifact_inv_def)
qed

lemma insertArtifact_Inr_iff:
  "insertArtifact a d = Inr d' \<longleftrightarrow> ra_response a \<in> rr_id ` set (responses d) \<and>
     artifact_key a \<notin> artifact_key ` set (replay_artifacts d) \<and>
     d' = d\<lparr>replay_artifacts := replay_artifacts d @ [a]\<rparr>"
  unfolding insertArtifact_def tbl_insert_def tbl_has_iff by (auto split: if_splits)

lemma arts_insert [simp]:
  "arts k (d\<lparr>replay_artifacts := replay_artifacts d @ [a]\<rparr>) = arts k d @ (if ra_response a = k then [a] else [])"
  by (simp add: arts_def)

lemma insertArtifact_inv:
  assumes "artifact_inv d" "insertArtifact a d = Inr d'" "arts_within (arts (ra_response a) d @ [a])"
  shows "artifact_inv d'"
proof -
  have within: "arts_within (arts k d')" for k
    using assms artifact_inv_within [OF assms(1), of k] by (auto simp: insertArtifact_Inr_iff)
  then show ?thesis using assms(1,2) unfolding artifact_inv_def insertArtifact_Inr_iff by auto
qed

lemma saveArtifacts_inv:
  assumes "saveArtifacts rid as nx tot cnt d = Inr d'" "artifact_inv d"
    and "tot = payload_bytes (arts rid d)" "cnt = length (arts rid d)"
  shows "artifact_inv d' \<and> responses d' = responses d \<and> (\<forall>k. k \<noteq> rid \<longrightarrow> arts k d' = arts k d)"
  using assms
proof (induction rid as nx tot cnt d rule: saveArtifacts.induct)
  case (2 rid a as nxt tot cnt d)
  let ?pay = "ra_payload a"
  let ?n = "if ra_sequence a \<le> 0 then nxt else ra_sequence a"
  let ?a = "\<lparr>ra_response = rid, ra_sequence = ?n, ra_event = trim_space (ra_event a), ra_payload = ?pay\<rparr>"
  consider (skip) "?pay = [] \<or> length ?pay > responseReplayArtifactsMaxPayloadBytes"
    | (full) "?pay \<noteq> []" "length ?pay \<le> responseReplayArtifactsMaxPayloadBytes"
      "responseReplayArtifactsMaxCount \<le> cnt \<or>
       responseReplayArtifactsMaxTotalPayloadBytes < tot + length ?pay"
    | (put) "?pay \<noteq> []" "length ?pay \<le> responseReplayArtifactsMaxPayloadBytes"
      "cnt < responseReplayArtifactsMaxCount"
      "tot + length ?pay \<le> responseReplayArtifactsMaxTotalPayloadBytes"
    by linarith
  then show ?case
  proof cases
    case skip
    with 2(1) 2(3-) show ?thesis by (auto simp: Let_def)
  next
    case full
    with 2(3-) show ?thesis by (auto simp: Let_def split: if_splits)
  next
    case put
    then obtain d1 where d1: "insertArtifact ?a d = Inr d1"
      "saveArtifacts rid as (?n + 1) (tot + length ?pay) (cnt + 1) d1 = Inr d'"
      using 2(3) by (auto simp: Let_def split: sum.splits if_splits)
    have d1_eq: "d1 = d\<lparr>replay_artifacts := replay_artifacts d @ [?a]\<rparr>"
      using d1(1) by (simp add: insertArtifact_Inr_iff)
    have "arts_within (arts rid d @ [?a])"
      using put 2(5,6) artifact_inv_within [OF 2(4), of rid]
      by (auto simp: arts_within_def payload_bytes_def)
    then have "artifact_inv d1" using insertArtifact_inv [OF 2(4) d1(1)] by simp
    moreover have "tot + length ?pay = payload_bytes (arts rid d1)" "cnt + 1 = length (arts rid d1)"
      using d1_eq 2(5,6) by (auto simp: payload_bytes_def)
    ultimately show ?thesis
      using put d1 d1_eq 2(2) by (auto simp: Let_def)
  qed
qed simp

text \<open>An artifact as it is stored.\<close>

definition stored_artifact :: "string \<Rightarrow> replay_artifact \<Rightarrow> replay_artifact" where
  "stored_artifact rid a =
     \<lparr>ra_response = rid, ra_sequence = ra_sequence a, ra_event = trim_space (ra_event a), ra_payload = ra_payload a\<rparr>"

lemma arts_within_appendD: "arts_within (as @ bs) \<Longrightarrow> arts_within as"
  by (auto simp: arts_within_def payload_bytes_def)

lemma saveArtifacts_ok:
  assumes "rid \<in> rr_id ` set (responses d)" "sorted_wrt (<) (map ra_sequence as)"
    and "\<forall>a \<in> set as. 0 < ra_sequence a \<and> (rid, ra_sequence a) \<notin> artifact_key ` set (replay_artifacts d)"
    and "arts_within (arts rid d @ as)" "tot = payload_bytes (arts rid d)" "cnt = length (arts rid d)"
  shows "saveArtifacts rid as nx tot cnt d =
     Inr (d\<lparr>replay_artifacts := replay_artifacts d @ map (stored_artifact rid) as\<rparr>)"
  using assms
proof (induction as arbitrary: nx tot cnt d)
  case (Cons a as)
  let ?d = "d\<lparr>replay_artifacts := replay_artifacts d @ [stored_artifact rid a]\<rparr>"
  have w: "ra_payload a \<noteq> []" "length (ra_payload a) \<le> responseReplayArtifactsMaxPayloadBytes"
    "cnt < responseReplayArtifactsMaxCount"
    "tot + length (ra_payload a) \<le> responseReplayArtifactsMaxTotalPayloadBytes"
    using Cons.prems(4-6) by (auto simp: arts_within_def payload_bytes_def)
  have ins: "insertArtifact (stored_artifact rid a) d = Inr ?d"
    unfolding insertArtifact_Inr_iff using Cons.prems(1,3) by (auto simp: stored_artifact_def)
  have "saveArtifacts rid as (ra_sequence a + 1) (tot + length (ra_payload a)) (cnt + 1) ?d =
      Inr (?d\<lparr>replay_artifacts := replay_artifacts ?d @ map (stored_artifact rid) as\<rparr>)"
  proof (rule Cons.IH)
    show "\<forall>b \<in> set as. 0 < ra_sequence b \<and> (rid, ra_sequence b) \<notin> artifact_key ` set (replay_artifacts ?d)"
      using Cons.prems(2,3) by (auto simp: stored_artifact_def)
    show "arts_within (arts rid ?d @ as)"
      using Cons.prems(4) by (auto simp: arts_within_def payload_bytes_def stored_artifact_def)
  qed (use Cons.prems in \<open>auto simp: stored_artifact_def payload_bytes_def\<close>)
  with ins w Cons.prems(3) show ?case by (simp add: Let_def stored_artifact_def)
qed simp

lemma SaveResponseReplayArtifacts_inv:
  assumes "SaveResponseReplayArtifacts responseID as d = Inr d'" "artifact_inv d"
  shows "artifact_inv d' \<and> responses d' = responses d \<and>
     (\<forall>k. k \<noteq> trim_space responseID \<longrightarrow> arts k d' = arts k d)"
proof (cases "trim_space responseID = []")
  case True
  with assms show ?thesis by (simp add: SaveResponseReplayArtifacts_def)
next
  case False
  let ?rid = "trim_space responseID"
  let ?d = "d\<lparr>replay_artifacts := filter (\<lambda>a. ra_response a \<noteq> ?rid) (replay_artifacts d)\<rparr>"
  have arts: "arts k ?d = (if k = ?rid then [] else arts k d)" for k
    by (auto simp: arts_def filter_empty_conv intro!: filter_cong)
  have inv: "artifact_inv ?d"
    using assms(2) arts by (auto simp: artifact_inv_def distinct_map_filter)
  show ?thesis
  proof (cases "as = []")
    case True
    with False assms(1) inv arts show ?thesis by (auto simp: SaveResponseReplayArtifacts_def Let_def)
  next
    case as: False
    with False assms(1) have "saveArtifacts ?rid (sort_key ra_sequence as) 1 0 0 ?d = Inr d'"
      by (simp add: SaveResponseReplayArtifacts_def Let_def)
    from saveArtifacts_inv [OF this inv] arts show ?thesis by (auto simp: payload_bytes_def)
  qed
qed

lemma DeleteResponse_inv:
  assumes "DeleteResponse rid d = Inr d'" "artifact_inv d" "distinct (map rr_id (responses d))"
  shows "artifact_inv d' \<and> distinct (map rr_id (responses d')) \<and> arts rid d' = [] \<and>
     (\<forall>k. tbl_find rr_id k (responses d') = (if k = rid then None else tbl_find rr_id k (responses d)))"
proof -
  have d': "d' = d\<lparr>responses := filter (\<lambda>r. rr_id r \<noteq> rid) (responses d),
      replay_artifacts := filter (\<lambda>a. ra_response a \<noteq> rid) (replay_artifacts d)\<rparr>"
    using assms(1) by (auto simp: DeleteResponse_def tbl_delete_def split: if_splits)
  have arts: "arts k d' = (if k = rid then [] else arts k d)" for k
    using d' by (auto simp: arts_def filter_empty_conv intro!: filter_cong)
  have "tbl_find rr_id k (responses d') = (if k = rid then None else tbl_find rr_id k (responses d))" for k
    using d' by (auto simp: tbl_find_filter [OF assms(3)] dest: tbl_find_SomeD split: option.splits)
  moreover have "artifact_inv d'"
    unfolding artifact_inv_def using assms(2) arts d' by (auto simp: artifact_inv_def distinct_map_filter)
  ultimately show ?thesis using arts d' assms(3) by (simp add: distinct_map_filter)
qed

lemma artifact_inv_frame:
  assumes "artifact_inv d" "replay_artifacts d' = replay_artifacts d"
    "rr_id ` set (responses d) \<subseteq> rr_id ` set (responses d')"
  shows "artifact_inv d'"
  using assms by (auto simp: artifact_inv_def arts_def)

lemma SaveResponse_inv:
  assumes "SaveResponse r d = Inr d'" "artifact_inv d" "distinct (map rr_id (responses d))"
  shows "artifact_inv d' \<and> distinct (map rr_id (responses d'))"
proof -
  obtain row where row: "encodeResponse r = Inr row"
    "d' = d\<lparr>responses := tbl_upsert rr_id (\<lambda>_. row) row (responses d)\<rparr>"
    using assms(1) by (auto simp: SaveResponse_def split: sum.splits)
  have k: "map rr_id (tbl_upsert rr_id (\<lambda>_. row) row (responses d)) =
      (if rr_id row \<in> rr_id ` set (responses d) then map rr_id (responses d)
       else map rr_id (responses d) @ [rr_id row])"
    by (rule tbl_upsert_keys) simp
  then have "rr_id ` set (responses d) \<subseteq> rr_id ` set (responses d')"
    using row(2) by (metis (no_types, lifting) db.select_convs(3) db.surjective db.update_convs(3)
        set_append set_map sup_ge1 order_refl)
  with assms(2,3) row(2) k show ?thesis
    using artifact_inv_frame [of d d'] by (auto split: if_splits)
qed

section \<open>The store's writes together\<close>

lemma bump_other: "bumpVersion cid v at d = Inr d' \<Longrightarrow>
    replay_artifacts d' = replay_artifacts d \<and> responses d' = responses d"
  by (auto simp: bumpVersion_def tbl_update_def split: if_splits)

lemma insertAll_other: "insertAll cis d = Inr d' \<Longrightarrow>
    replay_artifacts d' = replay_artifacts d \<and> responses d' = responses d"
  using insertAll_rows by fastforce

lemma conv_step_responses:
  assumes "conv_step uuid d d'"
  shows "replay_artifacts d' = replay_artifacts d \<and> (responses d' = responses d \<or>
     (\<exists>row. responses d' = responses d @ [row] \<and> rr_id row \<notin> rr_id ` set (responses d)))"
  using assms
proof cases
  case (create c n n')
  then show ?thesis
    by (auto simp: CreateConversation_def dest!: insertItems_all insertAll_other split: option.splits sum.splits)
next
  case (append c items at n new n')
  then show ?thesis
    by (auto simp: AppendConversationItems_def dest!: insertItems_all insertAll_other bump_other split: sum.splits)
next
  case (delete c itemID at)
  then show ?thesis
    by (auto simp: DeleteConversationItem_def tbl_delete_def dest!: bump_other split: sum.splits if_splits)
next
  case (save c r inp outp n n')
  then show ?thesis
    by (auto simp: SaveResponseAndAppendConversation_def dest!: bump_other insertResponse_Inr
        insertPrepared_all [OF _ numbered_build] insertAll_other split: sum.splits)
qed

inductive store_step :: "(nat \<Rightarrow> string option) \<Rightarrow> db \<Rightarrow> db \<Rightarrow> bool" for uuid where
  conv: "conv_step uuid d d' \<Longrightarrow> store_step uuid d d'"
| save: "SaveResponse r d = Inr d' \<Longrightarrow> store_step uuid d d'"
| delete: "DeleteResponse rid d = Inr d' \<Longrightarrow> store_step uuid d d'"
| artifacts: "SaveResponseReplayArtifacts rid as d = Inr d' \<Longrightarrow> store_step uuid d d'"

definition store_inv :: "db \<Rightarrow> bool" where
  "store_inv d \<longleftrightarrow> conv_inv d \<and> artifact_inv d \<and> distinct (map rr_id (responses d))"

lemma response_ops_frame:
  "SaveResponse r d = Inr d' \<Longrightarrow> conversations d' = conversations d \<and> conversation_items d' = conversation_items d"
  "DeleteResponse rid d = Inr d' \<Longrightarrow> conversations d' = conversations d \<and> conversation_items d' = conversation_items d"
  by (auto simp: SaveResponse_def DeleteResponse_def tbl_delete_def split: sum.splits if_splits)

lemma saveArtifacts_frame:
  "saveArtifacts rid as nx tot cnt d = Inr d' \<Longrightarrow>
     conversations d' = conversations d \<and> conversation_items d' = conversation_items d"
  by (induction rid as nx tot cnt d rule: saveArtifacts.induct)
    (auto simp: Let_def insertArtifact_Inr_iff split: if_splits sum.splits)

lemma SaveResponseReplayArtifacts_frame:
  "SaveResponseReplayArtifacts rid as d = Inr d' \<Longrightarrow>
     conversations d' = conversations d \<and> conversation_items d' = conversation_items d"
  by (auto simp: SaveResponseReplayArtifacts_def Let_def dest: saveArtifacts_frame split: if_splits)

lemma store_step_inv: "store_step uuid d d' \<Longrightarrow> store_inv d \<Longrightarrow> store_inv d'"
proof (induction rule: store_step.induct)
  case (conv d d')
  note r = conv_step_responses [OF conv(1)]
  have "artifact_inv d'" using conv(2) r by (auto simp: store_inv_def intro!: artifact_inv_frame [of d])
  then show ?case
    using conv r conv_step_advances [OF conv(1)] by (auto simp: store_inv_def advances_def)
next
  case (save r d d')
  then show ?case
    using SaveResponse_inv response_ops_frame(1) [of r d d'] conv_inv_frame [of d d']
    by (auto simp: store_inv_def)
next
  case (delete rid d d')
  then show ?case
    using DeleteResponse_inv response_ops_frame(2) [of rid d d'] conv_inv_frame [of d d']
    by (auto simp: store_inv_def)
next
  case (artifacts rid as d d')
  then show ?case
    using SaveResponseReplayArtifacts_inv [of rid as d d'] SaveResponseReplayArtifacts_frame [of rid as d d']
      conv_inv_frame [of d d'] by (auto simp: store_inv_def)
qed

lemma store_run_inv: "(store_step uuid)\<^sup>*\<^sup>* d d' \<Longrightarrow> store_inv d \<Longrightarrow> store_inv d'"
  by (induction rule: rtranclp_induct) (auto intro: store_step_inv)

lemma store_inv_empty: "store_inv empty_db"
  using conv_inv_empty by (simp add: store_inv_def artifact_inv_def empty_db_def)

section \<open>Properties\<close>

definition sample_response :: stored_response where
  "sample_response = \<lparr>sr_id = ''resp_1'', sr_model = ''m'', sr_request = RawJson (JObj []), sr_response = RawEmpty,
     sr_input = [sample_item], sr_effective = [], sr_output = [sample_item2], sr_output_text = ''ok'',
     sr_previous = [], sr_conversation = [], sr_store = True, sr_created = ''t0'', sr_completed = ''t1''\<rparr>"

lemma sample_response_storable: "storable_response sample_response"
  using sample_item_storable sample_item2_storable by (auto simp: storable_response_def sample_response_def)

text \<open>Saving a response replaces or adds exactly that response: it reads back as it was saved,
  as a whole and as a node of a chain, and every other response is as before.\<close>

theorem save_response_reads_back:
  assumes "storable_response r"
  shows "\<exists>d'. SaveResponse r d = Inr d' \<and> GetResponse (sr_id r) d' = Inr r \<and>
     getResponseLineageNode (sr_id r) d' = Inr (r\<lparr>sr_request := RawEmpty, sr_response := RawEmpty\<rparr>) \<and>
     (\<forall>k. k \<noteq> sr_id r \<longrightarrow> GetResponse k d' = GetResponse k d)"
proof -
  obtain row where row: "encodeResponse r = Inr row" "scanStoredResponse row = Inr r"
    "scanStoredResponseLineageNode row = Inr (r\<lparr>sr_request := RawEmpty, sr_response := RawEmpty\<rparr>)"
    using encode_scan [OF assms] by blast
  then obtain d' where d': "SaveResponse r d = Inr d'" by (simp add: SaveResponse_def)
  with row save_find [OF row(1) d'] show ?thesis
    by (simp add: GetResponse_def getResponseLineageNode_def)
qed

theorem save_response_reads_back_witness:
  "\<exists>d'. SaveResponse sample_response empty_db = Inr d' \<and> GetResponse (sr_id sample_response) d' = Inr sample_response \<and>
     getResponseLineageNode (sr_id sample_response) d' =
       Inr (sample_response\<lparr>sr_request := RawEmpty, sr_response := RawEmpty\<rparr>) \<and>
     (\<forall>k. k \<noteq> sr_id sample_response \<longrightarrow> GetResponse k d' = GetResponse k empty_db)"
  by (rule save_response_reads_back [OF sample_response_storable])



text \<open>With a positive limit a lineage has at most that many responses; whatever the limit, it ends
  in the response asked for, each element is the previous response of the next one, and no response
  occurs twice. If the whole chain exists, it is the newest part of it.\<close>

theorem lineage_limit:
  assumes "GetResponseLineage rid m d = Inr xs"
  shows "(0 < m \<longrightarrow> int (length xs) \<le> m) \<and> linked rid (rev xs) \<and> distinct (map sr_id xs) \<and>
    (\<forall>whole. 0 < m \<and> chain d rid (rev whole) \<longrightarrow> xs = drop (length whole - nat m) whole)"
proof -
  obtain ys where ys: "lineageLoop d m [] [] rid = Inr ys" "xs = rev ys"
    using assms by (auto simp: GetResponseLineage_def split: sum.splits)
  have "linked rid ys \<and> distinct (map sr_id ys) \<and> (0 < m \<longrightarrow> length ys \<le> nat m)"
    using lineageLoop_linked [OF ys(1)] by auto
  moreover have "xs = drop (length whole - nat m) whole" if "0 < m" "chain d rid (rev whole)" for whole
    using lineageLoop_chain [OF that(2), of "[]" m "[]"] that(1) ys by (simp add: take_rev)
  ultimately show ?thesis using ys(2) by (auto simp: rev_map [symmetric])
qed

theorem lineage_limit_witness:
  "\<exists>d xs. GetResponseLineage ''resp_1'' 1 d = Inr xs \<and> length xs \<le> 1 \<and> linked ''resp_1'' (rev xs)"
proof -
  obtain row where row: "scanStoredResponseLineageNode row =
      Inr (sample_response\<lparr>sr_request := RawEmpty, sr_response := RawEmpty\<rparr>)" "rr_id row = ''resp_1''"
    using encode_scan [OF sample_response_storable] by (auto simp: sample_response_def)
  define d where "d = empty_db\<lparr>responses := [row]\<rparr>"
  have "getResponseLineageNode ''resp_1'' d =
      Inr (sample_response\<lparr>sr_request := RawEmpty, sr_response := RawEmpty\<rparr>)"
    using row by (simp add: d_def getResponseLineageNode_def tbl_find_single)
  then have "\<exists>xs. GetResponseLineage ''resp_1'' 1 d = Inr xs"
    by (simp add: GetResponseLineage_def lineageLoop.simps)
  then show ?thesis using lineage_limit by fastforce
qed



text \<open>Artifacts with positive, distinct sequence numbers that meet the limits are all stored for an
  existing response, replace the earlier ones, and are returned in sequence order.\<close>

theorem replay_artifacts_roundtrip:
  assumes "rid \<in> rr_id ` set (responses d)" "trim_space rid = rid" "rid \<noteq> []"
    and "distinct (map ra_sequence as)" "\<forall>a \<in> set as. 0 < ra_sequence a" "arts_within as"
  shows "\<exists>d'. SaveResponseReplayArtifacts rid as d = Inr d' \<and>
     GetResponseReplayArtifacts rid d' = map (stored_artifact rid) (sort_key ra_sequence as)"
proof -
  let ?d = "d\<lparr>replay_artifacts := filter (\<lambda>a. ra_response a \<noteq> rid) (replay_artifacts d)\<rparr>"
  let ?s = "sort_key ra_sequence as"
  let ?d' = "?d\<lparr>replay_artifacts := replay_artifacts ?d @ map (stored_artifact rid) ?s\<rparr>"
  have arts: "arts rid ?d = []" by (simp add: arts_def filter_empty_conv)
  have srt: "sorted_wrt (<) (map ra_sequence ?s)"
    using assms(4) by (simp add: strict_sorted_iff distinct_map)
  have "payload_bytes ?s = payload_bytes as"
    by (rule payload_bytes_sort)
  then have within: "arts_within ?s" using assms(6) by (auto simp: arts_within_def)
  have "saveArtifacts rid ?s 1 0 0 ?d = Inr ?d'"
    by (rule saveArtifacts_ok) (use assms(1,5) srt arts within in \<open>auto simp: payload_bytes_def\<close>)
  then have "SaveResponseReplayArtifacts rid as d = Inr ?d'"
    using assms(2,3) by (auto simp: SaveResponseReplayArtifacts_def Let_def)
  moreover have "filter (\<lambda>a. ra_response a = rid) (replay_artifacts ?d') = map (stored_artifact rid) ?s"
    by (auto simp: filter_empty_conv filter_id_conv stored_artifact_def)
  then have "GetResponseReplayArtifacts rid ?d' = map (stored_artifact rid) ?s"
    using srt assms(2) by (simp add: GetResponseReplayArtifacts_def stored_artifact_def comp_def
        sort_key_id_if_sorted strict_sorted_imp_sorted)
  ultimately show ?thesis by blast
qed

theorem replay_artifacts_roundtrip_witness:
  "\<exists>d d'. SaveResponseReplayArtifacts ''resp_1'' [\<lparr>ra_response = [], ra_sequence = 4, ra_event = ''e'', ra_payload = ''p''\<rparr>] d =
      Inr d' \<and> map ra_sequence (GetResponseReplayArtifacts ''resp_1'' d') = [4]"
proof -
  obtain row where row: "encodeResponse sample_response = Inr row" "rr_id row = ''resp_1''"
    using encode_scan [OF sample_response_storable] by (auto simp: sample_response_def)
  have "arts_within [\<lparr>ra_response = [], ra_sequence = 4, ra_event = ''e'', ra_payload = ''p''\<rparr>]"
    by (simp add: arts_within_def payload_bytes_def responseReplayArtifactsMaxCount_def
        responseReplayArtifactsMaxPayloadBytes_def responseReplayArtifactsMaxTotalPayloadBytes_def)
  then show ?thesis
    using replay_artifacts_roundtrip [of "''resp_1''" "empty_db\<lparr>responses := [row]\<rparr>"
        "[\<lparr>ra_response = [], ra_sequence = 4, ra_event = ''e'', ra_payload = ''p''\<rparr>]"] row(2)
    by (force simp: trim_space_word stored_artifact_def)
qed

end
