(* ===== verification/Conversation_Service.thy ===== *)
theory Conversation_Service
  imports Response_Store
begin

text \<open>
  The conversation service, \<^verbatim>\<open>internal/service/conversations.go\<close> and \<^verbatim>\<open>conversation_items.go\<close>, over
  the store interface \<^verbatim>\<open>storage.ConversationStore\<close>. The interface is a record of operations on an
  abstract state; what the service relies on is the locale \<open>conversation_store\<close>, which the SQLite
  store satisfies. The clock is an argument: \<open>now\<close> is the formatted time of the call.
\<close>

section \<open>The store interface\<close>

record 's conversation_store_ops =
  st_create :: "conversation \<Rightarrow> nat \<Rightarrow> 's \<Rightarrow> (nat \<times> 's) res"
  st_get :: "string \<Rightarrow> 's \<Rightarrow> (conversation \<times> conversation_item list) res"
  st_get_item :: "string \<Rightarrow> string \<Rightarrow> 's \<Rightarrow> conversation_item res"
  st_list :: "list_query \<Rightarrow> 's \<Rightarrow> item_page res"
  st_append :: "conversation \<Rightarrow> item list \<Rightarrow> string \<Rightarrow> nat \<Rightarrow> 's \<Rightarrow> (conversation_item list \<times> nat \<times> 's) res"
  st_delete :: "conversation \<Rightarrow> string \<Rightarrow> string \<Rightarrow> 's \<Rightarrow> 's res"

text \<open>\<^verbatim>\<open>errors.Is\<close> follows the wrapped errors; \<^verbatim>\<open>MapStorageError\<close> of \<^verbatim>\<open>responses.go\<close>.\<close>

fun errors_is :: "error \<Rightarrow> error \<Rightarrow> bool" where
  "errors_is (Wrap s e) t \<longleftrightarrow> Wrap s e = t \<or> errors_is e t"
| "errors_is e t \<longleftrightarrow> e = t"

definition MapStorageError :: "error \<Rightarrow> error" where
  "MapStorageError e =
     (if errors_is e StorageErrNotFound then ErrNotFound
      else if errors_is e StorageErrConflict then ErrConflict else e)"

section \<open>Operations\<close>

definition maxConversationItemsPerRequest :: nat where "maxConversationItemsPerRequest = 20"

definition ConversationService_Get :: "'s conversation_store_ops \<Rightarrow> string \<Rightarrow> 's \<Rightarrow> conversation res" where
  "ConversationService_Get ops cid s =
     (if cid = [] then Inl (ValidationError ''conversation_id'' ''conversation id is required'')
      else case st_get ops cid s of
        Inl e \<Rightarrow> Inl (MapStorageError e)
      | Inr (c, cis) \<Rightarrow> Inr c)"

definition ConversationService_Create ::
  "'s conversation_store_ops \<Rightarrow> (nat \<Rightarrow> string option) \<Rightarrow> string \<Rightarrow> raw list \<Rightarrow> raw \<Rightarrow> nat \<Rightarrow> 's \<Rightarrow>
   (conversation \<times> nat \<times> 's) res" where
  "ConversationService_Create ops uuid now rawItems metadata n s =
     (case (if rawItems = [] then Inr ([], n)
            else if length rawItems > maxConversationItemsPerRequest
              then Inl (ValidationError ''items'' ''items may include at most 20 items'')
            else case NormalizeConversationItems rawItems of
              Inl e \<Rightarrow> Inl e
            | Inr items \<Rightarrow> EnsureItemIDs uuid n items) of
        Inl e \<Rightarrow> Inl e
      | Inr (items, n1) \<Rightarrow>
          (case NormalizeConversationMetadata metadata of
             Inl e \<Rightarrow> Inl e
           | Inr md \<Rightarrow>
               (case NewPrefixedID uuid n1 ''conv'' of
                  Inl e \<Rightarrow> Inl (Wrap ''generate conversation id'' e)
                | Inr cid \<Rightarrow>
                    (let c = \<lparr>c_id = cid, c_object = ''conversation'', c_metadata = md, c_items = items,
                              c_version = 1, c_created = now, c_updated = now\<rparr>
                     in case st_create ops c (Suc n1) s of
                          Inl e \<Rightarrow> Inl e
                        | Inr (n2, s') \<Rightarrow> Inr (c, n2, s')))))"

definition ConversationService_ListItems ::
  "'s conversation_store_ops \<Rightarrow> list_query \<Rightarrow> 's \<Rightarrow> item_page res" where
  "ConversationService_ListItems ops q s =
     (if q_conversation q = [] then Inl (ValidationError ''conversation_id'' ''conversation id is required'')
      else if q_limit q \<le> 0 then Inl (ValidationError ''limit'' ''limit must be between 1 and 100'')
      else if q_order q = [] \<or> q_order q = ''desc'' then st_list ops (q\<lparr>q_order := ''desc''\<rparr>) s
      else if q_order q = ''asc'' then st_list ops q s
      else Inl (ValidationError ''order'' ''order must be one of asc or desc''))"

definition ConversationService_GetItem ::
  "'s conversation_store_ops \<Rightarrow> string \<Rightarrow> string \<Rightarrow> 's \<Rightarrow> conversation_item res" where
  "ConversationService_GetItem ops cid itemID s =
     (if cid = [] then Inl (ValidationError ''conversation_id'' ''conversation id is required'')
      else if itemID = [] then Inl (ValidationError ''item_id'' ''item id is required'')
      else case st_get_item ops cid itemID s of
        Inl e \<Rightarrow> Inl (MapStorageError e)
      | Inr ci \<Rightarrow> Inr ci)"

definition ConversationService_DeleteItem ::
  "'s conversation_store_ops \<Rightarrow> string \<Rightarrow> string \<Rightarrow> string \<Rightarrow> 's \<Rightarrow> (conversation \<times> 's) res" where
  "ConversationService_DeleteItem ops now cid itemID s =
     (if cid = [] then Inl (ValidationError ''conversation_id'' ''conversation id is required'')
      else if itemID = [] then Inl (ValidationError ''item_id'' ''item id is required'')
      else case st_get ops cid s of
        Inl e \<Rightarrow> Inl (MapStorageError e)
      | Inr (c, cis) \<Rightarrow>
          (case st_delete ops c itemID now s of
             Inl e \<Rightarrow> Inl (MapStorageError e)
           | Inr s' \<Rightarrow> Inr (c\<lparr>c_version := c_version c + 1, c_updated := now\<rparr>, s')))"

fun canonicalizeAppendLoop ::
  "item list \<Rightarrow> tool_call_reference gomap \<Rightarrow> item list res" where
  "canonicalizeAppendLoop [] knownRefs = Inr []"
| "canonicalizeAppendLoop (it # items) knownRefs =
     (case CanonicalizeToolOutputs [it] knownRefs of
        Inl e \<Rightarrow> Inl e
      | Inr canonicalized \<Rightarrow>
          (case canonicalizeAppendLoop items
                  (fold (\<lambda>(callID, ref). gomap_set callID ref)
                     (CollectToolCallReferences canonicalized) knownRefs) of
             Inl e \<Rightarrow> Inl e
           | Inr out \<Rightarrow> Inr (hd canonicalized # out)))"

definition canonicalizeConversationAppendItems ::
  "item list \<Rightarrow> tool_call_reference gomap \<Rightarrow> item list res" where
  "canonicalizeConversationAppendItems items refs =
     (if items = [] then Inr [] else canonicalizeAppendLoop items refs)"

definition ConversationService_AppendItems ::
  "'s conversation_store_ops \<Rightarrow> (nat \<Rightarrow> string option) \<Rightarrow> string \<Rightarrow> string \<Rightarrow> raw list \<Rightarrow> nat \<Rightarrow> 's \<Rightarrow>
   (conversation_item list \<times> nat \<times> 's) res" where
  "ConversationService_AppendItems ops uuid now cid rawItems n s =
     (if cid = [] then Inl (ValidationError ''conversation_id'' ''conversation id is required'')
      else if rawItems = [] then Inl (ValidationError ''items'' ''items must not be empty'')
      else if length rawItems > maxConversationItemsPerRequest
        then Inl (ValidationError ''items'' ''items may include at most 20 items'')
      else case st_get ops cid s of
        Inl e \<Rightarrow> Inl (MapStorageError e)
      | Inr (c, cis) \<Rightarrow>
          (case NormalizeConversationItems rawItems of
             Inl e \<Rightarrow> Inl e
           | Inr items \<Rightarrow>
               (case canonicalizeConversationAppendItems items (CollectToolCallReferences (c_items c)) of
                  Inl e \<Rightarrow> Inl e
                | Inr items1 \<Rightarrow>
                    (case EnsureItemIDs uuid n items1 of
                       Inl e \<Rightarrow> Inl e
                     | Inr (items2, n1) \<Rightarrow>
                         (case st_append ops c items2 now n1 s of
                            Inl e \<Rightarrow> Inl (MapStorageError e)
                          | Inr r \<Rightarrow> Inr r)))))"

section \<open>What the service relies on\<close>

locale conversation_store =
  fixes ops :: "'s conversation_store_ops" and inv :: "'s \<Rightarrow> bool"
  assumes get_id: "st_get ops cid s = Inr (c, cis) \<Longrightarrow> c_id c = cid"
    and create_get: "inv s \<Longrightarrow> st_create ops c n s = Inr (n', s') \<Longrightarrow>
      \<forall>it \<in> set (c_items c). Item_ID it \<noteq> [] \<and> storable it \<Longrightarrow> gomap_wf (c_metadata c) \<Longrightarrow>
      c_object c = ''conversation'' \<Longrightarrow> inv s' \<and> (\<exists>cis. st_get ops (c_id c) s' = Inr (c, cis)) \<and>
      (\<forall>k. k \<noteq> c_id c \<longrightarrow> st_get ops k s' = st_get ops k s)"
    and append_own: "st_append ops c items at n s = Inr (new, n', s') \<Longrightarrow>
      \<forall>it \<in> set items. Item_ID it \<noteq> [] \<Longrightarrow> map ci_item new = items"
    and append_get: "inv s \<Longrightarrow> st_get ops cid s = Inr (c, old) \<Longrightarrow>
      st_append ops c items at n s = Inr (new, n', s') \<Longrightarrow> \<forall>ci \<in> set new. storable (ci_item ci) \<Longrightarrow>
      inv s' \<and> st_get ops cid s' = Inr (touched c at (old @ new), old @ new) \<and>
      (\<forall>k. k \<noteq> cid \<longrightarrow> st_get ops k s' = st_get ops k s)"
    and delete_get: "inv s \<Longrightarrow> st_get ops cid s = Inr (c, old) \<Longrightarrow> st_delete ops c itemID at s = Inr s' \<Longrightarrow>
      inv s' \<and> itemID \<in> set (map ci_id old) \<and>
      st_get ops cid s' = Inr (touched c at (filter (\<lambda>ci. ci_id ci \<noteq> itemID) old),
                               filter (\<lambda>ci. ci_id ci \<noteq> itemID) old) \<and>
      (\<forall>k. k \<noteq> cid \<longrightarrow> st_get ops k s' = st_get ops k s)"
    and list_page: "inv s \<Longrightarrow> st_get ops (q_conversation q) s = Inr (c, cis) \<Longrightarrow>
      q_order q = ''asc'' \<or> q_order q = ''desc'' \<Longrightarrow> 0 \<le> q_limit q \<Longrightarrow>
      page_start (in_order (q_order q) cis) (q_after q) k \<Longrightarrow>
      st_list ops q s = Inr \<lparr>p_items = take (nat (q_limit q)) (drop k (in_order (q_order q) cis)),
        p_more = (q_limit q < int (length cis - k))\<rparr>"

definition sqlite_ops :: "(nat \<Rightarrow> string option) \<Rightarrow> db conversation_store_ops" where
  "sqlite_ops uuid = \<lparr>st_create = CreateConversation uuid, st_get = GetConversation,
     st_get_item = GetConversationItem, st_list = ListConversationItems,
     st_append = AppendConversationItems uuid, st_delete = DeleteConversationItem\<rparr>"

lemma append_own_ids:
  assumes "AppendConversationItems uuid c items at n d = Inr (new, n', d')"
    and "\<forall>it \<in> set items. Item_ID it \<noteq> []"
  shows "map ci_item new = items"
  using assms insertItems_own_ids by (fastforce simp: AppendConversationItems_def split: sum.splits)

lemma delete_present:
  assumes "conv_inv d" "GetConversation (c_id c) d = Inr (c, old)" "DeleteConversationItem c itemID at d = Inr d'"
  shows "itemID \<in> set (map ci_id old)"
proof -
  from assms(3) obtain d1 r where b: "bumpVersion (c_id c) (c_version c) at d = Inr d1"
    and r: "r \<in> set (conversation_items d1)" "ir_conversation r = c_id c" "ir_id r = itemID"
    by (auto simp: DeleteConversationItem_def tbl_delete_def filter_empty_conv split: sum.splits if_splits)
  have "r \<in> set (conv_rows d (c_id c))" using r bump_inv(2) [OF assms(1) b] by (simp add: conv_rows_mem)
  moreover have "scanConversationItems (conv_rows d (c_id c)) = Inr old"
    using assms(2) by (auto simp: GetConversation_Inr_iff [OF assms(1)])
  then have "set (map ci_id old) = ir_id ` set (conv_rows d (c_id c))" using scan_ids by (metis set_map)
  ultimately show ?thesis using r(3) by auto
qed

interpretation sq: conversation_store "sqlite_ops uuid" conv_inv for uuid
proof unfold_locales
  fix cid s c cis assume "st_get (sqlite_ops uuid) cid s = Inr (c, cis)"
  then show "c_id c = cid" using get_row by (auto simp: sqlite_ops_def)
next
  fix s c n n' s' assume "conv_inv s" "st_create (sqlite_ops uuid) c n s = Inr (n', s')"
    "\<forall>it \<in> set (c_items c). Item_ID it \<noteq> [] \<and> storable it" "gomap_wf (c_metadata c)" "c_object c = ''conversation''"
  then show "conv_inv s' \<and> (\<exists>cis. st_get (sqlite_ops uuid) (c_id c) s' = Inr (c, cis)) \<and>
      (\<forall>k. k \<noteq> c_id c \<longrightarrow> st_get (sqlite_ops uuid) k s' = st_get (sqlite_ops uuid) k s)"
    using create_written [of s uuid c n n' s'] by (auto simp: sqlite_ops_def)
next
  fix c items at n s new n' s'
  assume "st_append (sqlite_ops uuid) c items at n s = Inr (new, n', s')" "\<forall>it \<in> set items. Item_ID it \<noteq> []"
  then show "map ci_item new = items" using append_own_ids by (auto simp: sqlite_ops_def)
next
  fix s cid c old items at n new n' s'
  assume a: "conv_inv s" "st_get (sqlite_ops uuid) cid s = Inr (c, old)"
    "st_append (sqlite_ops uuid) c items at n s = Inr (new, n', s')" "\<forall>ci \<in> set new. storable (ci_item ci)"
  then have "c_id c = cid" using get_row [of cid s c old] by (auto simp: sqlite_ops_def)
  with a have "conv_written cid c at (old @ new) s s'"
    using append_written [of s c c old uuid items at n new n' s'] by (auto simp: sqlite_ops_def)
  then show "conv_inv s' \<and> st_get (sqlite_ops uuid) cid s' = Inr (touched c at (old @ new), old @ new) \<and>
      (\<forall>k. k \<noteq> cid \<longrightarrow> st_get (sqlite_ops uuid) k s' = st_get (sqlite_ops uuid) k s)"
    by (auto simp: conv_written_def sqlite_ops_def)
next
  fix s cid c old itemID at s'
  assume a: "conv_inv s" "st_get (sqlite_ops uuid) cid s = Inr (c, old)"
    "st_delete (sqlite_ops uuid) c itemID at s = Inr s'"
  then have "c_id c = cid" using get_row [of cid s c old] by (auto simp: sqlite_ops_def)
  with a delete_written [of s c c old itemID at s'] delete_present [of s c old itemID at s']
  show "conv_inv s' \<and> itemID \<in> set (map ci_id old) \<and>
      st_get (sqlite_ops uuid) cid s' = Inr (touched c at (filter (\<lambda>ci. ci_id ci \<noteq> itemID) old),
                               filter (\<lambda>ci. ci_id ci \<noteq> itemID) old) \<and>
      (\<forall>k. k \<noteq> cid \<longrightarrow> st_get (sqlite_ops uuid) k s' = st_get (sqlite_ops uuid) k s)"
    by (auto simp: conv_written_def sqlite_ops_def)
qed (auto simp: sqlite_ops_def list_items_page_aux)

section \<open>Tool outputs\<close>

lemma any_fields_append:
  "any_fields (xs @ ys) = (case any_fields xs of None \<Rightarrow> None
     | Some m \<Rightarrow> (case any_fields ys of None \<Rightarrow> None | Some n \<Rightarrow> Some (m @ n)))"
  by (induction xs) (auto split: option.splits)

lemma any_fields_lookup:
  "any_fields kvs = Some m \<Longrightarrow>
     map_of (rev m) k = (case map_of (rev kvs) k of None \<Rightarrow> None | Some v \<Rightarrow> any_of v)"
proof (induction kvs arbitrary: m rule: rev_induct)
  case (snoc kv kvs)
  then obtain v m' where "any_fields kvs = Some m'" "any_of (snd kv) = Some v" "m = m' @ [(fst kv, v)]"
    by (auto simp: any_fields_append split: option.splits)
  with snoc.IH [of m'] show ?case by (cases kv) auto
qed simp

lemma any_string: "any_of j = Some v \<Longrightarrow> unmarshal_string (RawJson v) = unmarshal_string (RawJson j)"
  by (cases j) (auto split: option.splits)

text \<open>Replacing one field of an item keeps the text of the others.\<close>

lemma Item_WithField_other:
  assumes "Item_WithField i name (JStr v) = Inr i'" "unmarshal_any_map (iRaw i) \<noteq> None" "k \<noteq> name"
  shows "Item_StringField i' k = Item_StringField i k"
proof (cases "iRaw i" rule: unmarshal_any_map.cases)
  case (1 kvs)
  then obtain m where m: "any_fields kvs = Some m" using assms(2) by auto
  then have map: "Item_Map i = gomap_of m" using 1 by (simp add: Item_Map_def)
  note w = Item_WithField_Inr [OF assms(1)]
  have "gomap_of (gomap_set name (JStr v) (Item_Map i)) = gomap_set name (JStr v) (Item_Map i)"
    by (simp add: gomap_of_wf gomap_wf_set Item_Map_wf)
  then have "map_of (gomap_of (gomap_set name (JStr v) (Item_Map i))) k =
      (case map_of (gomap_of kvs) k of None \<Rightarrow> None | Some v \<Rightarrow> any_of v)"
    using assms(3) map any_fields_lookup [OF m] by (simp add: map_of_gomap_set map_of_gomap_of)
  moreover have "any_of x \<noteq> None" if "map_of (gomap_of kvs) k = Some x" for x
  proof -
    have "k \<in> fst ` set kvs" using that by (metis map_of_gomap_of_None option.distinct(1))
    then have "k \<in> fst ` set m" using any_fields_keys [OF m] by (metis set_map)
    then have "map_of (rev m) k \<noteq> None" by (simp add: map_of_eq_None_iff)
    then show ?thesis using any_fields_lookup [OF m, of k] that by (simp add: map_of_gomap_of)
  qed
  ultimately show ?thesis
    using 1 w(1)
    by (auto simp: Item_StringField_def Item_RawField_def raw_entry_def Let_def any_string split: option.splits)
next
  case 2
  then show ?thesis
    using assms(1,3) Item_WithField_Inr(1) [OF assms(1)]
    by (simp add: Item_StringField_def Item_RawField_def raw_entry_def Item_Map_def gomap_of_def Let_def)
qed (use assms(2) in auto)

lemma canonicalize_nil: "canonicalizeToolOutput [] i = Inr i"
  by (simp add: canonicalizeToolOutput_def)

lemma CanonicalizeToolOutputs_single:
  "CanonicalizeToolOutputs [i] refs =
     (case canonicalizeToolOutput refs i of Inl e \<Rightarrow> Inl e | Inr j \<Rightarrow> Inr [j])"
  by (auto simp: CanonicalizeToolOutputs_def canonicalize_nil split: sum.splits)

lemma Collect_append:
  "CollectToolCallReferences_loop (xs @ ys) refs =
     CollectToolCallReferences_loop ys (CollectToolCallReferences_loop xs refs)"
  by (induction xs refs rule: CollectToolCallReferences_loop.induct) (auto simp: Let_def)

lemma Collect_single:
  "fold (\<lambda>(callID, ref). gomap_set callID ref) (CollectToolCallReferences [i]) refs =
     CollectToolCallReferences_loop [i] refs"
  by (simp add: CollectToolCallReferences_def Let_def)

lemma canonicalizeAppendLoop_step:
  "canonicalizeAppendLoop items (CollectToolCallReferences prior) = Inr out \<Longrightarrow>
     length out = length items \<and> (\<forall>k < length items.
       canonicalizeToolOutput (CollectToolCallReferences (prior @ take k out)) (items ! k) = Inr (out ! k))"
proof (induction items arbitrary: prior out)
  case (Cons i items)
  then obtain j out' where j: "canonicalizeToolOutput (CollectToolCallReferences prior) i = Inr j"
    "out = j # out'" and "canonicalizeAppendLoop items
      (CollectToolCallReferences_loop [j] (CollectToolCallReferences prior)) = Inr out'"
    by (auto simp: CanonicalizeToolOutputs_single Collect_single simp del: CollectToolCallReferences_loop.simps
        split: sum.splits)
  then have rest: "canonicalizeAppendLoop items (CollectToolCallReferences (prior @ [j])) = Inr out'"
    by (simp add: CollectToolCallReferences_def Collect_append del: CollectToolCallReferences_loop.simps)
  show ?case
  proof (intro conjI allI impI)
    show "length out = length (i # items)" using Cons.IH [OF rest] j by simp
    fix k assume "k < length (i # items)"
    then show "canonicalizeToolOutput (CollectToolCallReferences (prior @ take k out)) ((i # items) ! k) =
        Inr (out ! k)"
      using Cons.IH [OF rest] j by (cases k) auto
  qed
qed simp

lemma canonical_output:
  assumes "canonicalizeToolOutput refs i = Inr j" "map_of refs (Item_CallID i) = Some ref"
    and "ref_type ref = ''custom_tool_call''"
    and "iType i = ''function_call_output'' \<or> iType i = ''custom_tool_call_output''"
    and "unmarshal_any_map (iRaw i) \<noteq> None"
  shows "iType j = ''custom_tool_call_output'' \<and> Item_CallID j = Item_CallID i \<and>
    (ref_meta ref \<noteq> None \<longrightarrow> iMeta j \<noteq> None) \<and> canonicalizeToolOutput refs j = Inr j"
proof (cases "iType i = ''custom_tool_call_output''")
  case True
  have call: "Item_CallID (i\<lparr>iMeta := m\<rparr>) = Item_CallID i" for m
    by (simp add: Item_StringField_def Item_RawField_def)
  with True assms(1-3) show ?thesis
    by (auto simp: canonicalizeToolOutput_def split: if_splits)
next
  case False
  let ?m = "gomap_set ''type'' (JStr ''custom_tool_call_output'') (Item_Map i)"
  from False assms(1-4) obtain k where k: "Item_WithField i ''type'' (JStr ''custom_tool_call_output'') = Inr k"
    and "(case ref_meta ref of None \<Rightarrow> j = k | Some m \<Rightarrow> \<exists>m'. j = k\<lparr>iMeta := Some m'\<rparr>)"
    by (auto simp: canonicalizeToolOutput_def Item_WithField_def split: sum.splits option.splits if_splits)
  then obtain m where j: "j = k\<lparr>iMeta := m\<rparr>" "ref_meta ref \<noteq> None \<longrightarrow> m \<noteq> None"
    by (cases "ref_meta ref") (auto intro: that [of "iMeta k"])
  note w = Item_WithField_Inr [OF k]
  have "NewItem (RawJson (JObj ?m)) = Inr (k\<lparr>iMeta := None\<rparr>)" using w(1,3) by (simp add: item_wf_def)
  then have "iType k = ''custom_tool_call_output''"
    using NewItem_type [OF gomap_wf_set [OF Item_Map_wf], of "''type''" "JStr ''custom_tool_call_output''" i]
    by (simp add: str_entry_def map_of_gomap_set)
  moreover have "Item_CallID k = Item_CallID i" using Item_WithField_other [OF k assms(5)] by simp
  moreover have "Item_CallID (k\<lparr>iMeta := m\<rparr>) = Item_CallID k"
    by (simp add: Item_StringField_def Item_RawField_def)
  ultimately show ?thesis using j assms(2,3) by (auto simp: canonicalizeToolOutput_def)
qed

section \<open>The service over a store\<close>

context conversation_store
begin

lemma append_items:
  assumes "inv s" "ConversationService_AppendItems ops uuid now cid rawItems n s = Inr (new, n', s')"
    and "\<forall>ci \<in> set new. storable (ci_item ci)"
  shows "\<exists>c old. st_get ops cid s = Inr (c, old) \<and> inv s' \<and>
     st_get ops cid s' = Inr (touched c now (old @ new), old @ new) \<and>
     (\<forall>k. k \<noteq> cid \<longrightarrow> st_get ops k s' = st_get ops k s) \<and>
     length new = length rawItems \<and> 1 \<le> length new \<and> length new \<le> maxConversationItemsPerRequest \<and>
     (\<forall>ci \<in> set new. Item_ID (ci_item ci) \<noteq> [])"
proof -
  from assms(2) obtain c old items items1 items2 n1 where
    p: "rawItems \<noteq> []" "length rawItems \<le> maxConversationItemsPerRequest" "st_get ops cid s = Inr (c, old)"
      "NormalizeConversationItems rawItems = Inr items"
      "canonicalizeConversationAppendItems items (CollectToolCallReferences (c_items c)) = Inr items1"
      "EnsureItemIDs uuid n items1 = Inr (items2, n1)" "st_append ops c items2 now n1 s = Inr (new, n', s')"
    by (auto simp: ConversationService_AppendItems_def split: if_splits sum.splits)
  have "length items = length rawItems"
    using p(1,4) map_res_length by (auto simp: NormalizeConversationItems_def split: if_splits)
  moreover have "length items1 = length items"
    using p(5) canonicalizeAppendLoop_step by (auto simp: canonicalizeConversationAppendItems_def split: if_splits)
  moreover note e = EnsureItemIDs_spec [OF p(6)]
  ultimately have len: "length items2 = length rawItems" by (auto dest: list_all2_lengthD)
  have ids: "\<forall>it \<in> set items2. Item_ID it \<noteq> []"
    using e by (auto simp: list_all2_conv_all_nth in_set_conv_nth assigned_def)
  have new: "items2 = map ci_item new" using append_own [OF p(7) ids] by simp
  have "1 \<le> length rawItems" using p(1) by (cases rawItems) auto
  moreover have "\<forall>ci \<in> set new. Item_ID (ci_item ci) \<noteq> []" using ids unfolding new by simp
  moreover have "length new = length rawItems" using len unfolding new by simp
  ultimately show ?thesis
    using append_get [OF assms(1) p(3,7) assms(3)] p(2,3) by (intro exI [of _ c] exI [of _ old]) simp
qed

lemma create_conversation:
  assumes "inv s" "ConversationService_Create ops uuid now rawItems metadata n s = Inr (c, n', s')"
    and "\<forall>it \<in> set (c_items c). storable it"
  shows "inv s' \<and> (\<exists>cis. st_get ops (c_id c) s' = Inr (c, cis)) \<and> c_version c = 1 \<and> metadata_ok (c_metadata c) \<and>
     length (c_items c) = length rawItems \<and> length rawItems \<le> maxConversationItemsPerRequest \<and>
     (\<forall>k. k \<noteq> c_id c \<longrightarrow> st_get ops k s' = st_get ops k s)"
proof -
  from assms(2) obtain items n1 md cid where
    i: "(if rawItems = [] then Inr ([], n)
            else if length rawItems > maxConversationItemsPerRequest
              then Inl (ValidationError ''items'' ''items may include at most 20 items'')
            else case NormalizeConversationItems rawItems of
              Inl e \<Rightarrow> Inl e
            | Inr items \<Rightarrow> EnsureItemIDs uuid n items) = Inr (items, n1)"
    and md: "NormalizeConversationMetadata metadata = Inr md"
    and c: "c = \<lparr>c_id = cid, c_object = ''conversation'', c_metadata = md, c_items = items,
                 c_version = 1, c_created = now, c_updated = now\<rparr>"
    and cr: "st_create ops c (Suc n1) s = Inr (n', s')"
    unfolding ConversationService_Create_def by (auto simp: Let_def split: sum.splits)
  have items: "length items = length rawItems \<and> length rawItems \<le> maxConversationItemsPerRequest \<and>
      (\<forall>it \<in> set items. Item_ID it \<noteq> [])"
  proof (cases "rawItems = []")
    case True
    with i show ?thesis by simp
  next
    case False
    with i obtain its where its: "NormalizeConversationItems rawItems = Inr its"
      "EnsureItemIDs uuid n its = Inr (items, n1)" "length rawItems \<le> maxConversationItemsPerRequest"
      by (auto split: if_splits sum.splits)
    note e = EnsureItemIDs_spec [OF its(2)]
    have "length its = length rawItems"
      using False its(1) map_res_length by (auto simp: NormalizeConversationItems_def split: if_splits)
    moreover have "\<forall>it \<in> set items. Item_ID it \<noteq> []"
      using e by (auto simp: list_all2_conv_all_nth in_set_conv_nth assigned_def)
    ultimately show ?thesis using e its(3) by (auto dest: list_all2_lengthD)
  qed
  have "metadata_ok md" 
    using md normalizeMetadata_sound by (simp add: NormalizeConversationMetadata_def)
  then have wf: "metadata_ok (c_metadata c)" "gomap_wf (c_metadata c)" using c by (auto simp: metadata_ok_def)
  have "\<forall>it \<in> set (c_items c). Item_ID it \<noteq> [] \<and> storable it" using items assms(3) c by auto
  from create_get [OF assms(1) cr this wf(2)] c wf items show ?thesis by simp
qed

lemma delete_item:
  assumes "inv s" "ConversationService_DeleteItem ops now cid itemID s = Inr (c', s')"
  shows "\<exists>c old. st_get ops cid s = Inr (c, old) \<and> itemID \<in> set (map ci_id old) \<and> inv s' \<and>
     c' = c\<lparr>c_version := c_version c + 1, c_updated := now\<rparr> \<and>
     st_get ops cid s' = Inr (c'\<lparr>c_items := map ci_item (filter (\<lambda>ci. ci_id ci \<noteq> itemID) old)\<rparr>,
                              filter (\<lambda>ci. ci_id ci \<noteq> itemID) old) \<and>
     (\<forall>k. k \<noteq> cid \<longrightarrow> st_get ops k s' = st_get ops k s)"
proof -
  from assms(2) obtain c old where p: "st_get ops cid s = Inr (c, old)" "st_delete ops c itemID now s = Inr s'"
    "c' = c\<lparr>c_version := c_version c + 1, c_updated := now\<rparr>"
    by (auto simp: ConversationService_DeleteItem_def split: if_splits sum.splits)
  from delete_get [OF assms(1) p(1,2)] p show ?thesis by (auto simp: touched_def)
qed

end
section \<open>Properties\<close>

text \<open>An append through the service adds between 1 and 20 items, one for each item of the request, all
  with an identifier, after the items the conversation had; its version goes up by one and the
  other conversations are untouched.\<close>

theorem service_append_items:
  assumes "conv_inv d" "ConversationService_AppendItems (sqlite_ops uuid) uuid now cid rawItems n d = Inr (new, n', d')"
    and "\<forall>ci \<in> set new. storable (ci_item ci)"
  shows "\<exists>c old. GetConversation cid d = Inr (c, old) \<and> conv_inv d' \<and>
     GetConversation cid d' = Inr (c\<lparr>c_version := c_version c + 1, c_updated := now,
        c_items := map ci_item (old @ new)\<rparr>, old @ new) \<and>
     (\<forall>k. k \<noteq> cid \<longrightarrow> GetConversation k d' = GetConversation k d) \<and>
     length new = length rawItems \<and> 1 \<le> length new \<and> length new \<le> 20 \<and>
     (\<forall>ci \<in> set new. Item_ID (ci_item ci) \<noteq> [])"
  using sq.append_items [OF assms]
  by (simp add: sqlite_ops_def touched_def maxConversationItemsPerRequest_def)

definition sample_reasoning :: item where
  "sample_reasoning = \<lparr>iRaw = RawJson (JObj [(''id'', JStr ''x''), (''type'', JStr ''reasoning'')]),
     iMeta = None, iType = ''reasoning'', iRole = [], iContent = []\<rparr>"

lemma sample_reasoning_new:
  "NewItem (RawJson (JObj [(''id'', JStr ''x''), (''type'', JStr ''reasoning'')])) = Inr sample_reasoning"
proof -
  have "fold_case ''id'' = ''id''" by (simp add: fold_case.simps lower_char_def)
  then show ?thesis
    by (simp add: NewItem_def key_folds Let_def looksLikeMessageItem_def raw_absent_def
        extractTextParts_def sample_reasoning_def trim_space_word)
qed

lemma sample_reasoning_norm:
  "NormalizeConversationItems [RawJson (JObj [(''id'', JStr ''x''), (''type'', JStr ''reasoning'')])] =
     Inr [sample_reasoning]"
proof -
  have "gomap_of [(''id'', JStr ''x''), (''type'', JStr ''reasoning'')] =
      [(''id'', JStr ''x''), (''type'', JStr ''reasoning'')]"
    by (rule gomap_of_wf) (simp add: gomap_wf_def)
  then show ?thesis
    using sample_reasoning_new
    by (simp add: NormalizeConversationItems_def normalizeItemObject_def str_entry_def trim_space_word
        validateItemPayload_def normalizedItemMeta_def sample_reasoning_def Let_def)
qed

lemma sample_reasoning_fresh: "fresh_items [sample_reasoning] sample_db" "Item_ID sample_reasoning = ''x''"
proof -
  show i: "Item_ID sample_reasoning = ''x''"
    by (simp add: Item_StringField_def Item_RawField_def sample_reasoning_def raw_entry_def map_of_gomap_of trim_space_word)
  have "item_wf sample_reasoning" using NewItem_wf [OF sample_reasoning_new] .
  moreover have "\<not> has_envelope_key sample_reasoning"
    by (simp add: has_envelope_key_def Item_RawField_def sample_reasoning_def raw_entry_def map_of_gomap_of)
  ultimately have "storable sample_reasoning" by (simp add: storable_def meta_wf_def sample_reasoning_def)
  with i show "fresh_items [sample_reasoning] sample_db"
    by (simp add: fresh_items_def sample_db_def tbl_has_def)
qed

theorem service_append_items_witness:
  "\<exists>new d'. ConversationService_AppendItems (sqlite_ops (\<lambda>_. None)) (\<lambda>_. None) ''t1'' ''conv_1''
     [RawJson (JObj [(''id'', JStr ''x''), (''type'', JStr ''reasoning'')])] 0 sample_db = Inr (new, 0, d') \<and>
     length new = 1 \<and> conv_inv d'"
proof -
  have "c_id sample_conversation = ''conv_1''" by (simp add: sample_conversation_def)
  then have id_read: "GetConversation (c_id sample_conversation) sample_db =
      Inr (sample_conversation, [sample_stored])" using sample_read by simp
  obtain new d' where a: "AppendConversationItems (\<lambda>_. None) sample_conversation [sample_reasoning] ''t1'' 0
      sample_db = Inr (new, 0, d')" "map ci_item new = [sample_reasoning]"
    using append_ok [OF sample_inv id_read sample_reasoning_fresh(1), of "\<lambda>_. None" "''t1''" 0] by (elim exE conjE) (rule that)
  have "CollectToolCallReferences (c_items sample_conversation) = []"
    by (simp add: CollectToolCallReferences_def sample_conversation_def Item_StringField_def Item_RawField_def
        sample_item_def raw_entry_def map_of_gomap_of)
  then have app: "ConversationService_AppendItems (sqlite_ops (\<lambda>_. None)) (\<lambda>_. None) ''t1'' ''conv_1''
     [RawJson (JObj [(''id'', JStr ''x''), (''type'', JStr ''reasoning'')])] 0 sample_db = Inr (new, 0, d')"
    using a(1) sample_read sample_reasoning_norm sample_reasoning_fresh(2)
    by (simp add: ConversationService_AppendItems_def sqlite_ops_def maxConversationItemsPerRequest_def
        canonicalizeConversationAppendItems_def CanonicalizeToolOutputs_def trim_space_word)
  have "\<forall>ci \<in> set new. storable (ci_item ci)"
    using a(2) sample_reasoning_fresh(1) by (auto simp: fresh_items_def)
  with app have "length new = 1 \<and> conv_inv d'"
    using service_append_items [OF sample_inv, of "\<lambda>_. None" "''t1''" "''conv_1''"
        "[RawJson (JObj [(''id'', JStr ''x''), (''type'', JStr ''reasoning'')])]" 0 new 0 d'] by auto
  with app show ?thesis by blast
qed

text \<open>A conversation created through the service has version 1, metadata within the limits and one
  stored item for each item of the request, at most 20; it reads back exactly as it was returned.\<close>

theorem service_create_conversation:
  assumes "conv_inv d" "ConversationService_Create (sqlite_ops uuid) uuid now rawItems metadata n d = Inr (c, n', d')"
    and "\<forall>it \<in> set (c_items c). storable it"
  shows "conv_inv d' \<and> ConversationService_Get (sqlite_ops uuid) (c_id c) d' = Inr c \<and> c_version c = 1 \<and>
     metadata_ok (c_metadata c) \<and> length (c_items c) = length rawItems \<and> length rawItems \<le> 20 \<and>
     (\<forall>k. k \<noteq> c_id c \<longrightarrow> GetConversation k d' = GetConversation k d)"
proof -
  have "c_id c \<noteq> []" using assms(2)
    by (auto simp: ConversationService_Create_def NewPrefixedID_def Let_def split: sum.splits option.splits)
  then show ?thesis
    using sq.create_conversation [OF assms]
    by (auto simp: sqlite_ops_def ConversationService_Get_def maxConversationItemsPerRequest_def)
qed

theorem service_create_conversation_witness:
  "\<exists>c n' d'. ConversationService_Create (sqlite_ops (\<lambda>_. Some ''u'')) (\<lambda>_. Some ''u'') ''t0'' [] RawEmpty 0 empty_db =
     Inr (c, n', d') \<and> ConversationService_Get (sqlite_ops (\<lambda>_. Some ''u'')) (c_id c) d' = Inr c"
proof -
  have "\<exists>c n' d'. ConversationService_Create (sqlite_ops (\<lambda>_. Some ''u'')) (\<lambda>_. Some ''u'') ''t0'' [] RawEmpty 0
      empty_db = Inr (c, n', d') \<and> c_items c = []"
    by (simp add: ConversationService_Create_def NormalizeConversationMetadata_def normalizeMetadata_def
        raw_absent_def NewPrefixedID_def sqlite_ops_def CreateConversation_def empty_db_def tbl_insert_def
        tbl_has_def)
  then show ?thesis using service_create_conversation [OF conv_inv_empty] by fastforce
qed

text \<open>Appended tool outputs are canonicalised one after another, and that is the same as looking up
  each of them among the tool calls of the whole conversation before it, the items of the same
  request included.\<close>

theorem canonical_append_lookup:
  assumes "canonicalizeConversationAppendItems items (CollectToolCallReferences prior) = Inr out"
  shows "length out = length items \<and> (\<forall>k < length items.
    canonicalizeToolOutput (CollectToolCallReferences (prior @ take k out)) (items ! k) = Inr (out ! k))"
  using assms canonicalizeAppendLoop_step
  by (auto simp: canonicalizeConversationAppendItems_def split: if_splits)

theorem canonical_append_lookup_witness:
  "canonicalizeConversationAppendItems [sample_item] (CollectToolCallReferences []) = Inr [sample_item] \<and>
   canonicalizeToolOutput (CollectToolCallReferences []) sample_item = Inr sample_item"
proof -
  have "canonicalizeConversationAppendItems [sample_item] (CollectToolCallReferences []) = Inr [sample_item]"
    by (simp add: canonicalizeConversationAppendItems_def CollectToolCallReferences_def CanonicalizeToolOutputs_def)
  from this canonical_append_lookup [OF this] show ?thesis by simp
qed

text \<open>An output of a custom tool call, whatever output type the client used, becomes a
  \<^verbatim>\<open>custom_tool_call_output\<close> with the same call identifier, gets the metadata of its call when the call
  has some, and is not changed by canonicalising it again.\<close>

theorem custom_output_canonical:
  assumes "canonicalizeToolOutput refs i = Inr j" "map_of refs (Item_CallID i) = Some ref"
    and "ref_type ref = ''custom_tool_call''"
    and "iType i = ''function_call_output'' \<or> iType i = ''custom_tool_call_output''"
    and "unmarshal_any_map (iRaw i) \<noteq> None"
  shows "iType j = ''custom_tool_call_output'' \<and> Item_CallID j = Item_CallID i \<and>
    (ref_meta ref \<noteq> None \<longrightarrow> iMeta j \<noteq> None) \<and> canonicalizeToolOutput refs j = Inr j"
  using assms by (rule canonical_output)

definition sample_output :: item where
  "sample_output = \<lparr>iRaw = RawJson (JObj [(''call_id'', JStr ''c1''), (''output'', JStr ''o''), (''type'', JStr ''function_call_output'')]),
     iMeta = None, iType = ''function_call_output'', iRole = [], iContent = []\<rparr>"

definition sample_refs :: "tool_call_reference gomap" where
  "sample_refs = [(''c1'', \<lparr>ref_type = ''custom_tool_call'', ref_name = ''n'', ref_namespace = [], ref_meta = None\<rparr>)]"

theorem custom_output_canonical_witness:
  "\<exists>j. canonicalizeToolOutput sample_refs sample_output = Inr j \<and> iType j = ''custom_tool_call_output'' \<and>
     canonicalizeToolOutput sample_refs j = Inr j"
proof -
  have id: "Item_CallID sample_output = ''c1''"
    by (simp add: Item_StringField_def Item_RawField_def sample_output_def raw_entry_def map_of_gomap_of trim_space_word)
  have k: "fold_case ''call_id'' = ''call_id''" "fold_case ''output'' = ''output''"
    by (simp_all add: fold_case.simps lower_char_def)
  have "gomap_of [(''call_id'', JStr ''c1''), (''output'', JStr ''o''), (''type'', JStr ''function_call_output'')] =
      [(''call_id'', JStr ''c1''), (''output'', JStr ''o''), (''type'', JStr ''function_call_output'')]"
    by (rule gomap_of_wf) (simp add: gomap_wf_def)
  then have "\<exists>j. canonicalizeToolOutput sample_refs sample_output = Inr j"
    using id k by (simp add: canonicalizeToolOutput_def sample_refs_def Item_WithMap_def Item_Map_def
        sample_output_def NewItem_def key_folds Let_def)
  then obtain j where j: "canonicalizeToolOutput sample_refs sample_output = Inr j" by blast
  have "map_of sample_refs (Item_CallID sample_output) = Some \<lparr>ref_type = ''custom_tool_call'', ref_name = ''n'',
      ref_namespace = [], ref_meta = None\<rparr>" "iType sample_output = ''function_call_output''"
    "unmarshal_any_map (iRaw sample_output) \<noteq> None"
    using id by (simp_all add: sample_refs_def sample_output_def)
  from custom_output_canonical [OF j this(1) _ disjI1 [OF this(2)] this(3)] j show ?thesis by auto
qed

end
