(* ===== verification/Tool_Markup.thy ===== *)
theory Tool_Markup
  imports Go_Strings
begin

text \<open>
  Leaked tool syntax, \<^verbatim>\<open>internal/toolmarkup/raw.go\<close>: the scan that decides whether a generated text
  prints tool calls as plain text, and what exactly it finds. The two searching loops advance over
  the text; they end because every round consumes part of it.
\<close>

section \<open>Markers\<close>

text \<open>Three back quotes, and a quoted word.\<close>

definition fence3 :: string where
  "fence3 = [CHR 96, CHR 96, CHR 96]"

definition quoted :: "string \<Rightarrow> string" where
  "quoted s = [CHR 34] @ s @ [CHR 34]"

text \<open>U+FF5C, the full-width vertical bar some providers print, becomes the ASCII bar.\<close>

definition normalizeProviderToolText :: "string \<Rightarrow> string" where
  "normalizeProviderToolText str = replace_all str [CHR 0xEF, CHR 0xBD, CHR 0x9C] ''|''"

definition pseudoToolTextMarkers :: "string list" where
  "pseudoToolTextMarkers = [
    ''<|tool_call'', ''<|tool_calls_section'', ''<|mask_start|'', ''<|mask_end|'', ''<prelude>'',
    ''</prelude>'', ''[shell_command]'', ''[/shell_command]'', ''<tool call:'', ''[tool call:'',
    ''<chatcmpl-tool>'', ''</chatcmpl-tool>'', ''<function.chatcmpl.tool>'',
    ''</function.chatcmpl.tool>'', ''<function_call>'', ''</function_call>'',
    ''<function_call_output'', ''<function name='', ''</function>'', ''<tools>'', ''</tools>'',
    ''<antthinking>'', ''</antthinking>'', ''<toolcall::'', ''</toolcall::'', ''<apply_patch>'',
    ''</apply_patch>'', ''<command>'', ''</command>'', ''<tool_call'', ''</tool_call>'',
    ''<tool_code_call>'', ''</tool_code_call>'', ''<tool_code_exec>'', ''</tool_code_exec>'',
    ''<tool_code_interpreter>'', ''</tool_code_interpreter>'', ''<tool_code>'', ''<invoke name='',
    ''<read_file>'', ''</read_file>'', ''<patch>'', ''</patch>'', ''<bash>'', ''</bash>'',
    ''<||dsml||tool_calls'', ''</||dsml||tool_calls'', ''<||dsml||invoke'', ''</||dsml||invoke'',
    ''<||dsml||parameter'', ''</||dsml||parameter'']"

definition pseudoToolTagNames :: "string list" where
  "pseudoToolTagNames =
     [''read_file'', ''bash'', ''command-message'', ''command-name'', ''command-output'', ''command-arg'']"

section \<open>Tags\<close>

definition isPseudoToolTagBoundary :: "char \<Rightarrow> bool" where
  "isPseudoToolTagBoundary ch \<longleftrightarrow>
     byte ch = 32 \<or> byte ch = 10 \<or> byte ch = 13 \<or> byte ch = 9 \<or>
     ch = CHR ''>'' \<or> ch = CHR ''/'' \<or> ch = CHR ''=''"

text \<open>The inner loop of \<^verbatim>\<open>hasPseudoToolTag\<close> from an offset on; the prefixes it is called with are not
  empty.\<close>

function hasTagFrom :: "string \<Rightarrow> string \<Rightarrow> bool" where
  "hasTagFrom pre str =
     (if pre = [] then False
      else case index_of str pre of
        None \<Rightarrow> False
      | Some idx \<Rightarrow>
          (case drop (idx + length pre) str of
             [] \<Rightarrow> True
           | ch # rest \<Rightarrow> isPseudoToolTagBoundary ch \<or> hasTagFrom pre (ch # rest)))"
  by pat_completeness auto
termination
proof (relation "measure (\<lambda>(pre, str). length str)")
  fix pre str :: string and idx ch rest
  assume "pre \<noteq> []" "index_of str pre = Some idx" "drop (idx + length pre) str = ch # rest"
  then have "length (ch # rest) = length str - (idx + length pre)" by (metis length_drop)
  then show "((pre, ch # rest), (pre, str)) \<in> measure (\<lambda>(pre, str). length str)"
    using \<open>pre \<noteq> []\<close> by (cases pre) auto
qed simp

declare hasTagFrom.simps [simp del]

definition hasPseudoToolTag :: "string \<Rightarrow> string \<Rightarrow> bool" where
  "hasPseudoToolTag str name \<longleftrightarrow> list_ex (\<lambda>pre. hasTagFrom pre str) [''<'' @ name, ''</'' @ name]"

definition firstPseudoToolTagMarker :: "string \<Rightarrow> string" where
  "firstPseudoToolTagMarker str =
     (case find (hasPseudoToolTag str) pseudoToolTagNames of None \<Rightarrow> [] | Some name \<Rightarrow> ''<'' @ name)"

section \<open>Fenced blocks\<close>

function containsFencedPseudoCommand :: "string \<Rightarrow> string \<Rightarrow> (string \<Rightarrow> bool) \<Rightarrow> bool" where
  "containsFencedPseudoCommand str fence match =
     (case index_of str fence of
        None \<Rightarrow> False
      | Some startRelative \<Rightarrow>
          (let body = drop (startRelative + length fence) str in
           case index_of body fence3 of
             None \<Rightarrow> match body
           | Some blockEnd \<Rightarrow>
               match (take blockEnd body) \<or>
               containsFencedPseudoCommand (drop (blockEnd + length fence3) body) fence match))"
  by pat_completeness auto
termination
proof (relation "measure (\<lambda>(str, fence, match). length str)", goal_cases)
  case (2 str fence match s body e)
  then have "e + length fence3 \<le> length body" using index_of_Some by blast
  then show ?case using 2 by (simp add: fence3_def)
qed simp

declare containsFencedPseudoCommand.simps [simp del]

definition isPseudoCommandJSONBlock :: "string \<Rightarrow> bool" where
  "isPseudoCommandJSONBlock block \<longleftrightarrow>
     (if \<not> contains block (quoted ''command'') then False
      else if contains block (quoted ''agent'') \<and> contains block (quoted ''cli'') then True
      else if contains block (quoted ''apply_patch'') then True
      else contains block (quoted ''cwd'') \<and>
        (contains block (quoted ''bash'') \<or> contains block (quoted ''zsh'')))"

definition isPseudoCommandYAMLBlock :: "string \<Rightarrow> bool" where
  "isPseudoCommandYAMLBlock block \<longleftrightarrow>
     (let trimmed = trim_space block in
      if \<not> contains trimmed ''command:'' then False
      else contains trimmed ''apply_patch'' \<or> contains trimmed ''exec_command'' \<or>
        contains trimmed ''shell'')"

definition isPlainApplyPatchBlock :: "string \<Rightarrow> bool" where
  "isPlainApplyPatchBlock block \<longleftrightarrow>
     (let trimmed = trim_space block in
      has_prefix trimmed (''applypatch'' @ newline) \<or> has_prefix trimmed (''apply_patch'' @ newline) \<or>
      contains trimmed (newline @ ''*** update file:'') \<or> contains trimmed (newline @ ''*** begin patch''))"

definition containsFencedJSONPseudoCommand :: "string \<Rightarrow> bool" where
  "containsFencedJSONPseudoCommand str =
     containsFencedPseudoCommand str (fence3 @ ''json'') isPseudoCommandJSONBlock"

definition containsFencedYAMLPseudoCommand :: "string \<Rightarrow> bool" where
  "containsFencedYAMLPseudoCommand str =
     containsFencedPseudoCommand str (fence3 @ ''yaml'') isPseudoCommandYAMLBlock"

definition containsFencedPlainApplyPatch :: "string \<Rightarrow> bool" where
  "containsFencedPlainApplyPatch str = containsFencedPseudoCommand str fence3 isPlainApplyPatchBlock"

section \<open>Detection\<close>

definition FirstPseudoToolMarker :: "string \<Rightarrow> string" where
  "FirstPseudoToolMarker str =
     (let lower = to_lower (normalizeProviderToolText str) in
      case find (contains lower) pseudoToolTextMarkers of
        Some marker \<Rightarrow> marker
      | None \<Rightarrow>
          if firstPseudoToolTagMarker lower \<noteq> [] then firstPseudoToolTagMarker lower
          else if containsFencedJSONPseudoCommand lower then fence3 @ ''json command/apply_patch block''
          else if containsFencedYAMLPseudoCommand lower then fence3 @ ''yaml command/apply_patch block''
          else if containsFencedPlainApplyPatch lower then fence3 @ '' applypatch block''
          else [])"

definition ContainsPseudoToolText :: "string \<Rightarrow> bool" where
  "ContainsPseudoToolText str \<longleftrightarrow> FirstPseudoToolMarker str \<noteq> []"

section \<open>What is detected\<close>

text \<open>An occurrence of a tag: the prefix, followed by a boundary or the end of the text.\<close>

definition tag_occurs :: "string \<Rightarrow> string \<Rightarrow> bool" where
  "tag_occurs pre str \<longleftrightarrow>
     (\<exists>a b. str = a @ pre @ b \<and> (b = [] \<or> isPseudoToolTagBoundary (hd b)))"

lemma index_of_first:
  assumes "index_of s p = Some i" "s = a @ p @ b"
  shows "i \<le> length a"
  using assms
proof (induction s arbitrary: i a)
  case Nil
  then show ?case by (auto split: if_splits)
next
  case (Cons c cs)
  show ?case
  proof (cases a)
    case Nil
    then have "has_prefix (c # cs) p" using Cons.prems(2) by (auto simp: has_prefix_iff)
    then show ?thesis using Cons.prems(1) by simp
  next
    case (Cons x a')
    with Cons.prems have "cs = a' @ p @ b" by simp
    with Cons.prems(1) Cons.IH [of _ a'] Cons show ?thesis by (auto split: if_splits)
  qed
qed

lemma index_of_split: "index_of s p = Some i \<Longrightarrow> s = take i s @ p @ drop (i + length p) s"
  using index_of_Some [of s p i] by (metis add.commute append_take_drop_id drop_drop has_prefix_def)

lemma hasTagFrom_sound: "hasTagFrom pre str \<Longrightarrow> tag_occurs pre str"
proof (induction pre str rule: hasTagFrom.induct)
  case (1 pre str)
  from "1.prems" have ne: "pre \<noteq> []" by (subst (asm) hasTagFrom.simps) (auto split: if_splits)
  with "1.prems" obtain idx where idx: "index_of str pre = Some idx"
    by (subst (asm) hasTagFrom.simps) (auto split: option.splits)
  note split = index_of_split [OF idx]
  show ?case
  proof (cases "drop (idx + length pre) str")
    case Nil
    with split show ?thesis unfolding tag_occurs_def by blast
  next
    case (Cons ch rest)
    show ?thesis
    proof (cases "isPseudoToolTagBoundary ch")
      case True
      with split Cons show ?thesis unfolding tag_occurs_def by (metis list.sel(1))
    next
      case False
      with "1.prems" ne idx Cons have "hasTagFrom pre (ch # rest)"
        by (subst (asm) hasTagFrom.simps) simp
      then have "tag_occurs pre (ch # rest)" using "1.IH" [OF ne idx Cons] by blast
      then show ?thesis using split Cons unfolding tag_occurs_def by (metis append.assoc)
    qed
  qed
qed

text \<open>Occurrences of a prefix whose first character occurs in it only once do not overlap, so
  skipping each occurrence that has no boundary misses none.\<close>

lemma no_overlap:
  assumes "a @ (c # p) @ b = a' @ (c # p) @ b'" "length a < length a'" "c \<notin> set p"
  shows "length a + length (c # p) \<le> length a'"
proof (rule ccontr)
  assume "\<not> length a + length (c # p) \<le> length a'"
  then have lt: "length a' - length a - 1 < length p" using assms(2) by simp
  let ?k = "length a'"
  have "(a' @ (c # p) @ b') ! ?k = c" by simp
  moreover have "(a @ (c # p) @ b) ! ?k = p ! (length a' - length a - 1)"
    using assms(2) lt by (simp add: nth_append nth_Cons' )
  ultimately have "p ! (length a' - length a - 1) = c" using assms(1) by simp
  with lt assms(3) show False by (metis nth_mem)
qed

lemma hasTagFrom_complete:
  "c \<notin> set p \<Longrightarrow> tag_occurs (c # p) str \<Longrightarrow> hasTagFrom (c # p) str"
proof (induction "c # p" str rule: hasTagFrom.induct)
  case (1 str)
  let ?pre = "c # p"
  from "1.prems"(2) obtain a b where ab: "str = a @ ?pre @ b" "b = [] \<or> isPseudoToolTagBoundary (hd b)"
    by (auto simp: tag_occurs_def)
  have "contains str ?pre" using ab(1) contains_iff by blast
  then obtain idx where idx: "index_of str ?pre = Some idx" by (auto simp: contains_def)
  note same = trans [OF index_of_split [OF idx, symmetric] ab(1)]
  have le: "idx \<le> length a" using index_of_first [OF idx ab(1)] .
  have len: "length (take idx str) = idx" using index_of_Some [OF idx] by simp
  show ?case
  proof (cases "drop (idx + length ?pre) str")
    case Nil
    then show ?thesis using idx by (subst hasTagFrom.simps) simp
  next
    case (Cons ch rest)
    show ?thesis
    proof (cases "idx = length a")
      case True
      then have "b = ch # rest" using ab(1) Cons by simp
      with ab(2) idx Cons show ?thesis by (subst hasTagFrom.simps) simp
    next
      case False
      then have "idx + length ?pre \<le> length a"
        using no_overlap [OF same] le len "1.prems"(1) by simp
      then have "ch # rest = drop (idx + length ?pre) a @ ?pre @ b" using ab(1) Cons by simp
      then have "tag_occurs ?pre (ch # rest)" using ab(2) unfolding tag_occurs_def by blast
      then have "hasTagFrom ?pre (ch # rest)" using "1.hyps" [OF _ idx Cons "1.prems"(1)] by simp
      then show ?thesis using idx Cons by (subst hasTagFrom.simps) simp
    qed
  qed
qed

lemma hasTagFrom_iff: "c \<notin> set p \<Longrightarrow> hasTagFrom (c # p) str \<longleftrightarrow> tag_occurs (c # p) str"
  using hasTagFrom_sound hasTagFrom_complete by blast

lemma tag_names_ok: "name \<in> set pseudoToolTagNames \<Longrightarrow> CHR ''<'' \<notin> set name \<and> name \<noteq> []"
  by (auto simp: pseudoToolTagNames_def)

lemma hasPseudoToolTag_iff:
  assumes "CHR ''<'' \<notin> set name"
  shows "hasPseudoToolTag str name \<longleftrightarrow> tag_occurs (''<'' @ name) str \<or> tag_occurs (''</'' @ name) str"
  using assms hasTagFrom_iff [of "CHR ''<''" name str] hasTagFrom_iff [of "CHR ''<''" "CHR ''/'' # name" str]
  by (simp add: hasPseudoToolTag_def)

lemma firstPseudoToolTagMarker_iff:
  "firstPseudoToolTagMarker str \<noteq> [] \<longleftrightarrow> (\<exists>name \<in> set pseudoToolTagNames. hasPseudoToolTag str name)"
proof (cases "find (hasPseudoToolTag str) pseudoToolTagNames")
  case None
  then have "\<forall>name \<in> set pseudoToolTagNames. \<not> hasPseudoToolTag str name" by (auto simp: find_None_iff)
  with None show ?thesis unfolding firstPseudoToolTagMarker_def by simp
next
  case (Some name)
  then have "name \<in> set pseudoToolTagNames" "hasPseudoToolTag str name" by (auto simp: find_Some_iff)
  with Some show ?thesis unfolding firstPseudoToolTagMarker_def by auto
qed

text \<open>The blocks between a fence and the next three back quotes.\<close>

function fenced_blocks :: "string \<Rightarrow> string \<Rightarrow> string list" where
  "fenced_blocks str fence =
     (case index_of str fence of
        None \<Rightarrow> []
      | Some startRelative \<Rightarrow>
          (let body = drop (startRelative + length fence) str in
           case index_of body fence3 of
             None \<Rightarrow> [body]
           | Some blockEnd \<Rightarrow>
               take blockEnd body # fenced_blocks (drop (blockEnd + length fence3) body) fence))"
  by pat_completeness auto
termination
proof (relation "measure (\<lambda>(str, fence). length str)", goal_cases)
  case (2 str fence s body e)
  then have "e + length fence3 \<le> length body" using index_of_Some by blast
  then show ?case using 2 by (simp add: fence3_def)
qed simp

declare fenced_blocks.simps [simp del]

lemma containsFenced_blocks:
  "containsFencedPseudoCommand str fence match \<longleftrightarrow> list_ex match (fenced_blocks str fence)"
proof (induction str fence rule: fenced_blocks.induct)
  case (1 str fence)
  then show ?case
    by (subst containsFencedPseudoCommand.simps, subst fenced_blocks.simps)
      (auto simp: Let_def split: option.splits)
qed

lemmas fenced_defs = containsFencedJSONPseudoCommand_def containsFencedYAMLPseudoCommand_def
  containsFencedPlainApplyPatch_def containsFenced_blocks

text \<open>Every marker starts with an angle or a square bracket.\<close>

abbreviation markup_char :: "char \<Rightarrow> bool" where
  "markup_char c \<equiv> c = CHR ''<'' \<or> c = CHR ''['' \<or> c = CHR 96"

lemma markers_start: "m \<in> set pseudoToolTextMarkers \<Longrightarrow> m \<noteq> [] \<and> markup_char (hd m)"
proof -
  have "list_all (\<lambda>m. m \<noteq> [] \<and> markup_char (hd m)) pseudoToolTextMarkers"
    by (simp add: pseudoToolTextMarkers_def)
  then show "m \<in> set pseudoToolTextMarkers \<Longrightarrow> m \<noteq> [] \<and> markup_char (hd m)" unfolding list_all_iff by blast
qed

lemma lower_char_markup: "markup_char (lower_char c) \<Longrightarrow> lower_char c = c"
  by (auto simp: lower_char_def split: if_splits dest!: arg_cong [of _ _ "of_char :: char \<Rightarrow> nat"])

lemma to_lower_markup: "c \<in> set (to_lower s) \<Longrightarrow> markup_char c \<Longrightarrow> c \<in> set s"
proof (induction s rule: to_lower.induct)
  case (2 x xs)
  then have "c = lower_char x \<or> c \<in> set xs"
    by (auto simp: to_lower.simps split: if_splits dest: in_set_dropD)
  then show ?case using 2(4,5) lower_char_markup [of x] by auto
qed (simp add: to_lower.simps)

lemma replace_all_chars: "c \<in> set (replace_all s p r) \<Longrightarrow> c \<in> set s \<or> c \<in> set r"
  by (induction s p r rule: replace_all.induct) (auto split: if_splits dest: in_set_dropD)

lemma contains_hd: "contains s p \<Longrightarrow> p \<noteq> [] \<Longrightarrow> hd p \<in> set s"
  by (auto simp: contains_iff)

lemma fenced_blocks_plain: "CHR 96 \<notin> set s \<Longrightarrow> fenced_blocks s (fence3 @ f) = []"
  using contains_hd [of s "fence3 @ f"]
  by (subst fenced_blocks.simps) (auto simp: contains_def fence3_def split: option.splits)

section \<open>Properties\<close>

text \<open>C32: a text is reported as leaked tool syntax exactly when, lower-cased and with the full-width
  bar replaced, it contains one of the markers, or one of the tag names as an opening or closing tag
  that ends there or is followed by a boundary, or a fenced block of one of the three kinds. In
  particular the search for tags, which skips what it has read, misses none.\<close>

theorem pseudo_tool_text_iff:
  "ContainsPseudoToolText str \<longleftrightarrow>
     (let lower = to_lower (normalizeProviderToolText str) in
      (\<exists>m \<in> set pseudoToolTextMarkers. contains lower m) \<or>
      (\<exists>name \<in> set pseudoToolTagNames. tag_occurs (''<'' @ name) lower \<or> tag_occurs (''</'' @ name) lower) \<or>
      (\<exists>b \<in> set (fenced_blocks lower (fence3 @ ''json'')). isPseudoCommandJSONBlock b) \<or>
      (\<exists>b \<in> set (fenced_blocks lower (fence3 @ ''yaml'')). isPseudoCommandYAMLBlock b) \<or>
      (\<exists>b \<in> set (fenced_blocks lower fence3). isPlainApplyPatchBlock b))"
proof -
  let ?l = "to_lower (normalizeProviderToolText str)"
  have tags: "firstPseudoToolTagMarker ?l \<noteq> [] \<longleftrightarrow> (\<exists>name \<in> set pseudoToolTagNames.
      tag_occurs (''<'' @ name) ?l \<or> tag_occurs (''</'' @ name) ?l)"
    using hasPseudoToolTag_iff tag_names_ok unfolding firstPseudoToolTagMarker_iff by blast
  have f: "fence3 @ x \<noteq> []" for x by (simp add: fence3_def)
  show ?thesis
  proof (cases "find (contains ?l) pseudoToolTextMarkers")
    case None
    then have "\<not> (\<exists>m \<in> set pseudoToolTextMarkers. contains ?l m)" by (auto simp: find_None_iff)
    with None f show ?thesis
      unfolding ContainsPseudoToolText_def FirstPseudoToolMarker_def Let_def tags [symmetric]
      by (simp add: fenced_defs list_ex_iff)
  next
    case (Some m)
    then have "m \<in> set pseudoToolTextMarkers" "contains ?l m" by (auto simp: find_Some_iff)
    with Some markers_start [of m] show ?thesis
      by (auto simp: ContainsPseudoToolText_def FirstPseudoToolMarker_def Let_def)
  qed
qed

text \<open>Ordinary text is not reported: a text without an opening angle bracket, square bracket
  and back quote has no marker.\<close>

theorem plain_text_not_reported:
  assumes "CHR ''<'' \<notin> set str" and "CHR ''['' \<notin> set str" and "CHR 96 \<notin> set str"
  shows "FirstPseudoToolMarker str = []"
proof -
  let ?l = "to_lower (normalizeProviderToolText str)"
  have free: "\<not> markup_char c" if "c \<in> set ?l" for c
    using to_lower_markup [OF that] assms replace_all_chars [of c str _ "''|''"]
    by (auto simp: normalizeProviderToolText_def)
  have m: "find (contains ?l) pseudoToolTextMarkers = None"
    using markers_start contains_hd free unfolding find_None_iff by blast
  have "\<not> tag_occurs (CHR ''<'' # p) ?l" for p
    using free [of "CHR ''<''"] by (auto simp: tag_occurs_def)
  then have "firstPseudoToolTagMarker ?l = []"
    using firstPseudoToolTagMarker_iff hasPseudoToolTag_iff tag_names_ok by fastforce
  moreover have "CHR 96 \<notin> set ?l" using free by blast
  ultimately show ?thesis
    using m fenced_blocks_plain [of ?l] fenced_blocks_plain [of ?l "[]"]
    by (simp add: FirstPseudoToolMarker_def fenced_defs)
qed

theorem plain_text_not_reported_witness: "FirstPseudoToolMarker ''All tests pass.'' = []"
  using plain_text_not_reported [of "''All tests pass.''"] by simp

end
