(* ===== verification/Memory_Store.thy ===== *)
theory Memory_Store
  imports Store_Schema "HOL-Library.Product_Lexorder"
begin

text \<open>
  Memory notes: the configuration of \<^verbatim>\<open>internal/memory/config.go\<close> and the table operations of
  \<^verbatim>\<open>internal/storage/sqlite/memory.go\<close>. The invariant is that identifiers are unique and every row
  decodes; \<open>notes_reachable\<close> are the databases the operations lead to from an empty one.
\<close>

section \<open>Configuration\<close>

record memory_config =
  mc_backend :: string
  mc_inject :: bool
  mc_max_notes :: int
  mc_max_note_bytes :: int
  mc_max_context_bytes :: int
  mc_namespace :: string

definition DefaultMetadataNamespace :: string where
  "DefaultMetadataNamespace = ''llama_shim.memory''"

definition Config_NormalizeConfig :: "memory_config \<Rightarrow> memory_config res" where
  "Config_NormalizeConfig cfg =
     (let b = to_lower (trim_space (mc_backend cfg));
          backend = (if b = [] then ''disabled'' else b)
      in if backend \<noteq> ''disabled'' \<and> backend \<noteq> ''local''
         then Inl (Errorf (''unsupported memory backend '' @ [CHR 34] @ quote_body (mc_backend cfg) @ [CHR 34]))
         else
           let namespace = trim_chars ''.'' (trim_space (mc_namespace cfg))
           in Inr \<lparr>mc_backend = backend,
                mc_inject = (if backend = ''disabled'' then False else mc_inject cfg),
                mc_max_notes = (if mc_max_notes cfg \<le> 0 then 8 else mc_max_notes cfg),
                mc_max_note_bytes = (if mc_max_note_bytes cfg \<le> 0 then 2048 else mc_max_note_bytes cfg),
                mc_max_context_bytes =
                  (if mc_max_context_bytes cfg \<le> 0 then 8192 else mc_max_context_bytes cfg),
                mc_namespace = (if namespace = [] then DefaultMetadataNamespace else namespace)\<rparr>)"

definition Config_Enabled :: "memory_config \<Rightarrow> bool" where
  "Config_Enabled cfg \<longleftrightarrow> equal_fold (trim_space (mc_backend cfg)) ''local''"

section \<open>Operations of the store\<close>

record note_query =
  nq_session :: string
  nq_global :: bool
  nq_limit :: int

definition marshalMemoryMetadata :: "string gomap \<Rightarrow> raw" where
  "marshalMemoryMetadata md =
     (if md = [] then RawJson (JObj []) else RawJson (JObj (map (\<lambda>(k, v). (k, JStr v)) md)))"

definition unmarshalMemoryMetadata :: "raw \<Rightarrow> string gomap res" where
  "unmarshalMemoryMetadata r =
     (case r of
        RawEmpty \<Rightarrow> Inr []
      | RawJson JNull \<Rightarrow> Inr []
      | RawJson (JObj es) \<Rightarrow>
          (case string_entries es of
             None \<Rightarrow> Inl (Wrap ''unmarshal memory metadata'' JSONError)
           | Some ss \<Rightarrow> Inr (gomap_of ss))
      | _ \<Rightarrow> Inl (Wrap ''unmarshal memory metadata'' JSONError))"

definition note_row_of :: "memory_note \<Rightarrow> note_row" where
  "note_row_of note = \<lparr>nr_id = trim_space (mn_id note), nr_scope = trim_space (mn_scope note),
     nr_session = trim_space (mn_session note), nr_text = mn_text note,
     nr_source = trim_space (mn_source note), nr_source_response = trim_space (mn_source_response note),
     nr_metadata = marshalMemoryMetadata (mn_metadata note), nr_created = mn_created note,
     nr_updated = mn_updated note, nr_last_used = mn_last_used note\<rparr>"

text \<open>On a conflict every column but the identifier and the creation time is replaced.\<close>

definition SaveMemoryNote :: "memory_note \<Rightarrow> db \<Rightarrow> db res" where
  "SaveMemoryNote note d =
     (let r = note_row_of note in
      Inr (d\<lparr>memory_notes := tbl_upsert nr_id (\<lambda>q. r\<lparr>nr_created := nr_created q\<rparr>) r (memory_notes d)\<rparr>))"

definition scanMemoryNote :: "note_row \<Rightarrow> memory_note res" where
  "scanMemoryNote r =
     (case unmarshalMemoryMetadata (nr_metadata r) of
        Inl e \<Rightarrow> Inl e
      | Inr md \<Rightarrow> Inr \<lparr>mn_id = nr_id r, mn_scope = nr_scope r, mn_session = nr_session r,
          mn_text = nr_text r, mn_source = nr_source r, mn_source_response = nr_source_response r,
          mn_metadata = md, mn_created = nr_created r, mn_updated = nr_updated r,
          mn_last_used = nr_last_used r\<rparr>)"

text \<open>\<^verbatim>\<open>ORDER BY updated_at DESC, id DESC\<close>.\<close>

definition newest_first :: "note_row list \<Rightarrow> note_row list" where
  "newest_first rs = rev (sort_key (\<lambda>r. (nr_updated r, nr_id r)) rs)"

definition ListMemoryNotes :: "note_query \<Rightarrow> db \<Rightarrow> memory_note list res" where
  "ListMemoryNotes q d =
     (let limit = (if nq_limit q \<le> 0 then 8 else nq_limit q);
          sessionID = trim_space (nq_session q);
          select = (\<lambda>p. map_res scanMemoryNote (sql_limit limit (newest_first (filter p (memory_notes d)))))
      in if nq_global q \<and> sessionID \<noteq> [] then
           select (\<lambda>r. nr_scope r = ''global'' \<or> nr_scope r = ''session'' \<and> nr_session r = sessionID)
         else if nq_global q then select (\<lambda>r. nr_scope r = ''global'')
         else if sessionID \<noteq> [] then select (\<lambda>r. nr_scope r = ''session'' \<and> nr_session r = sessionID)
         else Inr [])"

fun touchRows :: "string list \<Rightarrow> string \<Rightarrow> note_row list \<Rightarrow> note_row list" where
  "touchRows [] lastUsedAt rs = rs"
| "touchRows (i # ids) lastUsedAt rs =
     (if trim_space i = [] then touchRows ids lastUsedAt rs
      else touchRows ids lastUsedAt
             (fst (tbl_update (\<lambda>r. nr_id r = trim_space i) (\<lambda>r. r\<lparr>nr_last_used := lastUsedAt\<rparr>) rs)))"

definition TouchMemoryNotes :: "string list \<Rightarrow> string \<Rightarrow> db \<Rightarrow> db res" where
  "TouchMemoryNotes ids lastUsedAt d =
     (if ids = [] then Inr d else Inr (d\<lparr>memory_notes := touchRows ids lastUsedAt (memory_notes d)\<rparr>))"

section \<open>The invariant and its preservation\<close>

definition notes_inv :: "db \<Rightarrow> bool" where
  "notes_inv d \<longleftrightarrow> distinct (map nr_id (memory_notes d)) \<and>
     (\<forall>r \<in> set (memory_notes d). \<exists>n. scanMemoryNote r = Inr n)"

text \<open>Databases reachable by the writes of this component.\<close>

inductive notes_reachable :: "db \<Rightarrow> bool" where
  start: "notes_reachable empty_db"
| save: "notes_reachable d \<Longrightarrow> gomap_wf (mn_metadata note) \<Longrightarrow> SaveMemoryNote note d = Inr d' \<Longrightarrow> notes_reachable d'"
| touch: "notes_reachable d \<Longrightarrow> TouchMemoryNotes ids t d = Inr d' \<Longrightarrow> notes_reachable d'"

inductive_cases notes_reachable_elim: "notes_reachable d"

lemma memory_metadata_roundtrip:
  "gomap_wf md \<Longrightarrow> unmarshalMemoryMetadata (marshalMemoryMetadata md) = Inr md"
proof -
  assume "gomap_wf md"
  moreover have "string_entries [] = Some []" "gomap_of [] = ([] :: string gomap)"
    by (simp_all add: string_entries_def gomap_of_def)
  ultimately show ?thesis
    by (simp add: marshalMemoryMetadata_def unmarshalMemoryMetadata_def string_entries_JStr gomap_of_wf)
qed

definition stored_note :: "memory_note \<Rightarrow> memory_note" where
  "stored_note n = n\<lparr>mn_id := trim_space (mn_id n), mn_scope := trim_space (mn_scope n),
     mn_session := trim_space (mn_session n), mn_source := trim_space (mn_source n),
     mn_source_response := trim_space (mn_source_response n)\<rparr>"

lemma scan_note_row: "gomap_wf (mn_metadata n) \<Longrightarrow> scanMemoryNote (note_row_of n) = Inr (stored_note n)"
  by (simp add: scanMemoryNote_def note_row_of_def memory_metadata_roundtrip stored_note_def)

lemma scan_created:
  "scanMemoryNote (r\<lparr>nr_created := c\<rparr>) =
     (case scanMemoryNote r of Inl e \<Rightarrow> Inl e | Inr n \<Rightarrow> Inr (n\<lparr>mn_created := c\<rparr>))"
  "scanMemoryNote (r\<lparr>nr_last_used := c\<rparr>) =
     (case scanMemoryNote r of Inl e \<Rightarrow> Inl e | Inr n \<Rightarrow> Inr (n\<lparr>mn_last_used := c\<rparr>))"
  by (simp_all add: scanMemoryNote_def split: sum.splits)

lemma save_inv:
  assumes "notes_inv d" "gomap_wf (mn_metadata n)" "SaveMemoryNote n d = Inr d'"
  shows "notes_inv d'"
proof -
  let ?r = "note_row_of n"
  let ?m = "\<lambda>q :: note_row. ?r\<lparr>nr_created := nr_created q\<rparr>"
  have d': "memory_notes d' = tbl_upsert nr_id ?m ?r (memory_notes d)"
    using assms(3) by (auto simp: SaveMemoryNote_def Let_def)
  have "distinct (map nr_id (memory_notes d'))"
    unfolding d' using assms(1) by (intro tbl.upsert_wf) (auto simp: notes_inv_def)
  moreover have "\<exists>n. scanMemoryNote r = Inr n" if "r \<in> set (memory_notes d')" for r
  proof -
    have "r \<in> set (memory_notes d) \<or> r = ?r \<or> (\<exists>q. r = ?m q)"
    proof (cases "tbl_has nr_id (nr_id ?r) (memory_notes d)")
      case True
      with that obtain q where "q \<in> set (memory_notes d)" "r = (if nr_id q = nr_id ?r then ?m q else q)"
        unfolding d' tbl_upsert_def by auto
      then show ?thesis by (cases "nr_id q = nr_id ?r") auto
    qed (use that in \<open>auto simp: d' tbl_upsert_def\<close>)
    then show ?thesis
      using assms(1) scan_note_row [OF assms(2)] by (auto simp: notes_inv_def scan_created)
  qed
  ultimately show ?thesis by (simp add: notes_inv_def)
qed

lemma touchRows_map:
  "\<exists>f. touchRows ids t rs = map f rs \<and> (\<forall>r. f r = r \<or> f r = r\<lparr>nr_last_used := t\<rparr>)"
proof (induction ids t rs rule: touchRows.induct)
  case (1 t rs)
  show ?case by (intro exI [of _ id]) simp
next
  case (2 i ids t rs)
  let ?g = "\<lambda>r. if nr_id r = trim_space i then r\<lparr>nr_last_used := t\<rparr> else r"
  show ?case
  proof (cases "trim_space i = []")
    case False
    with 2(2) obtain f where f: "touchRows ids t (map ?g rs) = map f (map ?g rs)"
      "\<forall>r. f r = r \<or> f r = r\<lparr>nr_last_used := t\<rparr>" by (auto simp: tbl_update_def)
    have "\<forall>r. (f \<circ> ?g) r = r \<or> (f \<circ> ?g) r = r\<lparr>nr_last_used := t\<rparr>"
    proof
      fix r
      show "(f \<circ> ?g) r = r \<or> (f \<circ> ?g) r = r\<lparr>nr_last_used := t\<rparr>"
        using f(2) [rule_format, of r] f(2) [rule_format, of "r\<lparr>nr_last_used := t\<rparr>"] by auto
    qed
    with f(1) False show ?thesis by (intro exI [of _ "f \<circ> ?g"]) (auto simp: tbl_update_def)
  qed (use 2(1) in simp)
qed

lemma touch_inv:
  assumes "notes_inv d" "TouchMemoryNotes ids t d = Inr d'"
  shows "notes_inv d'"
proof -
  obtain f where f: "touchRows ids t (memory_notes d) = map f (memory_notes d)"
    "\<forall>r. f r = r \<or> f r = r\<lparr>nr_last_used := t\<rparr>" using touchRows_map by blast
  have "nr_id (f r) = nr_id r" for r using f(2) [rule_format, of r] by auto
  then have "map nr_id (map f (memory_notes d)) = map nr_id (memory_notes d)" by simp
  moreover have "(\<exists>n. scanMemoryNote (f r) = Inr n) \<longleftrightarrow> (\<exists>n. scanMemoryNote r = Inr n)" for r
    using f(2) [rule_format, of r] by (auto simp: scan_created split: sum.splits)
  ultimately show ?thesis using assms f(1)
    by (auto simp: TouchMemoryNotes_def notes_inv_def split: if_splits simp del: map_map)
qed

lemma reachable_notes_inv: "notes_reachable d \<Longrightarrow> notes_inv d"
proof (induction rule: notes_reachable.induct)
  case start
  show ?case by (simp add: empty_db_def notes_inv_def)
qed (blast intro: save_inv touch_inv)+

section \<open>Listing\<close>

text \<open>Which notes a query may see, and the order of the listing.\<close>

definition note_visible :: "note_query \<Rightarrow> memory_note \<Rightarrow> bool" where
  "note_visible q n \<longleftrightarrow> (nq_global q \<and> mn_scope n = ''global'') \<or>
     (mn_scope n = ''session'' \<and> trim_space (nq_session q) \<noteq> [] \<and> mn_session n = trim_space (nq_session q))"

definition newer :: "memory_note \<Rightarrow> memory_note \<Rightarrow> bool" where
  "newer a b \<longleftrightarrow> (mn_updated b, mn_id b) < (mn_updated a, mn_id a)"

definition note_limit :: "note_query \<Rightarrow> int" where
  "note_limit q = (if nq_limit q \<le> 0 then 8 else nq_limit q)"

definition row_visible :: "note_query \<Rightarrow> note_row \<Rightarrow> bool" where
  "row_visible q r \<longleftrightarrow> (nq_global q \<and> nr_scope r = ''global'') \<or>
     (nr_scope r = ''session'' \<and> trim_space (nq_session q) \<noteq> [] \<and> nr_session r = trim_space (nq_session q))"

lemma list_rows:
  "ListMemoryNotes q d =
     map_res scanMemoryNote (take (nat (note_limit q)) (newest_first (filter (row_visible q) (memory_notes d))))"
proof -
  have "0 < note_limit q" by (simp add: note_limit_def)
  then have l: "sql_limit (note_limit q) xs = take (nat (note_limit q)) xs" for xs :: "note_row list"
    by (simp add: sql_limit_def)
  have e: "newest_first [] = []" by (simp add: newest_first_def)
  consider "nq_global q" "trim_space (nq_session q) \<noteq> []" | "nq_global q" "trim_space (nq_session q) = []"
    | "\<not> nq_global q" "trim_space (nq_session q) \<noteq> []" | "\<not> nq_global q" "trim_space (nq_session q) = []"
    by blast
  then show ?thesis
    by cases (simp_all add: ListMemoryNotes_def row_visible_def [abs_def] Let_def note_limit_def [symmetric] l e)
qed

lemma newest_first_set: "set (newest_first rs) = set rs" "length (newest_first rs) = length rs"
  by (simp_all add: newest_first_def)

lemma newest_first_sorted:
  assumes "distinct (map nr_id rs)"
  shows "sorted_wrt (\<lambda>a b. (nr_updated b, nr_id b) < (nr_updated a, nr_id a)) (newest_first rs)"
proof -
  let ?k = "\<lambda>r. (nr_updated r, nr_id r)"
  have d: "distinct (map ?k (sort_key ?k rs))"
  proof -
    have "inj_on nr_id (set rs)" "distinct rs" using assms by (simp_all add: distinct_map)
    then have "inj_on ?k (set rs)" by (auto simp: inj_on_def)
    with \<open>distinct rs\<close> show ?thesis by (simp add: distinct_map)
  qed
  have "sorted (map ?k (sort_key ?k rs))" by simp
  with d have "sorted_wrt (<) (map ?k (sort_key ?k rs))" by (simp add: strict_sorted_iff)
  then show ?thesis by (simp add: newest_first_def sorted_wrt_rev sorted_wrt_map)
qed

lemma scan_fields:
  "scanMemoryNote r = Inr n \<Longrightarrow> mn_id n = nr_id r \<and> mn_scope n = nr_scope r \<and> mn_session n = nr_session r \<and>
     mn_updated n = nr_updated r \<and> mn_created n = nr_created r"
  by (auto simp: scanMemoryNote_def split: sum.splits)

lemma map_res_all: "(\<forall>x \<in> set xs. \<exists>y. f x = Inr y) \<Longrightarrow> map_res f xs = Inr (map (\<lambda>x. projr (f x)) xs)"
  by (induction xs) auto

text \<open>The first \<open>k\<close> of a sorted list come before all the others.\<close>

lemma sorted_top:
  assumes "sorted_wrt R xs" "x \<in> set xs" "x \<notin> set (take k xs)"
  shows "length (take k xs) = k \<and> (\<forall>y \<in> set (take k xs). R y x)"
proof -
  have x: "x \<in> set (drop k xs)" using assms(2,3) by (metis Un_iff append_take_drop_id set_append)
  then have "k < length xs" by (metis drop_all empty_iff list.set(1) not_less)
  moreover have "sorted_wrt R (take k xs @ drop k xs)" using assms(1) by simp
  then have "\<forall>y \<in> set (take k xs). R y x" using x unfolding sorted_wrt_append by blast
  ultimately show ?thesis by simp
qed

definition listed_rows :: "note_query \<Rightarrow> db \<Rightarrow> note_row list" where
  "listed_rows q d = newest_first (filter (row_visible q) (memory_notes d))"

definition decoded :: "note_row \<Rightarrow> memory_note" where
  "decoded r = projr (scanMemoryNote r)"

lemma decoded_fields:
  assumes "notes_inv d" "r \<in> set (memory_notes d)"
  shows "scanMemoryNote r = Inr (decoded r)" "mn_id (decoded r) = nr_id r"
    "mn_updated (decoded r) = nr_updated r" "note_visible q (decoded r) = row_visible q r"
    "mn_created (decoded r) = nr_created r"
proof -
  obtain n where n: "scanMemoryNote r = Inr n" using assms by (auto simp: notes_inv_def)
  then show "scanMemoryNote r = Inr (decoded r)" by (simp add: decoded_def)
  have "decoded r = n" using n by (simp add: decoded_def)
  with scan_fields [OF n] show "mn_id (decoded r) = nr_id r" "mn_updated (decoded r) = nr_updated r"
    "note_visible q (decoded r) = row_visible q r" "mn_created (decoded r) = nr_created r"
    by (auto simp: note_visible_def row_visible_def)
qed

lemma listed_rows_mem: "r \<in> set (listed_rows q d) \<longleftrightarrow> r \<in> set (memory_notes d) \<and> row_visible q r"
  by (auto simp: listed_rows_def newest_first_set)

lemma listed_rows_newer:
  assumes "notes_inv d"
  shows "sorted_wrt newer (map decoded (listed_rows q d))"
proof -
  have "sorted_wrt (\<lambda>a b. (nr_updated b, nr_id b) < (nr_updated a, nr_id a)) (listed_rows q d)"
    unfolding listed_rows_def using assms
    by (intro newest_first_sorted) (simp add: notes_inv_def distinct_map_filter)
  then show ?thesis unfolding sorted_wrt_map
    by (rule sorted_wrt_mono_rel [rotated])
      (simp add: newer_def listed_rows_mem decoded_fields(2,3) [OF assms])
qed

text \<open>The notes of a database, decoded.\<close>

definition all_notes :: "db \<Rightarrow> memory_note list" where
  "all_notes d = map decoded (memory_notes d)"

lemma list_decoded:
  assumes "notes_inv d"
  shows "ListMemoryNotes q d = Inr (take (nat (note_limit q)) (map decoded (listed_rows q d)))"
proof -
  have "\<forall>r \<in> set (take (nat (note_limit q)) (listed_rows q d)). \<exists>n. scanMemoryNote r = Inr n"
    using decoded_fields(1) [OF assms] by (meson in_set_takeD listed_rows_mem)
  then show ?thesis
    unfolding list_rows listed_rows_def [symmetric] take_map decoded_def by (rule map_res_all)
qed

lemma listing_spec:
  assumes "notes_inv d"
  shows "\<exists>ns. ListMemoryNotes q d = Inr ns \<and> int (length ns) \<le> note_limit q \<and>
    (\<forall>n \<in> set ns. n \<in> set (all_notes d) \<and> note_visible q n) \<and> sorted_wrt newer ns \<and>
    (\<forall>n \<in> set (all_notes d). note_visible q n \<and> n \<notin> set ns \<longrightarrow>
       int (length ns) = note_limit q \<and> (\<forall>m \<in> set ns. newer m n))"
proof (intro exI conjI ballI impI)
  let ?all = "map decoded (listed_rows q d)"
  let ?ns = "take (nat (note_limit q)) ?all"
  have pos: "0 < note_limit q" by (simp add: note_limit_def)
  show "ListMemoryNotes q d = Inr ?ns" by (rule list_decoded [OF assms])
  show "int (length ?ns) \<le> note_limit q" using pos by simp
  show "sorted_wrt newer ?ns" by (rule sorted_wrt_take [OF listed_rows_newer [OF assms]])
  fix n
  { assume "n \<in> set ?ns"
    then have "n \<in> set ?all" by (rule in_set_takeD)
    then show "n \<in> set (all_notes d)" "note_visible q n"
      using decoded_fields(4) [OF assms] by (auto simp: all_notes_def listed_rows_mem) }
  assume n: "n \<in> set (all_notes d)" "note_visible q n \<and> n \<notin> set ?ns"
  then have "n \<in> set ?all"
    using decoded_fields(4) [OF assms] by (auto simp: all_notes_def listed_rows_mem)
  note top = sorted_top [OF listed_rows_newer [OF assms] this, of "nat (note_limit q)"]
  show "int (length ?ns) = note_limit q" using top n(2) pos by linarith
  show "newer m n" if "m \<in> set ?ns" for m using top n(2) that by blast
qed

text \<open>What a write leaves: the saved note under its identifier, everything else as it was.\<close>

definition note_at :: "string \<Rightarrow> db \<Rightarrow> memory_note option" where
  "note_at k d = map_option decoded (tbl_find nr_id k (memory_notes d))"

lemma note_at_mem: "notes_inv d \<Longrightarrow> note_at k d = Some n \<longleftrightarrow> n \<in> set (all_notes d) \<and> mn_id n = k"
proof -
  assume inv: "notes_inv d"
  then have dist: "distinct (map nr_id (memory_notes d))" by (simp add: notes_inv_def)
  show ?thesis
  proof
    assume "note_at k d = Some n"
    then obtain r where "tbl_find nr_id k (memory_notes d) = Some r" "n = decoded r"
      by (auto simp: note_at_def)
    then show "n \<in> set (all_notes d) \<and> mn_id n = k"
      using tbl_find_SomeD [of nr_id k "memory_notes d" r] decoded_fields(2) [OF inv]
      by (auto simp: all_notes_def)
  next
    assume "n \<in> set (all_notes d) \<and> mn_id n = k"
    then obtain r where r: "r \<in> set (memory_notes d)" "n = decoded r" "mn_id n = k"
      by (auto simp: all_notes_def)
    then have "nr_id r = k" using decoded_fields(2) [OF inv r(1)] by simp
    then show "note_at k d = Some n" using tbl_find_mem [OF dist r(1)] r(2) by (simp add: note_at_def)
  qed
qed

lemma save_note_at:
  assumes "gomap_wf (mn_metadata n)" "SaveMemoryNote n d = Inr d'" "notes_inv d"
  shows "note_at k d' =
    (if k = trim_space (mn_id n)
     then Some (case note_at k d of None \<Rightarrow> stored_note n
                | Some old \<Rightarrow> (stored_note n)\<lparr>mn_created := mn_created old\<rparr>)
     else note_at k d)"
proof -
  let ?r = "note_row_of n"
  have d': "memory_notes d' = tbl_upsert nr_id (\<lambda>q. ?r\<lparr>nr_created := nr_created q\<rparr>) ?r (memory_notes d)"
    using assms(2) by (auto simp: SaveMemoryNote_def Let_def)
  have id': "nr_id ?r = trim_space (mn_id n)" by (simp add: note_row_of_def)
  have dec: "decoded ?r = stored_note n" using scan_note_row [OF assms(1)] by (simp add: decoded_def)
  have upd: "decoded (?r\<lparr>nr_created := nr_created q\<rparr>) = (stored_note n)\<lparr>mn_created := nr_created q\<rparr>" for q :: note_row
    using scan_note_row [OF assms(1)] by (simp add: decoded_def scan_created)
  have old: "mn_created (decoded q) = nr_created q" if "tbl_find nr_id k (memory_notes d) = Some q" for q
    using decoded_fields(5) [OF assms(3)] tbl_find_SomeD [OF that] by blast
  show ?thesis
    unfolding note_at_def d'
    by (subst tbl.upsert_find)
      (auto simp: id' dec upd old split: option.splits)
qed

section \<open>Properties\<close>

text \<open>C31: memory is isolated by scope. In every database the memory operations can reach, a listing
  succeeds and returns notes that are stored and visible to the query (global ones when asked for,
  and those of the query's own session), newest first, at most as many as the limit; a visible note
  is left out only when the limit is used up by newer ones.\<close>

theorem memory_listing:
  assumes "notes_reachable d"
  shows "\<exists>ns. ListMemoryNotes q d = Inr ns \<and> int (length ns) \<le> note_limit q \<and>
    (\<forall>n \<in> set ns. n \<in> set (all_notes d) \<and> note_visible q n) \<and> sorted_wrt newer ns \<and>
    (\<forall>n \<in> set (all_notes d). note_visible q n \<and> n \<notin> set ns \<longrightarrow>
       int (length ns) = note_limit q \<and> (\<forall>m \<in> set ns. newer m n))"
  by (rule listing_spec [OF reachable_notes_inv [OF assms]])

definition sample_note :: memory_note where
  "sample_note = \<lparr>mn_id = ''m1'', mn_scope = ''session'', mn_session = ''s'', mn_text = ''likes tea'',
     mn_source = [], mn_source_response = [], mn_metadata = [], mn_created = ''1'', mn_updated = ''1'',
     mn_last_used = ''1''\<rparr>"

definition sample_notes :: db where
  "sample_notes = projr (SaveMemoryNote sample_note empty_db)"

lemma sample_notes_reachable: "notes_reachable sample_notes"
  by (rule notes_reachable.save [OF notes_reachable.start, of sample_note])
    (simp_all add: sample_note_def sample_notes_def gomap_wf_def SaveMemoryNote_def Let_def)

theorem memory_listing_witness:
  "\<exists>ns. ListMemoryNotes \<lparr>nq_session = ''s'', nq_global = True, nq_limit = 2\<rparr> sample_notes = Inr ns \<and>
     sorted_wrt newer ns"
  using memory_listing [OF sample_notes_reachable] by blast

text \<open>A saved note is stored, trimmed, under its identifier (an update keeps the creation time),
  the other notes are unchanged, and the resulting database is again one the listing is defined for.\<close>

theorem memory_note_saved:
  assumes "notes_reachable d" and "gomap_wf (mn_metadata n)"
  shows "\<exists>d'. SaveMemoryNote n d = Inr d' \<and> notes_reachable d' \<and>
    (\<forall>k. note_at k d' =
      (if k = trim_space (mn_id n)
       then Some (case note_at k d of None \<Rightarrow> stored_note n
                  | Some old \<Rightarrow> (stored_note n)\<lparr>mn_created := mn_created old\<rparr>)
       else note_at k d))"
proof -
  obtain d' where d': "SaveMemoryNote n d = Inr d'" by (simp add: SaveMemoryNote_def Let_def)
  with notes_reachable.save [OF assms d'] save_note_at [OF assms(2) d' reachable_notes_inv [OF assms(1)]]
  show ?thesis by blast
qed

theorem memory_note_saved_witness:
  "\<exists>d'. SaveMemoryNote (sample_note\<lparr>mn_text := ''likes coffee''\<rparr>) sample_notes = Inr d' \<and> notes_reachable d'"
proof -
  have "gomap_wf (mn_metadata (sample_note\<lparr>mn_text := ''likes coffee''\<rparr>))"
    by (simp add: sample_note_def gomap_wf_def)
  from memory_note_saved [OF sample_notes_reachable this] show ?thesis by blast
qed

text \<open>A normalised memory configuration names one of the two backends, has positive limits and
  a non-empty namespace, and injects nothing when memory is disabled.\<close>

theorem memory_config_normalized:
  assumes "Config_NormalizeConfig cfg = Inr cfg'"
  shows "(mc_backend cfg' = ''disabled'' \<or> mc_backend cfg' = ''local'') \<and>
    (Config_Enabled cfg' \<longleftrightarrow> mc_backend cfg' = ''local'') \<and>
    0 < mc_max_notes cfg' \<and> 0 < mc_max_note_bytes cfg' \<and> 0 < mc_max_context_bytes cfg' \<and>
    mc_namespace cfg' \<noteq> [] \<and> (mc_inject cfg' \<longrightarrow> Config_Enabled cfg')"
proof -
  have k: "trim_space ''disabled'' = ''disabled''" "trim_space ''local'' = ''local''"
    by (simp_all add: trim_space_word)
  have f: "fold_case ''disabled'' = ''disabled''" "fold_case ''local'' = ''local''"
    by (simp_all add: fold_case.simps lower_char_def)
  have d: "DefaultMetadataNamespace \<noteq> []" by (simp add: DefaultMetadataNamespace_def)
  define b where "b = (if to_lower (trim_space (mc_backend cfg)) = [] then ''disabled''
    else to_lower (trim_space (mc_backend cfg)))"
  have b: "b = ''disabled'' \<or> b = ''local''"
    using assms unfolding Config_NormalizeConfig_def Let_def b_def [symmetric]
    by (rule contrapos_pp) simp
  have c: "mc_backend cfg' = b" "mc_inject cfg' \<longrightarrow> b \<noteq> ''disabled''" "0 < mc_max_notes cfg'"
    "0 < mc_max_note_bytes cfg'" "0 < mc_max_context_bytes cfg'" "mc_namespace cfg' \<noteq> []"
    using assms b d unfolding Config_NormalizeConfig_def Let_def b_def [symmetric]
    by (auto split: if_splits)
  have "Config_Enabled cfg' \<longleftrightarrow> b = ''local''" using b c(1) by (auto simp: Config_Enabled_def k equal_fold_def f)
  with b c show ?thesis by auto
qed

definition sample_config :: memory_config where
  "sample_config = \<lparr>mc_backend = [], mc_inject = True, mc_max_notes = 0, mc_max_note_bytes = 10,
     mc_max_context_bytes = -1, mc_namespace = []\<rparr>"

theorem memory_config_normalized_witness:
  "\<exists>cfg'. Config_NormalizeConfig sample_config = Inr cfg' \<and> 0 < mc_max_notes cfg' \<and> mc_namespace cfg' \<noteq> []"
proof -
  have "to_lower [] = []" by (simp add: to_lower.simps)
  then obtain cfg' where c: "Config_NormalizeConfig sample_config = Inr cfg'"
    by (simp add: Config_NormalizeConfig_def sample_config_def Let_def)
  then show ?thesis using memory_config_normalized [OF c] by blast
qed

end
