(* ===== verification/Memory_Service.thy ===== *)
theory Memory_Service
  imports Memory_Store Conversation_Service
begin

text \<open>
  Memory in the response service, \<^verbatim>\<open>internal/service/memory.go\<close>: which requests use memory, the
  developer message recalled notes are rendered into, and the capture of a note. The store is an
  interface, the record \<open>memory_store_ops\<close>; what the service relies on is the locale \<open>memory_store\<close>,
  which the SQLite tables satisfy. The clock is an argument of the operations.
\<close>

section \<open>Requests and the store interface\<close>

record create_response_input =
  in_model :: string
  in_input :: raw
  in_text_config :: raw
  in_metadata :: raw
  in_context_management :: raw
  in_store :: "bool option"
  in_stream :: "bool option"
  in_background :: "bool option"
  in_force_shadow :: bool
  in_previous :: string
  in_conversation :: string
  in_instructions :: string
  in_request_json :: raw
  in_options :: "json gomap"

record 's memory_store_ops =
  ms_save :: "memory_note \<Rightarrow> 's \<Rightarrow> 's res"
  ms_list :: "note_query \<Rightarrow> 's \<Rightarrow> memory_note list res"
  ms_touch :: "string list \<Rightarrow> string \<Rightarrow> 's \<Rightarrow> 's res"

section \<open>Request metadata\<close>

text \<open>Indexing a Go map of strings: a missing key is the empty string.\<close>

definition md_value :: "string gomap \<Rightarrow> string \<Rightarrow> string" where
  "md_value m k = (case map_of m k of None \<Rightarrow> [] | Some v \<Rightarrow> v)"

definition memoryMetadataKey :: "memory_config \<Rightarrow> string \<Rightarrow> string" where
  "memoryMetadataKey cfg field =
     (let namespace = trim_chars ''.'' (trim_space (mc_namespace cfg)) in
      (if namespace = [] then DefaultMetadataNamespace else namespace) @ ''.'' @ field)"

definition memoryRequestEnabled ::
  "'s memory_store_ops option \<Rightarrow> memory_config \<Rightarrow> create_response_input \<Rightarrow> bool" where
  "memoryRequestEnabled store cfg input \<longleftrightarrow>
     \<not> in_force_shadow input \<and> Config_Enabled cfg \<and> store \<noteq> None"

definition memorySessionID :: "memory_config \<Rightarrow> string gomap \<Rightarrow> create_response_input \<Rightarrow> string" where
  "memorySessionID cfg metadata input =
     (let value = trim_space (md_value metadata (memoryMetadataKey cfg ''session_id'')) in
      if value \<noteq> [] then value
      else if trim_space (in_conversation input) \<noteq> []
        then ''conversation:'' @ trim_space (in_conversation input)
      else [])"

text \<open>\<open>None\<close>: the value is no boolean.\<close>

definition memoryBoolMetadata :: "string \<Rightarrow> bool option" where
  "memoryBoolMetadata value =
     (let v = to_lower (trim_space value) in
      if v \<in> set [''1'', ''true'', ''yes'', ''on''] then Some True
      else if v \<in> set [''0'', ''false'', ''no'', ''off''] then Some False
      else None)"

section \<open>Bounded texts\<close>

text \<open>The loop over the runes of a text, with the bytes written so far.\<close>

fun trimRunes :: "string list \<Rightarrow> int \<Rightarrow> string \<Rightarrow> string" where
  "trimRunes [] maxBytes out = out"
| "trimRunes (r # rs) maxBytes out =
     (if int (length out + length r) > maxBytes then out else trimRunes rs maxBytes (out @ r))"

definition trimStringBytes :: "string \<Rightarrow> int \<Rightarrow> string" where
  "trimStringBytes str maxBytes =
     (if maxBytes \<le> 0 \<or> str = [] then []
      else if int (length str) \<le> maxBytes then str
      else trimRunes (runes str) maxBytes [])"

definition appendBoundedString :: "string \<Rightarrow> string \<Rightarrow> int \<Rightarrow> string \<times> bool" where
  "appendBoundedString builder str maxBytes =
     (let remaining = maxBytes - int (length builder) in
      if remaining \<le> 0 then (builder, False)
      else if int (length str) \<le> remaining then (builder @ str, True)
      else (builder @ trimStringBytes str remaining, False))"

definition memoryLineText :: "string \<Rightarrow> string" where
  "memoryLineText str =
     (if trim_space str = [] then [] else join (Go_Strings.fields (trim_space str)) '' '')"

definition memoryLine :: "memory_note \<Rightarrow> string" where
  "memoryLine note =
     (let label =
        (if equal_fold (trim_space (mn_scope note)) ''session''
         then ''session'' @ (if trim_space (mn_session note) \<noteq> [] then '':'' @ trim_space (mn_session note) else [])
         else ''global'')
      in ''- ['' @ label @ ''] '' @ memoryLineText (mn_text note) @ newline)"

fun renderNotes :: "string \<Rightarrow> memory_note list \<Rightarrow> int \<Rightarrow> string" where
  "renderNotes builder [] maxBytes = builder"
| "renderNotes builder (note # notes) maxBytes =
     (if memoryLineText (mn_text note) = [] then renderNotes builder notes maxBytes
      else case appendBoundedString builder (memoryLine note) maxBytes of
        (b, True) \<Rightarrow> renderNotes b notes maxBytes
      | (b, False) \<Rightarrow> b)"

definition memoryHeader :: string where
  "memoryHeader = ''Shim memory for this request. Treat these as application-provided durable context. Use only when relevant; do not expose this block unless asked about available context.'' @ newline @ newline"

definition renderMemoryContext :: "memory_note list \<Rightarrow> int \<Rightarrow> string" where
  "renderMemoryContext notes maxBytes =
     (if maxBytes \<le> 0 then []
      else case appendBoundedString [] memoryHeader maxBytes of
        (b, False) \<Rightarrow> b
      | (b, True) \<Rightarrow> renderNotes b notes maxBytes)"

section \<open>Recalling and capturing notes\<close>

definition memoryContextItems ::
  "'s memory_store_ops option \<Rightarrow> memory_config \<Rightarrow> string \<Rightarrow> create_response_input \<Rightarrow> 's \<Rightarrow> (item list \<times> 's) res" where
  "memoryContextItems store cfg now input s =
     (if \<not> memoryRequestEnabled store cfg input then Inr ([], s)
      else case NormalizeResponseMetadata (in_metadata input) of
        Inl e \<Rightarrow> Inl e
      | Inr metadata \<Rightarrow>
          (let inject = memoryBoolMetadata (md_value metadata (memoryMetadataKey cfg ''inject'')) in
           if inject = Some False \<or> (inject = None \<and> \<not> mc_inject cfg) then Inr ([], s)
           else case ms_list (the store) \<lparr>nq_session = memorySessionID cfg metadata input, nq_global = True,
                       nq_limit = mc_max_notes cfg\<rparr> s of
             Inl e \<Rightarrow> Inl (Wrap ''list response memory notes'' e)
           | Inr notes \<Rightarrow>
               if notes = [] then Inr ([], s)
               else
                 let str = renderMemoryContext notes (mc_max_context_bytes cfg);
                     ids = filter (\<lambda>i. i \<noteq> []) (map (\<lambda>n. trim_space (mn_id n)) notes)
                 in if trim_space str = [] then Inr ([], s)
                    else if ids = [] then Inr ([NewInputTextMessage ''developer'' str], s)
                    else case ms_touch (the store) ids now s of
                      Inl e \<Rightarrow> Inl (Wrap ''touch response memory notes'' e)
                    | Inr s' \<Rightarrow> Inr ([NewInputTextMessage ''developer'' str], s')))"

text \<open>The scope and session a note is captured under; \<open>None\<close> when it is dropped.\<close>

definition captureScope :: "string \<Rightarrow> string \<Rightarrow> (string \<times> string) option" where
  "captureScope scope sessionID =
     (if scope = [] \<or> scope = ''session''
      then (if sessionID = [] then None else Some (''session'', sessionID))
      else if scope = ''global'' then Some (''global'', [])
      else None)"

definition captureText :: "memory_config \<Rightarrow> string gomap \<Rightarrow> string" where
  "captureText cfg metadata =
     (let remember = trim_space (md_value metadata (memoryMetadataKey cfg ''remember''));
          str = (if remember = [] then trim_space (md_value metadata (memoryMetadataKey cfg ''note'')) else remember)
      in if str = [] then [] else trimStringBytes str (mc_max_note_bytes cfg))"

definition captureMemoryNote ::
  "'s memory_store_ops option \<Rightarrow> memory_config \<Rightarrow> (nat \<Rightarrow> string option) \<Rightarrow> string \<Rightarrow>
   create_response_input \<Rightarrow> string \<Rightarrow> nat \<Rightarrow> 's \<Rightarrow> (nat \<times> 's) res" where
  "captureMemoryNote store cfg uuid now input responseID n s =
     (if \<not> memoryRequestEnabled store cfg input then Inr (n, s)
      else case NormalizeResponseMetadata (in_metadata input) of
        Inl e \<Rightarrow> Inl e
      | Inr metadata \<Rightarrow>
          (let str = captureText cfg metadata in
           if trim_space str = [] then Inr (n, s)
           else
             let sessionID = memorySessionID cfg metadata input;
                 scope = to_lower (trim_space (md_value metadata (memoryMetadataKey cfg ''scope'')))
             in case captureScope scope sessionID of
                  None \<Rightarrow> Inr (n, s)
                | Some (scope', sessionID') \<Rightarrow>
                    (case NewPrefixedID uuid n ''mem'' of
                       Inl e \<Rightarrow> Inl (Wrap ''generate memory note id'' e)
                     | Inr id' \<Rightarrow>
                         (case ms_save (the store) \<lparr>mn_id = id', mn_scope = scope', mn_session = sessionID',
                                 mn_text = str, mn_source = ''responses.metadata'',
                                 mn_source_response = trim_space responseID,
                                 mn_metadata = [(''metadata_namespace'', mc_namespace cfg)],
                                 mn_created = now, mn_updated = now, mn_last_used = now\<rparr> s of
                            Inl e \<Rightarrow> Inl (Wrap ''save response memory note'' e)
                          | Inr s' \<Rightarrow> Inr (Suc n, s')))))"

section \<open>Bounds\<close>

lemma trimRunes_length: "int (length out) \<le> maxBytes \<Longrightarrow> int (length (trimRunes rs maxBytes out)) \<le> maxBytes"
  by (induction rs maxBytes out rule: trimRunes.induct) auto

lemma trimRunes_prefix:
  "\<exists>k. trimRunes rs maxBytes out = out @ concat (take k rs) \<and>
     (k < length rs \<longrightarrow> maxBytes < int (length (out @ concat (take (Suc k) rs))))"
proof (induction rs maxBytes out rule: trimRunes.induct)
  case (2 r rs maxBytes out)
  show ?case
  proof (cases "int (length out + length r) > maxBytes")
    case True
    then show ?thesis by (intro exI [of _ 0]) simp
  next
    case False
    then obtain k where "trimRunes rs maxBytes (out @ r) = (out @ r) @ concat (take k rs)"
      "k < length rs \<longrightarrow> maxBytes < int (length ((out @ r) @ concat (take (Suc k) rs)))"
      using 2 by blast
    with False show ?thesis by (intro exI [of _ "Suc k"]) auto
  qed
qed simp

lemma trimStringBytes_length: "int (length (trimStringBytes s m)) \<le> max m 0"
  using trimRunes_length [of "[]" m "runes s"] by (auto simp: trimStringBytes_def)

lemma appendBounded_length:
  "int (length b) \<le> m \<Longrightarrow> int (length (fst (appendBoundedString b s m))) \<le> m"
  using trimStringBytes_length [of s "m - int (length b)"] by (auto simp: appendBoundedString_def Let_def)

lemma renderNotes_length: "int (length b) \<le> m \<Longrightarrow> int (length (renderNotes b ns m)) \<le> m"
proof (induction b ns m rule: renderNotes.induct)
  case (2 b n ns m)
  then show ?case
    using appendBounded_length [OF 2(3), of "memoryLine n"] by (auto split: prod.splits bool.splits)
qed simp

lemma renderMemoryContext_length: "int (length (renderMemoryContext ns m)) \<le> max m 0"
  using appendBounded_length [of "[]" m memoryHeader]
  by (auto simp: renderMemoryContext_def renderNotes_length split: prod.splits bool.splits)

text \<open>What has been written stays.\<close>

lemma renderNotes_keeps: "\<exists>t. renderNotes b ns m = b @ t"
proof (induction b ns m rule: renderNotes.induct)
  case (2 b n ns m)
  have "\<exists>t. fst (appendBoundedString b (memoryLine n) m) = b @ t"
    by (auto simp: appendBoundedString_def Let_def)
  with 2 show ?case by (fastforce split: prod.splits bool.splits)
qed simp

lemma render_first_line:
  assumes "memoryLineText (mn_text n) \<noteq> []" "int (length (memoryHeader @ memoryLine n)) \<le> m"
  shows "\<exists>t. renderMemoryContext (n # ns) m = memoryHeader @ memoryLine n @ t"
proof -
  have pos: "0 < length memoryHeader" "0 < length (memoryLine n)"
    by (simp_all add: memoryHeader_def memoryLine_def)
  have m: "0 < m" "int (length memoryHeader) < m"
    using assms(2) pos by (simp_all del: length_greater_0_conv)
  have h: "appendBoundedString [] memoryHeader m = (memoryHeader, True)"
    using m by (simp add: appendBoundedString_def)
  have l: "appendBoundedString memoryHeader (memoryLine n) m = (memoryHeader @ memoryLine n, True)"
    using assms(2) m by (simp add: appendBoundedString_def)
  obtain t where "renderNotes (memoryHeader @ memoryLine n) ns m = (memoryHeader @ memoryLine n) @ t"
    using renderNotes_keeps by blast
  then show ?thesis using assms(1) m by (auto simp: renderMemoryContext_def h l)
qed

lemma fields_acc_some: "acc \<noteq> [] \<Longrightarrow> fields_acc acc s \<noteq> []"
  by (induction acc s rule: fields_acc.induct) (auto simp: Let_def)

lemma memoryLineText_Nil: "memoryLineText s = [] \<longleftrightarrow> trim_space s = []"
proof
  assume l: "memoryLineText s = []"
  show "trim_space s = []"
  proof (rule ccontr)
    assume ne: "trim_space s \<noteq> []"
    then obtain c cs where c: "trim_space s = c # cs" by (cases "trim_space s") auto
    then have "Go_Strings.fields (trim_space s) = fields_acc [c] cs"
      using trim_space_width [of s] by (simp add: Go_Strings.fields_def)
    then have f: "Go_Strings.fields (trim_space s) \<noteq> []" using fields_acc_some [of "[c]" cs] by simp
    have j: "xs \<noteq> [] \<Longrightarrow> \<forall>x \<in> set xs. x \<noteq> [] \<Longrightarrow> join xs sep \<noteq> []" for xs sep
      by (cases "(xs, sep)" rule: join.cases) auto
    show False using l ne j [OF f, of "'' ''"] fields_nonempty by (auto simp: memoryLineText_def)
  qed
qed (simp add: memoryLineText_def)

text \<open>Session identifiers are trimmed.\<close>

lemma space_width_rev_append:
  "xs \<noteq> [] \<Longrightarrow> space_width_rev xs = 0 \<Longrightarrow> byte c < 0x80 \<Longrightarrow> space_width_rev (xs @ c # ys) = 0"
  by (cases xs rule: space_width_rev.cases; cases ys)
    (auto simp: two_space_def three_space_def split: if_splits)

lemma trim_space_prefixed:
  assumes "33 \<le> byte a" "byte a < 127" "byte c < 0x80" "t \<noteq> []" "trim_space t = t"
  shows "trim_space (a # p @ c # t) = a # p @ c # t"
proof (rule trim_space_fixed)
  show "space_width (a # p @ c # t) = 0" using assms(1,2) by (intro space_width_word) auto
  have "space_width_rev (rev t) = 0" using trim_space_width_rev [of t] assms(5) by simp
  then show "space_width_rev (rev (a # p @ c # t)) = 0"
    using space_width_rev_append [of "rev t" c "rev (a # p)"] assms(3,4) by simp
qed

lemma session_trimmed: "trim_space (memorySessionID cfg md input) = memorySessionID cfg md input"
  using trim_space_prefixed [of "CHR ''c''" "CHR '':''" "trim_space (in_conversation input)" "''onversation''"]
  by (simp add: memorySessionID_def Let_def)

section \<open>What the service relies on\<close>

text \<open>The store as a set of notes: listing selects the newest visible notes, saving a note under a
  new identifier adds it, touching keeps everything but the time of last use.\<close>

locale memory_store =
  fixes ops :: "'s memory_store_ops"
    and inv :: "'s \<Rightarrow> bool"
    and held :: "'s \<Rightarrow> memory_note list"
  assumes list_notes: "inv s \<Longrightarrow> \<exists>ns. ms_list ops q s = Inr ns \<and> int (length ns) \<le> note_limit q \<and>
      (\<forall>n \<in> set ns. n \<in> set (held s) \<and> note_visible q n) \<and> sorted_wrt newer ns \<and>
      (\<forall>n \<in> set (held s). note_visible q n \<and> n \<notin> set ns \<longrightarrow>
         int (length ns) = note_limit q \<and> (\<forall>m \<in> set ns. newer m n))"
    and save_note: "inv s \<Longrightarrow> gomap_wf (mn_metadata n) \<Longrightarrow> \<exists>s'. ms_save ops n s = Inr s' \<and> inv s' \<and>
      (trim_space (mn_id n) \<notin> mn_id ` set (held s) \<longrightarrow> set (held s') = insert (stored_note n) (set (held s)))"
    and touch_notes: "inv s \<Longrightarrow> \<exists>s'. ms_touch ops ids t s = Inr s' \<and> inv s'"
begin

lemma list_total: "inv s \<Longrightarrow> \<exists>ns. ms_list ops q s = Inr ns \<and> (\<forall>n \<in> set ns. n \<in> set (held s) \<and> note_visible q n)"
  using list_notes by blast

text \<open>With valid metadata the recall succeeds and yields nothing, or one developer message that is
  rendered from notes visible to the request.\<close>

lemma recall:
  assumes "inv s" "NormalizeResponseMetadata (in_metadata input) = Inr md"
  shows "\<exists>items s'. memoryContextItems (Some ops) cfg now input s = Inr (items, s') \<and> inv s' \<and>
    (items = [] \<or> (\<exists>ns. ns \<noteq> [] \<and> items = [NewInputTextMessage ''developer'' (renderMemoryContext ns (mc_max_context_bytes cfg))] \<and>
       (\<forall>n \<in> set ns. n \<in> set (held s) \<and>
          note_visible \<lparr>nq_session = memorySessionID cfg md input, nq_global = True, nq_limit = mc_max_notes cfg\<rparr> n)))"
proof -
  let ?q = "\<lparr>nq_session = memorySessionID cfg md input, nq_global = True, nq_limit = mc_max_notes cfg\<rparr>"
  obtain ns where ns: "ms_list ops ?q s = Inr ns" "\<forall>n \<in> set ns. n \<in> set (held s) \<and> note_visible ?q n"
    using list_total [OF assms(1)] by blast
  obtain s' where s': "ms_touch ops (filter (\<lambda>i. i \<noteq> []) (map (\<lambda>n. trim_space (mn_id n)) ns)) now s = Inr s'" "inv s'"
    using touch_notes [OF assms(1)] by blast
  show ?thesis
    unfolding memoryContextItems_def using assms ns s'
    by (auto simp: Let_def simp del: filter_map)
qed

text \<open>A note that is newer than everything visible is listed first.\<close>

lemma newest_listed_first:
  assumes "inv s" "n \<in> set (held s)" "note_visible q n"
    and "\<forall>m \<in> set (held s). m \<noteq> n \<and> note_visible q m \<longrightarrow> newer n m"
  shows "\<exists>ns. ms_list ops q s = Inr (n # ns)"
proof -
  obtain ns where ns: "ms_list ops q s = Inr ns" "\<forall>m \<in> set ns. m \<in> set (held s) \<and> note_visible q m"
    "sorted_wrt newer ns" and
    out: "\<forall>n \<in> set (held s). note_visible q n \<and> n \<notin> set ns \<longrightarrow>
      int (length ns) = note_limit q \<and> (\<forall>m \<in> set ns. newer m n)"
    using list_notes [OF assms(1), of q] by (elim exE conjE)
  have asym: "newer a b \<Longrightarrow> \<not> newer b a" for a b by (auto simp: newer_def)
  have "n \<in> set ns"
  proof (rule ccontr)
    assume a: "n \<notin> set ns"
    then have full: "int (length ns) = note_limit q" "\<forall>m \<in> set ns. newer m n"
      using out assms(2,3) by simp_all
    moreover have "0 < note_limit q" by (simp add: note_limit_def)
    ultimately obtain m where m: "m \<in> set ns" by (cases ns) auto
    then have "newer m n" "newer n m" using a full(2) ns(2) assms(4) by auto
    then show False using asym by blast
  qed
  then obtain a b where ab: "ns = a @ n # b" by (meson split_list)
  have "a = []"
  proof (cases a)
    case (Cons m a')
    then have "newer m n" using ns(3) ab by simp
    moreover have "m \<in> set (held s)" "note_visible q m" using ns(2) ab Cons by simp_all
    moreover have "m \<noteq> n" using \<open>newer m n\<close> asym by blast
    ultimately show ?thesis using asym assms(4) by blast
  qed
  with ab ns(1) show ?thesis by simp
qed

end

definition sqlite_memory_ops :: "db memory_store_ops" where
  "sqlite_memory_ops = \<lparr>ms_save = SaveMemoryNote, ms_list = ListMemoryNotes, ms_touch = TouchMemoryNotes\<rparr>"

lemma saved_notes:
  assumes "notes_inv d" "gomap_wf (mn_metadata n)" "SaveMemoryNote n d = Inr d'"
    "trim_space (mn_id n) \<notin> mn_id ` set (all_notes d)"
  shows "set (all_notes d') = insert (stored_note n) (set (all_notes d))"
proof -
  have fresh: "note_at (trim_space (mn_id n)) d = None"
    using note_at_mem [OF assms(1)] assms(4) by (metis image_eqI not_Some_eq)
  have id': "mn_id (stored_note n) = trim_space (mn_id n)" by (simp add: stored_note_def)
  have "m \<in> set (all_notes d') \<longleftrightarrow> m = stored_note n \<or> m \<in> set (all_notes d)" for m
    using note_at_mem [OF assms(1), of "mn_id m" m] note_at_mem [OF save_inv [OF assms(1,2,3)], of "mn_id m" m]
      save_note_at [OF assms(2,3,1), of "mn_id m"] fresh id' assms(4)
    by (cases "mn_id m = trim_space (mn_id n)") auto
  then show ?thesis by blast
qed

interpretation mem: memory_store sqlite_memory_ops notes_inv all_notes
proof unfold_locales
  fix s :: db and n :: memory_note
  assume a: "notes_inv s" "gomap_wf (mn_metadata n)"
  obtain s' where s': "SaveMemoryNote n s = Inr s'" by (simp add: SaveMemoryNote_def Let_def)
  then show "\<exists>s'. ms_save sqlite_memory_ops n s = Inr s' \<and> notes_inv s' \<and>
      (trim_space (mn_id n) \<notin> mn_id ` set (all_notes s) \<longrightarrow>
        set (all_notes s') = insert (stored_note n) (set (all_notes s)))"
    using save_inv [OF a s'] saved_notes [OF a s'] by (auto simp: sqlite_memory_ops_def)
next
  fix s :: db and ids t
  assume a: "notes_inv s"
  have "\<exists>s'. TouchMemoryNotes ids t s = Inr s'" by (simp add: TouchMemoryNotes_def)
  then obtain s' where "TouchMemoryNotes ids t s = Inr s'" by blast
  then show "\<exists>s'. ms_touch sqlite_memory_ops ids t s = Inr s' \<and> notes_inv s'"
    using touch_inv [OF a] by (auto simp: sqlite_memory_ops_def)
next
  fix s :: db and q assume "notes_inv s"
  then show "\<exists>ns. ms_list sqlite_memory_ops q s = Inr ns \<and> int (length ns) \<le> note_limit q \<and>
      (\<forall>n \<in> set ns. n \<in> set (all_notes s) \<and> note_visible q n) \<and> sorted_wrt newer ns \<and>
      (\<forall>n \<in> set (all_notes s). note_visible q n \<and> n \<notin> set ns \<longrightarrow>
         int (length ns) = note_limit q \<and> (\<forall>m \<in> set ns. newer m n))"
    using listing_spec [of s q] by (simp add: sqlite_memory_ops_def)
qed

section \<open>Properties\<close>

text \<open>Recall is bounded and isolated. For a reachable database and valid metadata, the context
  items are none, or one developer message rendered from stored notes that are global or belong to
  the session of the request, in at most the configured number of bytes.\<close>

theorem memory_recall:
  assumes "notes_reachable d" and "NormalizeResponseMetadata (in_metadata input) = Inr md"
  shows "\<exists>items d'. memoryContextItems (Some sqlite_memory_ops) cfg now input d = Inr (items, d') \<and>
    (items = [] \<or> (\<exists>ns str. items = [NewInputTextMessage ''developer'' str] \<and>
       str = renderMemoryContext ns (mc_max_context_bytes cfg) \<and>
       int (length str) \<le> max (mc_max_context_bytes cfg) 0 \<and>
       (\<forall>n \<in> set ns. n \<in> set (all_notes d) \<and>
          (mn_scope n = ''global'' \<or>
           mn_scope n = ''session'' \<and> mn_session n = trim_space (memorySessionID cfg md input)))))"
  using mem.recall [OF reachable_notes_inv [OF assms(1)] assms(2), of cfg now]
    renderMemoryContext_length [of _ "mc_max_context_bytes cfg"]
  by (fastforce simp: note_visible_def)

text \<open>The text of a session note that a request captures, and the identifier it gets.\<close>

definition captured_note :: "memory_config \<Rightarrow> string \<Rightarrow> string \<Rightarrow> string gomap \<Rightarrow> create_response_input \<Rightarrow> string \<Rightarrow> memory_note" where
  "captured_note cfg u now md input responseID =
     \<lparr>mn_id = ''mem_'' @ u, mn_scope = ''session'', mn_session = memorySessionID cfg md input,
      mn_text = captureText cfg md, mn_source = ''responses.metadata'',
      mn_source_response = trim_space responseID,
      mn_metadata = [(''metadata_namespace'', mc_namespace cfg)],
      mn_created = now, mn_updated = now, mn_last_used = now\<rparr>"

lemma capture_saves:
  assumes "notes_inv d" "memoryRequestEnabled (Some sqlite_memory_ops) cfg input"
    and "NormalizeResponseMetadata (in_metadata input) = Inr md"
    and "trim_space (captureText cfg md) \<noteq> []" "memorySessionID cfg md input \<noteq> []"
    and "trim_space (md_value md (memoryMetadataKey cfg ''scope'')) = []"
    and "uuid n = Some u" "trim_space (''mem_'' @ u) \<notin> mn_id ` set (all_notes d)"
  shows "\<exists>d'. captureMemoryNote (Some sqlite_memory_ops) cfg uuid now input responseID n d = Inr (Suc n, d') \<and>
    notes_inv d' \<and>
    set (all_notes d') = insert (stored_note (captured_note cfg u now md input responseID)) (set (all_notes d))"
proof -
  let ?n = "captured_note cfg u now md input responseID"
  have "gomap_wf (mn_metadata ?n)" by (simp add: captured_note_def gomap_wf_def)
  moreover have id': "mn_id ?n = ''mem_'' @ u" by (simp add: captured_note_def)
  ultimately obtain d' where d': "ms_save sqlite_memory_ops ?n d = Inr d'" "notes_inv d'"
    "set (all_notes d') = insert (stored_note ?n) (set (all_notes d))"
    using mem.save_note [OF assms(1), of ?n] assms(8) by auto
  have "to_lower [] = []" by (simp add: to_lower.simps)
  then have "captureMemoryNote (Some sqlite_memory_ops) cfg uuid now input responseID n d = Inr (Suc n, d')"
    using assms d'(1) unfolding captureMemoryNote_def captured_note_def
    by (simp add: Let_def captureScope_def NewPrefixedID_def)
  with d' show ?thesis by blast
qed

text \<open>What a request asks to remember is recalled in the same session. A request that names a
  session and a text to remember, at a time later than every stored note, stores it; a later request
  of the session that injects memory then gets a developer message whose text, when the first line
  fits, begins with the header and the line of exactly that note.\<close>

theorem remembered_note_recalled:
  assumes "notes_reachable d" and "memoryRequestEnabled (Some sqlite_memory_ops) cfg input"
    and "NormalizeResponseMetadata (in_metadata input) = Inr md"
    and "trim_space (captureText cfg md) \<noteq> []" and "memorySessionID cfg md input \<noteq> []"
    and "trim_space (md_value md (memoryMetadataKey cfg ''scope'')) = []"
    and "uuid n = Some u" and "trim_space (''mem_'' @ u) \<notin> mn_id ` set (all_notes d)"
    and "\<forall>m \<in> set (all_notes d). mn_updated m < now"
    and "memoryRequestEnabled (Some sqlite_memory_ops) cfg input2"
    and "NormalizeResponseMetadata (in_metadata input2) = Inr md2"
    and "memoryBoolMetadata (md_value md2 (memoryMetadataKey cfg ''inject'')) = Some True"
    and "memorySessionID cfg md2 input2 = memorySessionID cfg md input"
    and "int (length (memoryHeader @ memoryLine (captured_note cfg u now md input rid))) \<le> mc_max_context_bytes cfg"
  shows "\<exists>d1 d2 rest. captureMemoryNote (Some sqlite_memory_ops) cfg uuid now input rid n d = Inr (Suc n, d1) \<and>
    memoryContextItems (Some sqlite_memory_ops) cfg later input2 d1 = Inr
      ([NewInputTextMessage ''developer''
          (memoryHeader @ memoryLine (captured_note cfg u now md input rid) @ rest)], d2)"
proof -
  let ?n = "captured_note cfg u now md input rid"
  let ?s = "stored_note ?n"
  let ?q = "\<lparr>nq_session = memorySessionID cfg md2 input2, nq_global = True, nq_limit = mc_max_notes cfg\<rparr>"
  note inv = reachable_notes_inv [OF assms(1)]
  obtain d1 where d1: "captureMemoryNote (Some sqlite_memory_ops) cfg uuid now input rid n d = Inr (Suc n, d1)"
    "notes_inv d1" "set (all_notes d1) = insert ?s (set (all_notes d))"
    using capture_saves [of d cfg input md uuid n u, OF inv assms(2-8)] by blast
  have sess: "trim_space ''session'' = ''session''" by (simp add: trim_space_word)
  have fields: "mn_updated ?s = now" "mn_scope ?s = ''session''" "mn_session ?s = memorySessionID cfg md input"
    "mn_text ?s = mn_text ?n"
    by (simp_all add: stored_note_def captured_note_def sess session_trimmed)
  have line: "memoryLine ?s = memoryLine ?n"
    using fields by (simp add: memoryLine_def captured_note_def sess)
  have "note_visible ?q ?s" using fields assms(5,13) by (simp add: note_visible_def session_trimmed)
  moreover have "\<forall>m \<in> set (all_notes d1). m \<noteq> ?s \<and> note_visible ?q m \<longrightarrow> newer ?s m"
    using d1(3) assms(9) fields(1) by (auto simp: newer_def)
  ultimately obtain ns where ns: "ms_list sqlite_memory_ops ?q d1 = Inr (?s # ns)"
    using mem.newest_listed_first [OF d1(2)] d1(3) by blast
  have "memoryLineText (mn_text ?s) \<noteq> []" using assms(4) fields(4) by (simp add: memoryLineText_Nil captured_note_def)
  then obtain rest where rest: "renderMemoryContext (?s # ns) (mc_max_context_bytes cfg) = memoryHeader @ memoryLine ?n @ rest"
    using render_first_line [of ?s "mc_max_context_bytes cfg" ns] assms(14) line by auto
  have "trim_space (memoryHeader @ x) \<noteq> []" for x
    using trim_word_prefix [of "CHR ''S''"] by (simp add: memoryHeader_def)
  then have ne: "trim_space (renderMemoryContext (?s # ns) (mc_max_context_bytes cfg)) \<noteq> []" using rest by simp
  obtain d2 where d2: "ms_touch sqlite_memory_ops
      (filter (\<lambda>i. i \<noteq> []) (map (\<lambda>n. trim_space (mn_id n)) (?s # ns))) later d1 = Inr d2"
    using mem.touch_notes [OF d1(2)] by blast
  have "\<exists>d2. memoryContextItems (Some sqlite_memory_ops) cfg later input2 d1 = Inr
      ([NewInputTextMessage ''developer'' (renderMemoryContext (?s # ns) (mc_max_context_bytes cfg))], d2)"
    unfolding memoryContextItems_def using assms(10,11,12) ns d2 ne
    by (simp add: Let_def split del: if_split) auto
  then show ?thesis using d1(1) rest by auto
qed

definition memory_sample_config :: memory_config where
  "memory_sample_config = \<lparr>mc_backend = ''local'', mc_inject = False, mc_max_notes = 4, mc_max_note_bytes = 100,
     mc_max_context_bytes = 1000, mc_namespace = ''m''\<rparr>"

definition memory_sample_metadata :: "string gomap" where
  "memory_sample_metadata = [(''m.inject'', ''1''), (''m.remember'', ''tea''), (''m.session_id'', ''s'')]"

definition memory_sample_input :: create_response_input where
  "memory_sample_input = \<lparr>in_model = ''x'', in_input = RawJson (JStr ''hi''), in_text_config = RawEmpty,
     in_metadata = RawJson (JObj (map (\<lambda>(k, v). (k, JStr v)) memory_sample_metadata)),
     in_context_management = RawEmpty, in_store = None, in_stream = None, in_background = None,
     in_force_shadow = False, in_previous = [], in_conversation = [], in_instructions = [],
     in_request_json = RawEmpty, in_options = []\<rparr>"

lemma memory_sample_facts:
  "memoryRequestEnabled (Some ops) memory_sample_config memory_sample_input"
  "NormalizeResponseMetadata (in_metadata memory_sample_input) = Inr memory_sample_metadata"
  "captureText memory_sample_config memory_sample_metadata = ''tea''"
  "memorySessionID memory_sample_config memory_sample_metadata memory_sample_input = ''s''"
  "md_value memory_sample_metadata (memoryMetadataKey memory_sample_config ''scope'') = []"
  "memoryBoolMetadata (md_value memory_sample_metadata (memoryMetadataKey memory_sample_config ''inject'')) = Some True"
proof -
  have t: "trim_space ''local'' = ''local''" "trim_space ''m'' = ''m''" "trim_space ''tea'' = ''tea''"
    "trim_space ''s'' = ''s''" "trim_space ''1'' = ''1''" by (simp_all add: trim_space_word)
  have k: "memoryMetadataKey memory_sample_config f = ''m.'' @ f" for f
    by (simp add: memoryMetadataKey_def memory_sample_config_def t trim_chars_def)
  show "memoryRequestEnabled (Some ops) memory_sample_config memory_sample_input"
    by (simp add: memoryRequestEnabled_def memory_sample_input_def Config_Enabled_def memory_sample_config_def t)
  show "NormalizeResponseMetadata (in_metadata memory_sample_input) = Inr memory_sample_metadata"
    by (simp add: NormalizeResponseMetadata_def normalizeMetadata_def raw_absent_def gomap_of_def
      rune_count_def memory_sample_input_def memory_sample_metadata_def less_char_def)
  show "captureText memory_sample_config memory_sample_metadata = ''tea''"
    by (simp add: captureText_def k md_value_def memory_sample_metadata_def t trimStringBytes_def)
      (simp add: memory_sample_config_def)
  show "memorySessionID memory_sample_config memory_sample_metadata memory_sample_input = ''s''"
    by (simp add: memorySessionID_def k md_value_def memory_sample_metadata_def t)
  show "md_value memory_sample_metadata (memoryMetadataKey memory_sample_config ''scope'') = []"
    by (simp add: k md_value_def memory_sample_metadata_def)
  have "to_lower ''1'' = ''1''" by (simp add: to_lower.simps lower_char_def)
  then show "memoryBoolMetadata (md_value memory_sample_metadata
      (memoryMetadataKey memory_sample_config ''inject'')) = Some True"
    by (simp add: k md_value_def memory_sample_metadata_def memoryBoolMetadata_def t)
qed

lemma memory_sample_line:
  "memoryLine (captured_note memory_sample_config u now memory_sample_metadata memory_sample_input rid) =
     ''- [session:s] tea'' @ newline"
proof -
  have "trim_space ''tea'' = ''tea''" "trim_space ''s'' = ''s''" "trim_space ''session'' = ''session''"
    by (simp_all add: trim_space_word)
  moreover have "Go_Strings.fields ''tea'' = [''tea'']"
    by (simp add: Go_Strings.fields_def ascii_space_def two_space_def three_space_def)
  ultimately show ?thesis
    by (simp add: memoryLine_def captured_note_def memory_sample_facts memoryLineText_def)
qed

lemma memory_sample_fits:
  "int (length (memoryHeader @ memoryLine (captured_note memory_sample_config u now memory_sample_metadata
     memory_sample_input rid))) \<le> mc_max_context_bytes memory_sample_config"
  unfolding memory_sample_line by (simp add: memoryHeader_def memory_sample_config_def newline_def)

theorem remembered_note_recalled_witness:
  "\<exists>d1 d2 rest. captureMemoryNote (Some sqlite_memory_ops) memory_sample_config (\<lambda>n. Some ''u'') ''5''
      memory_sample_input ''r'' 0 empty_db = Inr (1, d1) \<and>
    memoryContextItems (Some sqlite_memory_ops) memory_sample_config ''6'' memory_sample_input d1 =
      Inr ([NewInputTextMessage ''developer'' (memoryHeader @ (''- [session:s] tea'' @ newline) @ rest)], d2)"
proof -
  have e: "all_notes empty_db = []" by (simp add: all_notes_def empty_db_def)
  have "trim_space ''tea'' \<noteq> []" by (simp add: trim_space_word)
  then show ?thesis
    using remembered_note_recalled [OF notes_reachable.start, where cfg = memory_sample_config
        and input = memory_sample_input and md = memory_sample_metadata and uuid = "\<lambda>n. Some ''u''"
        and n = 0 and u = "''u''" and now = "''5''" and rid = "''r''" and later = "''6''"
        and ?input2.0 = memory_sample_input and ?md2.0 = memory_sample_metadata]
      memory_sample_fits [of "''u''" "''5''" "''r''"]
    by (simp add: memory_sample_facts memory_sample_line e)
qed

theorem memory_recall_witness:
  "\<exists>items d'. memoryContextItems (Some sqlite_memory_ops) memory_sample_config ''6'' memory_sample_input sample_notes =
     Inr (items, d')"
  using memory_recall [OF sample_notes_reachable memory_sample_facts(2), of memory_sample_config "''6''"] by blast

end
