(* ===== verification/Go_Json_Text.thy ===== *)
theory Go_Json_Text
  imports Go_Json
begin

text \<open>
  Reading JSON text, the other half of \<open>json_text\<close>: numbers, string literals with their escapes and
  surrogate pairs, and values, as \<^verbatim>\<open>encoding/json\<close> accepts them (its limit of 10000 on the nesting
  depth is left out). The reader is bounded by fuel; \<open>read_json\<close> takes twice the length of the text,
  which \<open>read_json_complete\<close> shows to be enough, and \<open>read_json_text\<close> shows that what \<open>json_text\<close>
  prints is read back. \<open>int_of_number\<close> is the decoding of a number into an \<^verbatim>\<open>int\<close>.
\<close>

section \<open>Reading JSON text\<close>

definition json_space :: "char \<Rightarrow> bool" where
  "json_space c \<longleftrightarrow> byte c = 32 \<or> byte c = 9 \<or> byte c = 10 \<or> byte c = 13"

definition skip_ws :: "string \<Rightarrow> string" where
  "skip_ws s = dropWhile json_space s"

subsection \<open>Numbers\<close>

definition int_part :: "string \<Rightarrow> (string \<times> string) option" where
  "int_part s =
     (case s of
        [] \<Rightarrow> None
      | c # cs \<Rightarrow> if c = CHR ''0'' then Some (''0'', cs)
                  else if is_digit c then Some (takeWhile is_digit s, dropWhile is_digit s)
                  else None)"

definition sign_part :: "string \<Rightarrow> (string \<times> string) option" where
  "sign_part s = (case s of c # cs \<Rightarrow> if c = CHR ''-'' then Some (''-'', cs) else Some ([], s) | [] \<Rightarrow> Some ([], []))"

definition frac_part :: "string \<Rightarrow> (string \<times> string) option" where
  "frac_part s =
     (case s of
        [] \<Rightarrow> Some ([], [])
      | c # cs \<Rightarrow>
          if c = CHR ''.'' then
            (if takeWhile is_digit cs = [] then None
             else Some (c # takeWhile is_digit cs, dropWhile is_digit cs))
          else Some ([], s))"

definition exp_part :: "string \<Rightarrow> (string \<times> string) option" where
  "exp_part s =
     (case s of
        [] \<Rightarrow> Some ([], [])
      | c # cs \<Rightarrow>
          if c = CHR ''e'' \<or> c = CHR ''E'' then
            (case cs of
               [] \<Rightarrow> None
             | d # ds \<Rightarrow>
                 if d = CHR ''+'' \<or> d = CHR ''-'' then
                   (if takeWhile is_digit ds = [] then None
                    else Some (c # d # takeWhile is_digit ds, dropWhile is_digit ds))
                 else if takeWhile is_digit cs = [] then None
                 else Some (c # takeWhile is_digit cs, dropWhile is_digit cs))
          else Some ([], s))"

definition read_number :: "string \<Rightarrow> (string \<times> string) option" where
  "read_number s =
     (case sign_part s of None \<Rightarrow> None | Some (a, s1) \<Rightarrow>
      case int_part s1 of None \<Rightarrow> None | Some (b, s2) \<Rightarrow>
      case frac_part s2 of None \<Rightarrow> None | Some (c, s3) \<Rightarrow>
      case exp_part s3 of None \<Rightarrow> None | Some (d, s4) \<Rightarrow> Some (a @ b @ c @ d, s4))"

definition num_end :: "string \<Rightarrow> bool" where
  "num_end s \<longleftrightarrow> s = [] \<or> \<not> (is_digit (hd s) \<or> hd s \<in> {CHR ''.'', CHR ''e'', CHR ''E'', CHR ''+'', CHR ''-''})"

lemma digits_ext:
  assumes "num_end r"
  shows "takeWhile is_digit (s @ r) = takeWhile is_digit s" "dropWhile is_digit (s @ r) = dropWhile is_digit s @ r"
proof -
  have "takeWhile is_digit r = []" "dropWhile is_digit r = r"
    using assms by (cases r; auto simp: num_end_def)+
  then show "takeWhile is_digit (s @ r) = takeWhile is_digit s" "dropWhile is_digit (s @ r) = dropWhile is_digit s @ r"
    by (simp_all add: takeWhile_append dropWhile_append takeWhile_eq_all_conv)
      (metis append_Nil2 takeWhile_eq_all_conv dropWhile_eq_Nil_conv append_Nil)+
qed

lemma sign_ext: "sign_part s = Some (a, b) \<Longrightarrow> num_end r \<Longrightarrow> s \<noteq> [] \<Longrightarrow> sign_part (s @ r) = Some (a, b @ r)"
  by (cases s) (auto simp: sign_part_def split: if_splits)

lemma int_ext: "int_part s = Some (a, b) \<Longrightarrow> num_end r \<Longrightarrow> int_part (s @ r) = Some (a, b @ r)"
  using digits_ext [of r s] by (cases s) (auto simp: int_part_def split: if_splits)

lemma frac_ext: "frac_part s = Some (a, b) \<Longrightarrow> num_end r \<Longrightarrow> frac_part (s @ r) = Some (a, b @ r)"
  by (cases s; cases r) (auto simp: frac_part_def digits_ext num_end_def split: if_splits)

lemma exp_ext: "exp_part s = Some (a, b) \<Longrightarrow> num_end r \<Longrightarrow> exp_part (s @ r) = Some (a, b @ r)"
proof (cases s)
  case Nil
  assume "exp_part s = Some (a, b)" "num_end r"
  with Nil show ?thesis by (cases r) (auto simp: exp_part_def num_end_def)
next
  case (Cons c cs)
  assume a: "exp_part s = Some (a, b)" and r: "num_end r"
  have "takeWhile is_digit (d # ds @ r) = takeWhile is_digit (d # ds)"
    "dropWhile is_digit (d # ds @ r) = dropWhile is_digit (d # ds) @ r" for d ds
    using digits_ext [OF r, of "d # ds"] by simp_all
  with a r Cons digits_ext [OF r] show ?thesis
    by (auto simp: exp_part_def split: if_splits list.splits)
qed

definition valid_number :: "string \<Rightarrow> bool" where
  "valid_number t \<longleftrightarrow> read_number t = Some (t, [])"

lemma read_number_ext:
  assumes "valid_number t" "num_end r"
  shows "read_number (t @ r) = Some (t, r)"
proof -
  from assms(1) obtain a b c d s1 s2 s3 where p: "sign_part t = Some (a, s1)" "int_part s1 = Some (b, s2)"
    "frac_part s2 = Some (c, s3)" "exp_part s3 = Some (d, [])" "t = a @ b @ c @ d"
    by (auto simp: valid_number_def read_number_def split: option.splits prod.splits)
  have "t \<noteq> []" using p(1,2) by (auto simp: sign_part_def int_part_def)
  then show ?thesis
    using sign_ext [OF p(1) assms(2)] int_ext [OF p(2) assms(2)] frac_ext [OF p(3) assms(2)]
      exp_ext [OF p(4) assms(2)] p(5) by (simp add: read_number_def)
qed

lemma valid_number_hd: "valid_number t \<Longrightarrow> t \<noteq> [] \<and> (hd t = CHR ''-'' \<or> is_digit (hd t))"
  by (cases t) (auto simp: valid_number_def read_number_def sign_part_def int_part_def is_digit_def
      split: option.splits prod.splits if_splits list.splits)

subsection \<open>Strings\<close>

definition hex_val :: "char \<Rightarrow> nat option" where
  "hex_val c =
     (if is_digit c then Some (byte c - 48)
      else if 97 \<le> byte c \<and> byte c \<le> 102 then Some (byte c - 87)
      else if 65 \<le> byte c \<and> byte c \<le> 70 then Some (byte c - 55) else None)"

fun hex4 :: "string \<Rightarrow> (nat \<times> string) option" where
  "hex4 (a # b # c # d # r) =
     (case (hex_val a, hex_val b, hex_val c, hex_val d) of
        (Some w, Some x, Some y, Some z) \<Rightarrow> Some (((w * 16 + x) * 16 + y) * 16 + z, r)
      | _ \<Rightarrow> None)"
| "hex4 _ = None"

definition utf8_of :: "nat \<Rightarrow> string" where
  "utf8_of n =
     (if n < 0x80 then [char_of n]
      else if n < 0x800 then [char_of (0xC0 + n div 64), char_of (0x80 + n mod 64)]
      else if n < 0x10000
        then [char_of (0xE0 + n div 4096), char_of (0x80 + n div 64 mod 64), char_of (0x80 + n mod 64)]
      else [char_of (0xF0 + n div 262144), char_of (0x80 + n div 4096 mod 64),
            char_of (0x80 + n div 64 mod 64), char_of (0x80 + n mod 64)])"

definition surrogate :: "nat \<Rightarrow> bool" where "surrogate n \<longleftrightarrow> 0xD800 \<le> n \<and> n < 0xE000"

text \<open>The low half of a surrogate pair, if one follows.\<close>

definition low_half :: "nat \<Rightarrow> string \<Rightarrow> (nat \<times> string) option" where
  "low_half n s =
     (case s of
        a # b # r \<Rightarrow>
          if byte a = 92 \<and> b = CHR ''u'' then
            (case hex4 r of
               Some (m, r') \<Rightarrow> if n < 0xDC00 \<and> 0xDC00 \<le> m \<and> m < 0xE000
                               then Some (0x10000 + (n - 0xD800) * 1024 + (m - 0xDC00), r') else None
             | None \<Rightarrow> None)
          else None
      | _ \<Rightarrow> None)"

lemma hex4_length: "hex4 s = Some (n, r) \<Longrightarrow> length r < length s"
  by (induction s rule: hex4.induct) (auto split: option.splits)

lemma low_half_length: "low_half n s = Some (m, r) \<Longrightarrow> length r < length s"
  by (auto simp: low_half_def dest: hex4_length split: list.splits if_splits option.splits)

definition simple_escape :: "char \<Rightarrow> char option" where
  "simple_escape e =
     (if byte e = 34 \<or> byte e = 92 \<or> byte e = 47 then Some e
      else if e = CHR ''b'' then Some (CHR 8) else if e = CHR ''t'' then Some (CHR 9)
      else if e = CHR ''n'' then Some (CHR 10) else if e = CHR ''f'' then Some (CHR 12)
      else if e = CHR ''r'' then Some (CHR 13) else None)"

definition prepend :: "string \<Rightarrow> (string \<times> string) option \<Rightarrow> (string \<times> string) option" where
  "prepend u x = map_option (\<lambda>(t, r). (u @ t, r)) x"

text \<open>The rest of a string literal after its opening quote, and what follows it.\<close>

function read_string :: "string \<Rightarrow> (string \<times> string) option" where
  "read_string [] = None"
| "read_string (c # cs) =
     (if byte c = 34 then Some ([], cs)
      else if byte c = 92 then
        (case cs of
           [] \<Rightarrow> None
         | e # es \<Rightarrow>
             (case simple_escape e of
                Some x \<Rightarrow> prepend [x] (read_string es)
              | None \<Rightarrow>
                  if e = CHR ''u'' then
                    (case hex4 es of
                       None \<Rightarrow> None
                     | Some (n, r) \<Rightarrow>
                         if surrogate n then
                           (case low_half n r of
                              Some (m, r') \<Rightarrow> prepend (utf8_of m) (read_string r')
                            | None \<Rightarrow> prepend rune_error (read_string r))
                         else prepend (utf8_of n) (read_string r))
                  else None))
      else if byte c < 32 then None
      else if rune_width (c # cs) = 0 then prepend rune_error (read_string cs)
      else prepend (c # take (rune_width (c # cs) - 1) cs) (read_string (drop (rune_width (c # cs) - 1) cs)))"
  by pat_completeness auto
termination
  by (relation "measure length") (auto dest!: hex4_length low_half_length)

declare read_string.simps(2) [simp del]

lemma read_string_rune:
  assumes "is_rune r" "length r \<noteq> 1"
  shows "read_string (r @ s) = prepend r (read_string s)"
proof (cases r)
  case Nil
  with assms show ?thesis by (simp add: is_rune_def)
next
  case (Cons c cs)
  have w: "rune_width (r @ s) = length r" using rune_width_append [OF assms(1)] .
  have "list_all (\<lambda>c. 0x80 \<le> byte c) r" using rune_high [OF assms] .
  then have "0x80 \<le> byte c" using Cons by simp
  with w Cons show ?thesis by (simp add: read_string.simps(2) [of c])
qed

lemma hex_digit_val: "n < 16 \<Longrightarrow> hex_val (hex_digit n) = Some n"
  by (auto simp: hex_val_def hex_digit_def is_digit_def)

lemma named_bytes:
  "byte c = 34 \<Longrightarrow> CHR 34 = c" "byte c = 92 \<Longrightarrow> CHR 92 = c" "byte c = 8 \<Longrightarrow> CHR 8 = c" "byte c = 9 \<Longrightarrow> CHR 9 = c"
  "byte c = 10 \<Longrightarrow> CHR 10 = c" "byte c = 12 \<Longrightarrow> CHR 12 = c" "byte c = 13 \<Longrightarrow> CHR 13 = c"
  by (simp_all add: byte_inject [symmetric])

lemma read_string_esc_char:
  assumes "byte c < 0x80"
  shows "read_string (esc_char c @ s) = prepend [c] (read_string s)"
proof -
  have hex: "hex4 (CHR ''0'' # CHR ''0'' # hex_digit (byte c div 16) # hex_digit (byte c mod 16) # s) = Some (byte c, s)"
  proof -
    have "hex_val (CHR ''0'') = Some 0" by (simp add: hex_val_def is_digit_def)
    then show ?thesis using assms by (simp add: hex_digit_val)
  qed
  have w: "rune_width (c # s) = 1" using assms by (cases s rule: rune_width.cases) auto
  consider "byte c = 34" | "byte c = 92" | "byte c = 8" | "byte c = 9" | "byte c = 10" | "byte c = 12" | "byte c = 13"
    | (u) "byte c \<notin> {34, 92, 8, 9, 10, 12, 13}" "byte c < 32 \<or> byte c = 60 \<or> byte c = 62 \<or> byte c = 38"
    | (lit) "byte c \<notin> {34, 92}" "32 \<le> byte c" "byte c \<notin> {60, 62, 38}" by fastforce
  then show ?thesis
  proof cases
    case u
    then show ?thesis
      using hex assms by (simp add: esc_char_def read_string.simps(2) simple_escape_def surrogate_def utf8_of_def)
  next
    case lit
    then show ?thesis using w by (simp add: esc_char_def read_string.simps(2) [of c])
  qed (simp_all add: esc_char_def read_string.simps(2) simple_escape_def named_bytes)
qed

lemma read_string_escaped_2028:
  "map byte r = [0xE2, 0x80, 0xA8] \<Longrightarrow> read_string (CHR 92 # ''u2028'' @ s) = prepend r (read_string s)"
  "map byte r = [0xE2, 0x80, 0xA9] \<Longrightarrow> read_string (CHR 92 # ''u2029'' @ s) = prepend r (read_string s)"
proof -
  have h: "hex_val (CHR ''2'') = Some 2" "hex_val (CHR ''0'') = Some 0" "hex_val (CHR ''8'') = Some 8"
    "hex_val (CHR ''9'') = Some 9" by (simp_all add: hex_val_def is_digit_def)
  have u: "map byte (utf8_of 0x2028) = [0xE2, 0x80, 0xA8]" "map byte (utf8_of 0x2029) = [0xE2, 0x80, 0xA9]"
    by (simp_all add: utf8_of_def)
  have inj: "map byte r = map byte r' \<Longrightarrow> r = r'" for r r'
    by (rule map_injective) (auto simp: inj_def byte_inject)
  show "map byte r = [0xE2, 0x80, 0xA8] \<Longrightarrow> read_string (CHR 92 # ''u2028'' @ s) = prepend r (read_string s)"
    using inj [of r "utf8_of 0x2028"] u by (simp add: read_string.simps(2) simple_escape_def h surrogate_def)
  show "map byte r = [0xE2, 0x80, 0xA9] \<Longrightarrow> read_string (CHR 92 # ''u2029'' @ s) = prepend r (read_string s)"
    using inj [of r "utf8_of 0x2029"] u by (simp add: read_string.simps(2) simple_escape_def h surrogate_def)
qed

lemma prepend_prepend: "prepend u (prepend v x) = prepend (u @ v) x"
  by (cases x) (auto simp: prepend_def)

lemma rune_width_1: "rune_width (c # cs) = 1 \<Longrightarrow> byte c < 0x80"
  by (cases "c # cs" rule: rune_width.cases) (auto split: if_splits)

lemma read_esc_string: "valid_utf8 s \<Longrightarrow> read_string (esc_string s @ CHR 34 # rest) = Some (s, rest)"
proof (induction s rule: length_induct)
  case (1 s)
  show ?case
  proof (cases s)
    case Nil
    then show ?thesis by (simp add: read_string.simps(2))
  next
    case (Cons c cs)
    define w where "w = rune_width (c # cs)"
    define r where "r = c # take (w - 1) cs"
    let ?t = "drop (w - 1) cs"
    have w0: "w \<noteq> 0" and vt: "valid_utf8 ?t" using 1(2) Cons by (auto simp: w_def Let_def)
    have rune: "is_rune r" using rune_width_take [of c cs w] w0 by (simp add: w_def r_def)
    have "w \<le> length (c # cs)" using rune_width_le [of "c # cs"] by (simp add: w_def)
    then have len: "length r = w" using w0 by (simp add: r_def)
    have "length ?t < length s" using Cons by simp
    then have ih: "read_string (esc_string ?t @ CHR 34 # rest) = Some (?t, rest)" using 1(1) vt by blast
    have "read_string (esc_string (c # cs) @ CHR 34 # rest) = prepend r (read_string (esc_string ?t @ CHR 34 # rest))"
    proof (cases "w = 1")
      case True
      then have "byte c < 0x80" using rune_width_1 by (simp add: w_def)
      then show ?thesis using True read_string_esc_char [of c] by (simp add: Let_def w_def [symmetric] r_def)
    next
      case False
      have e: "esc_string (c # cs) = (if map byte r = [0xE2, 0x80, 0xA8] then CHR 92 # ''u2028''
          else if map byte r = [0xE2, 0x80, 0xA9] then CHR 92 # ''u2029'' else r) @ esc_string ?t"
        unfolding r_def using False w0 by (simp add: Let_def w_def)
      show ?thesis
        unfolding e using False len read_string_escaped_2028 [of r] read_string_rune [OF rune] by auto
    qed
    also have "\<dots> = Some (c # cs, rest)" using ih by (simp add: prepend_def r_def)
    finally show ?thesis using Cons by simp
  qed
qed

subsection \<open>Values\<close>

text \<open>The reader of values. The first argument bounds the number of calls; \<open>read_json\<close> passes enough
  for any text. The limit of 10000 on the nesting depth is not modelled.\<close>

fun read_value :: "nat \<Rightarrow> string \<Rightarrow> (json \<times> string) option"
  and read_elems :: "nat \<Rightarrow> string \<Rightarrow> (json list \<times> string) option"
  and read_fields :: "nat \<Rightarrow> string \<Rightarrow> ((string \<times> json) list \<times> string) option" where
  "read_value 0 s = None"
| "read_value (Suc n) s =
     (case skip_ws s of
        [] \<Rightarrow> None
      | c # cs \<Rightarrow>
          if byte c = 34 then map_option (\<lambda>(t, r). (JStr t, r)) (read_string cs)
          else if c = CHR ''{'' then
            (if skip_ws cs \<noteq> [] \<and> hd (skip_ws cs) = CHR ''}'' then Some (JObj [], tl (skip_ws cs))
             else map_option (\<lambda>(kvs, r). (JObj kvs, r)) (read_fields n cs))
          else if c = CHR ''['' then
            (if skip_ws cs \<noteq> [] \<and> hd (skip_ws cs) = CHR '']'' then Some (JArr [], tl (skip_ws cs))
             else map_option (\<lambda>(js, r). (JArr js, r)) (read_elems n cs))
          else if has_prefix (c # cs) ''null'' then Some (JNull, drop 4 (c # cs))
          else if has_prefix (c # cs) ''true'' then Some (JBool True, drop 4 (c # cs))
          else if has_prefix (c # cs) ''false'' then Some (JBool False, drop 5 (c # cs))
          else map_option (\<lambda>(t, r). (JNum t, r)) (read_number (c # cs)))"
| "read_elems 0 s = None"
| "read_elems (Suc n) s =
     (case read_value n s of
        None \<Rightarrow> None
      | Some (v, r) \<Rightarrow>
          (case skip_ws r of
             [] \<Rightarrow> None
           | c # cs \<Rightarrow>
               if c = CHR '','' then map_option (\<lambda>(vs, r). (v # vs, r)) (read_elems n cs)
               else if c = CHR '']'' then Some ([v], cs) else None))"
| "read_fields 0 s = None"
| "read_fields (Suc n) s =
     (case skip_ws s of
        [] \<Rightarrow> None
      | q # qs \<Rightarrow>
          if byte q \<noteq> 34 then None
          else case read_string qs of
            None \<Rightarrow> None
          | Some (k, r) \<Rightarrow>
              (case skip_ws r of
                 [] \<Rightarrow> None
               | c # cs \<Rightarrow>
                   if c \<noteq> CHR '':'' then None
                   else case read_value n cs of
                     None \<Rightarrow> None
                   | Some (v, r2) \<Rightarrow>
                       (case skip_ws r2 of
                          [] \<Rightarrow> None
                        | e # es \<Rightarrow>
                            if e = CHR '','' then map_option (\<lambda>(kvs, r). ((k, v) # kvs, r)) (read_fields n es)
                            else if e = CHR ''}'' then Some ([(k, v)], es) else None)))"

definition read_json :: "string \<Rightarrow> json option" where
  "read_json s =
     (case read_value (2 * length s + 2) s of
        Some (v, r) \<Rightarrow> if skip_ws r = [] then Some v else None
      | None \<Rightarrow> None)"

subsection \<open>Reading what was printed\<close>

fun wf_json :: "json \<Rightarrow> bool" and wf_list :: "json list \<Rightarrow> bool" and wf_fields :: "(string \<times> json) list \<Rightarrow> bool" where
  "wf_json JNull \<longleftrightarrow> True"
| "wf_json (JBool b) \<longleftrightarrow> True"
| "wf_json (JNum t) \<longleftrightarrow> valid_number t"
| "wf_json (JStr s) \<longleftrightarrow> valid_utf8 s"
| "wf_json (JArr js) \<longleftrightarrow> wf_list js"
| "wf_json (JObj kvs) \<longleftrightarrow> wf_fields kvs"
| "wf_list [] \<longleftrightarrow> True"
| "wf_list (j # js) \<longleftrightarrow> wf_json j \<and> wf_list js"
| "wf_fields [] \<longleftrightarrow> True"
| "wf_fields (kv # kvs) \<longleftrightarrow> valid_utf8 (fst kv) \<and> wf_json (snd kv) \<and> wf_fields kvs"

lemma skip_ws_id: "s = [] \<or> \<not> json_space (hd s) \<Longrightarrow> skip_ws s = s"
  by (cases s) (auto simp: skip_ws_def)

lemma digit_not_space: "is_digit c \<Longrightarrow> \<not> json_space c"
  by (auto simp: is_digit_def json_space_def)

lemma json_text_hd: "wf_json j \<Longrightarrow> json_text j \<noteq> [] \<and> \<not> json_space (hd (json_text j)) \<and>
    hd (json_text j) \<noteq> CHR '']'' \<and> hd (json_text j) \<noteq> CHR ''}''"
proof (cases j)
  case (JNum t)
  assume "wf_json j"
  with JNum valid_number_hd [of t] show ?thesis
    by (auto simp: json_space_def is_digit_def)
qed (auto simp: json_space_def)

lemma num_end_sep: "num_end (CHR '','' # r)" "num_end (CHR '']'' # r)" "num_end (CHR ''}'' # r)" "num_end []"
  by (simp_all add: num_end_def is_digit_def)

lemma read_number_value:
  assumes "valid_number t" "num_end r"
  shows "read_value (Suc n) (t @ r) = Some (JNum t, r)"
proof -
  obtain c cs where t: "t = c # cs" using valid_number_hd [OF assms(1)] by (cases t) auto
  then have c: "c = CHR ''-'' \<or> is_digit c" using valid_number_hd [OF assms(1)] by simp
  then have "skip_ws (t @ r) = t @ r" using t digit_not_space by (intro skip_ws_id) (auto simp: json_space_def)
  moreover have "byte c \<noteq> 34" "c \<noteq> CHR ''{''" "c \<noteq> CHR ''[''" "c \<noteq> CHR ''n''" "c \<noteq> CHR ''t''" "c \<noteq> CHR ''f''"
    using c by (auto simp: is_digit_def)
  ultimately show ?thesis
    using read_number_ext [OF assms] t by (simp add: has_prefix_def)
qed

lemma join_Cons: "join (x # xs) sep = x @ (if xs = [] then [] else sep @ join xs sep)"
  by (cases xs) auto

lemma list_text_Nil [simp]: "list_text js = [] \<longleftrightarrow> js = []" "fields_text kvs = [] \<longleftrightarrow> kvs = []"
  by (cases js; simp) (cases kvs; simp)

lemma read_literals:
  "read_value (Suc n) (''null'' @ r) = Some (JNull, r)"
  "read_value (Suc n) (''true'' @ r) = Some (JBool True, r)"
  "read_value (Suc n) (''false'' @ r) = Some (JBool False, r)"
  by (simp_all add: skip_ws_id json_space_def has_prefix_def)

lemma read_string_value:
  assumes "valid_utf8 s"
  shows "read_value (Suc n) (CHR 34 # esc_string s @ CHR 34 # r) = Some (JStr s, r)"
  using read_esc_string [OF assms, of r] by (simp add: skip_ws_id json_space_def)

lemma read_array_value:
  assumes "wf_json j" "read_elems n (join (list_text (j # js)) '','' @ CHR '']'' # r) = Some (j # js, r)"
  shows "read_value (Suc n) (''['' @ join (list_text (j # js)) '','' @ CHR '']'' # r) = Some (JArr (j # js), r)"
proof -
  let ?t = "join (list_text (j # js)) '','' @ CHR '']'' # r"
  have "?t \<noteq> []" "\<not> json_space (hd ?t)" "hd ?t \<noteq> CHR '']''"
    using json_text_hd [OF assms(1)] by (auto simp: join_Cons)
  then show ?thesis using assms(2) by (simp add: skip_ws_id [of ?t] skip_ws_id json_space_def)
qed

lemma read_object_value:
  assumes "read_fields n (join (fields_text (kv # kvs)) '','' @ CHR ''}'' # r) = Some (kv # kvs, r)"
  shows "read_value (Suc n) (''{'' @ join (fields_text (kv # kvs)) '','' @ CHR ''}'' # r) = Some (JObj (kv # kvs), r)"
proof -
  let ?t = "join (fields_text (kv # kvs)) '','' @ CHR ''}'' # r"
  have "?t \<noteq> []" "\<not> json_space (hd ?t)" "hd ?t \<noteq> CHR ''}''"
    by (auto simp: join_Cons json_space_def)
  then show ?thesis using assms by (simp add: skip_ws_id [of ?t] skip_ws_id json_space_def)
qed

lemma read_printed:
  "wf_json j \<Longrightarrow> num_end r \<Longrightarrow> 2 * length (json_text j) + 1 \<le> n \<Longrightarrow> read_value n (json_text j @ r) = Some (j, r)"
  "wf_fields kvs \<Longrightarrow> kvs \<noteq> [] \<Longrightarrow> 2 * length (join (fields_text kvs) '','') + 2 \<le> n \<Longrightarrow>
     read_fields n (join (fields_text kvs) '','' @ CHR ''}'' # r) = Some (kvs, r)"
  "wf_list js \<Longrightarrow> js \<noteq> [] \<Longrightarrow> 2 * length (join (list_text js) '','') + 2 \<le> n \<Longrightarrow>
     read_elems n (join (list_text js) '','' @ CHR '']'' # r) = Some (js, r)"
proof (induction j and kvs and js arbitrary: n r and n r and n r rule: json_text_fields_text_list_text.induct)
  case 1
  then show ?case using read_literals by (cases n) auto
next
  case (2 b)
  then show ?case using read_literals by (cases n) (auto split: if_splits)
next
  case (3 t)
  then show ?case using read_number_value by (cases n) auto
next
  case (4 s)
  then show ?case using read_string_value by (cases n) auto
next
  case (5 js)
  then obtain m where n: "n = Suc m" by (cases n) auto
  show ?case
  proof (cases js)
    case Nil
    with n show ?thesis by (simp add: skip_ws_id json_space_def)
  next
    case (Cons i js')
    have "read_elems m (join (list_text js) '','' @ CHR '']'' # r) = Some (js, r)"
      using 5 n Cons by (intro 5(1)) auto
    with read_array_value [of i m js' r] 5(2) n Cons show ?thesis by simp
  qed
next
  case (6 kvs)
  then obtain m where n: "n = Suc m" by (cases n) auto
  show ?case
  proof (cases kvs)
    case Nil
    with n show ?thesis by (simp add: skip_ws_id json_space_def)
  next
    case (Cons kv kvs')
    have "read_fields m (join (fields_text kvs) '','' @ CHR ''}'' # r) = Some (kvs, r)"
      using 6 n Cons by (intro 6(1)) auto
    with read_object_value [of m kv kvs' r] n Cons show ?thesis by simp
  qed
next
  case (8 j js)
  then obtain m where n: "n = Suc m" by (cases n) auto
  show ?case
  proof (cases "js = []")
    case True
    with 8 n num_end_sep show ?thesis
      by (simp add: skip_ws_id json_space_def)
  next
    case False
    let ?r = "CHR '','' # join (list_text js) '','' @ CHR '']'' # r"
    have v: "read_value m (json_text j @ ?r) = Some (j, ?r)"
      using 8(3,5) n num_end_sep by (intro 8(1)) (auto simp: join_Cons)
    have "read_elems m (join (list_text js) '','' @ CHR '']'' # r) = Some (js, r)"
      using 8(3,5) n False by (intro 8(2)) (auto simp: join_Cons)
    with v n False show ?thesis by (simp add: join_Cons skip_ws_id json_space_def)
  qed
next
  case (10 kv kvs)
  then obtain m where n: "n = Suc m" by (cases n) auto
  obtain k v where kv: "kv = (k, v)" by (cases kv)
  define rest where "rest = (if kvs = [] then CHR ''}'' # r else CHR '','' # join (fields_text kvs) '','' @ CHR ''}'' # r)"
  have k: "read_string (esc_string k @ CHR 34 # CHR '':'' # json_text v @ rest) = Some (k, CHR '':'' # json_text v @ rest)"
    using 10(3) kv by (intro read_esc_string) auto
  have v: "read_value m (json_text v @ rest) = Some (v, rest)"
    using 10(3,5) n num_end_sep kv by (intro 10(1) [of rest m, unfolded kv snd_conv]) (auto simp: join_Cons rest_def)
  have printed: "join (fields_text (kv # kvs)) '','' @ CHR ''}'' # r = CHR 34 # esc_string k @ CHR 34 # CHR '':'' # json_text v @ rest"
    by (simp add: join_Cons rest_def kv)
  show ?case
  proof (cases "kvs = []")
    case True
    with k v n kv show ?thesis unfolding printed by (simp add: skip_ws_id json_space_def rest_def)
  next
    case False
    have "read_fields m (join (fields_text kvs) '','' @ CHR ''}'' # r) = Some (kvs, r)"
      using 10(3,5) n False by (intro 10(2)) (auto simp: join_Cons)
    with False k v n kv show ?thesis unfolding printed by (simp add: skip_ws_id json_space_def rest_def)
  qed
qed auto

lemma read_json_text: "wf_json j \<Longrightarrow> read_json (json_text j) = Some j"
  using read_printed(1) [of j "[]" "2 * length (json_text j) + 2"]
  by (simp add: read_json_def num_end_sep skip_ws_def)

subsection \<open>The bound on calls is enough\<close>

lemma skip_ws_length: "length (skip_ws s) \<le> length s"
  by (simp add: skip_ws_def length_dropWhile_le)

lemma skip_ws_Cons: "skip_ws s = c # cs \<Longrightarrow> length cs < length s"
  using skip_ws_length [of s] by simp

lemma read_string_shorter: "read_string s = Some (t, r) \<Longrightarrow> length r < length s"
proof (induction s arbitrary: t r rule: length_induct)
  case (1 s)
  show ?case
  proof (cases s)
    case (Cons c cs)
    have step: "length r \<le> length s'" if "prepend u (read_string s') = Some (t, r)" "length s' < length s" for u s'
      using that 1(1) by (fastforce simp: prepend_def)
    have "length r \<le> length cs"
      using 1(2) Cons step
      by (auto simp: read_string.simps(2) split: if_splits list.splits option.splits prod.splits
          dest!: hex4_length low_half_length) fastforce+
    with Cons show ?thesis by simp
  qed (use 1 in simp)
qed

lemma read_number_shorter: "read_number s = Some (t, r) \<Longrightarrow> length r < length s"
proof -
  assume "read_number s = Some (t, r)"
  then obtain a b c d s1 s2 s3 where p: "sign_part s = Some (a, s1)" "int_part s1 = Some (b, s2)"
    "frac_part s2 = Some (c, s3)" "exp_part s3 = Some (d, r)"
    by (auto simp: read_number_def split: option.splits prod.splits)
  have "length s1 \<le> length s" using p(1) by (auto simp: sign_part_def split: list.splits if_splits)
  moreover have "length s2 < length s1"
    using p(2) length_dropWhile_le [of is_digit "tl s1"] by (auto simp: int_part_def split: list.splits if_splits)
  moreover have "length s3 \<le> length s2"
    using p(3) length_dropWhile_le [of is_digit "tl s2"] by (auto simp: frac_part_def split: list.splits if_splits)
  moreover have "length r \<le> length s3"
    using p(4) length_dropWhile_le [of is_digit "tl s3"] length_dropWhile_le [of is_digit "tl (tl s3)"]
    by (auto simp: exp_part_def split: list.splits if_splits)
  ultimately show ?thesis by linarith
qed

lemma read_shorter:
  "read_value f s = Some (v, r) \<Longrightarrow> length r < length s"
  "read_elems f s = Some (vs, r) \<Longrightarrow> length r < length s"
  "read_fields f s = Some (kvs, r) \<Longrightarrow> length r < length s"
proof (induction f s and f s and f s arbitrary: v r and vs r and kvs r rule: read_value_read_elems_read_fields.induct)
  case (2 n s)
  then obtain c cs where s: "skip_ws s = c # cs" by (auto split: list.splits)
  have ih: "read_fields n cs = Some (kvs, r') \<Longrightarrow> c = CHR ''{'' \<Longrightarrow> \<not> (skip_ws cs \<noteq> [] \<and> hd (skip_ws cs) = CHR ''}'') \<Longrightarrow> length r' < length cs"
    "read_elems n cs = Some (vs, r') \<Longrightarrow> c = CHR ''['' \<Longrightarrow> \<not> (skip_ws cs \<noteq> [] \<and> hd (skip_ws cs) = CHR '']'') \<Longrightarrow> length r' < length cs"
    for kvs vs r' using 2(1,2) s by auto
  have "length r \<le> length cs"
    using 2(3) s skip_ws_length [of cs] ih
    by (auto split: if_splits dest!: read_string_shorter read_number_shorter dest: less_imp_le)
  then show ?case using skip_ws_Cons [OF s] by simp
next
  case (4 n s)
  then obtain v r1 c cs where v: "read_value n s = Some (v, r1)" "skip_ws r1 = c # cs"
    by (auto split: option.splits list.splits)
  then have "length cs < length s" using 4(1) skip_ws_Cons by fastforce
  moreover have "length r \<le> length cs" using 4(2,3) v by (fastforce split: if_splits)
  ultimately show ?case by simp
next
  case (6 n s)
  then obtain qs k r1 c cs v r2 e es where p: "skip_ws s = CHR 34 # qs" "read_string qs = Some (k, r1)"
    "skip_ws r1 = c # cs" "c = CHR '':''" "read_value n cs = Some (v, r2)" "skip_ws r2 = e # es"
    by (auto split: option.splits list.splits if_splits simp: named_bytes)
  have "length es < length s"
    using skip_ws_Cons [OF p(1)] read_string_shorter [OF p(2)] skip_ws_Cons [OF p(3)] 6(1) p skip_ws_Cons [OF p(6)]
    by fastforce
  moreover have "length r \<le> length es" using 6(2,3) p by (fastforce split: if_splits)
  ultimately show ?case by simp
qed auto

lemma read_value_step:
  assumes "\<And>y. read_fields n cs = Some y \<Longrightarrow> read_fields m cs = Some y"
    and "\<And>y. read_elems n cs = Some y \<Longrightarrow> read_elems m cs = Some y"
    and s: "skip_ws s = c # cs" and x: "read_value (Suc n) s = Some x"
  shows "read_value (Suc m) s = Some x"
proof (cases "c = CHR ''{'' \<and> \<not> (skip_ws cs \<noteq> [] \<and> hd (skip_ws cs) = CHR ''}'')")
  case True
  then obtain z where z: "read_fields n cs = Some z" using x s by auto
  with assms(1) [OF z] True x s show ?thesis by (auto split: if_splits)
next
  case obj: False
  show ?thesis
  proof (cases "c = CHR ''['' \<and> \<not> (skip_ws cs \<noteq> [] \<and> hd (skip_ws cs) = CHR '']'')")
    case True
    then obtain z where z: "read_elems n cs = Some z" using x s by auto
    with assms(2) [OF z] True x s show ?thesis by (auto split: if_splits)
  next
    case False
    with obj x s show ?thesis by (auto split: if_splits)
  qed
qed

lemma read_elems_step:
  assumes v: "read_value n s = Some (v, r)" "read_value m s = Some (v, r)" "skip_ws r = c # cs"
    and "\<And>y. read_elems n cs = Some y \<Longrightarrow> read_elems m cs = Some y"
    and x: "read_elems (Suc n) s = Some x"
  shows "read_elems (Suc m) s = Some x"
proof (cases "c = CHR '',''")
  case True
  then obtain z where z: "read_elems n cs = Some z" using x v by auto
  with assms(4) [OF z] True x v show ?thesis by simp
next
  case False
  with x v show ?thesis by (simp split: if_splits)
qed

lemma read_fields_step:
  assumes p: "skip_ws s = q # qs" "byte q = 34" "read_string qs = Some (k, r1)" "skip_ws r1 = CHR '':'' # cs"
    and v: "read_value n cs = Some (v, r2)" "read_value m cs = Some (v, r2)" "skip_ws r2 = e # es"
    and "\<And>y. read_fields n es = Some y \<Longrightarrow> read_fields m es = Some y"
    and x: "read_fields (Suc n) s = Some x"
  shows "read_fields (Suc m) s = Some x"
proof (cases "e = CHR '',''")
  case True
  then obtain z where z: "read_fields n es = Some z" using x p v by auto
  with assms(8) [OF z] True x p v show ?thesis by simp
next
  case False
  with x p v show ?thesis by (simp split: if_splits)
qed

lemma read_enough_all:
  "(\<forall>s x g. read_value f s = Some x \<longrightarrow> 2 * length s + 1 \<le> g \<longrightarrow> read_value g s = Some x) \<and>
   (\<forall>s x g. read_elems f s = Some x \<longrightarrow> 2 * length s + 2 \<le> g \<longrightarrow> read_elems g s = Some x) \<and>
   (\<forall>s x g. read_fields f s = Some x \<longrightarrow> 2 * length s + 2 \<le> g \<longrightarrow> read_fields g s = Some x)"
proof (induction f)
  case (Suc n)
  have V: "read_value g s = Some x" if h1: "read_value (Suc n) s = Some x" and h2: "2 * length s + 1 \<le> g" for s x g
  proof -
    obtain m where g: "g = Suc m" using h2 by (cases g) auto
    obtain c cs where s: "skip_ws s = c # cs" using h1 by (auto split: list.splits)
    have "2 * length cs + 2 \<le> m" using skip_ws_Cons [OF s] h2 g by simp
    then show ?thesis unfolding g using Suc by (intro read_value_step [OF _ _ s h1]) blast+
  qed
  have E: "read_elems g s = Some x" if h1: "read_elems (Suc n) s = Some x" and h2: "2 * length s + 2 \<le> g" for s x g
  proof -
    obtain m where g: "g = Suc m" using h2 by (cases g) auto
    obtain v r c cs where v: "read_value n s = Some (v, r)" "skip_ws r = c # cs"
      using h1 by (auto split: option.splits list.splits)
    have "2 * length cs + 2 \<le> m" "2 * length s + 1 \<le> m"
      using read_shorter(1) [OF v(1)] skip_ws_Cons [OF v(2)] h2 g by auto
    then show ?thesis unfolding g using Suc v by (intro read_elems_step [OF v(1) _ v(2) _ h1]) blast+
  qed
  have F: "read_fields g s = Some x" if h1: "read_fields (Suc n) s = Some x" and h2: "2 * length s + 2 \<le> g" for s x g
  proof -
    obtain m where g: "g = Suc m" using h2 by (cases g) auto
    obtain q qs k r1 cs v r2 e es where p: "skip_ws s = q # qs" "byte q = 34" "read_string qs = Some (k, r1)"
      "skip_ws r1 = CHR '':'' # cs" "read_value n cs = Some (v, r2)" "skip_ws r2 = e # es"
      using h1 by (auto split: option.splits list.splits if_splits)
    have "2 * length es + 2 \<le> m" "2 * length cs + 1 \<le> m"
      using skip_ws_Cons [OF p(1)] read_string_shorter [OF p(3)] skip_ws_Cons [OF p(4)]
        read_shorter(1) [OF p(5)] skip_ws_Cons [OF p(6)] h2 g by auto
    then show ?thesis
      unfolding g using Suc p(5) by (intro read_fields_step [OF p(1-5) _ p(6) _ h1]) blast+
  qed
  from V E F show ?case by blast
qed simp

lemmas read_enough = read_enough_all [THEN conjunct1, rule_format]

text \<open>Any result some bound gives is the result of \<open>read_json\<close>.\<close>

lemma read_json_complete: "read_value f s = Some (v, r) \<Longrightarrow> skip_ws r = [] \<Longrightarrow> read_json s = Some v"
  using read_enough [of f s "(v, r)" "2 * length s + 2"] by (simp add: read_json_def)

subsection \<open>Integers\<close>

text \<open>Decoding a number into an \<^verbatim>\<open>int\<close> (64 bits): only an optional sign and digits, within range.\<close>

definition int_of_number :: "string \<Rightarrow> int option" where
  "int_of_number t =
     (let neg = has_prefix t ''-''; ds = (if neg then drop 1 t else t);
          v = (if neg then - digits_value ds else digits_value ds)
      in if ds \<noteq> [] \<and> list_all is_digit ds \<and> - (2 ^ 63) \<le> v \<and> v < 2 ^ 63 then Some v else None)"

lemma of_char_int: "(of_char c :: int) = int (byte c)"
  using of_nat_of_char [of c, where 'a = int] by simp

lemma digits_acc_value:
  "0 \<le> n \<Longrightarrow> list_all is_digit acc \<Longrightarrow> \<exists>ds. digits_acc n acc = ds @ acc \<and> ds \<noteq> [] \<and> list_all is_digit ds \<and>
     digits_value ds = n \<and> (0 < n \<longrightarrow> hd ds \<noteq> CHR ''0'')"
proof (induction n acc rule: digits_acc.induct)
  case (1 n acc)
  show ?case
  proof (cases "n < 10")
    case True
    then have "digits_acc n acc = [char_of (48 + nat n)] @ acc" by (simp add: digits_acc.simps)
    moreover have "(of_char (char_of (48 + nat n) :: char) :: int) = 48 + n"
      using True 1(2) by (simp add: of_char_int)
    then have "digits_value [char_of (48 + nat n) :: char] = n" by (simp add: digits_value_def)
    moreover have "is_digit (char_of (48 + nat n))" using True 1(2) by (auto simp: is_digit_def)
    moreover have "0 < n \<Longrightarrow> (char_of (48 + nat n) :: char) \<noteq> CHR ''0''"
    proof
      assume "0 < n" "(char_of (48 + nat n) :: char) = CHR ''0''"
      then have "byte (char_of (48 + nat n)) = 48" by simp
      then show False using True \<open>0 < n\<close> by simp
    qed
    ultimately show ?thesis by (intro exI [of _ "[char_of (48 + nat n)]"]) auto
  next
    case False
    let ?c = "char_of (48 + nat (n mod 10)) :: char"
    have c: "is_digit ?c" "of_char ?c = (48 + n mod 10 :: int)" using False
      by (auto simp: is_digit_def of_char_int)
    have q: "0 \<le> n div 10" "list_all is_digit (?c # acc)" using False 1(3) c(1) by auto
    obtain ds where
      d: "digits_acc (n div 10) (?c # acc) = ds @ ?c # acc" "ds \<noteq> []" "list_all is_digit ds"
        "digits_value ds = n div 10" "0 < n div 10 \<longrightarrow> hd ds \<noteq> CHR ''0''"
      using 1(1) [OF False q] by blast
    have "digits_value (ds @ [?c]) = n" using d(4) c(2) by (simp add: digits_value_def)
    moreover have "digits_acc n acc = (ds @ [?c]) @ acc" using False d(1) by (subst digits_acc.simps) simp
    ultimately show ?thesis
      using d c(1) False by (intro exI [of _ "ds @ [?c]"]) auto
  qed
qed

lemma int_text_digits:
  assumes "0 \<le> n"
  shows "int_text n \<noteq> []" "list_all is_digit (int_text n)" "digits_value (int_text n) = n"
    "0 < n \<Longrightarrow> hd (int_text n) \<noteq> CHR ''0''"
  using digits_acc_value [OF assms, of "[]"] assms by (auto simp: int_text_def)

lemma takeWhile_all: "list_all p s \<Longrightarrow> takeWhile p s = s \<and> dropWhile p s = []"
  by (induction s) auto

lemma valid_digits:
  assumes "s \<noteq> []" "list_all is_digit s" "s = ''0'' \<or> hd s \<noteq> CHR ''0''"
  shows "valid_number s"
proof -
  obtain c cs where s: "s = c # cs" using assms(1) by (cases s) auto
  have "is_digit c" using assms(2) s by simp
  then have "c \<noteq> CHR ''-''" by (auto simp: is_digit_def)
  moreover have t: "takeWhile is_digit cs = cs" "dropWhile is_digit cs = []"
    using takeWhile_all [of is_digit cs] assms(2) s by auto
  ultimately show ?thesis using s assms(3) \<open>is_digit c\<close>
    by (auto simp: t simp del: dropWhile_eq_Nil_conv takeWhile_eq_all_conv simp: valid_number_def read_number_def sign_part_def int_part_def frac_part_def exp_part_def)
qed

lemma int_text_0: "int_text 0 = ''0''"
  by (simp add: int_text_def digits_acc.simps [of 0] char_of_def bit_iff_odd)

lemma int_text_valid: "0 \<le> n \<Longrightarrow> valid_number (int_text n)"
proof (cases "n = 0")
  case False
  assume "0 \<le> n"
  then show ?thesis using False valid_digits [of "int_text n"] int_text_digits [of n] by simp
qed (simp add: int_text_0 valid_digits is_digit_def)

lemma int_of_int_text: "0 \<le> n \<Longrightarrow> n < 2 ^ 63 \<Longrightarrow> int_of_number (int_text n) = Some n"
proof -
  assume n: "0 \<le> n" "n < 2 ^ 63"
  have "\<not> has_prefix (int_text n) ''-''"
    using int_text_digits(1,2) [OF n(1)] by (cases "int_text n") (auto simp: has_prefix_def is_digit_def)
  then show ?thesis using int_text_digits [OF n(1)] n by (simp add: int_of_number_def)
qed

end
