(* ===== verification/Go_Base64.thy ===== *)
theory Go_Base64
  imports Go_Json
begin

text \<open>The package \<^verbatim>\<open>encoding/base64\<close> as the compaction code uses it, with its round trip.\<close>

section \<open>Base64\<close>

text \<open>\<^verbatim>\<open>base64.RawURLEncoding\<close>: the URL alphabet, no padding; the decoder skips CR and LF and ignores
  the unused low bits of the last character.\<close>

definition b64_char :: "nat \<Rightarrow> char" where
  "b64_char n =
     (if n < 26 then char_of (65 + n) else if n < 52 then char_of (71 + n)
      else if n < 62 then char_of (n - 4) else if n = 62 then CHR ''-'' else CHR ''_'')"

definition b64_val :: "char \<Rightarrow> nat option" where
  "b64_val c =
     (if 65 \<le> byte c \<and> byte c \<le> 90 then Some (byte c - 65)
      else if 97 \<le> byte c \<and> byte c \<le> 122 then Some (byte c - 71)
      else if is_digit c then Some (byte c + 4)
      else if c = CHR ''-'' then Some 62 else if c = CHR ''_'' then Some 63 else None)"

fun b64_encode :: "string \<Rightarrow> string" where
  "b64_encode [] = []"
| "b64_encode [a] = [b64_char (byte a div 4), b64_char (byte a mod 4 * 16)]"
| "b64_encode [a, b] =
     [b64_char (byte a div 4), b64_char (byte a mod 4 * 16 + byte b div 16),
      b64_char (byte b mod 16 * 4)]"
| "b64_encode (a # b # c # s) =
     b64_char (byte a div 4) # b64_char (byte a mod 4 * 16 + byte b div 16) #
     b64_char (byte b mod 16 * 4 + byte c div 64) # b64_char (byte c mod 64) # b64_encode s"

fun b64_groups :: "nat list \<Rightarrow> string option" where
  "b64_groups [] = Some []"
| "b64_groups [w] = None"
| "b64_groups [w, x] = Some [char_of (w * 4 + x div 16)]"
| "b64_groups [w, x, y] = Some [char_of (w * 4 + x div 16), char_of (x mod 16 * 16 + y div 4)]"
| "b64_groups (w # x # y # z # r) =
     map_option (\<lambda>t. char_of (w * 4 + x div 16) # char_of (x mod 16 * 16 + y div 4) #
        char_of (y mod 4 * 64 + z) # t) (b64_groups r)"

definition b64_decode :: "string \<Rightarrow> string option" where
  "b64_decode s =
     (case all_some (map b64_val (filter (\<lambda>c. byte c \<noteq> 10 \<and> byte c \<noteq> 13) s)) of
        None \<Rightarrow> None
      | Some ns \<Rightarrow> b64_groups ns)"

lemma b64_char_val: "n < 64 \<Longrightarrow> b64_val (b64_char n) = Some n"
  by (auto simp: b64_char_def b64_val_def is_digit_def)

lemma b64_char_kept: "n < 64 \<Longrightarrow> byte (b64_char n) \<noteq> 10 \<and> byte (b64_char n) \<noteq> 13"
  by (auto simp: b64_char_def)

lemma b64_char_printable: "n < 64 \<Longrightarrow> 33 \<le> byte (b64_char n) \<and> byte (b64_char n) < 127"
  by (auto simp: b64_char_def)

lemma byte_less: "byte c < 256"
  by (metis mod_less_divisor of_char_mod_256 zero_less_numeral)

lemma byte_parts:
  "byte c div 4 < 64" "byte c div 16 < 16" "byte c div 64 < 4"
  using byte_less [of c] by (auto simp: less_mult_imp_div_less)

lemma b64_joins:
  "x < 4 \<Longrightarrow> y < 16 \<Longrightarrow> (x * 16 + y) div 16 = x \<and> (x * 16 + y) mod 16 = y"
  "x < 16 \<Longrightarrow> y < 4 \<Longrightarrow> (x * 4 + y) div 4 = x \<and> (x * 4 + y) mod 4 = (y :: nat)"
  by auto

lemma b64_digits:
  "byte a mod 4 * 16 + byte b div 16 < 64" "byte a mod 4 * 16 < 64" "byte b mod 16 * 4 < 64"
  "byte b mod 16 * 4 + byte c div 64 < 64" "byte c mod 64 < 64"
  using byte_parts(2) [of b] byte_parts(3) [of c] mod_less_divisor [of 4 "byte a"] mod_less_divisor [of 16 "byte b"]
  by (linarith | simp)+

lemma b64_decode_encode: "b64_decode (b64_encode s) = Some s"
proof -
  have r: "char_of (byte a div 4 * 4 + byte a mod 4) = a" "char_of (byte a div 16 * 16 + byte a mod 16) = a"
    "char_of (byte a div 64 * 64 + byte a mod 64) = a" for a
    by (simp_all)
  show ?thesis
    unfolding b64_decode_def
    by (induction s rule: b64_encode.induct)
      (auto simp: b64_char_val b64_char_kept b64_digits byte_parts b64_joins r split: option.splits)
qed

lemma b64_encode_printable: "c \<in> set (b64_encode s) \<Longrightarrow> 33 \<le> byte c \<and> byte c < 127"
  by (induction s rule: b64_encode.induct)
    (auto simp: b64_char_printable b64_digits byte_parts)

end
