(* ===== verification/Compaction.thy ===== *)
theory Compaction
  imports Normalize Item_Ids Go_Json_Text Go_Base64
begin

text \<open>
  Synthetic compaction, \<^verbatim>\<open>internal/domain/compaction.go\<close>: the opaque compaction item and the payload
  it carries (JSON in unpadded URL base64 behind a prefix), its expansion into a system message and
  the retained items, the summary and transcript of a list of items, and the token estimates. Where
  the code looks at the bytes of a document, they are the bytes \<open>json_text\<close> prints.
\<close>

section \<open>Data\<close>

abbreviation syntheticCompactionPrefix :: string where
  "syntheticCompactionPrefix \<equiv> ''llama_shim.compaction.v1:''"

record compaction_state =
  st_summary :: string
  st_key_facts :: "string list"
  st_constraints :: "string list"
  st_open_loops :: "string list"
  st_recent_tool_state :: "string list"

record compaction_payload =
  pl_version :: int
  pl_summary :: string
  pl_item_count :: int
  pl_mode :: string
  pl_state :: "compaction_state option"
  pl_retained_items :: "raw list"

record compaction_options =
  op_mode :: string
  op_state :: compaction_state
  op_retained_items :: "item list"

definition empty_compaction_state :: compaction_state where
  "empty_compaction_state = \<lparr>st_summary = [], st_key_facts = [], st_constraints = [],
     st_open_loops = [], st_recent_tool_state = []\<rparr>"

definition empty_compaction_payload :: compaction_payload where
  "empty_compaction_payload = \<lparr>pl_version = 0, pl_summary = [], pl_item_count = 0, pl_mode = [],
     pl_state = None, pl_retained_items = []\<rparr>"

definition empty_compaction_options :: compaction_options where
  "empty_compaction_options = \<lparr>op_mode = [], op_state = empty_compaction_state, op_retained_items = []\<rparr>"

section \<open>Texts of bounded length\<close>

definition ellipsis :: string where
  "ellipsis = [CHR 0xE2, CHR 0x80, CHR 0xA6]"

definition truncateRunes :: "string \<Rightarrow> int \<Rightarrow> string" where
  "truncateRunes value limit =
     (if limit \<le> 0 then []
      else if int (rune_count value) \<le> limit then value
      else if limit = 1 then concat (take 1 (runes value))
      else concat (take (nat (limit - 1)) (runes value)) @ ellipsis)"

section \<open>The carried state\<close>

text \<open>\<^verbatim>\<open>normalizeSyntheticCompactionList\<close>; \<open>out\<close> is the slice built so far.\<close>

fun normalizeCompactionListLoop :: "string list \<Rightarrow> nat \<Rightarrow> int \<Rightarrow> string list \<Rightarrow> string list" where
  "normalizeCompactionListLoop [] maxItems maxRunes out = out"
| "normalizeCompactionListLoop (value # values) maxItems maxRunes out =
     (let trimmed = truncateRunes (trim_space value) maxRunes in
      if trimmed = [] then normalizeCompactionListLoop values maxItems maxRunes out
      else if length (out @ [trimmed]) \<ge> maxItems then out @ [trimmed]
      else normalizeCompactionListLoop values maxItems maxRunes (out @ [trimmed]))"

definition normalizeSyntheticCompactionList :: "string list \<Rightarrow> nat \<Rightarrow> int \<Rightarrow> string list" where
  "normalizeSyntheticCompactionList values maxItems maxRunes =
     normalizeCompactionListLoop values maxItems maxRunes []"

definition normalizeSyntheticCompactionState :: "compaction_state \<Rightarrow> compaction_state" where
  "normalizeSyntheticCompactionState state =
     \<lparr>st_summary = truncateRunes (trim_space (st_summary state)) 4096,
      st_key_facts = normalizeSyntheticCompactionList (st_key_facts state) 16 512,
      st_constraints = normalizeSyntheticCompactionList (st_constraints state) 16 512,
      st_open_loops = normalizeSyntheticCompactionList (st_open_loops state) 16 512,
      st_recent_tool_state = normalizeSyntheticCompactionList (st_recent_tool_state state) 16 512\<rparr>"

definition isEmptySyntheticCompactionState :: "compaction_state \<Rightarrow> bool" where
  "isEmptySyntheticCompactionState state \<longleftrightarrow>
     trim_space (st_summary state) = [] \<and> st_key_facts state = [] \<and> st_constraints state = [] \<and>
     st_open_loops state = [] \<and> st_recent_tool_state state = []"

section \<open>The payload and its encoding\<close>

text \<open>\<^verbatim>\<open>json.Marshal\<close> of the two structs; the fields marked \<^verbatim>\<open>omitempty\<close> are left out when empty.\<close>

definition opt_strs :: "string \<Rightarrow> string list \<Rightarrow> (string \<times> json) list" where
  "opt_strs k ss = (if ss = [] then [] else [(k, JArr (map JStr ss))])"

definition compaction_state_json :: "compaction_state \<Rightarrow> json" where
  "compaction_state_json st = JObj (
     opt_str ''summary'' (st_summary st) @ opt_strs ''key_facts'' (st_key_facts st) @
     opt_strs ''constraints'' (st_constraints st) @ opt_strs ''open_loops'' (st_open_loops st) @
     opt_strs ''recent_tool_state'' (st_recent_tool_state st))"

definition compaction_payload_json :: "compaction_payload \<Rightarrow> json res" where
  "compaction_payload_json p =
     (case map_res marshal_raw (pl_retained_items p) of
        Inl e \<Rightarrow> Inl e
      | Inr js \<Rightarrow> Inr (JObj (
          [(''version'', JNum (int_text (pl_version p))), (''summary'', JStr (pl_summary p)),
           (''item_count'', JNum (int_text (pl_item_count p)))] @
          opt_str ''mode'' (pl_mode p) @
          (case pl_state p of None \<Rightarrow> [] | Some st \<Rightarrow> [(''state'', compaction_state_json st)]) @
          (if js = [] then [] else [(''retained_items'', JArr js)]))))"

definition marshalSyntheticCompactionRetainedItems :: "item list \<Rightarrow> raw list res" where
  "marshalSyntheticCompactionRetainedItems items =
     map_res (\<lambda>i. case marshal_raw (Item_MarshalJSON i) of
                    Inl e \<Rightarrow> Inl (Wrap ''marshal retained compaction item'' e)
                  | Inr j \<Rightarrow> Inr (RawJson j)) items"

definition EncodeSyntheticCompactionPayloadWithOptions ::
  "string \<Rightarrow> int \<Rightarrow> compaction_options \<Rightarrow> string res" where
  "EncodeSyntheticCompactionPayloadWithOptions summary itemCount options =
     (case marshalSyntheticCompactionRetainedItems (op_retained_items options) of
        Inl e \<Rightarrow> Inl e
      | Inr retainedItems \<Rightarrow>
          (let state = normalizeSyntheticCompactionState (op_state options);
               payload = \<lparr>pl_version = 1, pl_summary = trim_space summary, pl_item_count = itemCount,
                 pl_mode = trim_space (op_mode options),
                 pl_state = (if isEmptySyntheticCompactionState state then None else Some state),
                 pl_retained_items = retainedItems\<rparr>
           in case compaction_payload_json payload of
                Inl e \<Rightarrow> Inl (Wrap ''marshal compaction payload'' e)
              | Inr j \<Rightarrow> Inr (syntheticCompactionPrefix @ b64_encode (json_text j))))"

definition EncodeSyntheticCompactionPayload :: "string \<Rightarrow> int \<Rightarrow> string res" where
  "EncodeSyntheticCompactionPayload summary itemCount =
     EncodeSyntheticCompactionPayloadWithOptions summary itemCount empty_compaction_options"

text \<open>\<^verbatim>\<open>json.Unmarshal\<close> into the structs.\<close>

fun struct_int :: "string \<Rightarrow> (string \<times> json) list \<Rightarrow> int \<Rightarrow> int option" where
  "struct_int f [] acc = Some acc"
| "struct_int f ((k, v) # kvs) acc =
     (if equal_fold k f
      then (case v of JNull \<Rightarrow> struct_int f kvs acc
            | JNum t \<Rightarrow> (case int_of_number t of None \<Rightarrow> None | Some n \<Rightarrow> struct_int f kvs n)
            | _ \<Rightarrow> None)
      else struct_int f kvs acc)"

fun struct_raws :: "string \<Rightarrow> (string \<times> json) list \<Rightarrow> raw list \<Rightarrow> raw list option" where
  "struct_raws f [] acc = Some acc"
| "struct_raws f ((k, v) # kvs) acc =
     (if equal_fold k f
      then (case v of JNull \<Rightarrow> struct_raws f kvs []
            | JArr js \<Rightarrow> struct_raws f kvs (map RawJson js)
            | _ \<Rightarrow> None)
      else struct_raws f kvs acc)"

definition compaction_state_into :: "compaction_state \<Rightarrow> (string \<times> json) list \<Rightarrow> compaction_state option" where
  "compaction_state_into b kvs =
     (case (struct_string ''summary'' kvs (st_summary b),
            struct_strings ''key_facts'' kvs (st_key_facts b),
            struct_strings ''constraints'' kvs (st_constraints b),
            struct_strings ''open_loops'' kvs (st_open_loops b),
            struct_strings ''recent_tool_state'' kvs (st_recent_tool_state b)) of
        (Some s, Some k, Some c, Some l, Some r) \<Rightarrow>
          Some \<lparr>st_summary = s, st_key_facts = k, st_constraints = c, st_open_loops = l,
                st_recent_tool_state = r\<rparr>
      | _ \<Rightarrow> None)"

fun payload_state :: "(string \<times> json) list \<Rightarrow> compaction_state option \<Rightarrow> compaction_state option option" where
  "payload_state [] acc = Some acc"
| "payload_state ((k, v) # kvs) acc =
     (if equal_fold k ''state''
      then (case v of JNull \<Rightarrow> payload_state kvs None
            | JObj es \<Rightarrow>
                (case compaction_state_into (case acc of None \<Rightarrow> empty_compaction_state | Some st \<Rightarrow> st) es of
                   None \<Rightarrow> None | Some st \<Rightarrow> payload_state kvs (Some st))
            | _ \<Rightarrow> None)
      else payload_state kvs acc)"

fun unmarshal_compaction_payload :: "json \<Rightarrow> compaction_payload option" where
  "unmarshal_compaction_payload (JObj kvs) =
     (case (struct_int ''version'' kvs 0, struct_string ''summary'' kvs [],
            struct_int ''item_count'' kvs 0, struct_string ''mode'' kvs [],
            payload_state kvs None, struct_raws ''retained_items'' kvs []) of
        (Some v, Some s, Some n, Some m, Some st, Some rs) \<Rightarrow>
          Some \<lparr>pl_version = v, pl_summary = s, pl_item_count = n, pl_mode = m, pl_state = st,
                pl_retained_items = rs\<rparr>
      | _ \<Rightarrow> None)"
| "unmarshal_compaction_payload JNull = Some empty_compaction_payload"
| "unmarshal_compaction_payload _ = None"

definition decodeSyntheticCompactionPayload :: "string \<Rightarrow> compaction_payload option" where
  "decodeSyntheticCompactionPayload encryptedContent =
     (let trimmed = trim_space encryptedContent in
      if \<not> has_prefix trimmed syntheticCompactionPrefix then None
      else case b64_decode (trim_prefix trimmed syntheticCompactionPrefix) of
        None \<Rightarrow> None
      | Some txt \<Rightarrow>
          (case read_json txt of
             None \<Rightarrow> None
           | Some j \<Rightarrow>
               (case unmarshal_compaction_payload j of
                  None \<Rightarrow> None
                | Some payload \<Rightarrow>
                    if pl_version payload \<noteq> 1 then None
                    else Some (payload\<lparr>pl_summary := trim_space (pl_summary payload),
                      pl_state := map_option normalizeSyntheticCompactionState (pl_state payload)\<rparr>))))"

definition DecodeSyntheticCompactionPayload :: "string \<Rightarrow> string option" where
  "DecodeSyntheticCompactionPayload encryptedContent =
     map_option (\<lambda>payload. trim_space (pl_summary payload)) (decodeSyntheticCompactionPayload encryptedContent)"

text \<open>The item that carries a payload; \<open>n\<close> counts the \<^verbatim>\<open>uuid\<close> calls.\<close>

definition NewSyntheticCompactionItemWithOptions ::
  "(nat \<Rightarrow> string option) \<Rightarrow> nat \<Rightarrow> string \<Rightarrow> int \<Rightarrow> compaction_options \<Rightarrow> item res" where
  "NewSyntheticCompactionItemWithOptions uuid n summary itemCount options =
     (case NewPrefixedID uuid n ''cmp'' of
        Inl e \<Rightarrow> Inl (Wrap ''generate compaction id'' e)
      | Inr id' \<Rightarrow>
          (case EncodeSyntheticCompactionPayloadWithOptions summary itemCount options of
             Inl e \<Rightarrow> Inl e
           | Inr encryptedContent \<Rightarrow>
               NewItem (RawJson (JObj (gomap_of [(''id'', JStr id'), (''type'', JStr ''compaction''),
                 (''encrypted_content'', JStr encryptedContent)])))))"

definition NewSyntheticCompactionItem ::
  "(nat \<Rightarrow> string option) \<Rightarrow> nat \<Rightarrow> string \<Rightarrow> int \<Rightarrow> item res" where
  "NewSyntheticCompactionItem uuid n summary itemCount =
     NewSyntheticCompactionItemWithOptions uuid n summary itemCount empty_compaction_options"

section \<open>Expanding compaction items\<close>

definition noPriorContext :: string where
  "noPriorContext = ''No prior context was provided.''"

definition syntheticCompactionSummaryMessage :: "string \<Rightarrow> string" where
  "syntheticCompactionSummaryMessage summary =
     ''Compacted prior context summary:'' @ newline @
     (if trim_space summary = [] then noPriorContext else trim_space summary)"

definition writeSyntheticCompactionList :: "string \<Rightarrow> string list \<Rightarrow> string" where
  "writeSyntheticCompactionList title values =
     (if values = [] then []
      else newline @ newline @ title @ '':'' @ newline @
        concat (map (\<lambda>value. if trim_space value = [] then [] else ''- '' @ trim_space value @ newline) values))"

definition renderSyntheticCompactionPayload :: "compaction_payload \<Rightarrow> string" where
  "renderSyntheticCompactionPayload payload =
     (case pl_state payload of
        None \<Rightarrow> syntheticCompactionSummaryMessage (pl_summary payload)
      | Some st \<Rightarrow>
          if isEmptySyntheticCompactionState st then syntheticCompactionSummaryMessage (pl_summary payload)
          else
            let state = normalizeSyntheticCompactionState st;
                s1 = trim_space (st_summary state);
                s2 = (if s1 = [] then trim_space (pl_summary payload) else s1);
                s3 = (if s2 = [] then noPriorContext else s2)
            in ''Compacted prior context summary:'' @ newline @ s3 @
               writeSyntheticCompactionList ''Key facts'' (st_key_facts state) @
               writeSyntheticCompactionList ''Constraints'' (st_constraints state) @
               writeSyntheticCompactionList ''Open loops'' (st_open_loops state) @
               writeSyntheticCompactionList ''Recent tool state'' (st_recent_tool_state state))"

definition expandSyntheticCompactionPayload :: "compaction_payload \<Rightarrow> item list res" where
  "expandSyntheticCompactionPayload payload =
     (case map_res NewItem (pl_retained_items payload) of
        Inl e \<Rightarrow> Inl e
      | Inr items \<Rightarrow> Inr (NewInputTextMessage ''system'' (renderSyntheticCompactionPayload payload) # items))"

fun ExpandSyntheticCompactionItems :: "item list \<Rightarrow> item list res" where
  "ExpandSyntheticCompactionItems [] = Inr []"
| "ExpandSyntheticCompactionItems (i # items) =
     (if iType i \<noteq> ''compaction''
      then res_bind (ExpandSyntheticCompactionItems items) (\<lambda>out. Inr (i # out))
      else
        case decodeSyntheticCompactionPayload (Item_StringField i ''encrypted_content'') of
          None \<Rightarrow> Inl ErrUnsupportedShape
        | Some payload \<Rightarrow>
            res_bind (expandSyntheticCompactionPayload payload) (\<lambda>expanded.
              res_bind (if trim_space (Item_ID i) \<noteq> []
                        then res_bind (Item_WithID (hd expanded) (trim_space (Item_ID i)))
                               (\<lambda>withID. Inr (withID # tl expanded))
                        else Inr expanded) (\<lambda>expanded'.
                res_bind (ExpandSyntheticCompactionItems items) (\<lambda>out. Inr (expanded' @ out)))))"

text \<open>The index of the last compaction item is -1 when there is none.\<close>

fun lastCompactionLoop :: "nat \<Rightarrow> item list \<Rightarrow> int \<Rightarrow> int" where
  "lastCompactionLoop idx [] lastCompaction = lastCompaction"
| "lastCompactionLoop idx (i # items) lastCompaction =
     lastCompactionLoop (Suc idx) items (if iType i = ''compaction'' then int idx else lastCompaction)"

definition TrimItemsBeforeLatestCompaction :: "item list \<Rightarrow> item list" where
  "TrimItemsBeforeLatestCompaction items =
     (if items = [] then []
      else let lastCompaction = lastCompactionLoop 0 items (-1) in
           if lastCompaction \<le> 0 then items else drop (nat lastCompaction) items)"

section \<open>Summaries\<close>

definition compactJSONString :: "raw \<Rightarrow> string" where
  "compactJSONString r = (case unmarshal_string r of None \<Rightarrow> [] | Some value \<Rightarrow> trim_space value)"

definition compactRawText :: "raw \<Rightarrow> string" where
  "compactRawText r =
     (if raw_absent r then []
      else if compactJSONString r \<noteq> [] then compactJSONString r
      else case r of RawJson j \<Rightarrow> json_text j | RawBad t \<Rightarrow> trim_space t | RawEmpty \<Rightarrow> [])"

definition reasoningEntryTexts :: "json gomap \<Rightarrow> string \<Rightarrow> string list" where
  "reasoningEntryTexts payload field =
     (case map_of payload field of
        Some (JArr entries) \<Rightarrow>
          List.map_filter (\<lambda>e. case e of
             JObj entry \<Rightarrow> (let text = trim_space (str_entry entry ''text'') in
                             if text \<noteq> [] then Some text else None)
           | _ \<Rightarrow> None) entries
      | _ \<Rightarrow> [])"

definition reasoningItemTexts :: "item \<Rightarrow> string list" where
  "reasoningItemTexts i =
     (let payload = Item_Map i; text = trim_space (str_entry payload ''encrypted_content'') in
      reasoningEntryTexts payload ''summary'' @ reasoningEntryTexts payload ''content'' @
      (if text \<noteq> [] then [text] else []))"

definition syntheticCompactionLine :: "item \<Rightarrow> string" where
  "syntheticCompactionLine i =
     (if iType i = ''message'' then
        (let text = trim_space (MessageText i) in
         if text = [] then trim_space (iRole i) @ '': [empty message]''
         else trim_space (iRole i) @ '': '' @ text)
      else if iType i = ''function_call'' then
        trim_space (Item_Name i) @ '' call: '' @ compactRawText (Item_RawField i ''arguments'')
      else if iType i = ''custom_tool_call'' then
        trim_space (Item_Name i) @ '' custom call: '' @ compactRawText (Item_RawField i ''input'')
      else if iType i = ''function_call_output'' \<or> iType i = ''custom_tool_call_output'' then
        iType i @ '' '' @ trim_space (Item_CallID i) @ '': '' @ compactRawText (Item_OutputRaw i)
      else if iType i = ''reasoning'' then
        (let text = trim_space (join (reasoningItemTexts i) newline) in
         ''reasoning: '' @ (if text = [] then compactRawText (iRaw i) else text))
      else if iType i = ''compaction'' then
        (case DecodeSyntheticCompactionPayload (Item_StringField i ''encrypted_content'') of
           Some summary \<Rightarrow> ''prior compaction: '' @ summary
         | None \<Rightarrow> ''opaque compaction item'')
      else iType i @ '': '' @ compactRawText (iRaw i))"

fun summaryLines :: "item list \<Rightarrow> string list \<Rightarrow> string list" where
  "summaryLines [] lines = lines"
| "summaryLines (i # items) lines =
     (let line = truncateRunes (trim_space (syntheticCompactionLine i)) 240 in
      if line = [] then summaryLines items lines
      else if length (lines @ [line]) \<ge> 16 then lines @ [line]
      else summaryLines items (lines @ [line]))"

definition BuildSyntheticCompactionSummary :: "item list \<Rightarrow> string" where
  "BuildSyntheticCompactionSummary items =
     (let lines = summaryLines items [] in
      if lines = [] then noPriorContext else truncateRunes (join lines newline) 4096)"

text \<open>The verb \<^verbatim>\<open>%03d\<close>.\<close>

definition pad3 :: "nat \<Rightarrow> string" where
  "pad3 n = replicate (3 - length (nat_text n)) (CHR ''0'') @ nat_text n"

fun transcriptLines :: "nat \<Rightarrow> item list \<Rightarrow> int \<Rightarrow> int \<Rightarrow> int \<Rightarrow> string list" where
  "transcriptLines idx [] maxItems maxRunes rs = []"
| "transcriptLines idx (i # items) maxItems maxRunes rs =
     (if int idx \<ge> maxItems then []
      else
        let line = trim_space (syntheticCompactionLine i) in
        if line = [] then transcriptLines (Suc idx) items maxItems maxRunes rs
        else
          let pre = pad3 (idx + 1) @ '' '' @ line;
              lineRunes = int (rune_count pre);
              remaining = maxRunes - rs - 1
          in if rs + lineRunes + 1 > maxRunes
             then (if remaining \<le> 0 then [] else [truncateRunes pre remaining])
             else pre # transcriptLines (Suc idx) items maxItems maxRunes (rs + lineRunes + 1))"

definition BuildSyntheticCompactionTranscript :: "item list \<Rightarrow> int \<Rightarrow> int \<Rightarrow> string" where
  "BuildSyntheticCompactionTranscript items maxItems maxRunes =
     (let maxItems' = (if maxItems \<le> 0 then int (length items) else maxItems) in
      if maxRunes \<le> 0 then [] else join (transcriptLines 0 items maxItems' maxRunes 0) newline)"

section \<open>Usage and token estimates\<close>

definition BuildSyntheticUsage :: "int \<Rightarrow> int \<Rightarrow> raw" where
  "BuildSyntheticUsage inputTokens outputTokens = RawJson (JObj [
     (''input_tokens'', JNum (int_text inputTokens)),
     (''input_tokens_details'', JObj [(''cached_tokens'', JNum ''0'')]),
     (''output_tokens'', JNum (int_text outputTokens)),
     (''output_tokens_details'', JObj [(''reasoning_tokens'', JNum ''0'')]),
     (''total_tokens'', JNum (int_text (inputTokens + outputTokens)))])"

definition EstimateSyntheticTokenCountJSON :: "string \<Rightarrow> int" where
  "EstimateSyntheticTokenCountJSON txt =
     (let trimmed = trim_space txt in
      if trimmed = [] \<or> trimmed = ''null'' then 0
      else if rune_count trimmed = 0 then 0
      else max 1 ((int (rune_count trimmed) + 3) div 4))"

definition EstimateSyntheticTokenCount :: "item list \<Rightarrow> int res" where
  "EstimateSyntheticTokenCount items =
     (if items = [] then Inr 0
      else case map_res (\<lambda>i. marshal_raw (Item_MarshalJSON i)) items of
        Inl e \<Rightarrow> Inl e
      | Inr js \<Rightarrow> Inr (EstimateSyntheticTokenCountJSON (json_text (JArr js))))"

section \<open>Bounds\<close>

lemma is_rune_ellipsis: "is_rune ellipsis"
  by (simp add: ellipsis_def is_rune_def width2_def width3_def cont_def)

lemma runes_take: "runes (concat (take n (runes s))) = take n (runes s)"
  by (rule runes_of_concat) (auto dest: in_set_takeD runes_are_runes)

lemma runes_take_ellipsis: "runes (concat (take n (runes s)) @ ellipsis) = take n (runes s) @ [ellipsis]"
  using runes_concat [of "take n (runes s)" ellipsis] runes_Cons [OF is_rune_ellipsis, of "[]"]
  by (auto dest: in_set_takeD runes_are_runes)

lemma truncateRunes_count: "int (rune_count (truncateRunes s n)) \<le> max n 0"
  by (auto simp: truncateRunes_def rune_count_def runes_take runes_take_ellipsis)

lemma valid_utf8_truncate [simp]: "valid_utf8 s \<Longrightarrow> valid_utf8 (truncateRunes s n)"
  using valid_utf8_concat [of "take (nat (n - 1)) (runes s) @ [ellipsis]"]
    valid_utf8_concat [of "take 1 (runes s)"] is_rune_ellipsis
  by (auto simp: truncateRunes_def dest: in_set_takeD runes_are_runes)

text \<open>The loop with an early exit keeps the first non-empty texts.\<close>

lemma normalizeCompactionListLoop_eq:
  "length out < m \<Longrightarrow> normalizeCompactionListLoop vs m n out =
     out @ take (m - length out) (filter (\<lambda>v. v \<noteq> []) (map (\<lambda>v. truncateRunes (trim_space v) n) vs))"
proof (induction vs m n out rule: normalizeCompactionListLoop.induct)
  case (2 v vs m n out)
  let ?t = "truncateRunes (trim_space v) n"
  have step: "take (m - length out) (?t # xs) = ?t # take (m - length (out @ [?t])) xs" for xs
    using "2.prems" by (simp add: take_Cons')
  show ?case
  proof (cases "?t = [] \<or> Suc (length out) \<ge> m")
    case True
    with 2(1) "2.prems" step show ?thesis by (auto simp: Let_def)
  next
    case False
    with 2(2) [OF refl] step show ?thesis by (simp add: Let_def)
  qed
qed simp

lemma normalizeSyntheticCompactionList_eq:
  "0 < m \<Longrightarrow> normalizeSyntheticCompactionList vs m n =
     take m (filter (\<lambda>v. v \<noteq> []) (map (\<lambda>v. truncateRunes (trim_space v) n) vs))"
  by (simp add: normalizeSyntheticCompactionList_def normalizeCompactionListLoop_eq)

lemma summaryLines_eq:
  "length lines < 16 \<Longrightarrow> summaryLines items lines = lines @ take (16 - length lines)
     (filter (\<lambda>v. v \<noteq> []) (map (\<lambda>i. truncateRunes (trim_space (syntheticCompactionLine i)) 240) items))"
proof (induction items lines rule: summaryLines.induct)
  case (2 i items lines)
  let ?t = "truncateRunes (trim_space (syntheticCompactionLine i)) 240"
  have step: "take (16 - length lines) (?t # xs) = ?t # take (16 - length (lines @ [?t])) xs" for xs
    using "2.prems" by (simp add: take_Cons')
  show ?case
  proof (cases "?t = [] \<or> Suc (length lines) \<ge> 16")
    case True
    with 2(1) "2.prems" step show ?thesis by (auto simp: Let_def)
  next
    case False
    with 2(2) [OF refl] step show ?thesis by (simp add: Let_def)
  qed
qed simp

text \<open>Truncation leaves a trimmed text trimmed.\<close>

lemma space_width_take: "space_width s \<noteq> 0 \<Longrightarrow> space_width (take (space_width s) s) = space_width s"
  by (cases s rule: space_width.cases) (simp_all add: numeral_2_eq_2 numeral_3_eq_3 split: if_splits)

lemma space_width_append: "space_width r \<noteq> 0 \<Longrightarrow> space_width (r @ u) = space_width r"
  by (cases r rule: space_width.cases; cases u rule: space_width.cases) (simp_all split: if_splits)

lemma space_width_rune_append: "is_rune r \<Longrightarrow> space_width (r @ u) = space_width r"
proof (rule ccontr)
  assume r: "is_rune r" and ne: "space_width (r @ u) \<noteq> space_width r"
  then have z: "space_width (r @ u) \<noteq> 0" using space_width_append by metis
  then have "space_width (r @ u) = length r"
    using space_width_rune [OF z] rune_width_append [OF r] by simp
  then show False using space_width_take [OF z] ne by simp
qed

lemma truncate_trimmed:
  assumes "valid_utf8 s" "1 < n"
  shows "trim_space (truncateRunes (trim_space s) n) = truncateRunes (trim_space s) n"
proof -
  let ?s = "trim_space s"
  have v: "concat (runes ?s) = ?s" using assms(1) by (simp add: concat_runes_valid)
  show ?thesis
  proof (cases "int (rune_count ?s) \<le> n")
    case True
    then show ?thesis using assms(2) by (simp add: truncateRunes_def)
  next
    case False
    let ?p = "take (nat (n - 1)) (runes ?s)"
    obtain r rs where p: "?p = r # rs" using False assms(2)
      by (cases ?p) (auto simp: rune_count_def)
    then obtain rs' where rs: "runes ?s = r # rs'" by (cases "runes ?s") (auto simp: take_Cons' split: if_splits)
    then have r: "is_rune r" by (metis list.set_intros(1) runes_are_runes)
    have "?s = r @ concat rs'" using v rs by simp
    then have "space_width r = 0"
      using space_width_rune_append [OF r, of "concat rs'"] trim_space_width [of s] by simp
    then have "space_width (concat ?p @ ellipsis) = 0"
      using p space_width_rune_append [OF r, of "concat rs @ ellipsis"] by simp
    moreover have "space_width_rev (rev (concat ?p @ ellipsis)) = 0"
      by (simp add: ellipsis_def ascii_space_def two_space_def three_space_def)
    ultimately have "trim_space (concat ?p @ ellipsis) = concat ?p @ ellipsis" by (rule trim_space_fixed)
    then show ?thesis using False assms(2) by (simp add: truncateRunes_def)
  qed
qed

lemma truncate_idem:
  assumes "valid_utf8 s" "1 < n"
  shows "truncateRunes (trim_space (truncateRunes (trim_space s) n)) n = truncateRunes (trim_space s) n"
proof -
  have "int (rune_count (truncateRunes (trim_space s) n)) \<le> n"
    using truncateRunes_count [of "trim_space s" n] assms(2) by simp
  then show ?thesis unfolding truncate_trimmed [OF assms] using assms(2)
    by (subst truncateRunes_def) simp
qed

lemma take_filter_map_idem:
  assumes "\<forall>x \<in> set xs. f (f x) = f x"
  shows "take m (filter p (map f (take m (filter p (map f xs))))) = take m (filter p (map f xs))"
proof -
  let ?ys = "take m (filter p (map f xs))"
  have "f y = y \<and> p y" if "y \<in> set ?ys" for y
    using in_set_takeD [OF that] assms by auto
  then have "map f ?ys = ?ys" and "filter p ?ys = ?ys"
    by (blast intro: map_idI, blast intro: filter_True)
  then show ?thesis by (simp only: take_take min.idem)
qed

definition state_valid :: "compaction_state \<Rightarrow> bool" where
  "state_valid st \<longleftrightarrow> valid_utf8 (st_summary st) \<and> list_all valid_utf8 (st_key_facts st) \<and>
     list_all valid_utf8 (st_constraints st) \<and> list_all valid_utf8 (st_open_loops st) \<and>
     list_all valid_utf8 (st_recent_tool_state st)"

lemma normalize_list_idem:
  assumes "list_all valid_utf8 vs" "0 < m" "1 < n"
  shows "normalizeSyntheticCompactionList (normalizeSyntheticCompactionList vs m n) m n =
    normalizeSyntheticCompactionList vs m n"
  unfolding normalizeSyntheticCompactionList_eq [OF assms(2)]
  using assms by (intro take_filter_map_idem) (auto simp: list_all_iff truncate_idem)

lemma normalize_list_valid:
  "0 < m \<Longrightarrow> list_all valid_utf8 vs \<Longrightarrow> list_all valid_utf8 (normalizeSyntheticCompactionList vs m n)"
  by (auto simp: normalizeSyntheticCompactionList_eq list_all_iff dest!: in_set_takeD)

lemma normalize_state_idem:
  "state_valid st \<Longrightarrow> normalizeSyntheticCompactionState (normalizeSyntheticCompactionState st) =
     normalizeSyntheticCompactionState st"
  by (simp add: normalizeSyntheticCompactionState_def state_valid_def normalize_list_idem truncate_idem)

lemma normalize_state_valid: "state_valid st \<Longrightarrow> state_valid (normalizeSyntheticCompactionState st)"
  by (simp add: normalizeSyntheticCompactionState_def state_valid_def normalize_list_valid)

section \<open>The payload round trip\<close>

lemma fold_case_payload_keys:
  "fold_case ''version'' = ''version''" "fold_case ''summary'' = ''summary''"
  "fold_case ''item_count'' = ''item_count''" "fold_case ''mode'' = ''mode''"
  "fold_case ''state'' = ''state''" "fold_case ''retained_items'' = ''retained_items''"
  "fold_case ''key_facts'' = ''key_facts''" "fold_case ''constraints'' = ''constraints''"
  "fold_case ''open_loops'' = ''open_loops''" "fold_case ''recent_tool_state'' = ''recent_tool_state''"
  by (simp_all add: fold_case.simps lower_char_def)

lemma struct_string_strs:
  "\<not> equal_fold k f \<Longrightarrow> struct_string f (opt_strs k ss) acc = Some acc"
  by (auto simp: opt_strs_def)

lemma struct_strings_strs:
  "struct_strings f (opt_strs k ss) acc = Some (if equal_fold k f \<and> ss \<noteq> [] then ss else acc)"
  by (auto simp: opt_strs_def all_some_JStr)

lemma struct_int_append:
  "struct_int f (xs @ ys) acc = (case struct_int f xs acc of None \<Rightarrow> None | Some a \<Rightarrow> struct_int f ys a)"
  by (induction f xs acc rule: struct_int.induct) (auto split: json.splits option.splits)

lemma struct_raws_append:
  "struct_raws f (xs @ ys) acc = (case struct_raws f xs acc of None \<Rightarrow> None | Some a \<Rightarrow> struct_raws f ys a)"
  by (induction f xs acc rule: struct_raws.induct) (auto split: json.splits option.splits)

lemma payload_state_append:
  "payload_state (xs @ ys) acc = (case payload_state xs acc of None \<Rightarrow> None | Some a \<Rightarrow> payload_state ys a)"
  by (induction xs acc rule: payload_state.induct) (auto split: json.splits option.splits)

lemma payload_opt_str:
  "\<not> equal_fold k f \<Longrightarrow> struct_int f (opt_str k s) i = Some i"
  "\<not> equal_fold k f \<Longrightarrow> struct_raws f (opt_str k s) r = Some r"
  "\<not> equal_fold k ''state'' \<Longrightarrow> payload_state (opt_str k s) st = Some st"
  by (auto simp: opt_str_def)

lemmas payload_keys = equal_fold_def fold_case_payload_keys

lemma compaction_state_roundtrip:
  "\<exists>kvs. compaction_state_json st = JObj kvs \<and> compaction_state_into empty_compaction_state kvs = Some st"
  by (simp add: compaction_state_json_def compaction_state_into_def empty_compaction_state_def
      struct_string_append struct_strings_append struct_string_opt struct_strings_opt
      struct_string_strs struct_strings_strs payload_keys)

text \<open>Fields that do not name the one that is read are skipped.\<close>

lemma skip_other:
  "list_all (\<lambda>kv. \<not> equal_fold (fst kv) f) kvs \<Longrightarrow> struct_int f kvs i = Some i"
  "list_all (\<lambda>kv. \<not> equal_fold (fst kv) f) kvs \<Longrightarrow> struct_string f kvs s = Some s"
  "list_all (\<lambda>kv. \<not> equal_fold (fst kv) f) kvs \<Longrightarrow> struct_raws f kvs r = Some r"
  "list_all (\<lambda>kv. \<not> equal_fold (fst kv) ''state'') kvs \<Longrightarrow> payload_state kvs st = Some st"
  by (induction kvs) auto

definition payload_ok :: "compaction_payload \<Rightarrow> bool" where
  "payload_ok p \<longleftrightarrow> 0 \<le> pl_version p \<and> pl_version p < 2 ^ 63 \<and> 0 \<le> pl_item_count p \<and> pl_item_count p < 2 ^ 63 \<and>
     valid_utf8 (pl_summary p) \<and> valid_utf8 (pl_mode p) \<and>
     (case pl_state p of None \<Rightarrow> True | Some st \<Rightarrow> state_valid st) \<and>
     list_all (\<lambda>r. case r of RawJson j \<Rightarrow> wf_json j | _ \<Rightarrow> False) (pl_retained_items p)"

lemma raws_documents:
  "list_all (\<lambda>r. case r of RawJson j \<Rightarrow> wf_json j | _ \<Rightarrow> False) rs \<Longrightarrow>
     \<exists>js. map_res marshal_raw rs = Inr js \<and> rs = map RawJson js \<and> wf_list js"
proof (induction rs)
  case (Cons r rs)
  then obtain j where j: "r = RawJson j" "wf_json j" by (auto split: raw.splits)
  from Cons obtain js where "map_res marshal_raw rs = Inr js" "rs = map RawJson js" "wf_list js" by auto
  with j show ?case by (intro exI [of _ "j # js"]) simp
qed simp

lemma wf_fields_append: "wf_fields (xs @ ys) \<longleftrightarrow> wf_fields xs \<and> wf_fields ys"
  by (induction xs) auto

lemma wf_list_strs: "wf_list (map JStr ss) \<longleftrightarrow> list_all valid_utf8 ss"
  by (induction ss) auto

lemma ascii_key: "list_all (\<lambda>c. byte c < 0x80) k \<Longrightarrow> wf_fields [(k, v)] = wf_json v"
  by (simp add: valid_utf8_all_ascii)

lemma wf_state_json: "state_valid st \<Longrightarrow> wf_json (compaction_state_json st)"
  by (simp add: compaction_state_json_def wf_fields_append opt_str_def opt_strs_def state_valid_def
      ascii_key wf_list_strs del: wf_fields.simps(2))

lemma payload_json_roundtrip:
  assumes "payload_ok p"
  shows "\<exists>j. compaction_payload_json p = Inr j \<and> wf_json j \<and> unmarshal_compaction_payload j = Some p"
proof -
  from assms obtain js where js: "map_res marshal_raw (pl_retained_items p) = Inr js"
    "pl_retained_items p = map RawJson js" "wf_list js"
    using raws_documents [of "pl_retained_items p"] unfolding payload_ok_def by blast
  obtain es where es: "\<And>st. pl_state p = Some st \<Longrightarrow>
      compaction_state_json st = JObj es \<and> compaction_state_into empty_compaction_state es = Some st"
    using compaction_state_roundtrip by (cases "pl_state p") auto
  let ?a = "[(''version'', JNum (int_text (pl_version p))), (''summary'', JStr (pl_summary p)),
     (''item_count'', JNum (int_text (pl_item_count p)))]"
  let ?s = "case pl_state p of None \<Rightarrow> [] | Some st \<Rightarrow> [(''state'', compaction_state_json st)]"
  let ?r = "if js = [] then [] else [(''retained_items'', JArr js)]"
  let ?kvs = "?a @ opt_str ''mode'' (pl_mode p) @ ?s @ ?r"
  have "wf_fields ?a" "wf_fields (opt_str ''mode'' (pl_mode p))" "wf_fields ?s" "wf_fields ?r"
    using assms js(3) wf_state_json
    by (auto simp: payload_ok_def valid_utf8_all_ascii int_text_valid opt_str_def split: option.splits)
  then have wf: "wf_json (JObj ?kvs)" by (simp only: wf_fields_append wf_json.simps simp_thms)
  have num: "int_of_number (int_text (pl_version p)) = Some (pl_version p)"
    "int_of_number (int_text (pl_item_count p)) = Some (pl_item_count p)"
    using assms by (simp_all add: payload_ok_def int_of_int_text)
  have "struct_int ''version'' ?kvs 0 = Some (pl_version p)"
    "struct_int ''item_count'' ?kvs 0 = Some (pl_item_count p)"
    by (simp_all add: num struct_int_append payload_opt_str payload_keys skip_other split: option.splits)
  moreover have "struct_string ''summary'' ?kvs [] = Some (pl_summary p)"
    "struct_string ''mode'' ?kvs [] = Some (pl_mode p)"
    by (simp_all add: struct_string_append struct_string_opt payload_keys skip_other split: option.splits)
  moreover have "payload_state ?kvs None = Some (pl_state p)"
    using es by (simp add: payload_state_append payload_opt_str payload_keys split: option.splits)
  moreover have "struct_raws ''retained_items'' ?kvs [] = Some (pl_retained_items p)"
    using js(2) by (simp add: struct_raws_append payload_opt_str payload_keys skip_other split: option.splits)
  ultimately have "unmarshal_compaction_payload (JObj ?kvs) = Some p" by simp
  with wf js(1) show ?thesis by (simp add: compaction_payload_json_def)
qed

lemma prefixed_trim:
  assumes "\<forall>c \<in> set s. 33 \<le> byte c \<and> byte c < 127"
  shows "trim_space (syntheticCompactionPrefix @ s) = syntheticCompactionPrefix @ s"
proof (rule trim_space_word)
  let ?p = syntheticCompactionPrefix
  have "\<forall>c \<in> set (?p @ s). 33 \<le> byte c \<and> byte c < 127" using assms by simp
  moreover have "last (?p @ s) \<in> set (?p @ s)" by (rule last_in_set) simp
  ultimately show "33 \<le> byte (last (?p @ s))" "byte (last (?p @ s)) < 127" by blast+
qed simp_all

lemma decode_printed:
  assumes "wf_json j" "unmarshal_compaction_payload j = Some p" "pl_version p = 1"
    "trim_space (pl_summary p) = pl_summary p"
    "map_option normalizeSyntheticCompactionState (pl_state p) = pl_state p"
  shows "decodeSyntheticCompactionPayload (syntheticCompactionPrefix @ b64_encode (json_text j)) = Some p"
proof -
  have t: "trim_space (syntheticCompactionPrefix @ b64_encode (json_text j)) =
      syntheticCompactionPrefix @ b64_encode (json_text j)"
    by (rule prefixed_trim) (use b64_encode_printable in blast)
  show ?thesis
    unfolding decodeSyntheticCompactionPayload_def Let_def t
    using assms
    by (simp only: has_prefix_append trim_prefix_append b64_decode_encode read_json_text option.case
        not_True_eq_False if_False simp_thms) simp
qed

text \<open>Items that can be retained: decoded objects.\<close>

definition retainable :: "item \<Rightarrow> bool" where
  "retainable i \<longleftrightarrow> item_wf i \<and> (case iRaw i of RawJson j \<Rightarrow> wf_json j | _ \<Rightarrow> False)"

lemma retained_raws:
  "list_all retainable items \<Longrightarrow> marshalSyntheticCompactionRetainedItems items = Inr (map iRaw items)"
  unfolding marshalSyntheticCompactionRetainedItems_def
  by (induction items) (auto simp: retainable_def Item_MarshalJSON_def split: raw.splits)

definition encoded_payload :: "string \<Rightarrow> int \<Rightarrow> compaction_options \<Rightarrow> compaction_payload" where
  "encoded_payload summary itemCount options =
     (let state = normalizeSyntheticCompactionState (op_state options) in
      \<lparr>pl_version = 1, pl_summary = trim_space summary, pl_item_count = itemCount,
       pl_mode = trim_space (op_mode options),
       pl_state = (if isEmptySyntheticCompactionState state then None else Some state),
       pl_retained_items = map iRaw (op_retained_items options)\<rparr>)"

definition options_ok :: "string \<Rightarrow> int \<Rightarrow> compaction_options \<Rightarrow> bool" where
  "options_ok summary itemCount options \<longleftrightarrow> valid_utf8 summary \<and> 0 \<le> itemCount \<and> itemCount < 2 ^ 63 \<and>
     valid_utf8 (op_mode options) \<and> state_valid (op_state options) \<and>
     list_all retainable (op_retained_items options)"

lemma encode_decode:
  assumes "options_ok summary n opts"
  shows "\<exists>s. EncodeSyntheticCompactionPayloadWithOptions summary n opts = Inr s \<and> trim_space s = s \<and>
     list_all (\<lambda>c. byte c < 0x80) s \<and>
     decodeSyntheticCompactionPayload s = Some (encoded_payload summary n opts)"
proof -
  let ?p = "encoded_payload summary n opts"
  have st: "state_valid (op_state opts)" using assms by (simp add: options_ok_def)
  have ret: "list_all (\<lambda>r. case r of RawJson j \<Rightarrow> wf_json j | _ \<Rightarrow> False) (map iRaw (op_retained_items opts))"
    using assms by (auto simp: options_ok_def retainable_def list_all_iff)
  have "payload_ok ?p"
    using assms ret normalize_state_valid [OF st]
    by (simp add: payload_ok_def encoded_payload_def options_ok_def Let_def)
  then obtain j where j: "compaction_payload_json ?p = Inr j" "wf_json j" "unmarshal_compaction_payload j = Some ?p"
    using payload_json_roundtrip by blast
  let ?s = "syntheticCompactionPrefix @ b64_encode (json_text j)"
  have enc: "EncodeSyntheticCompactionPayloadWithOptions summary n opts = Inr ?s"
    using j(1) assms unfolding EncodeSyntheticCompactionPayloadWithOptions_def encoded_payload_def options_ok_def
    by (simp add: retained_raws Let_def)
  have dec: "decodeSyntheticCompactionPayload ?s = Some ?p"
    by (rule decode_printed [OF j(2,3)]) (simp_all add: encoded_payload_def Let_def normalize_state_idem [OF st])
  have pr: "\<forall>c \<in> set (b64_encode (json_text j)). 33 \<le> byte c \<and> byte c < 127"
    using b64_encode_printable by blast
  then have "list_all (\<lambda>c. byte c < 0x80) ?s" by (auto simp: list_all_iff)
  with enc dec prefixed_trim [OF pr] show ?thesis by blast
qed

section \<open>Expanding an encoded payload\<close>

lemma fold_case_item_keys:
  "fold_case ''id'' = ''id''" "fold_case ''encrypted_content'' = ''encrypted_content''"
  by (simp_all add: fold_case.simps lower_char_def)

lemma trim_compaction: "trim_space ''compaction'' = ''compaction''"
  by (simp add: trim_space_word)

text \<open>The item that \<open>NewSyntheticCompactionItemWithOptions\<close> makes.\<close>

definition compaction_item :: "string \<Rightarrow> string \<Rightarrow> item" where
  "compaction_item id' s = \<lparr>iRaw = RawJson (JObj [(''encrypted_content'', JStr s), (''id'', JStr id'),
     (''type'', JStr ''compaction'')]), iMeta = None, iType = ''compaction'', iRole = [], iContent = []\<rparr>"

lemma new_compaction_item:
  "uuid n = Some u \<Longrightarrow> EncodeSyntheticCompactionPayloadWithOptions summary c opts = Inr s \<Longrightarrow>
     NewSyntheticCompactionItemWithOptions uuid n summary c opts = Inr (compaction_item (''cmp_'' @ u) s)"
  by (simp add: NewSyntheticCompactionItemWithOptions_def NewPrefixedID_def gomap_of_def NewItem_def
      key_folds fold_case_item_keys Let_def looksLikeMessageItem_def raw_absent_def extractTextParts_def
      trim_compaction compaction_item_def less_char_def)

lemma compaction_item_fields:
  "Item_StringField (compaction_item id' s) ''encrypted_content'' = trim_space s"
  "Item_StringField (compaction_item id' s) ''id'' = trim_space id'"
  by (simp_all add: compaction_item_def Item_StringField_def Item_RawField_def raw_entry_def map_of_gomap_of)

lemma retained_items_decoded:
  "list_all retainable items \<Longrightarrow> map_res NewItem (map iRaw items) = Inr (map (\<lambda>i. i\<lparr>iMeta := None\<rparr>) items)"
  by (induction items) (auto simp: retainable_def item_wf_def)

text \<open>Giving an identifier to a text message keeps its role and text.\<close>

lemma message_with_id:
  assumes "quotable txt"
  shows "\<exists>m. Item_WithID (NewInputTextMessage ''system'' txt) id' = Inr m \<and> iRole m = ''system'' \<and>
    MessageText m = txt \<and> Item_ID m = trim_space id'"
proof -
  let ?i = "input_message ''system'' txt"
  let ?kvs = "[(''content'', JArr [JObj [(''text'', JStr txt), (''type'', JStr ''input_text'')]]),
      (''id'', JStr id'), (''role'', JStr ''system''), (''type'', JStr ''message'')]"
  have q: "quotable ''system''" by (rule quotable_roles) simp
  have sys: "trim_space ''system'' = ''system''" by (simp add: trim_space_word)
  have new: "NewInputTextMessage ''system'' txt = ?i" using assms q by (simp add: NewInputTextMessage_eq)
  have noid: "Item_ID ?i = []"
    by (simp add: input_message_def Item_StringField_def Item_RawField_def raw_entry_def map_of_gomap_of)
  have "gomap_set ''id'' (JStr id') (Item_Map ?i) = ?kvs"
    by (simp add: Item_Map_def input_message_def gomap_of_def less_list_code less_char_def)
  then have "Item_WithID ?i id' = Item_WithMap ?i ?kvs"
    using noid by (simp add: Item_WithID_def Item_WithField_def)
  moreover have "extractTextPart [(''text'', JStr txt), (''type'', JStr ''input_text'')] =
      (if txt = [] then None else Some \<lparr>part_type = ''input_text'', part_text = txt\<rparr>)"
    by (simp add: extractTextPart_def)
  then have "Item_WithMap ?i ?kvs = Inr \<lparr>iRaw = RawJson (JObj ?kvs), iMeta = None, iType = ''message'',
      iRole = ''system'',
      iContent = (if txt = [] then [] else [\<lparr>part_type = ''input_text'', part_text = txt\<rparr>])\<rparr>"
    (is "_ = Inr ?m")
    by (simp add: Item_WithMap_def NewItem_def key_folds fold_case_item_keys Let_def sys
      extractTextParts_def raw_absent_def unmarshal_raw_maps_def input_message_def
      gomap_of_def List.map_filter_def less_list_code)
  ultimately have "Item_WithID ?i id' = Inr ?m" by simp
  moreover have "MessageText ?m = txt" by (simp add: MessageText_def)
  moreover have "Item_ID ?m = trim_space id'"
    by (simp add: Item_StringField_def Item_RawField_def raw_entry_def map_of_gomap_of)
  ultimately show ?thesis unfolding new by (metis item.select_convs(4))
qed

section \<open>Trimming and transcripts\<close>

lemma lastCompactionLoop_spec:
  "(lastCompactionLoop idx items l = l \<and> (\<forall>i \<in> set items. iType i \<noteq> ''compaction'')) \<or>
   (\<exists>pre i post. items = pre @ i # post \<and> iType i = ''compaction'' \<and>
      (\<forall>i \<in> set post. iType i \<noteq> ''compaction'') \<and> lastCompactionLoop idx items l = int (idx + length pre))"
proof (induction items arbitrary: idx l)
  case (Cons i items)
  let ?l = "if iType i = ''compaction'' then int idx else l"
  from Cons [of "Suc idx" ?l] show ?case
  proof
    assume "lastCompactionLoop (Suc idx) items ?l = ?l \<and> (\<forall>i \<in> set items. iType i \<noteq> ''compaction'')"
    then show ?thesis by (cases "iType i = ''compaction''") (auto intro!: exI [of _ "[]"])
  next
    assume "\<exists>pre j post. items = pre @ j # post \<and> iType j = ''compaction'' \<and>
      (\<forall>i \<in> set post. iType i \<noteq> ''compaction'') \<and>
      lastCompactionLoop (Suc idx) items ?l = int (Suc idx + length pre)"
    then obtain pre j post where "items = pre @ j # post" "iType j = ''compaction''"
      "\<forall>i \<in> set post. iType i \<noteq> ''compaction''"
      "lastCompactionLoop (Suc idx) items ?l = int (Suc idx + length pre)" by blast
    then show ?thesis by (intro disjI2 exI [of _ "i # pre"] exI [of _ j] exI [of _ post]) simp
  qed
qed simp

lemma rune_count_join:
  "rune_count (join ls newline) = (\<Sum>l \<leftarrow> ls. Suc (rune_count l)) - 1"
proof (induction ls newline rule: join.induct)
  case (3 s t ts)
  have "rune_start (newline @ join (t # ts) newline)" by (simp add: newline_def rune_start_ascii)
  then show ?case using 3 by (simp add: rune_count_append newline_def rune_count_ascii)
qed (simp_all add: rune_count_def)

lemma transcriptLines_sum:
  "rs \<le> maxRunes \<Longrightarrow>
     int (\<Sum>l \<leftarrow> transcriptLines idx items maxItems maxRunes rs. Suc (rune_count l)) \<le> maxRunes - rs"
proof (induction idx items maxItems maxRunes rs rule: transcriptLines.induct)
  case (2 idx i items maxItems maxRunes rs)
  let ?pre = "pad3 (idx + 1) @ '' '' @ trim_space (syntheticCompactionLine i)"
  show ?case
  proof (cases "int idx \<ge> maxItems \<or> trim_space (syntheticCompactionLine i) = []")
    case True
    with 2(1) [OF _ refl] "2.prems" show ?thesis by (auto simp: Let_def)
  next
    case False
    show ?thesis
    proof (cases "rs + int (rune_count ?pre) + 1 > maxRunes")
      case True
      with False "2.prems" truncateRunes_count [of ?pre "maxRunes - rs - 1"] show ?thesis
        by (auto simp: Let_def)
    next
      case step: False
      then have "rs + int (rune_count ?pre) + 1 \<le> maxRunes" by simp
      with False 2(2) [OF _ refl _ refl refl refl step] show ?thesis by (simp add: Let_def)
    qed
  qed
qed simp

section \<open>Properties\<close>

text \<open>The opaque content of a compaction item can be decoded: for valid UTF-8 texts, a
  non-negative item count and retained items that are decoded documents, encoding succeeds and
  decoding its result yields the trimmed summary and mode, the item count, the normalised state
  (absent when it is empty) and the documents of the retained items.\<close>

theorem compaction_payload_roundtrip:
  assumes "options_ok summary itemCount options"
  shows "\<exists>s p. EncodeSyntheticCompactionPayloadWithOptions summary itemCount options = Inr s \<and>
    decodeSyntheticCompactionPayload s = Some p \<and>
    pl_summary p = trim_space summary \<and> pl_item_count p = itemCount \<and>
    pl_mode p = trim_space (op_mode options) \<and>
    pl_state p = (let state = normalizeSyntheticCompactionState (op_state options) in
                  if isEmptySyntheticCompactionState state then None else Some state) \<and>
    pl_retained_items p = map iRaw (op_retained_items options)"
  using encode_decode [OF assms] by (auto simp: encoded_payload_def Let_def)

definition sample_options :: compaction_options where
  "sample_options = empty_compaction_options\<lparr>op_mode := ''auto'',
     op_state := empty_compaction_state\<lparr>st_key_facts := ['' a '', [], ''b'']\<rparr>\<rparr>"

lemma sample_options_ok: "options_ok ''hello'' 3 sample_options"
  by (simp add: options_ok_def sample_options_def empty_compaction_options_def empty_compaction_state_def
      state_valid_def)

theorem compaction_payload_roundtrip_witness:
  "\<exists>s p. EncodeSyntheticCompactionPayloadWithOptions ''hello'' 3 sample_options = Inr s \<and>
    decodeSyntheticCompactionPayload s = Some p \<and> pl_item_count p = 3"
  using compaction_payload_roundtrip [OF sample_options_ok] by blast

text \<open>A compaction item made by the shim expands to what it stands for: when the rendering of its
  payload is quotable, expanding the item gives a system message whose text is that rendering and
  which has the identifier of the compaction item, followed by the retained items (without their
  shim metadata).\<close>

theorem compaction_item_expands:
  assumes "uuid n = Some u" and "options_ok summary itemCount options"
    and "quotable (renderSyntheticCompactionPayload (encoded_payload summary itemCount options))"
  shows "\<exists>c m. NewSyntheticCompactionItemWithOptions uuid n summary itemCount options = Inr c \<and>
    iType c = ''compaction'' \<and>
    ExpandSyntheticCompactionItems [c] =
      Inr (m # map (\<lambda>i. i\<lparr>iMeta := None\<rparr>) (op_retained_items options)) \<and>
    iRole m = ''system'' \<and> Item_ID m = Item_ID c \<and>
    MessageText m = renderSyntheticCompactionPayload (encoded_payload summary itemCount options)"
proof -
  let ?p = "encoded_payload summary itemCount options"
  obtain s where s: "EncodeSyntheticCompactionPayloadWithOptions summary itemCount options = Inr s"
    "trim_space s = s" "decodeSyntheticCompactionPayload s = Some ?p"
    using encode_decode [OF assms(2)] by blast
  let ?c = "compaction_item (''cmp_'' @ u) s"
  obtain m where m: "Item_WithID (NewInputTextMessage ''system'' (renderSyntheticCompactionPayload ?p))
      (trim_space (Item_ID ?c)) = Inr m" "iRole m = ''system''"
    "MessageText m = renderSyntheticCompactionPayload ?p" "Item_ID m = trim_space (trim_space (Item_ID ?c))"
    using message_with_id [OF assms(3)] by blast
  have id': "trim_space (Item_ID ?c) \<noteq> []"
    using trim_word_prefix [of "CHR ''c''" "''mp_'' @ u"] by (simp add: compaction_item_fields)
  have "map_res NewItem (pl_retained_items ?p) = Inr (map (\<lambda>i. i\<lparr>iMeta := None\<rparr>) (op_retained_items options))"
    using assms(2) by (simp add: encoded_payload_def Let_def options_ok_def retained_items_decoded)
  then have "expandSyntheticCompactionPayload ?p =
      Inr (NewInputTextMessage ''system'' (renderSyntheticCompactionPayload ?p) #
        map (\<lambda>i. i\<lparr>iMeta := None\<rparr>) (op_retained_items options))"
    by (simp add: expandSyntheticCompactionPayload_def)
  moreover have "iType ?c = ''compaction''" by (simp add: compaction_item_def)
  moreover have "Item_StringField ?c ''encrypted_content'' = s" using s(2) by (simp add: compaction_item_fields)
  ultimately have "ExpandSyntheticCompactionItems [?c] =
      Inr (m # map (\<lambda>i. i\<lparr>iMeta := None\<rparr>) (op_retained_items options))"
    using id' m(1) s(3) by simp
  moreover have "Item_ID m = Item_ID ?c" using m(4) by (simp add: compaction_item_fields)
  ultimately show ?thesis
    using new_compaction_item [of uuid n u, OF assms(1) s(1)] m(2,3) \<open>iType ?c = ''compaction''\<close> by blast
qed

lemma sample_rendering:
  "renderSyntheticCompactionPayload (encoded_payload ''hello'' 3 empty_compaction_options) =
     ''Compacted prior context summary:'' @ newline @ ''hello''"
proof -
  have "trim_space ''hello'' = ''hello''" by (simp add: trim_space_word)
  then show ?thesis
    by (simp add: renderSyntheticCompactionPayload_def encoded_payload_def empty_compaction_options_def
      empty_compaction_state_def normalizeSyntheticCompactionState_def normalizeSyntheticCompactionList_def
      isEmptySyntheticCompactionState_def truncateRunes_def rune_count_def syntheticCompactionSummaryMessage_def)
qed

theorem compaction_item_expands_witness:
  "\<exists>c m. NewSyntheticCompactionItemWithOptions (\<lambda>n. Some ''u'') 0 ''hello'' 3 empty_compaction_options = Inr c \<and>
    ExpandSyntheticCompactionItems [c] = Inr [m] \<and>
    MessageText m = ''Compacted prior context summary:'' @ newline @ ''hello''"
proof -
  have "options_ok ''hello'' 3 empty_compaction_options"
    by (simp add: options_ok_def empty_compaction_options_def empty_compaction_state_def state_valid_def)
  moreover have "quotable (renderSyntheticCompactionPayload (encoded_payload ''hello'' 3 empty_compaction_options))"
    unfolding sample_rendering by (simp add: quotable_def valid_utf8_all_ascii unquotable_def newline_def)
  ultimately show ?thesis
    using compaction_item_expands [of "\<lambda>n. Some ''u''" 0 "''u''" "''hello''" 3 empty_compaction_options]
    unfolding sample_rendering by (auto simp: empty_compaction_options_def)
qed

text \<open>Trimming keeps exactly the items from the latest compaction item on: the result is a
  suffix of the input, a cut is made only in front of a compaction item, and no later item of the
  result is one.\<close>

theorem trim_before_latest_compaction:
  "\<exists>pre. items = pre @ TrimItemsBeforeLatestCompaction items \<and>
     (pre \<noteq> [] \<longrightarrow> TrimItemsBeforeLatestCompaction items \<noteq> [] \<and>
        iType (hd (TrimItemsBeforeLatestCompaction items)) = ''compaction'') \<and>
     (\<forall>i \<in> set (tl (TrimItemsBeforeLatestCompaction items)). iType i \<noteq> ''compaction'')"
  using lastCompactionLoop_spec [of 0 items "-1"]
proof
  assume "lastCompactionLoop 0 items (- 1) = - 1 \<and> (\<forall>i \<in> set items. iType i \<noteq> ''compaction'')"
  then show ?thesis
    by (intro exI [of _ "[]"]) (auto simp: TrimItemsBeforeLatestCompaction_def dest: list.set_sel(2))
next
  assume "\<exists>pre i post. items = pre @ i # post \<and> iType i = ''compaction'' \<and>
    (\<forall>i \<in> set post. iType i \<noteq> ''compaction'') \<and> lastCompactionLoop 0 items (-1) = int (0 + length pre)"
  then obtain pre i post where s: "items = pre @ i # post" "iType i = ''compaction''"
    "\<forall>i \<in> set post. iType i \<noteq> ''compaction''" "lastCompactionLoop 0 items (-1) = int (length pre)" by auto
  then have "TrimItemsBeforeLatestCompaction items = i # post"
    by (auto simp: TrimItemsBeforeLatestCompaction_def Let_def)
  with s show ?thesis by auto
qed

theorem trim_before_latest_compaction_witness:
  "\<exists>pre. [empty_item, compaction_item ''a'' [], empty_item] =
      pre @ TrimItemsBeforeLatestCompaction [empty_item, compaction_item ''a'' [], empty_item]"
  using trim_before_latest_compaction [of "[empty_item, compaction_item ''a'' [], empty_item]"] by blast

text \<open>The texts made for a model are bounded in runes: a summary has at most 4096 runes, and a
  transcript at most the requested number.\<close>

theorem compaction_text_bounds:
  "rune_count (BuildSyntheticCompactionSummary items) \<le> 4096 \<and>
   int (rune_count (BuildSyntheticCompactionTranscript items maxItems maxRunes)) \<le> max maxRunes 0"
proof
  have "rune_count noPriorContext \<le> length noPriorContext" by (rule rune_count_le)
  also have "length noPriorContext \<le> 4096" by (simp add: noPriorContext_def)
  finally show "rune_count (BuildSyntheticCompactionSummary items) \<le> 4096"
    using truncateRunes_count [of "join (summaryLines items []) newline" 4096]
    by (auto simp: BuildSyntheticCompactionSummary_def Let_def)
  show "int (rune_count (BuildSyntheticCompactionTranscript items maxItems maxRunes)) \<le> max maxRunes 0"
    using transcriptLines_sum [of 0 maxRunes 0 items "if maxItems \<le> 0 then int (length items) else maxItems"]
    by (auto simp: BuildSyntheticCompactionTranscript_def rune_count_join Let_def)
      (simp_all add: rune_count_def)
qed

text \<open>The token estimate of a text is a quarter of its runes, rounded up: it is zero exactly for
  a blank text and \<^verbatim>\<open>null\<close>, and otherwise four times the estimate is at least the number of runes and
  less than four above it.\<close>

theorem token_estimate:
  "(EstimateSyntheticTokenCountJSON s = 0 \<longleftrightarrow> trim_space s = [] \<or> trim_space s = ''null'') \<and>
   (EstimateSyntheticTokenCountJSON s \<noteq> 0 \<longrightarrow>
      int (rune_count (trim_space s)) \<le> 4 * EstimateSyntheticTokenCountJSON s \<and>
      4 * EstimateSyntheticTokenCountJSON s < int (rune_count (trim_space s)) + 4)"
proof -
  have z: "rune_count t = 0 \<longleftrightarrow> t = []" for t
    by (cases t) (auto simp: rune_count_def Let_def)
  show ?thesis
  proof (cases "trim_space s = [] \<or> trim_space s = ''null''")
    case True
    then show ?thesis by (auto simp: EstimateSyntheticTokenCountJSON_def)
  next
    case False
    define r where "r = int (rune_count (trim_space s))"
    have "0 < r" using False z [of "trim_space s"] by (simp add: r_def)
    moreover have "EstimateSyntheticTokenCountJSON s = max 1 ((r + 3) div 4)"
      using False z by (simp add: EstimateSyntheticTokenCountJSON_def r_def)
    ultimately show ?thesis using False unfolding r_def [symmetric] by auto
  qed
qed

theorem token_estimate_witness:
  "EstimateSyntheticTokenCountJSON ''hello'' \<noteq> 0 \<and>
   int (rune_count (trim_space ''hello'')) \<le> 4 * EstimateSyntheticTokenCountJSON ''hello''"
proof -
  have "trim_space ''hello'' = ''hello''" by (simp add: trim_space_word)
  then have "EstimateSyntheticTokenCountJSON ''hello'' \<noteq> 0" using token_estimate [of "''hello''"] by simp
  then show ?thesis using token_estimate [of "''hello''"] by blast
qed

end
