(* ===== verification/Compactor.thy ===== *)
theory Compactor
  imports Compaction
begin

text \<open>
  Compactors, \<^verbatim>\<open>internal/compactor/compactor.go\<close>: the heuristic one, the one that asks a model for a
  structured state and falls back to the heuristic, the reading of the model's answer, and the
  configuration. The contract the response service relies on is the locale \<open>compactor_contract\<close>.
\<close>

section \<open>Configuration\<close>

record compactor_config =
  cc_backend :: string
  cc_base_url :: string
  cc_model :: string
  cc_timeout :: int
  cc_max_output_tokens :: int
  cc_retained_items :: int
  cc_max_input_runes :: int

text \<open>\<^verbatim>\<open>strings.TrimRight(s, "/")\<close>.\<close>

definition trim_right_slash :: "string \<Rightarrow> string" where
  "trim_right_slash s = rev (dropWhile (\<lambda>c. c = CHR ''/'') (rev s))"

definition Compactor_NormalizeConfig :: "compactor_config \<Rightarrow> compactor_config res" where
  "Compactor_NormalizeConfig cfg =
     (let b = to_lower (trim_space (cc_backend cfg)); backend = (if b = [] then ''heuristic'' else b) in
      if backend = ''heuristic'' then
        Inr \<lparr>cc_backend = backend, cc_base_url = [], cc_model = [], cc_timeout = 0,
             cc_max_output_tokens = 0, cc_retained_items = 0, cc_max_input_runes = 0\<rparr>
      else if backend \<noteq> ''model_assisted_text''
        then Inl (Errorf (''unsupported compaction backend '' @ [CHR 34] @ quote_body backend @ [CHR 34]))
      else
        let baseURL = trim_right_slash (trim_space (cc_base_url cfg)); model = trim_space (cc_model cfg) in
        if baseURL = [] then Inl (Errorf ''responses.compaction.base_url must not be empty when responses.compaction.backend is model_assisted_text'')
        else if model = [] then Inl (Errorf ''responses.compaction.model must not be empty when responses.compaction.backend is model_assisted_text'')
        else Inr \<lparr>cc_backend = backend, cc_base_url = baseURL, cc_model = model,
          cc_timeout = (if cc_timeout cfg \<le> 0 then 10000000000 else cc_timeout cfg),
          cc_max_output_tokens = (if cc_max_output_tokens cfg \<le> 0 then 1200 else cc_max_output_tokens cfg),
          cc_retained_items = (if cc_retained_items cfg \<le> 0 then 8 else cc_retained_items cfg),
          cc_max_input_runes = (if cc_max_input_runes cfg \<le> 0 then 60000 else cc_max_input_runes cfg)\<rparr>)"

section \<open>Reading the answer of the model\<close>

text \<open>\<^verbatim>\<open>strings.LastIndex\<close> of a character.\<close>

definition last_index_char :: "string \<Rightarrow> char \<Rightarrow> nat option" where
  "last_index_char s c =
     (if c \<in> set s then Some (length s - 1 - length (takeWhile (\<lambda>x. x \<noteq> c) (rev s))) else None)"

definition json_fence :: string where
  "json_fence = [CHR 96, CHR 96, CHR 96]"

definition extractJSONObject :: "string \<Rightarrow> string" where
  "extractJSONObject str =
     (let t0 = trim_space str in
      if t0 = [] then []
      else
        let t = (if has_prefix t0 json_fence
                 then trim_space (trim_suffix (trim_prefix (trim_prefix t0 (json_fence @ ''json'')) json_fence) json_fence)
                 else t0)
        in if read_json t \<noteq> None then t
           else case (index_of t ''{'', last_index_char t (CHR ''}'')) of
             (Some start, Some stop) \<Rightarrow>
               if stop \<le> start then []
               else
                 let candidate = take (stop + 1 - start) (drop start t) in
                 if read_json candidate = None then [] else candidate
           | _ \<Rightarrow> [])"

text \<open>\<^verbatim>\<open>fmt.Sprint\<close> of a \<^verbatim>\<open>float64\<close>, from its shortest decimal form as \<open>f64_text\<close> gives it: an
  exponent below -4 or from 21 on is written, with at least two digits.\<close>

definition exp_digits :: "int \<Rightarrow> string" where
  "exp_digits e = (if e < 10 then ''0'' @ int_text e else int_text e)"

definition sprint_float :: "string \<Rightarrow> string" where
  "sprint_float t =
     (case num_parts t of (neg, mant, e10) \<Rightarrow>
        (let cs = int_text mant;
             ds = rev (dropWhile (\<lambda>d. d = CHR ''0'') (rev cs));
             p = int (length cs) + e10;
             body =
               (if mant = 0 then ''0''
                else if p - 1 < -4 \<or> p - 1 \<ge> 21 then
                  [hd ds] @ (if length ds > 1 then ''.'' @ tl ds else []) @ ''e'' @
                  (if p - 1 < 0 then ''-'' @ exp_digits (1 - p) else ''+'' @ exp_digits (p - 1))
                else if p \<le> 0 then ''0.'' @ replicate (nat (- p)) (CHR ''0'') @ ds
                else if nat p \<ge> length ds then ds @ replicate (nat p - length ds) (CHR ''0'')
                else take (nat p) ds @ ''.'' @ drop (nat p) ds)
         in if neg then ''-'' @ body else body))"

definition modelObjectStringField :: "json gomap \<Rightarrow> string \<Rightarrow> string" where
  "modelObjectStringField obj key =
     (case map_of obj key of
        Some (JStr s) \<Rightarrow> s
      | Some (JNum t) \<Rightarrow> sprint_float t
      | Some (JBool b) \<Rightarrow> (if b then ''true'' else ''false'')
      | _ \<Rightarrow> [])"

definition modelStringKeys :: "string list" where
  "modelStringKeys = [''fact'', ''constraint'', ''task'', ''text'', ''value'', ''description'', ''summary'',
     ''state'', ''note'']"

definition modelStringFromObject :: "json gomap \<Rightarrow> string" where
  "modelStringFromObject obj =
     (let ident = trim_space (modelObjectStringField obj ''id'');
          field = (\<lambda>key. trim_space (modelObjectStringField obj key))
      in case find (\<lambda>key. field key \<noteq> []) modelStringKeys of
           Some key \<Rightarrow> (if ident \<noteq> [] then ident @ '': '' @ field key else field key)
         | None \<Rightarrow>
             let keys = sort (filter (\<lambda>key. key \<noteq> ''id'') (map fst obj));
                 str = join (filter (\<lambda>v. v \<noteq> []) (map field keys)) ''; ''
             in if str \<noteq> [] \<and> ident \<noteq> [] then ident @ '': '' @ str else str)"

definition modelStringListEntry :: "json \<Rightarrow> string option" where
  "modelStringListEntry j =
     (case unmarshal_string (RawJson j) of
        Some str \<Rightarrow> Some (trim_space str)
      | None \<Rightarrow> map_option modelStringFromObject (unmarshal_any_map (RawJson j)))"

text \<open>\<^verbatim>\<open>modelStringList.UnmarshalJSON\<close> and the fields of \<^verbatim>\<open>modelState\<close>.\<close>

fun modelStringList :: "json \<Rightarrow> string list option" where
  "modelStringList JNull = Some []"
| "modelStringList (JArr entries) =
     map_option (filter (\<lambda>v. v \<noteq> [])) (all_some (map modelStringListEntry entries))"
| "modelStringList _ = None"

fun struct_model_list :: "string \<Rightarrow> (string \<times> json) list \<Rightarrow> string list \<Rightarrow> string list option" where
  "struct_model_list f [] acc = Some acc"
| "struct_model_list f ((k, v) # kvs) acc =
     (if equal_fold k f
      then (case modelStringList v of None \<Rightarrow> None | Some ss \<Rightarrow> struct_model_list f kvs ss)
      else struct_model_list f kvs acc)"

fun unmarshal_model_state :: "json \<Rightarrow> compaction_state option" where
  "unmarshal_model_state (JObj kvs) =
     (case (struct_string ''summary'' kvs [], struct_model_list ''key_facts'' kvs [],
            struct_model_list ''constraints'' kvs [], struct_model_list ''open_loops'' kvs [],
            struct_model_list ''recent_tool_state'' kvs []) of
        (Some s, Some k, Some c, Some l, Some r) \<Rightarrow>
          Some \<lparr>st_summary = s, st_key_facts = k, st_constraints = c, st_open_loops = l,
                st_recent_tool_state = r\<rparr>
      | _ \<Rightarrow> None)"
| "unmarshal_model_state JNull = Some empty_compaction_state"
| "unmarshal_model_state _ = None"

definition parseModelState :: "string \<Rightarrow> compaction_state res" where
  "parseModelState str =
     (let r = extractJSONObject str in
      if r = [] then Inl (Errorf ''compactor model did not return JSON'')
      else case read_json r of
        None \<Rightarrow> Inl (Wrap ''decode compactor model JSON'' JSONError)
      | Some j \<Rightarrow>
          (case unmarshal_model_state j of
             None \<Rightarrow> Inl (Wrap ''decode compactor model JSON'' JSONError)
           | Some state \<Rightarrow>
               if trim_space (st_summary state) = []
               then Inl (Errorf ''compactor model JSON omitted summary'')
               else Inr state))"

section \<open>Compaction\<close>

record compaction_result =
  cr_item :: item
  cr_output :: "item list"
  cr_expanded :: "item list"

text \<open>A compactor maps the \<^verbatim>\<open>uuid\<close> counter and the items to a result and the new counter. The
  cancellation of the request context is not modelled.\<close>

type_synonym compactor = "nat \<Rightarrow> item list \<Rightarrow> (compaction_result \<times> nat) res"

definition Heuristic_Compact :: "(nat \<Rightarrow> string option) \<Rightarrow> compactor" where
  "Heuristic_Compact uuid n items =
     (case NewSyntheticCompactionItem uuid n (BuildSyntheticCompactionSummary items) (int (length items)) of
        Inl e \<Rightarrow> Inl e
      | Inr item' \<Rightarrow>
          (case ExpandSyntheticCompactionItems [item'] of
             Inl e \<Rightarrow> Inl e
           | Inr expanded \<Rightarrow>
               Inr (\<lparr>cr_item = item', cr_output = [item'], cr_expanded = expanded\<rparr>, Suc n)))"

definition retainRecentItems :: "item list \<Rightarrow> int \<Rightarrow> item list" where
  "retainRecentItems items limit =
     (if limit \<le> 0 \<or> items = [] then [] else drop (nat (int (length items) - limit)) items)"

text \<open>The attempt with the model also returns the number of identifiers it has used when it fails,
  since the heuristic goes on from there.\<close>

definition buildStructuredResult ::
  "(nat \<Rightarrow> string option) \<Rightarrow> nat \<Rightarrow> compaction_state \<Rightarrow> int \<Rightarrow> item list \<Rightarrow> compaction_result res \<times> nat" where
  "buildStructuredResult uuid n state itemCount retained =
     (let summary = (if trim_space (st_summary state) = [] then ''Prior context was compacted.''
                     else trim_space (st_summary state))
      in case NewSyntheticCompactionItemWithOptions uuid n summary itemCount
                \<lparr>op_mode = ''model_assisted_text'', op_state = state, op_retained_items = retained\<rparr> of
           Inl e \<Rightarrow> (Inl e, Suc n)
         | Inr item' \<Rightarrow>
             (case ExpandSyntheticCompactionItems [item'] of
                Inl e \<Rightarrow> (Inl e, Suc n)
              | Inr expanded \<Rightarrow>
                  if retained = []
                  then (Inr \<lparr>cr_item = item', cr_output = [item'], cr_expanded = expanded\<rparr>, Suc n)
                  else
                    (case NewSyntheticCompactionItemWithOptions uuid (Suc n) summary itemCount
                            \<lparr>op_mode = ''model_assisted_text'', op_state = state, op_retained_items = []\<rparr> of
                       Inl e \<Rightarrow> (Inl e, Suc (Suc n))
                     | Inr outputItem \<Rightarrow>
                         (Inr \<lparr>cr_item = item', cr_output = retained @ [outputItem], cr_expanded = expanded\<rparr>,
                          Suc (Suc n)))))"

text \<open>The prompts; \<open>lines_of\<close> puts the lines of a raw string literal together.\<close>

definition lines_of :: "string list \<Rightarrow> string" where
  "lines_of ls = join ls newline"

definition modelAssistedSystemPrompt :: string where
  "modelAssistedSystemPrompt = lines_of
    [''You compact prior conversation state for an OpenAI-compatible Responses API shim.'',
     ''Return only a JSON object with these fields:'',
     ''- summary: concise continuation summary.'',
     ''- key_facts: array of strings with durable facts, IDs, decisions, names, paths, values, and user preferences.'',
     ''- constraints: array of strings with active instructions, requirements, safety boundaries, and compatibility constraints.'',
     ''- open_loops: array of strings with unresolved tasks, pending questions, and next actions.'',
     ''- recent_tool_state: array of strings with recent tool calls, results, artifacts, errors, or external state needed to continue.'',
     [],
     ''Rules:'',
     ''- Preserve task-relevant state, not transcript trivia.'',
     ''- Keep strings short and specific.'',
     ''- Do not invent facts.'',
     ''- Do not include markdown or prose outside the JSON object.'']"

definition modelAssistedUserPrompt :: "string \<Rightarrow> string" where
  "modelAssistedUserPrompt transcript =
     ''Compact these prior context items for continuation:'' @ newline @ newline @ transcript"

text \<open>The model behind \<^verbatim>\<open>llama.Client\<close> is the parameter \<open>generate\<close>: what a request with a model name,
  messages and options answers.\<close>

type_synonym generator = "string \<Rightarrow> item list \<Rightarrow> json gomap \<Rightarrow> string res"

definition askCompactorModel :: "generator \<Rightarrow> compactor_config \<Rightarrow> item list \<Rightarrow> string res" where
  "askCompactorModel generate cfg items =
     (let t = BuildSyntheticCompactionTranscript items (int (length items)) (cc_max_input_runes cfg);
          transcript = (if trim_space t = [] then noPriorContext else t);
          messages = [NewInputTextMessage ''system'' modelAssistedSystemPrompt,
                      NewInputTextMessage ''user'' (modelAssistedUserPrompt transcript)];
          options = [(''max_output_tokens'', JNum (int_text (cc_max_output_tokens cfg))), (''temperature'', JNum ''0'')]
      in generate (cc_model cfg) messages options)"

definition compactWithModel ::
  "generator \<Rightarrow> compactor_config \<Rightarrow> (nat \<Rightarrow> string option) \<Rightarrow> nat \<Rightarrow> item list \<Rightarrow>
   compaction_result res \<times> nat" where
  "compactWithModel generate cfg uuid n items =
     (case askCompactorModel generate cfg items of
        Inl e \<Rightarrow> (Inl e, n)
      | Inr str \<Rightarrow>
          (case parseModelState str of
             Inl e \<Rightarrow> (Inl e, n)
           | Inr state \<Rightarrow>
               buildStructuredResult uuid n state (int (length items))
                 (retainRecentItems items (cc_retained_items cfg))))"

definition ModelAssistedText_Compact ::
  "generator \<Rightarrow> compactor_config \<Rightarrow> (nat \<Rightarrow> string option) \<Rightarrow> compactor" where
  "ModelAssistedText_Compact generate cfg uuid n items =
     (case compactWithModel generate cfg uuid n items of
        (Inr r, n') \<Rightarrow> Inr (r, n')
      | (Inl e, n') \<Rightarrow> Heuristic_Compact uuid n' items)"

definition Compactor_New :: "generator \<Rightarrow> compactor_config \<Rightarrow> (nat \<Rightarrow> string option) \<Rightarrow> compactor res" where
  "Compactor_New generate cfg uuid =
     (case Compactor_NormalizeConfig cfg of
        Inl e \<Rightarrow> Inl e
      | Inr normalized \<Rightarrow>
          if cc_backend normalized = ''heuristic'' then Inr (Heuristic_Compact uuid)
          else if cc_backend normalized = ''model_assisted_text''
            then Inr (ModelAssistedText_Compact generate normalized uuid)
          else Inl (Errorf (''unsupported compaction backend '' @ [CHR 34] @ quote_body (cc_backend normalized) @ [CHR 34])))"

section \<open>What a compactor promises\<close>

text \<open>The contract the response service relies on: the result item is a compaction item, its
  expansion is the one returned with it, and identifiers are used up.\<close>

locale compactor_contract =
  fixes compact :: "nat \<Rightarrow> item list \<Rightarrow> (compaction_result \<times> nat) res"
  assumes item_type: "compact n items = Inr (r, n') \<Longrightarrow> iType (cr_item r) = ''compaction''"
    and expansion: "compact n items = Inr (r, n') \<Longrightarrow>
      ExpandSyntheticCompactionItems [cr_item r] = Inr (cr_expanded r)"
    and output_last: "compact n items = Inr (r, n') \<Longrightarrow>
      cr_output r \<noteq> [] \<and> iType (last (cr_output r)) = ''compaction''"
    and counter: "compact n items = Inr (r, n') \<Longrightarrow> n < n'"
begin

text \<open>Putting the compacted item in front of other items and expanding is putting its expansion
  in front of their expansion.\<close>

lemma expand_in_front:
  assumes "compact n items = Inr (r, n')" "ExpandSyntheticCompactionItems rest = Inr rest'"
  shows "ExpandSyntheticCompactionItems (cr_item r # rest) = Inr (cr_expanded r @ rest')"
proof -
  have "ExpandSyntheticCompactionItems [cr_item r] = Inr (cr_expanded r)" using assms(1) by (rule expansion)
  moreover have "iType (cr_item r) = ''compaction''" using assms(1) by (rule item_type)
  ultimately show ?thesis using assms(2)
    by (auto simp: res_bind_Inr_iff split: option.splits)
qed

end

lemma new_item_type:
  assumes "NewSyntheticCompactionItemWithOptions uuid n summary c opts = Inr i"
  shows "iType i = ''compaction''"
proof -
  obtain u where u: "uuid n = Some u"
    using assms by (cases "uuid n") (simp_all add: NewSyntheticCompactionItemWithOptions_def NewPrefixedID_def)
  obtain s where s: "EncodeSyntheticCompactionPayloadWithOptions summary c opts = Inr s"
    using assms u by (cases "EncodeSyntheticCompactionPayloadWithOptions summary c opts")
      (simp_all add: NewSyntheticCompactionItemWithOptions_def NewPrefixedID_def)
  show ?thesis using new_compaction_item [of uuid n u, OF u s] assms by (simp add: compaction_item_def)
qed

lemma heuristic_cases:
  assumes "Heuristic_Compact uuid n items = Inr (r, n')"
  obtains i ex where
    "NewSyntheticCompactionItemWithOptions uuid n (BuildSyntheticCompactionSummary items) (int (length items))
       empty_compaction_options = Inr i"
    "ExpandSyntheticCompactionItems [i] = Inr ex"
    "r = \<lparr>cr_item = i, cr_output = [i], cr_expanded = ex\<rparr>" "n' = Suc n"
  using assms unfolding Heuristic_Compact_def NewSyntheticCompactionItem_def
  by (simp del: ExpandSyntheticCompactionItems.simps split: sum.splits)

interpretation heuristic: compactor_contract "Heuristic_Compact uuid" for uuid
proof unfold_locales
  fix n items r n'
  assume "Heuristic_Compact uuid n items = Inr (r, n')"
  then obtain i ex where h: "NewSyntheticCompactionItemWithOptions uuid n (BuildSyntheticCompactionSummary items)
      (int (length items)) empty_compaction_options = Inr i" "ExpandSyntheticCompactionItems [i] = Inr ex"
    "r = \<lparr>cr_item = i, cr_output = [i], cr_expanded = ex\<rparr>" "n' = Suc n"
    by (rule heuristic_cases)
  show "iType (cr_item r) = ''compaction''" using new_item_type [OF h(1)] h(3) by simp
  show "ExpandSyntheticCompactionItems [cr_item r] = Inr (cr_expanded r)"
    using h(2,3) by (simp del: ExpandSyntheticCompactionItems.simps)
  show "cr_output r \<noteq> [] \<and> iType (last (cr_output r)) = ''compaction''"
    using new_item_type [OF h(1)] h(3) by simp
  show "n < n'" using h(4) by simp
qed

lemma structured_cases:
  assumes "buildStructuredResult uuid n state c retained = (Inr r, n')"
  obtains i o' ex where
    "NewSyntheticCompactionItemWithOptions uuid n (if trim_space (st_summary state) = []
        then ''Prior context was compacted.'' else trim_space (st_summary state)) c
        \<lparr>op_mode = ''model_assisted_text'', op_state = state, op_retained_items = retained\<rparr> = Inr i"
    "ExpandSyntheticCompactionItems [i] = Inr ex" "iType o' = ''compaction''"
    "r = \<lparr>cr_item = i, cr_output = retained @ [o'], cr_expanded = ex\<rparr>" "n < n'"
proof -
  let ?s = "if trim_space (st_summary state) = [] then ''Prior context was compacted.'' else trim_space (st_summary state)"
  let ?new = "\<lambda>n ret. NewSyntheticCompactionItemWithOptions uuid n ?s c
      \<lparr>op_mode = ''model_assisted_text'', op_state = state, op_retained_items = ret\<rparr>"
  obtain i where i: "?new n retained = Inr i"
    using assms unfolding buildStructuredResult_def Let_def by (cases "?new n retained") simp_all
  obtain ex where ex: "ExpandSyntheticCompactionItems [i] = Inr ex"
    using assms i unfolding buildStructuredResult_def Let_def
    by (cases "ExpandSyntheticCompactionItems [i]") (simp_all del: ExpandSyntheticCompactionItems.simps)
  show thesis
  proof (cases "retained = []")
    case True
    then show thesis using that [OF i ex new_item_type [OF i]] assms i ex
      unfolding buildStructuredResult_def Let_def by (simp del: ExpandSyntheticCompactionItems.simps)
  next
    case False
    obtain o' where o': "?new (Suc n) [] = Inr o'"
      using assms i ex False unfolding buildStructuredResult_def Let_def
      by (cases "?new (Suc n) []") (simp_all del: ExpandSyntheticCompactionItems.simps)
    then show thesis using that [OF i ex new_item_type [OF o']] assms i ex False
      unfolding buildStructuredResult_def Let_def by (simp del: ExpandSyntheticCompactionItems.simps)
  qed
qed

lemma structured_contract:
  assumes "buildStructuredResult uuid n state c retained = (Inr r, n')"
  shows "iType (cr_item r) = ''compaction'' \<and> ExpandSyntheticCompactionItems [cr_item r] = Inr (cr_expanded r) \<and>
    cr_output r \<noteq> [] \<and> iType (last (cr_output r)) = ''compaction'' \<and> n < n'"
  by (rule structured_cases [OF assms])
    (simp add: new_item_type del: ExpandSyntheticCompactionItems.simps)

lemma structured_counter: "n \<le> snd (buildStructuredResult uuid n state c retained)"
  unfolding buildStructuredResult_def Let_def
  by (simp del: ExpandSyntheticCompactionItems.simps split: sum.split)

lemma model_cases:
  obtains (failed) e where "compactWithModel generate cfg uuid n items = (Inl e, n)"
  | (answered) state where "compactWithModel generate cfg uuid n items =
      buildStructuredResult uuid n state (int (length items)) (retainRecentItems items (cc_retained_items cfg))"
proof (cases "askCompactorModel generate cfg items")
  case (Inl e)
  then show thesis using failed by (simp add: compactWithModel_def)
next
  case (Inr str)
  then show thesis using failed answered by (cases "parseModelState str") (simp_all add: compactWithModel_def)
qed

lemma model_counter: "n \<le> snd (compactWithModel generate cfg uuid n items)"
  by (rule model_cases [of generate cfg uuid n items]) (simp_all add: structured_counter)

lemma model_contract:
  assumes "ModelAssistedText_Compact generate cfg uuid n items = Inr (r, n')"
  shows "iType (cr_item r) = ''compaction'' \<and> ExpandSyntheticCompactionItems [cr_item r] = Inr (cr_expanded r) \<and>
    cr_output r \<noteq> [] \<and> iType (last (cr_output r)) = ''compaction'' \<and> n < n'"
proof (cases "compactWithModel generate cfg uuid n items")
  case (Pair a m)
  show ?thesis
  proof (cases a)
    case (Inl e)
    have "n \<le> m" using model_counter [of n generate cfg uuid items] Pair by simp
    moreover have h: "Heuristic_Compact uuid m items = Inr (r, n')"
      using assms Pair Inl by (simp add: ModelAssistedText_Compact_def)
    ultimately show ?thesis
      using heuristic.item_type [OF h] heuristic.expansion [OF h] heuristic.output_last [OF h] heuristic.counter [OF h]
      by (simp del: ExpandSyntheticCompactionItems.simps)
  next
    case (Inr r0)
    then have "compactWithModel generate cfg uuid n items = (Inr r, n')"
      using assms Pair by (simp add: ModelAssistedText_Compact_def)
    then obtain state where "buildStructuredResult uuid n state (int (length items))
        (retainRecentItems items (cc_retained_items cfg)) = (Inr r, n')"
      by - (rule model_cases [of generate cfg uuid n items], simp_all)
    from structured_contract [OF this] show ?thesis .
  qed
qed

interpretation model_assisted: compactor_contract "ModelAssistedText_Compact generate cfg uuid" for generate cfg uuid
  by unfold_locales (use model_contract in blast)+

section \<open>Totality and the structured result\<close>

text \<open>Expanding an encoded payload always succeeds: when the rendering is not quotable the message is
  the zero item, which then gets the identifier.\<close>

lemma empty_item_with_id: "\<exists>m. Item_WithID empty_item id' = Inr m"
  by (simp add: Item_WithID_def Item_WithField_def Item_WithMap_def Item_StringField_def Item_RawField_def
      empty_item_def Item_Map_def NewItem_def key_folds fold_case_item_keys Let_def)

lemma system_message_with_id: "\<exists>m. Item_WithID (NewInputTextMessage ''system'' str) id' = Inr m"
proof (cases "quotable str")
  case True
  then show ?thesis using message_with_id [of str id'] by blast
next
  case False
  then have "NewInputTextMessage ''system'' str = empty_item" by (simp add: NewInputTextMessage_eq)
  then show ?thesis using empty_item_with_id by simp
qed

lemma encoded_item_expands:
  assumes "uuid n = Some u" "options_ok summary c opts"
  shows "\<exists>i m. NewSyntheticCompactionItemWithOptions uuid n summary c opts = Inr i \<and>
    ExpandSyntheticCompactionItems [i] = Inr (m # map (\<lambda>i. i\<lparr>iMeta := None\<rparr>) (op_retained_items opts))"
proof -
  let ?p = "encoded_payload summary c opts"
  obtain s where s: "EncodeSyntheticCompactionPayloadWithOptions summary c opts = Inr s"
    "trim_space s = s" "decodeSyntheticCompactionPayload s = Some ?p"
    using encode_decode [OF assms(2)] by blast
  let ?c = "compaction_item (''cmp_'' @ u) s"
  have id': "trim_space (Item_ID ?c) \<noteq> []"
    using trim_word_prefix [of "CHR ''c''" "''mp_'' @ u"] by (simp add: compaction_item_fields)
  obtain m where m: "Item_WithID (NewInputTextMessage ''system'' (renderSyntheticCompactionPayload ?p))
      (trim_space (Item_ID ?c)) = Inr m" using system_message_with_id by blast
  have "map_res NewItem (pl_retained_items ?p) = Inr (map (\<lambda>i. i\<lparr>iMeta := None\<rparr>) (op_retained_items opts))"
    using assms(2) by (simp add: encoded_payload_def Let_def options_ok_def retained_items_decoded)
  then have "expandSyntheticCompactionPayload ?p =
      Inr (NewInputTextMessage ''system'' (renderSyntheticCompactionPayload ?p) #
        map (\<lambda>i. i\<lparr>iMeta := None\<rparr>) (op_retained_items opts))"
    by (simp add: expandSyntheticCompactionPayload_def)
  moreover have "iType ?c = ''compaction''" by (simp add: compaction_item_def)
  moreover have "Item_StringField ?c ''encrypted_content'' = s" using s(2) by (simp add: compaction_item_fields)
  ultimately have "ExpandSyntheticCompactionItems [?c] =
      Inr (m # map (\<lambda>i. i\<lparr>iMeta := None\<rparr>) (op_retained_items opts))"
    using id' m s(3) by simp
  then show ?thesis using new_compaction_item [of uuid n u, OF assms(1) s(1)] by blast
qed

definition summarisable :: "item list \<Rightarrow> bool" where
  "summarisable items \<longleftrightarrow> valid_utf8 (BuildSyntheticCompactionSummary items) \<and> int (length items) < 2 ^ 63"

lemma heuristic_total:
  assumes "uuid n = Some u" "summarisable items"
  shows "\<exists>r. Heuristic_Compact uuid n items = Inr (r, Suc n)"
proof -
  have "options_ok (BuildSyntheticCompactionSummary items) (int (length items)) empty_compaction_options"
    using assms(2) by (simp add: summarisable_def options_ok_def empty_compaction_options_def
        empty_compaction_state_def state_valid_def)
  from encoded_item_expands [of uuid n u, OF assms(1) this] show ?thesis
    by (auto simp: Heuristic_Compact_def NewSyntheticCompactionItem_def simp del: ExpandSyntheticCompactionItems.simps)
qed

lemma new_compactor_contract:
  assumes "Compactor_New generate cfg uuid = Inr compact"
  shows "compactor_contract compact"
proof -
  obtain cfg' where "compact = Heuristic_Compact uuid \<or> compact = ModelAssistedText_Compact generate cfg' uuid"
    using assms by (auto simp: Compactor_New_def split: sum.splits if_splits)
  then show ?thesis using heuristic.compactor_contract_axioms model_assisted.compactor_contract_axioms by auto
qed

section \<open>Properties\<close>

text \<open>C30: every compactor that can be configured meets the contract the response service relies on:
  the item it returns is a compaction item and expands to exactly the items returned with it, and its
  output ends with a compaction item.\<close>

theorem configured_compactor_contract:
  assumes "Compactor_New generate cfg uuid = Inr compact" and "compact n items = Inr (r, n')"
  shows "iType (cr_item r) = ''compaction'' \<and>
    ExpandSyntheticCompactionItems [cr_item r] = Inr (cr_expanded r) \<and>
    cr_output r \<noteq> [] \<and> iType (last (cr_output r)) = ''compaction'' \<and> n < n'"
proof -
  note c = new_compactor_contract [OF assms(1)]
  show ?thesis
    using compactor_contract.item_type [OF c assms(2)] compactor_contract.expansion [OF c assms(2)]
      compactor_contract.output_last [OF c assms(2)] compactor_contract.counter [OF c assms(2)] by blast
qed

text \<open>Compaction does not depend on the model: whatever the model answers, and when it fails,
  compaction of items that can be summarised returns a result as long as identifiers can be made.\<close>

theorem compaction_never_fails:
  assumes "\<forall>k. uuid k \<noteq> None" and "summarisable items"
  shows "\<exists>r n'. ModelAssistedText_Compact generate cfg uuid n items = Inr (r, n')"
proof (cases "compactWithModel generate cfg uuid n items")
  case (Pair a m)
  show ?thesis
  proof (cases a)
    case (Inl e)
    obtain u where "uuid m = Some u" using assms(1) [rule_format, of m] by blast
    with heuristic_total [of uuid m u items] assms(2) Pair Inl show ?thesis
      by (auto simp: ModelAssistedText_Compact_def)
  next
    case (Inr r)
    with Pair show ?thesis by (simp add: ModelAssistedText_Compact_def)
  qed
qed

text \<open>When the model answers with a state, the compacted context keeps the most recent items: the
  output is the last items up to the configured number followed by a compaction item, and the
  expansion is one message followed by those items (without shim metadata).\<close>

theorem structured_compaction:
  assumes "\<forall>k. uuid k \<noteq> None" and "askCompactorModel generate cfg items = Inr str"
    and "parseModelState str = Inr state" and "state_valid state"
    and "\<forall>i \<in> set items. retainable i" and "int (length items) < 2 ^ 63" and "0 < cc_retained_items cfg"
  shows "\<exists>r n' c m. ModelAssistedText_Compact generate cfg uuid n items = Inr (r, n') \<and>
    cr_output r = drop (length items - nat (cc_retained_items cfg)) items @ [c] \<and> iType c = ''compaction'' \<and>
    cr_expanded r = m # map (\<lambda>i. i\<lparr>iMeta := None\<rparr>) (drop (length items - nat (cc_retained_items cfg)) items)"
proof -
  let ?ret = "retainRecentItems items (cc_retained_items cfg)"
  have ret: "?ret = drop (length items - nat (cc_retained_items cfg)) items"
    using assms(7) by (cases "items = []") (auto simp: retainRecentItems_def nat_diff_distrib')
  let ?s = "if trim_space (st_summary state) = [] then ''Prior context was compacted.'' else trim_space (st_summary state)"
  let ?o = "\<lambda>ret. \<lparr>op_mode = ''model_assisted_text'', op_state = state, op_retained_items = ret\<rparr>"
  have v: "valid_utf8 ''Prior context was compacted.''" "valid_utf8 ''model_assisted_text''"
    by (rule valid_utf8_all_ascii; simp)+
  have "list_all retainable ?ret" using assms(5) ret by (auto simp: list_all_iff dest: in_set_dropD)
  then have ok: "options_ok ?s (int (length items)) (?o ?ret)" "options_ok ?s (int (length items)) (?o [])"
    using assms(4,6) v by (auto simp: options_ok_def state_valid_def)
  obtain u u' where u: "uuid n = Some u" "uuid (Suc n) = Some u'" using assms(1) by (metis not_Some_eq)
  obtain i m where i: "NewSyntheticCompactionItemWithOptions uuid n ?s (int (length items)) (?o ?ret) = Inr i"
    "ExpandSyntheticCompactionItems [i] = Inr (m # map (\<lambda>i. i\<lparr>iMeta := None\<rparr>) ?ret)"
    using encoded_item_expands [of uuid n u, OF u(1) ok(1)] by auto
  obtain c where c: "NewSyntheticCompactionItemWithOptions uuid (Suc n) ?s (int (length items)) (?o []) = Inr c"
    using encoded_item_expands [of uuid "Suc n" u', OF u(2) ok(2)] by blast
  have "\<exists>n' c. buildStructuredResult uuid n state (int (length items)) ?ret =
      (Inr \<lparr>cr_item = i, cr_output = ?ret @ [c], cr_expanded = m # map (\<lambda>i. i\<lparr>iMeta := None\<rparr>) ?ret\<rparr>, n') \<and>
      iType c = ''compaction''"
    using i c new_item_type [OF i(1)] new_item_type [OF c] unfolding buildStructuredResult_def Let_def
    by (cases "?ret = []") (simp_all del: ExpandSyntheticCompactionItems.simps)
  then obtain n' c where "compactWithModel generate cfg uuid n items =
      (Inr \<lparr>cr_item = i, cr_output = ?ret @ [c], cr_expanded = m # map (\<lambda>i. i\<lparr>iMeta := None\<rparr>) ?ret\<rparr>, n')"
    "iType c = ''compaction''"
    using assms(2,3) by (auto simp: compactWithModel_def)
  then show ?thesis unfolding ret by (auto simp: ModelAssistedText_Compact_def)
qed

definition heuristic_config :: compactor_config where
  "heuristic_config = \<lparr>cc_backend = [], cc_base_url = [], cc_model = [], cc_timeout = 0,
     cc_max_output_tokens = 0, cc_retained_items = 1, cc_max_input_runes = 0\<rparr>"

lemma summarisable_Nil: "summarisable []"
proof -
  have "valid_utf8 noPriorContext" by (rule valid_utf8_all_ascii) (simp add: noPriorContext_def)
  then show ?thesis by (simp add: summarisable_def BuildSyntheticCompactionSummary_def)
qed

theorem configured_compactor_contract_witness:
  "\<exists>r. Heuristic_Compact (\<lambda>n. Some ''u'') 0 [] = Inr (r, 1) \<and> iType (cr_item r) = ''compaction''"
proof -
  have "to_lower [] = []" by (simp add: to_lower.simps)
  then have "Compactor_New g heuristic_config (\<lambda>n. Some ''u'') = Inr (Heuristic_Compact (\<lambda>n. Some ''u''))" for g
    by (simp add: Compactor_New_def Compactor_NormalizeConfig_def heuristic_config_def Let_def)
  moreover obtain r where "Heuristic_Compact (\<lambda>n. Some ''u'') 0 [] = Inr (r, Suc 0)"
    using heuristic_total [of "\<lambda>n. Some ''u''" 0 "''u''" "[]"] summarisable_Nil by blast
  ultimately show ?thesis using configured_compactor_contract by fastforce
qed

theorem compaction_never_fails_witness:
  "\<exists>r n'. ModelAssistedText_Compact (\<lambda>m ms os. Inl JSONError) heuristic_config (\<lambda>n. Some ''u'') 0 [] = Inr (r, n')"
  using compaction_never_fails [of "\<lambda>n. Some ''u''" "[]"] summarisable_Nil by simp

definition sample_answer :: json where
  "sample_answer = JObj [(''summary'', JStr ''ok'')]"

lemma sample_answer_parsed:
  "parseModelState (json_text sample_answer) = Inr (empty_compaction_state\<lparr>st_summary := ''ok''\<rparr>)"
proof -
  have v: "valid_utf8 ''summary''" "valid_utf8 ''ok''" by (rule valid_utf8_all_ascii; simp)+
  have r: "read_json (json_text sample_answer) = Some sample_answer"
    by (rule read_json_text) (simp add: sample_answer_def v del: valid_utf8.simps)
  have t: "json_text sample_answer = [CHR ''{''] @ [CHR 34] @ esc_string ''summary'' @ [CHR 34] @ '':'' @
      [CHR 34] @ esc_string ''ok'' @ [CHR 34] @ [CHR ''}'']" by (simp add: sample_answer_def)
  have w: "trim_space (json_text sample_answer) = json_text sample_answer"
    unfolding t by (rule trim_space_word) simp_all
  have "\<not> has_prefix (json_text sample_answer) json_fence" "json_text sample_answer \<noteq> []"
    unfolding t by (simp_all add: has_prefix_def json_fence_def)
  then have "extractJSONObject (json_text sample_answer) = json_text sample_answer"
    using r w by (simp add: extractJSONObject_def Let_def)
  moreover have "unmarshal_model_state sample_answer = Some (empty_compaction_state\<lparr>st_summary := ''ok''\<rparr>)"
    by (simp add: sample_answer_def payload_keys empty_compaction_state_def)
  moreover have "trim_space ''ok'' = ''ok''" by (simp add: trim_space_word)
  ultimately show ?thesis using r \<open>json_text sample_answer \<noteq> []\<close>
    by (simp add: parseModelState_def)
qed

lemma sample_message_retainable: "retainable (input_message ''user'' ''hi'')"
proof -
  have v: "valid_utf8 x" if "list_all (\<lambda>c. byte c < 0x80) x" for x using that by (rule valid_utf8_all_ascii)
  have "NewItem (iRaw (input_message ''user'' ''hi'')) = Inr (input_message ''user'' ''hi'')"
    by (simp add: NewItem_def key_folds Let_def input_message_def extractTextParts_def raw_absent_def
        unmarshal_raw_maps_def gomap_of_def List.map_filter_def extractTextPart_def less_list_code)
  then show ?thesis
    by (simp add: retainable_def item_wf_def input_message_def v del: valid_utf8.simps)
qed

theorem structured_compaction_witness:
  "\<exists>r n' c m. ModelAssistedText_Compact (\<lambda>m ms os. Inr (json_text sample_answer)) heuristic_config
      (\<lambda>n. Some ''u'') 0 [input_message ''user'' ''hi'', input_message ''user'' ''hi''] = Inr (r, n') \<and>
    cr_output r = [input_message ''user'' ''hi'', c] \<and> iType c = ''compaction''"
proof -
  have "state_valid (empty_compaction_state\<lparr>st_summary := ''ok''\<rparr>)"
    by (simp add: state_valid_def empty_compaction_state_def)
  then show ?thesis
    using structured_compaction [of "\<lambda>n. Some ''u''" "\<lambda>m ms os. Inr (json_text sample_answer)" heuristic_config
        "[input_message ''user'' ''hi'', input_message ''user'' ''hi'']" "json_text sample_answer"
        "empty_compaction_state\<lparr>st_summary := ''ok''\<rparr>" 0] sample_answer_parsed sample_message_retainable
    by (simp add: askCompactorModel_def heuristic_config_def) blast
qed

end
