(* ===== verification/Response_Context.thy ===== *)
theory Response_Context
  imports Conversation_Service Memory_Service Compactor
begin

text \<open>
  How a request becomes the context of the model: \<^verbatim>\<open>internal/domain/context_builder.go\<close> and the
  preparation half of \<^verbatim>\<open>internal/service/responses.go\<close> (history from a chain of responses or a
  conversation, continuation checks, memory, instructions, automatic and explicit compaction).

  The store is the record \<open>response_store_ops\<close>, the interfaces \<^verbatim>\<open>ResponseStore\<close> and
  \<^verbatim>\<open>ResponseConversationStore\<close>; \<open>sqlite_response_ops\<close> is the store of this development. The generator is
  indexed by the attempt. The two variables of Go that hold an index or -1 are integers.
\<close>

section \<open>Context building\<close>

definition AppendCurrentRequestContext :: "item list \<Rightarrow> string \<Rightarrow> item list \<Rightarrow> item list" where
  "AppendCurrentRequestContext base instructions currentInput =
     base @ (if instructions \<noteq> [] then [NewInputTextMessage ''system'' instructions] else []) @ currentInput"

definition empty_output :: "stored_response \<Rightarrow> error" where
  "empty_output r = Errorf (''response '' @ sr_id r @ '' has empty output'')"

definition BuildLineageContext :: "stored_response list \<Rightarrow> string \<Rightarrow> item list \<Rightarrow> item list res" where
  "BuildLineageContext lineage instructions currentInput =
     (case map_res (\<lambda>r. if sr_output r = [] then Inl (empty_output r) else Inr (sr_input r @ sr_output r)) lineage of
        Inl e \<Rightarrow> Inl e
      | Inr parts \<Rightarrow> Inr (AppendCurrentRequestContext (concat parts) instructions currentInput))"

definition BuildConversationContext :: "conversation_item list \<Rightarrow> string \<Rightarrow> item list \<Rightarrow> item list" where
  "BuildConversationContext items instructions currentInput =
     AppendCurrentRequestContext (map ci_item items) instructions currentInput"

definition AssistantOutputItem :: "stored_response \<Rightarrow> item res" where
  "AssistantOutputItem r = (case sr_output r of [] \<Rightarrow> Inl (empty_output r) | i # rest \<Rightarrow> Inr i)"

section \<open>Trusted compaction\<close>

definition isTrustedConversationCompaction :: "conversation_item \<Rightarrow> bool" where
  "isTrustedConversationCompaction ci \<longleftrightarrow>
     iType (ci_item ci) = ''compaction'' \<and> ci_source ci = ''response_output''"

text \<open>The index of the last element that satisfies a predicate, -1 when there is none: the loops with
  the variable \<^verbatim>\<open>lastTrustedCompaction\<close>.\<close>

fun last_index_loop :: "('a \<Rightarrow> bool) \<Rightarrow> nat \<Rightarrow> 'a list \<Rightarrow> int \<Rightarrow> int" where
  "last_index_loop p idx [] acc = acc"
| "last_index_loop p idx (x # xs) acc = last_index_loop p (Suc idx) xs (if p x then int idx else acc)"

definition domainItemsFromConversation :: "conversation_item list \<Rightarrow> item list" where
  "domainItemsFromConversation items =
     (let out = map ci_item items;
          lastTrustedCompaction = last_index_loop isTrustedConversationCompaction 0 items (-1)
      in if lastTrustedCompaction \<ge> 0 then drop (nat lastTrustedCompaction) out else out)"

fun buildLineageContextLoop :: "stored_response list \<Rightarrow> item list \<Rightarrow> item list" where
  "buildLineageContextLoop [] out = out"
| "buildLineageContextLoop (r # lineage) out =
     (let out1 = out @ sr_input r;
          out2 = out1 @ sr_output r;
          lastTrustedCompaction = last_index_loop (\<lambda>i. iType i = ''compaction'') 0 (sr_output r) (-1);
          trimStart = int (length out1) + lastTrustedCompaction
      in buildLineageContextLoop lineage
           (if lastTrustedCompaction \<ge> 0 \<and> trimStart > 0 then drop (nat trimStart) out2 else out2))"

definition buildLineageContextItems :: "stored_response list \<Rightarrow> item list" where
  "buildLineageContextItems lineage = buildLineageContextLoop lineage []"

section \<open>Tool calls in a continuation\<close>

definition isToolCallItemType :: "string \<Rightarrow> bool" where
  "isToolCallItemType t \<longleftrightarrow> t \<in> set [''function_call'', ''custom_tool_call'', ''shell_call'',
     ''apply_patch_call'', ''computer_call'', ''code_interpreter_call'']"

definition isToolOutputItemType :: "string \<Rightarrow> bool" where
  "isToolOutputItemType t \<longleftrightarrow> t \<in> set [''function_call_output'', ''custom_tool_call_output'',
     ''shell_call_output'', ''apply_patch_call_output'', ''computer_call_output'', ''code_interpreter_call_output'']"

text \<open>A Go map used as a set is the list of its keys.\<close>

definition collectContinuationToolCallIDs :: "item list \<Rightarrow> string list" where
  "collectContinuationToolCallIDs items =
     List.map_filter (\<lambda>i. if isToolCallItemType (iType i) \<and> trim_space (Item_CallID i) \<noteq> []
                          then Some (trim_space (Item_CallID i)) else None) items"

fun validateToolOutputsLoop :: "string list \<Rightarrow> item list \<Rightarrow> unit res" where
  "validateToolOutputsLoop callIDs [] = Inr ()"
| "validateToolOutputsLoop callIDs (i # items) =
     (if \<not> isToolOutputItemType (iType i) then validateToolOutputsLoop callIDs items
      else
        let callID = trim_space (Item_CallID i) in
        if callID = [] then Inl (ValidationError ''input'' (iType i @ '' item must include call_id''))
        else if callID \<notin> set callIDs
          then Inl (ValidationError ''input'' (iType i @ '' item references unknown call_id '' @ [CHR 39] @ callID @ [CHR 39]))
        else validateToolOutputsLoop callIDs items)"

definition validateContinuationToolOutputs :: "item list \<Rightarrow> item list \<Rightarrow> unit res" where
  "validateContinuationToolOutputs items baseItems =
     (if items = [] then Inr ()
      else validateToolOutputsLoop
             (collectContinuationToolCallIDs baseItems @ collectContinuationToolCallIDs items) items)"

section \<open>The service and its stores\<close>

record response_limits =
  rl_lineage_items :: int
  rl_summary_bytes :: int

definition normalizeResponseServiceLimits :: "response_limits \<Rightarrow> response_limits" where
  "normalizeResponseServiceLimits limits =
     \<lparr>rl_lineage_items = (if rl_lineage_items limits \<le> 0 then 128 else rl_lineage_items limits),
      rl_summary_bytes = (if rl_summary_bytes limits \<le> 0 then 65536 else rl_summary_bytes limits)\<rparr>"

text \<open>The interfaces \<^verbatim>\<open>ResponseStore\<close> and \<^verbatim>\<open>ResponseConversationStore\<close> of \<^verbatim>\<open>contracts.go\<close>.\<close>

record 's response_store_ops =
  rs_get :: "string \<Rightarrow> 's \<Rightarrow> stored_response res"
  rs_lineage :: "string \<Rightarrow> int \<Rightarrow> 's \<Rightarrow> stored_response list res"
  rs_save :: "stored_response \<Rightarrow> 's \<Rightarrow> 's res"
  rs_save_artifacts :: "string \<Rightarrow> replay_artifact list \<Rightarrow> 's \<Rightarrow> 's res"
  rs_artifacts :: "string \<Rightarrow> 's \<Rightarrow> replay_artifact list res"
  rs_delete :: "string \<Rightarrow> 's \<Rightarrow> 's res"
  rs_conversation :: "string \<Rightarrow> 's \<Rightarrow> (conversation \<times> conversation_item list) res"
  rs_save_append :: "conversation \<Rightarrow> stored_response \<Rightarrow> item list \<Rightarrow> item list \<Rightarrow> nat \<Rightarrow> 's \<Rightarrow> (nat \<times> 's) res"

text \<open>The generator is indexed by the attempt, since a model may answer the same request differently.\<close>

record 's response_service =
  sv_store :: "'s response_store_ops"
  sv_generate :: "nat \<Rightarrow> generator"
  sv_compact :: compactor
  sv_memory_store :: "'s memory_store_ops option"
  sv_memory_config :: memory_config
  sv_limits :: response_limits

record prepared_context =
  pc_normalized :: "item list"
  pc_effective :: "item list"
  pc_context :: "item list"
  pc_conversation :: conversation
  pc_refs :: "tool_call_reference gomap"

definition zero_conversation :: conversation where
  "zero_conversation = \<lparr>c_id = [], c_object = [], c_metadata = [], c_items = [], c_version = 0,
     c_created = [], c_updated = []\<rparr>"

definition hasRequestInput :: "raw \<Rightarrow> bool" where
  "hasRequestInput r \<longleftrightarrow> \<not> raw_absent r"

text \<open>The items a request continues from, and the conversation it belongs to.\<close>

definition requestBase ::
  "'s response_service \<Rightarrow> create_response_input \<Rightarrow> 's \<Rightarrow> (item list \<times> conversation) res" where
  "requestBase svc input s =
     (if in_previous input \<noteq> [] then
        (case rs_lineage (sv_store svc) (in_previous input) (rl_lineage_items (sv_limits svc)) s of
           Inl e \<Rightarrow> Inl e
         | Inr lineage \<Rightarrow> Inr (buildLineageContextItems lineage, zero_conversation))
      else if in_conversation input \<noteq> [] then
        (case rs_conversation (sv_store svc) (in_conversation input) s of
           Inl e \<Rightarrow> Inl e
         | Inr (c, items) \<Rightarrow> Inr (domainItemsFromConversation items, c))
      else Inr ([], zero_conversation))"

definition requestInputItems :: "create_response_input \<Rightarrow> bool \<Rightarrow> item list res" where
  "requestInputItems input requireInput =
     (if requireInput \<or> hasRequestInput (in_input input)
      then res_bind (NormalizeInput (in_input input)) ExpandSyntheticCompactionItems
      else Inr [])"

definition prepareResponseContext ::
  "'s response_service \<Rightarrow> string \<Rightarrow> create_response_input \<Rightarrow> bool \<Rightarrow> bool \<Rightarrow> bool \<Rightarrow> 's \<Rightarrow>
   (prepared_context \<times> 's) res" where
  "prepareResponseContext svc now input requireModel requireInput allowMemory s =
     (if requireModel \<and> in_model input = [] then Inl (ValidationError ''model'' ''model is required'')
      else if in_previous input \<noteq> [] \<and> in_conversation input \<noteq> []
        then Inl (ValidationError ''previous_response_id''
                    ''previous_response_id and conversation are mutually exclusive'')
      else
        res_bind (NormalizeResponseMetadata (in_metadata input)) (\<lambda>md.
        res_bind (requestInputItems input requireInput) (\<lambda>items.
        res_bind (requestBase svc input s) (\<lambda>(base0, conversation).
        res_bind (ExpandSyntheticCompactionItems base0) (\<lambda>baseItems.
        let refs = CollectToolCallReferences baseItems in
        res_bind (if in_previous input \<noteq> [] then validateContinuationToolOutputs items baseItems else Inr ()) (\<lambda>_.
        res_bind (CanonicalizeToolOutputs items refs) (\<lambda>normalizedInput.
        res_bind (if allowMemory
                  then memoryContextItems (sv_memory_store svc) (sv_memory_config svc) now input s
                  else Inr ([], s)) (\<lambda>(memoryItems, s').
        Inr (\<lparr>pc_normalized = normalizedInput, pc_effective = baseItems @ normalizedInput,
              pc_context = AppendCurrentRequestContext (baseItems @ memoryItems) (in_instructions input) normalizedInput,
              pc_conversation = conversation, pc_refs = refs\<rparr>, s')))))))))"

definition PrepareCreateContext ::
  "'s response_service \<Rightarrow> string \<Rightarrow> create_response_input \<Rightarrow> 's \<Rightarrow> (prepared_context \<times> 's) res" where
  "PrepareCreateContext svc now input s = prepareResponseContext svc now input True True True s"

definition CountInputTokens :: "'s response_service \<Rightarrow> string \<Rightarrow> create_response_input \<Rightarrow> 's \<Rightarrow> int res" where
  "CountInputTokens svc now input s =
     res_bind (prepareResponseContext svc now input False False False s) (\<lambda>(prepared, s').
       EstimateSyntheticTokenCount (pc_context prepared))"

section \<open>Automatic compaction\<close>

record prepared_response =
  pr_id :: string
  pr_normalized :: "item list"
  pr_effective :: "item list"
  pr_context :: "item list"
  pr_output_prefix :: "item list"
  pr_conversation :: conversation
  pr_created :: int

text \<open>One entry of \<^verbatim>\<open>context_management\<close>: a type and a threshold; \<open>None\<close> is the decoding error.\<close>

fun management_entry :: "json \<Rightarrow> (string \<times> int) option" where
  "management_entry (JObj kvs) =
     (case (struct_string ''type'' kvs [], struct_int ''compact_threshold'' kvs 0) of
        (Some t, Some n) \<Rightarrow> Some (t, n) | _ \<Rightarrow> None)"
| "management_entry JNull = Some ([], 0)"
| "management_entry _ = None"

fun compactionPolicy :: "(string \<times> int) list \<Rightarrow> int option res" where
  "compactionPolicy [] = Inr None"
| "compactionPolicy ((t, n) # entries) =
     (if trim_space t \<noteq> ''compaction'' then compactionPolicy entries
      else if n \<le> 0 then Inl (ValidationError ''context_management''
               ''context_management compaction policy requires compact_threshold > 0'')
      else Inr (Some n))"

definition parseCompactionThreshold :: "raw \<Rightarrow> int option res" where
  "parseCompactionThreshold r =
     (if raw_absent r then Inr None
      else
        let bad = Inl (ValidationError ''context_management'' ''context_management must be an array'') in
        case unmarshal_raw_list r of
          None \<Rightarrow> bad
        | Some js \<Rightarrow> (case all_some (map management_entry js) of None \<Rightarrow> bad | Some es \<Rightarrow> compactionPolicy es))"

definition priorEffectiveItems :: "item list \<Rightarrow> item list \<Rightarrow> item list" where
  "priorEffectiveItems effectiveInput normalizedInput =
     (if effectiveInput = [] then []
      else if normalizedInput = [] then effectiveInput
      else if length effectiveInput \<le> length normalizedInput then []
      else take (length effectiveInput - length normalizedInput) effectiveInput)"

definition applyAutomaticCompaction ::
  "'s response_service \<Rightarrow> create_response_input \<Rightarrow> prepared_response \<Rightarrow> nat \<Rightarrow> (prepared_response \<times> nat) res" where
  "applyAutomaticCompaction svc input prepared n =
     (case parseCompactionThreshold (in_context_management input) of
        Inl e \<Rightarrow> Inl e
      | Inr None \<Rightarrow> Inr (prepared, n)
      | Inr (Some threshold) \<Rightarrow>
          (case EstimateSyntheticTokenCount (pr_context prepared) of
             Inl e \<Rightarrow> Inl e
           | Inr inputTokens \<Rightarrow>
               if inputTokens \<le> threshold then Inr (prepared, n)
               else
                 let baseItems = priorEffectiveItems (pr_effective prepared) (pr_normalized prepared) in
                 if baseItems = [] then Inr (prepared, n)
                 else case sv_compact svc n baseItems of
                   Inl e \<Rightarrow> Inl e
                 | Inr (result, n') \<Rightarrow>
                     Inr (prepared\<lparr>pr_effective := cr_item result # pr_normalized prepared,
                            pr_context := AppendCurrentRequestContext (cr_expanded result) (in_instructions input)
                              (pr_normalized prepared),
                            pr_output_prefix := pr_output_prefix prepared @ [cr_item result]\<rparr>, n')))"

definition buildStoredEffectiveInputItems ::
  "(nat \<Rightarrow> string option) \<Rightarrow> item list \<Rightarrow> item list \<Rightarrow> nat \<Rightarrow> (item list \<times> nat) res" where
  "buildStoredEffectiveInputItems uuid effectiveInput normalizedInput n =
     (if effectiveInput = [] then EnsureItemIDs uuid n normalizedInput
      else EnsureItemIDs uuid n
             (if normalizedInput \<noteq> [] \<and> length effectiveInput \<ge> length normalizedInput
              then take (length effectiveInput - length normalizedInput) effectiveInput @ normalizedInput
              else effectiveInput))"

section \<open>Explicit compaction\<close>

definition compactionResponseOutput :: "compaction_result \<Rightarrow> item list" where
  "compactionResponseOutput result = (if cr_output result \<noteq> [] then cr_output result else [cr_item result])"

record response_compaction =
  rc_id :: string
  rc_created_at :: int
  rc_output :: "item list"
  rc_usage :: raw

definition ResponseService_Compact ::
  "'s response_service \<Rightarrow> (nat \<Rightarrow> string option) \<Rightarrow> string \<Rightarrow> int \<Rightarrow> create_response_input \<Rightarrow> nat \<Rightarrow> 's \<Rightarrow>
   (response_compaction \<times> nat) res" where
  "ResponseService_Compact svc uuid now unixNow input n s =
     res_bind (prepareResponseContext svc now input True False False s) (\<lambda>(prepared, s').
     res_bind (sv_compact svc n (pc_context prepared)) (\<lambda>(result, n1).
     let out = compactionResponseOutput result in
     res_bind (EstimateSyntheticTokenCount (pc_context prepared)) (\<lambda>inputTokens.
     res_bind (EstimateSyntheticTokenCount out) (\<lambda>outputTokens.
     case NewPrefixedID uuid n1 ''resp'' of
       Inl e \<Rightarrow> Inl (Wrap ''generate compaction response id'' e)
     | Inr id' \<Rightarrow> Inr (\<lparr>rc_id = id', rc_created_at = unixNow, rc_output = out,
                        rc_usage = BuildSyntheticUsage inputTokens outputTokens\<rparr>, Suc n1)))))"

section \<open>Suffixes from a trusted compaction\<close>

lemma last_index_loop_spec:
  "(last_index_loop p idx xs acc = acc \<and> (\<forall>x \<in> set xs. \<not> p x)) \<or>
   (\<exists>a x b. xs = a @ x # b \<and> p x \<and> (\<forall>y \<in> set b. \<not> p y) \<and> last_index_loop p idx xs acc = int (idx + length a))"
proof (induction xs arbitrary: idx acc)
  case (Cons y ys)
  let ?acc = "if p y then int idx else acc"
  from Cons [of "Suc idx" ?acc] show ?case
  proof
    assume "last_index_loop p (Suc idx) ys ?acc = ?acc \<and> (\<forall>x \<in> set ys. \<not> p x)"
    then show ?thesis by (cases "p y") (auto intro!: exI [of _ "[]"])
  next
    assume "\<exists>a x b. ys = a @ x # b \<and> p x \<and> (\<forall>y \<in> set b. \<not> p y) \<and>
      last_index_loop p (Suc idx) ys ?acc = int (Suc idx + length a)"
    then obtain a x b where "ys = a @ x # b" "p x" "\<forall>y \<in> set b. \<not> p y"
      "last_index_loop p (Suc idx) ys ?acc = int (Suc idx + length a)" by blast
    then show ?thesis by (intro disjI2 exI [of _ "y # a"] exI [of _ x] exI [of _ b]) simp
  qed
qed simp

lemma last_index_cases:
  obtains (none) "last_index_loop p 0 xs (-1) = -1" "\<forall>x \<in> set xs. \<not> p x"
  | (some) a x b where "xs = a @ x # b" "p x" "\<forall>y \<in> set b. \<not> p y" "last_index_loop p 0 xs (-1) = int (length a)"
  using last_index_loop_spec [of p 0 xs "-1"] by auto

abbreviation response_items :: "stored_response list \<Rightarrow> item list" where
  "response_items lineage \<equiv> concat (map (\<lambda>r. sr_input r @ sr_output r) lineage)"

definition no_compaction :: "item list \<Rightarrow> bool" where
  "no_compaction items \<longleftrightarrow> (\<forall>i \<in> set items. iType i \<noteq> ''compaction'')"

lemma drop_guard:
  assumes "lti \<ge> 0"
  shows "(if lti \<ge> 0 \<and> int (length xs) + lti > 0 then drop (nat (int (length xs) + lti)) (xs @ ys) else xs @ ys) =
     drop (nat lti) ys"
proof (cases "int (length xs) + lti > 0")
  case True
  then show ?thesis using assms by (simp add: nat_add_distrib)
next
  case False
  then have "length xs = 0" "nat lti = 0" using assms by linarith+
  then show ?thesis using False by simp
qed

lemma lineage_loop_step:
  "buildLineageContextLoop (r # lineage) out =
     (if no_compaction (sr_output r) then buildLineageContextLoop lineage (out @ sr_input r @ sr_output r)
      else buildLineageContextLoop lineage
             (drop (nat (last_index_loop (\<lambda>i. iType i = ''compaction'') 0 (sr_output r) (-1))) (sr_output r)))"
proof (cases rule: last_index_cases [of "\<lambda>i. iType i = ''compaction''" "sr_output r"])
  case none
  then show ?thesis by (simp add: no_compaction_def Let_def)
next
  case (some a x b)
  then have "\<not> no_compaction (sr_output r)" by (simp add: no_compaction_def)
  then show ?thesis
    unfolding buildLineageContextLoop.simps Let_def some(4) by (subst drop_guard) simp_all
qed

lemma lineage_context:
  "(\<forall>r \<in> set lineage. no_compaction (sr_output r)) \<and> buildLineageContextLoop lineage out = out @ response_items lineage \<or>
   (\<exists>l1 r l2 a c b. lineage = l1 @ r # l2 \<and> sr_output r = a @ c # b \<and> iType c = ''compaction'' \<and> no_compaction b \<and>
      (\<forall>q \<in> set l2. no_compaction (sr_output q)) \<and> buildLineageContextLoop lineage out = c # b @ response_items l2)"
proof (induction lineage arbitrary: out)
  case (Cons r lineage)
  let ?out = "if no_compaction (sr_output r) then out @ sr_input r @ sr_output r
    else drop (nat (last_index_loop (\<lambda>i. iType i = ''compaction'') 0 (sr_output r) (-1))) (sr_output r)"
  have step: "buildLineageContextLoop (r # lineage) out = buildLineageContextLoop lineage ?out"
    unfolding lineage_loop_step by simp
  from Cons [of ?out] show ?case
  proof
    assume rest: "(\<forall>r \<in> set lineage. no_compaction (sr_output r)) \<and>
      buildLineageContextLoop lineage ?out = ?out @ response_items lineage"
    show ?thesis
    proof (cases rule: last_index_cases [of "\<lambda>i. iType i = ''compaction''" "sr_output r"])
      case none
      then show ?thesis using rest step by (simp add: no_compaction_def)
    next
      case (some a c b)
      then have "\<not> no_compaction (sr_output r)" "?out = c # b" by (auto simp: no_compaction_def)
      then have "buildLineageContextLoop (r # lineage) out = c # b @ response_items lineage" using rest step by simp
      then show ?thesis using some(1-3) rest
        by (intro disjI2 exI [of _ "[]"] exI [of _ r] exI [of _ lineage] exI [of _ a] exI [of _ c] exI [of _ b])
          (simp add: no_compaction_def del: buildLineageContextLoop.simps)
    qed
  next
    assume "\<exists>l1 q l2 a c b. lineage = l1 @ q # l2 \<and> sr_output q = a @ c # b \<and> iType c = ''compaction'' \<and>
      no_compaction b \<and> (\<forall>q \<in> set l2. no_compaction (sr_output q)) \<and>
      buildLineageContextLoop lineage ?out = c # b @ response_items l2"
    then obtain l1 q l2 a c b where *: "lineage = l1 @ q # l2" "sr_output q = a @ c # b" "iType c = ''compaction''"
      "no_compaction b" "\<forall>q \<in> set l2. no_compaction (sr_output q)"
      "buildLineageContextLoop lineage ?out = c # b @ response_items l2" by blast
    then show ?thesis using step
      by (intro disjI2 exI [of _ "r # l1"] exI [of _ q] exI [of _ l2] exI [of _ a] exI [of _ c] exI [of _ b])
        (simp del: buildLineageContextLoop.simps)
  qed
qed simp

lemma conversation_context:
  "(\<forall>ci \<in> set items. \<not> isTrustedConversationCompaction ci) \<and> domainItemsFromConversation items = map ci_item items \<or>
   (\<exists>a c b. items = a @ c # b \<and> isTrustedConversationCompaction c \<and>
      (\<forall>ci \<in> set b. \<not> isTrustedConversationCompaction ci) \<and> domainItemsFromConversation items = map ci_item (c # b))"
proof (cases rule: last_index_cases [of isTrustedConversationCompaction items])
  case none
  then show ?thesis by (simp add: domainItemsFromConversation_def)
next
  case (some a c b)
  then have "domainItemsFromConversation items = map ci_item (c # b)"
    by (simp add: domainItemsFromConversation_def)
  with some show ?thesis by blast
qed

section \<open>The items since the last trusted compaction\<close>

text \<open>The reference definition: everything from the last element that satisfies a predicate on, the
  whole list when there is none.\<close>

fun since_last :: "('a \<Rightarrow> bool) \<Rightarrow> 'a list \<Rightarrow> 'a list" where
  "since_last p [] = []"
| "since_last p (x # xs) = (if list_ex p xs then since_last p xs else x # xs)"

lemma since_last_none: "\<forall>x \<in> set xs. \<not> p x \<Longrightarrow> since_last p xs = xs"
  by (cases xs) (auto simp: list_ex_iff)

lemma since_last_some: "p x \<Longrightarrow> \<forall>y \<in> set b. \<not> p y \<Longrightarrow> since_last p (a @ x # b) = x # b"
  by (induction a) (auto simp: list_ex_iff)

text \<open>The items of a lineage, each with the mark of an output item.\<close>

definition marked_items :: "stored_response list \<Rightarrow> (bool \<times> item) list" where
  "marked_items lineage = concat (map (\<lambda>r. map (Pair False) (sr_input r) @ map (Pair True) (sr_output r)) lineage)"

definition output_compaction :: "bool \<times> item \<Rightarrow> bool" where
  "output_compaction m \<longleftrightarrow> fst m \<and> iType (snd m) = ''compaction''"

lemma marked_snd: "map snd (marked_items lineage) = response_items lineage"
  by (induction lineage) (simp_all add: marked_items_def comp_def)

lemma marked_no_output: "\<forall>q \<in> set l. no_compaction (sr_output q) \<Longrightarrow> m \<in> set (marked_items l) \<Longrightarrow> \<not> output_compaction m"
  by (auto simp: marked_items_def output_compaction_def no_compaction_def)

lemma lineage_since_last:
  "buildLineageContextItems lineage = map snd (since_last output_compaction (marked_items lineage))"
  using lineage_context [of lineage "[]"]
proof (elim disjE exE conjE)
  assume "\<forall>r \<in> set lineage. no_compaction (sr_output r)" "buildLineageContextLoop lineage [] = [] @ response_items lineage"
  then show ?thesis
    using marked_no_output by (simp add: since_last_none marked_snd buildLineageContextItems_def)
next
  fix l1 r l2 a c b
  assume *: "lineage = l1 @ r # l2" "sr_output r = a @ c # b" "iType c = ''compaction''" "no_compaction b"
    "\<forall>q \<in> set l2. no_compaction (sr_output q)" "buildLineageContextLoop lineage [] = c # b @ response_items l2"
  have "marked_items lineage =
      (marked_items l1 @ map (Pair False) (sr_input r) @ map (Pair True) a) @ (True, c) # map (Pair True) b @ marked_items l2"
    using *(1,2) by (simp add: marked_items_def)
  moreover have "output_compaction (True, c)" using *(3) by (simp add: output_compaction_def)
  moreover have "\<forall>m \<in> set (map (Pair True) b @ marked_items l2). \<not> output_compaction m"
    using *(4) marked_no_output [OF *(5)] by (auto simp: no_compaction_def output_compaction_def)
  ultimately have "since_last output_compaction (marked_items lineage) = (True, c) # map (Pair True) b @ marked_items l2"
    using since_last_some by metis
  then show ?thesis using *(6) by (simp add: buildLineageContextItems_def marked_snd comp_def)
qed

section \<open>Valid continuations\<close>

definition known_call :: "item list \<Rightarrow> string \<Rightarrow> bool" where
  "known_call items callID \<longleftrightarrow> (\<exists>i \<in> set items. isToolCallItemType (iType i) \<and> trim_space (Item_CallID i) = callID)"

lemma collected_call_ids:
  "callID \<in> set (collectContinuationToolCallIDs items) \<longleftrightarrow> callID \<noteq> [] \<and> known_call items callID"
  by (induction items) (auto simp: collectContinuationToolCallIDs_def known_call_def List.map_filter_simps)

lemma tool_outputs_loop:
  "validateToolOutputsLoop callIDs items = Inr () \<longleftrightarrow>
     (\<forall>i \<in> set items. isToolOutputItemType (iType i) \<longrightarrow>
        trim_space (Item_CallID i) \<noteq> [] \<and> trim_space (Item_CallID i) \<in> set callIDs)"
  by (induction items) (auto simp: Let_def)

lemma known_call_append: "known_call (xs @ ys) c \<longleftrightarrow> known_call xs c \<or> known_call ys c"
  by (auto simp: known_call_def)

section \<open>The prepared context\<close>

lemma prepare_cases:
  assumes "prepareResponseContext svc now input requireModel requireInput allowMemory s = Inr (p, s')"
  obtains md items base0 conv base mem where
    "requireModel \<longrightarrow> in_model input \<noteq> []" "in_previous input = [] \<or> in_conversation input = []"
    "NormalizeResponseMetadata (in_metadata input) = Inr md" "requestInputItems input requireInput = Inr items"
    "requestBase svc input s = Inr (base0, conv)" "ExpandSyntheticCompactionItems base0 = Inr base"
    "in_previous input \<noteq> [] \<longrightarrow> validateContinuationToolOutputs items base = Inr ()"
    "CanonicalizeToolOutputs items (CollectToolCallReferences base) = Inr (pc_normalized p)"
    "(if allowMemory then memoryContextItems (sv_memory_store svc) (sv_memory_config svc) now input s else Inr ([], s)) = Inr (mem, s')"
    "pc_effective p = base @ pc_normalized p"
    "pc_context p = AppendCurrentRequestContext (base @ mem) (in_instructions input) (pc_normalized p)"
    "pc_conversation p = conv" "pc_refs p = CollectToolCallReferences base"
proof -
  have g: "requireModel \<longrightarrow> in_model input \<noteq> []" "in_previous input = [] \<or> in_conversation input = []"
    using assms by (auto simp: prepareResponseContext_def split: if_splits)
  then have e: "prepareResponseContext svc now input requireModel requireInput allowMemory s =
      res_bind (NormalizeResponseMetadata (in_metadata input)) (\<lambda>md.
        res_bind (requestInputItems input requireInput) (\<lambda>items.
        res_bind (requestBase svc input s) (\<lambda>(base0, conversation).
        res_bind (ExpandSyntheticCompactionItems base0) (\<lambda>baseItems.
        let refs = CollectToolCallReferences baseItems in
        res_bind (if in_previous input \<noteq> [] then validateContinuationToolOutputs items baseItems else Inr ()) (\<lambda>_.
        res_bind (CanonicalizeToolOutputs items refs) (\<lambda>normalizedInput.
        res_bind (if allowMemory
                  then memoryContextItems (sv_memory_store svc) (sv_memory_config svc) now input s
                  else Inr ([], s)) (\<lambda>(memoryItems, s').
        Inr (\<lparr>pc_normalized = normalizedInput, pc_effective = baseItems @ normalizedInput,
              pc_context = AppendCurrentRequestContext (baseItems @ memoryItems) (in_instructions input) normalizedInput,
              pc_conversation = conversation, pc_refs = refs\<rparr>, s'))))))))"
    unfolding prepareResponseContext_def by auto
  from assms [unfolded e Let_def] show thesis
    unfolding res_bind_Inr_iff
    apply (elim exE conjE)
    subgoal for md items bc
      apply (cases bc)
      apply (simp only: prod.case)
      apply (unfold res_bind_Inr_iff)
      apply (elim exE conjE)
      subgoal for base0 conv base u norm mm
        apply (cases mm)
        apply (rule that [OF g, of md items base0 conv base "fst mm"])
        apply (auto split: if_splits)
        done
      done
    done
qed

section \<open>The SQLite store as the service uses it\<close>

definition sqlite_response_ops :: "(nat \<Rightarrow> string option) \<Rightarrow> db response_store_ops" where
  "sqlite_response_ops uuid =
     \<lparr>rs_get = GetResponse, rs_lineage = GetResponseLineage, rs_save = SaveResponse,
      rs_save_artifacts = SaveResponseReplayArtifacts,
      rs_artifacts = (\<lambda>rid d. Inr (GetResponseReplayArtifacts rid d)),
      rs_delete = DeleteResponse, rs_conversation = GetConversation,
      rs_save_append = SaveResponseAndAppendConversation uuid\<rparr>"

section \<open>Properties\<close>

text \<open>C27: a continuation starts at the last trusted compaction. The items taken from a conversation
  are those from its last compaction item written by a response, the items taken from a chain of
  responses are those from the last compaction item among the responses' outputs; a compaction item
  that a client put into an input never hides history.\<close>

theorem continuation_base:
  "domainItemsFromConversation items = map ci_item (since_last isTrustedConversationCompaction items) \<and>
   buildLineageContextItems lineage = map snd (since_last output_compaction (marked_items lineage))"
proof
  show "domainItemsFromConversation items = map ci_item (since_last isTrustedConversationCompaction items)"
    using conversation_context [of items] by (auto simp: since_last_none since_last_some)
  show "buildLineageContextItems lineage = map snd (since_last output_compaction (marked_items lineage))"
    by (rule lineage_since_last)
qed

text \<open>C29: a continuation is accepted exactly when every tool output of the request names a tool call
  of the history or of the request itself.\<close>

theorem continuation_tool_outputs:
  "validateContinuationToolOutputs items baseItems = Inr () \<longleftrightarrow>
     (\<forall>i \<in> set items. isToolOutputItemType (iType i) \<longrightarrow>
        trim_space (Item_CallID i) \<noteq> [] \<and> known_call (baseItems @ items) (trim_space (Item_CallID i)))"
  by (auto simp: validateContinuationToolOutputs_def tool_outputs_loop collected_call_ids known_call_append)

text \<open>The parts of a prepared context. Preparing a request succeeds only for a named model and
  at most one source of history; the items to store are the expanded history followed by the
  normalised input, and the items for the model are the history, the recalled memory, the
  instructions and the input, in this order.\<close>

theorem prepared_context_parts:
  assumes "PrepareCreateContext svc now input s = Inr (p, s')"
  shows "in_model input \<noteq> [] \<and> (in_previous input = [] \<or> in_conversation input = []) \<and>
    (\<exists>base0 base mem. requestBase svc input s = Inr (base0, pc_conversation p) \<and>
       ExpandSyntheticCompactionItems base0 = Inr base \<and>
       memoryContextItems (sv_memory_store svc) (sv_memory_config svc) now input s = Inr (mem, s') \<and>
       pc_effective p = base @ pc_normalized p \<and>
       pc_context p = base @ mem @
         (if in_instructions input = [] then [] else [NewInputTextMessage ''system'' (in_instructions input)]) @
         pc_normalized p \<and>
       priorEffectiveItems (pc_effective p) (pc_normalized p) = base)"
  using assms unfolding PrepareCreateContext_def
proof (rule prepare_cases)
  fix md items base0 conv base mem
  assume *: "True \<longrightarrow> in_model input \<noteq> []" "in_previous input = [] \<or> in_conversation input = []"
    "requestBase svc input s = Inr (base0, conv)" "ExpandSyntheticCompactionItems base0 = Inr base"
    "(if True then memoryContextItems (sv_memory_store svc) (sv_memory_config svc) now input s else Inr ([], s)) = Inr (mem, s')"
    "pc_effective p = base @ pc_normalized p"
    "pc_context p = AppendCurrentRequestContext (base @ mem) (in_instructions input) (pc_normalized p)"
    "pc_conversation p = conv"
  have "priorEffectiveItems (base @ pc_normalized p) (pc_normalized p) = base"
    by (simp add: priorEffectiveItems_def)
  with * show ?thesis by (simp add: AppendCurrentRequestContext_def)
qed

text \<open>C28: automatic compaction. For every configured compactor, the prepared response is compacted
  exactly when a policy is given, the context is above its threshold and there is history. Then what
  is stored expands to what the model is shown in place of the history, the input of the request is
  untouched, and the compaction item is announced in the output. Otherwise nothing changes.\<close>

theorem automatic_compaction:
  assumes "Compactor_New generate cfg uuid = Inr (sv_compact svc)"
    and "pr_effective p = base @ pr_normalized p"
    and "ExpandSyntheticCompactionItems (pr_normalized p) = Inr (pr_normalized p)"
    and "applyAutomaticCompaction svc input p n = Inr (p', n')"
  shows "if (\<exists>threshold tokens. parseCompactionThreshold (in_context_management input) = Inr (Some threshold) \<and>
        EstimateSyntheticTokenCount (pr_context p) = Inr tokens \<and> threshold < tokens) \<and> base \<noteq> []
    then \<exists>r. sv_compact svc n base = Inr (r, n') \<and>
        ExpandSyntheticCompactionItems (pr_effective p') = Inr (cr_expanded r @ pr_normalized p) \<and>
        pr_context p' = AppendCurrentRequestContext (cr_expanded r) (in_instructions input) (pr_normalized p) \<and>
        pr_normalized p' = pr_normalized p \<and> pr_id p' = pr_id p \<and> pr_conversation p' = pr_conversation p \<and>
        pr_output_prefix p' = pr_output_prefix p @ [cr_item r]
    else p' = p \<and> n' = n"
proof -
  note c = new_compactor_contract [OF assms(1)]
  have prior: "priorEffectiveItems (pr_effective p) (pr_normalized p) = base"
    using assms(2) by (simp add: priorEffectiveItems_def)
  have front: "sv_compact svc n base = Inr (r, n') \<Longrightarrow>
      ExpandSyntheticCompactionItems (cr_item r # pr_normalized p) = Inr (cr_expanded r @ pr_normalized p)" for r
    using compactor_contract.expand_in_front [OF c _ assms(3)] by blast
  show ?thesis using assms(4) unfolding applyAutomaticCompaction_def Let_def prior
    by (auto simp: front simp del: ExpandSyntheticCompactionItems.simps split: sum.splits option.splits if_splits)
qed

section \<open>Witnesses\<close>

definition sample_call :: item where
  "sample_call = \<lparr>iRaw = RawJson (JObj [(''call_id'', JStr ''c1'')]), iMeta = None, iType = ''function_call'',
     iRole = [], iContent = []\<rparr>"

definition sample_output :: item where
  "sample_output = \<lparr>iRaw = RawJson (JObj [(''call_id'', JStr ''c1'')]), iMeta = None, iType = ''function_call_output'',
     iRole = [], iContent = []\<rparr>"

lemma sample_call_ids: "trim_space (Item_CallID sample_call) = ''c1''" "trim_space (Item_CallID sample_output) = ''c1''"
  by (simp_all add: sample_call_def sample_output_def Item_StringField_def Item_RawField_def
      Item_Map_def trim_space_word Let_def raw_entry_def gomap_of_def)

theorem continuation_tool_outputs_witness:
  "validateContinuationToolOutputs [sample_output] [sample_call] = Inr () \<and>
   validateContinuationToolOutputs [sample_output] [] \<noteq> Inr ()"
proof -
  have "iType sample_call = ''function_call''" "iType sample_output = ''function_call_output''"
    by (simp_all add: sample_call_def sample_output_def)
  then show ?thesis
    using continuation_tool_outputs [of "[sample_output]" "[sample_call]"]
      continuation_tool_outputs [of "[sample_output]" "[]"] sample_call_ids
    by (simp add: known_call_def isToolCallItemType_def isToolOutputItemType_def)
qed

definition sample_uuid :: "nat \<Rightarrow> string option" where
  "sample_uuid n = Some ''u''"

definition sample_service :: "db response_service" where
  "sample_service = \<lparr>sv_store = sqlite_response_ops sample_uuid, sv_generate = (\<lambda>k m items os. Inr ''hello''),
     sv_compact = Heuristic_Compact sample_uuid, sv_memory_store = None, sv_memory_config = memory_sample_config,
     sv_limits = \<lparr>rl_lineage_items = 128, rl_summary_bytes = 65536\<rparr>\<rparr>"

definition sample_request :: create_response_input where
  "sample_request = memory_sample_input\<lparr>in_metadata := RawEmpty, in_instructions := ''be brief'',
     in_context_management := RawJson (JArr [JObj [(''type'', JStr ''compaction''), (''compact_threshold'', JNum ''1'')]])\<rparr>"

lemma sample_request_prepared:
  "\<exists>p. PrepareCreateContext sample_service now sample_request d = Inr (p, d) \<and> pc_normalized p = [input_message ''user'' ''hi'']"
  by (simp add: PrepareCreateContext_def prepareResponseContext_def sample_request_def memory_sample_input_def
      NormalizeResponseMetadata_def normalizeMetadata_def raw_absent_def requestInputItems_def NormalizeInput_def
      requestBase_def CanonicalizeToolOutputs_def Let_def memoryContextItems_def memoryRequestEnabled_def sample_service_def
      hasRequestInput_def NewInputTextMessage_eq CollectToolCallReferences_def input_message_def quotable_def unquotable_def)

theorem prepared_context_parts_witness:
  "\<exists>p. PrepareCreateContext sample_service ''t'' sample_request empty_db = Inr (p, empty_db) \<and>
     pc_effective p = [] @ pc_normalized p"
proof -
  obtain p where p: "PrepareCreateContext sample_service ''t'' sample_request empty_db = Inr (p, empty_db)"
    using sample_request_prepared by blast
  have "requestBase sample_service sample_request empty_db = Inr ([], zero_conversation)"
    by (simp add: requestBase_def sample_request_def memory_sample_input_def)
  with prepared_context_parts [OF p] p show ?thesis by auto
qed

definition sample_prepared :: prepared_response where
  "sample_prepared = \<lparr>pr_id = ''resp_1'', pr_normalized = [input_message ''user'' ''hi''],
     pr_effective = [empty_item, input_message ''user'' ''hi''],
     pr_context = [empty_item\<lparr>iRaw := RawJson (JStr ''hello'')\<rparr>], pr_output_prefix = [],
     pr_conversation = zero_conversation, pr_created = 0\<rparr>"

theorem automatic_compaction_witness:
  "\<exists>p' n' (r :: compaction_result). applyAutomaticCompaction sample_service sample_request sample_prepared 0 = Inr (p', n') \<and>
     pr_output_prefix p' = [cr_item r] \<and>
     ExpandSyntheticCompactionItems (pr_effective p') = Inr (cr_expanded r @ [input_message ''user'' ''hi''])"
proof -
  have f: "fold_case ''type'' = ''type''" "fold_case ''compact_threshold'' = ''compact_threshold''"
    by (simp_all add: fold_case.simps lower_char_def)
  have "int_of_number (int_text 1) = Some 1" by (rule int_of_int_text) simp_all
  moreover have "int_text 1 = ''1''" by code_simp
  ultimately have one: "int_of_number ''1'' = Some 1" by simp
  have th: "parseCompactionThreshold (in_context_management sample_request) = Inr (Some 1)"
    using f one by (simp add: parseCompactionThreshold_def sample_request_def raw_absent_def trim_space_word equal_fold_def)
  have es: "EstimateSyntheticTokenCount (pr_context sample_prepared) = Inr 3"
    by (simp add: EstimateSyntheticTokenCount_def sample_prepared_def EstimateSyntheticTokenCountJSON_def Item_MarshalJSON_def
        empty_item_def esc_char_def trim_space_word rune_count_ascii Let_def rune_count_def [of "[]"])
  have "valid_utf8 noPriorContext" by (rule valid_utf8_all_ascii) (simp add: noPriorContext_def)
  then have su: "summarisable [empty_item]"
    by (simp add: summarisable_def BuildSyntheticCompactionSummary_def syntheticCompactionLine_def empty_item_def
        Let_def compactRawText_def raw_absent_def)
  obtain r where r: "sv_compact sample_service 0 [empty_item] = Inr (r, Suc 0)"
    using heuristic_total [of sample_uuid 0 "''u''", OF _ su] by (auto simp: sample_uuid_def sample_service_def)
  have new: "Compactor_New (\<lambda>m items os. Inr []) heuristic_config sample_uuid = Inr (sv_compact sample_service)"
    by (simp add: Compactor_New_def Compactor_NormalizeConfig_def heuristic_config_def Let_def to_lower.simps sample_service_def)
  have eff: "pr_effective sample_prepared = [empty_item] @ pr_normalized sample_prepared"
    by (simp add: sample_prepared_def)
  have ex: "ExpandSyntheticCompactionItems (pr_normalized sample_prepared) = Inr (pr_normalized sample_prepared)"
    by (simp add: sample_prepared_def input_message_def)
  have "\<exists>p' n'. applyAutomaticCompaction sample_service sample_request sample_prepared 0 = Inr (p', n')"
    using th es r by (simp add: applyAutomaticCompaction_def priorEffectiveItems_def sample_prepared_def Let_def)
  then obtain p' n' where p': "applyAutomaticCompaction sample_service sample_request sample_prepared 0 = Inr (p', n')"
    by blast
  have "\<exists>r :: compaction_result. pr_output_prefix p' = [cr_item r] \<and>
      ExpandSyntheticCompactionItems (pr_effective p') = Inr (cr_expanded r @ [input_message ''user'' ''hi''])"
    using automatic_compaction [OF new eff ex p'] th es
    by (auto simp: sample_prepared_def simp del: ExpandSyntheticCompactionItems.simps)
  with p' show ?thesis by blast
qed

end
