(* ===== verification/Response_Text.thy ===== *)
theory Response_Text
  imports Compactor
begin

text \<open>
  The text part of a response and structured output: \<^verbatim>\<open>internal/domain/response_text.go\<close> (the
  configuration, the supported JSON schemas, the unwrapping of a code fence) and the validator of
  \<^verbatim>\<open>internal/service/response_text.go\<close>.

  A configuration holds only its format, so \<open>text_config\<close> is \<open>text_format\<close>. Both recursive validators
  terminate by the size of the schema. \<open>conforms\<close> is what a schema means; \<open>validator_decides\<close> shows that
  the validator decides it on supported schemas.
\<close>

section \<open>Text configuration\<close>

record text_format =
  tf_type :: string
  tf_name :: string
  tf_strict :: "bool option"
  tf_schema :: raw

type_synonym text_config = text_format

definition DefaultResponseTextConfig :: text_config where
  "DefaultResponseTextConfig = \<lparr>tf_type = ''text'', tf_name = [], tf_strict = None, tf_schema = RawEmpty\<rparr>"

definition go_quote :: "string \<Rightarrow> string" where
  "go_quote s = [CHR 34] @ quote_body s @ [CHR 34]"

definition schemaError :: "string \<Rightarrow> error" where
  "schemaError message = ValidationError ''text.format.schema'' message"

fun as_str :: "json \<Rightarrow> string" where
  "as_str (JStr s) = s"
| "as_str _ = []"

lemma map_of_size: "map_of kvs k = Some v \<Longrightarrow> size v < size (JObj kvs)"
  by (induction kvs) (auto split: if_splits)

definition schemaAllowedKeys :: "string \<Rightarrow> string list" where
  "schemaAllowedKeys typeName =
     [''type'', ''title'', ''description'', ''enum''] @
     (if typeName = ''object'' then [''properties'', ''required'', ''additionalProperties'']
      else if typeName = ''array'' then [''items''] else [])"

fun supportedRequired :: "json gomap \<Rightarrow> json list \<Rightarrow> string \<Rightarrow> unit res" where
  "supportedRequired properties [] path = Inr ()"
| "supportedRequired properties (entry # entries) path =
     (let name = trim_space (as_str entry) in
      if name = [] then Inl (schemaError (path @ ''.required must be an array of strings''))
      else if properties \<noteq> [] \<and> map_of properties name = None
        then Inl (schemaError (path @ ''.required references unknown property '' @ go_quote name))
      else supportedRequired properties entries path)"

definition enumMalformed :: "json gomap \<Rightarrow> bool" where
  "enumMalformed payload =
     (case map_of payload ''enum'' of None \<Rightarrow> False | Some (JArr (x # xs)) \<Rightarrow> False | Some _ \<Rightarrow> True)"

definition additionalMalformed :: "json gomap \<Rightarrow> bool" where
  "additionalMalformed payload =
     (case map_of payload ''additionalProperties'' of None \<Rightarrow> False | Some (JBool b) \<Rightarrow> False | Some _ \<Rightarrow> True)"

function validateSupportedNode :: "json gomap \<Rightarrow> string \<Rightarrow> unit res"
  and supportedProperties :: "json gomap \<Rightarrow> string \<Rightarrow> unit res" where
  "validateSupportedNode payload path =
     (let typeName = trim_space (str_entry payload ''type'') in
      if typeName = [] then Inl (schemaError (path @ ''.type is required''))
      else if typeName \<notin> set [''object'', ''array'', ''string'', ''number'', ''integer'', ''boolean'', ''null'']
        then Inl (schemaError (''unsupported schema type '' @ go_quote typeName @ '' at '' @ path))
      else case find (\<lambda>k. k \<notin> set (schemaAllowedKeys typeName)) (map fst payload) of
        Some key \<Rightarrow> Inl (schemaError (''schema feature '' @ go_quote key @ '' at '' @ path @
                          '' is not supported by shim-local responses''))
      | None \<Rightarrow>
          if enumMalformed payload
          then Inl (schemaError (path @ ''.enum must be a non-empty array''))
          else if typeName = ''object'' then
            (if additionalMalformed payload
             then Inl (schemaError (path @ ''.additionalProperties must be a boolean''))
             else
               res_bind (case map_of payload ''properties'' of
                           None \<Rightarrow> Inr []
                         | Some (JObj props) \<Rightarrow> res_bind (supportedProperties props path) (\<lambda>_. Inr props)
                         | Some _ \<Rightarrow> Inl (schemaError (path @ ''.properties must be an object''))) (\<lambda>properties.
               case map_of payload ''required'' of
                 None \<Rightarrow> Inr ()
               | Some (JArr required) \<Rightarrow> supportedRequired properties required path
               | Some _ \<Rightarrow> Inl (schemaError (path @ ''.required must be an array of strings''))))
          else if typeName = ''array'' then
            (case map_of payload ''items'' of
               None \<Rightarrow> Inl (schemaError (path @ ''.items is required for array schemas''))
             | Some (JObj items) \<Rightarrow> validateSupportedNode items (path @ ''.items'')
             | Some _ \<Rightarrow> Inl (schemaError (path @ ''.items must be an object'')))
          else Inr ())"
| "supportedProperties [] path = Inr ()"
| "supportedProperties ((name, child) # props) path =
     (case child of
        JObj c \<Rightarrow> res_bind (validateSupportedNode c (path @ ''.properties.'' @ name)) (\<lambda>_. supportedProperties props path)
      | _ \<Rightarrow> Inl (schemaError (path @ ''.properties.'' @ name @ '' must be an object'')))"
  by pat_completeness auto
termination
  by (relation "measure (\<lambda>x. case x of Inl (s, p) \<Rightarrow> size (JObj s) | Inr (s, p) \<Rightarrow> size (JObj s))")
    (auto dest!: map_of_size)

declare validateSupportedNode.simps [simp del]

text \<open>The keys of a map are visited in order, so the list of unsupported ones is sorted.\<close>

definition rejectUnsupportedKeys :: "json gomap \<Rightarrow> string list \<Rightarrow> unit res" where
  "rejectUnsupportedKeys payload allowed =
     (let unsupported = filter (\<lambda>k. k \<notin> set allowed) (map fst payload) in
      if unsupported = [] then Inr ()
      else Inl (ValidationError ''text.format'' (''unsupported text.format field(s): '' @ join unsupported '', '')))"

definition formatTypeName :: "json gomap \<Rightarrow> string res" where
  "formatTypeName payload =
     (case map_of payload ''type'' of
        None \<Rightarrow> Inr ''text''
      | Some JNull \<Rightarrow> Inr ''text''
      | Some (JStr s) \<Rightarrow> Inr (trim_space s)
      | Some _ \<Rightarrow> Inl (ValidationError ''text.format.type'' ''text.format.type must be a string''))"

definition formatName :: "json gomap \<Rightarrow> string res" where
  "formatName payload =
     (case map_of payload ''name'' of
        None \<Rightarrow> Inr []
      | Some JNull \<Rightarrow> Inr []
      | Some (JStr s) \<Rightarrow> Inr (trim_space s)
      | Some _ \<Rightarrow> Inl (ValidationError ''text.format.name'' ''text.format.name must be a string''))"

definition formatStrict :: "json gomap \<Rightarrow> bool option res" where
  "formatStrict payload =
     (case map_of payload ''strict'' of
        None \<Rightarrow> Inr None
      | Some JNull \<Rightarrow> Inr None
      | Some (JBool b) \<Rightarrow> Inr (Some b)
      | Some _ \<Rightarrow> Inl (ValidationError ''text.format.strict'' ''text.format.strict must be a boolean''))"

definition formatSchema :: "json gomap \<Rightarrow> raw res" where
  "formatSchema payload =
     (case map_of payload ''schema'' of
        None \<Rightarrow> Inl (schemaError ''text.format.schema is required when text.format.type=json_schema'')
      | Some JNull \<Rightarrow> Inl (schemaError ''text.format.schema is required when text.format.type=json_schema'')
      | Some (JObj kvs) \<Rightarrow>
          (case unmarshal_any_map (RawJson (JObj kvs)) of
             None \<Rightarrow> Inl (schemaError ''text.format.schema must be valid JSON'')
           | Some schema \<Rightarrow> res_bind (validateSupportedNode schema ''$'') (\<lambda>_. Inr (RawJson (JObj kvs))))
      | Some _ \<Rightarrow> Inl (schemaError ''text.format.schema must be an object''))"

definition parseResponseTextFormat :: "raw \<Rightarrow> text_format res" where
  "parseResponseTextFormat r =
     (case unmarshal_raw_map r of
        None \<Rightarrow> Inl (ValidationError ''text.format'' ''text.format must be an object'')
      | Some payload \<Rightarrow>
          res_bind (formatTypeName payload) (\<lambda>typeName.
          let format = \<lparr>tf_type = typeName, tf_name = [], tf_strict = None, tf_schema = RawEmpty\<rparr> in
          if typeName = ''text'' \<or> typeName = ''json_object'' then
            res_bind (rejectUnsupportedKeys payload [''type'']) (\<lambda>_. Inr format)
          else if typeName = ''json_schema'' then
            res_bind (rejectUnsupportedKeys payload [''type'', ''name'', ''strict'', ''schema'']) (\<lambda>_.
            res_bind (formatName payload) (\<lambda>name.
            res_bind (formatStrict payload) (\<lambda>strict.
            res_bind (formatSchema payload) (\<lambda>schema.
            Inr (format\<lparr>tf_name := name, tf_strict := strict, tf_schema := schema\<rparr>)))))
          else Inl (ValidationError ''text.format.type'' ''unsupported text.format.type'')))"

definition ParseResponseTextConfig :: "raw \<Rightarrow> text_config res" where
  "ParseResponseTextConfig r =
     (if raw_absent r then Inr DefaultResponseTextConfig
      else case unmarshal_raw_map r of
        None \<Rightarrow> Inl (ValidationError ''text'' ''text must be an object'')
      | Some payload \<Rightarrow>
          if payload = [] then Inr DefaultResponseTextConfig
          else case find (\<lambda>k. k \<noteq> ''format'') (map fst payload) of
            Some key \<Rightarrow> Inl (ValidationError ''text'' (''unsupported text field '' @ [CHR 34] @ key @ [CHR 34]))
          | None \<Rightarrow>
              if raw_absent (raw_entry payload ''format'') then Inr DefaultResponseTextConfig
              else parseResponseTextFormat (raw_entry payload ''format''))"

definition text_format_json :: "text_format \<Rightarrow> json option" where
  "text_format_json f =
     (let front = [(''type'', JStr (tf_type f))] @
        (if tf_name f = [] then [] else [(''name'', JStr (tf_name f))]) @
        (case tf_strict f of None \<Rightarrow> [] | Some b \<Rightarrow> [(''strict'', JBool b)])
      in case tf_schema f of
           RawEmpty \<Rightarrow> Some (JObj front)
         | RawJson j \<Rightarrow> Some (JObj (front @ [(''schema'', j)]))
         | RawBad s \<Rightarrow> None)"

definition mustMarshalDefaultResponseTextConfig :: raw where
  "mustMarshalDefaultResponseTextConfig = RawJson (JObj [(''format'', JObj [(''type'', JStr ''text'')])])"

definition MarshalResponseTextConfig :: "text_config \<Rightarrow> raw" where
  "MarshalResponseTextConfig config =
     (case text_format_json config of
        None \<Rightarrow> mustMarshalDefaultResponseTextConfig
      | Some f \<Rightarrow> RawJson (JObj [(''format'', f)]))"

definition InferResponseTextConfigFromRequestJSON :: "raw \<Rightarrow> raw" where
  "InferResponseTextConfigFromRequestJSON request =
     (if request = RawEmpty then mustMarshalDefaultResponseTextConfig
      else case unmarshal_raw_map request of
        None \<Rightarrow> mustMarshalDefaultResponseTextConfig
      | Some payload \<Rightarrow>
          (case ParseResponseTextConfig (raw_entry payload ''text'') of
             Inl e \<Rightarrow> mustMarshalDefaultResponseTextConfig
           | Inr config \<Rightarrow> MarshalResponseTextConfig config))"

section \<open>Structured output\<close>

definition unwrapStructuredOutputJSONFence :: "string \<Rightarrow> string option" where
  "unwrapStructuredOutputJSONFence r =
     (if \<not> has_prefix r json_fence \<or> \<not> has_suffix r json_fence then None
      else
        let body = trim_prefix r json_fence in
        case index_of body newline of
          None \<Rightarrow> None
        | Some newlineIdx \<Rightarrow>
            let info = trim_space (rev (dropWhile (\<lambda>c. c = CHR 13) (rev (take newlineIdx body)))) in
            if info \<noteq> [] \<and> \<not> equal_fold info ''json'' then None
            else
              let content = trim_space (trim_suffix (drop (newlineIdx + 1) body) json_fence) in
              if content = [] then None else Some content)"

definition NormalizeStructuredOutputJSONText :: "string \<Rightarrow> string" where
  "NormalizeStructuredOutputJSONText r =
     (let trimmed = trim_space r in
      if trimmed = [] then []
      else if read_json trimmed \<noteq> None then trimmed
      else case unwrapStructuredOutputJSONFence trimmed of
        Some unwrapped \<Rightarrow> if read_json unwrapped \<noteq> None then unwrapped else trimmed
      | None \<Rightarrow> trimmed)"

text \<open>Decoding into \<^verbatim>\<open>any\<close> with \<^verbatim>\<open>UseNumber\<close>: number literals are kept, objects become maps.\<close>

fun use_number :: "json \<Rightarrow> json" and use_number_list :: "json list \<Rightarrow> json list"
  and use_number_fields :: "(string \<times> json) list \<Rightarrow> (string \<times> json) list" where
  "use_number (JArr js) = JArr (use_number_list js)"
| "use_number (JObj kvs) = JObj (gomap_of (use_number_fields kvs))"
| "use_number JNull = JNull"
| "use_number (JBool b) = JBool b"
| "use_number (JNum t) = JNum t"
| "use_number (JStr s) = JStr s"
| "use_number_list [] = []"
| "use_number_list (j # js) = use_number j # use_number_list js"
| "use_number_fields [] = []"
| "use_number_fields (kv # kvs) = (fst kv, use_number (snd kv)) # use_number_fields kvs"

definition decodeStructuredOutput :: "string \<Rightarrow> json res" where
  "decodeStructuredOutput outputText =
     (let trimmed = NormalizeStructuredOutputJSONText outputText in
      if trimmed = [] then Inl (InvalidResponseError ''structured output response was empty'')
      else case read_json trimmed of
        None \<Rightarrow> Inl (InvalidResponseError ''structured output response was not valid JSON'')
      | Some v \<Rightarrow> Inr (use_number v))"

definition validateJSONObjectOutput :: "string \<Rightarrow> unit res" where
  "validateJSONObjectOutput outputText =
     res_bind (decodeStructuredOutput outputText) (\<lambda>value.
       case value of JObj m \<Rightarrow> Inr ()
       | _ \<Rightarrow> Inl (InvalidResponseError ''json_object responses must decode to a JSON object''))"

text \<open>The schema was decoded without \<^verbatim>\<open>UseNumber\<close>, the value with it: numbers are compared by their spelling.\<close>

definition valuesEqual :: "json \<Rightarrow> json \<Rightarrow> bool" where
  "valuesEqual left right \<longleftrightarrow> json_text left = json_text right"

text \<open>\<^verbatim>\<open>json.Number.Float64\<close> followed by the comparison with \<^verbatim>\<open>math.Trunc\<close>.\<close>

definition literal_integral :: "string \<Rightarrow> bool" where
  "literal_integral t =
     (case num_parts t of (neg, mant, e10) \<Rightarrow>
        (case dec_ratio mant e10 of (a, b) \<Rightarrow>
           (case round_f64 a b of
              None \<Rightarrow> False
            | Some (m, e) \<Rightarrow> e \<ge> 0 \<or> m mod 2 ^ nat (- e) = 0)))"

fun isJSONInteger :: "json \<Rightarrow> bool" where
  "isJSONInteger (JNum t) = literal_integral t"
| "isJSONInteger _ = False"

fun isJSONNumber :: "json \<Rightarrow> bool" where
  "isJSONNumber (JNum t) = True"
| "isJSONNumber _ = False"

abbreviation bad_output :: "string \<Rightarrow> 'a res" where
  "bad_output message \<equiv> Inl (InvalidResponseError message)"

definition validateEnum :: "json \<Rightarrow> json gomap \<Rightarrow> string \<Rightarrow> unit res" where
  "validateEnum value schema path =
     (case map_of schema ''enum'' of
        None \<Rightarrow> Inr ()
      | Some (JArr candidates) \<Rightarrow>
          if list_ex (\<lambda>c. valuesEqual c value) candidates then Inr ()
          else bad_output (path @ '' must match one of the configured enum values'')
      | Some _ \<Rightarrow> bad_output (path @ ''.enum must be an array''))"

fun validateRequired :: "json gomap \<Rightarrow> json list \<Rightarrow> string \<Rightarrow> unit res" where
  "validateRequired obj [] path = Inr ()"
| "validateRequired obj (entry # entries) path =
     (let name = trim_space (as_str entry) in
      if name = [] then bad_output (path @ ''.required must contain strings'')
      else if map_of obj name = None then bad_output (path @ ''.'' @ name @ '' is required'')
      else validateRequired obj entries path)"

definition validateAdditional :: "json gomap \<Rightarrow> json gomap \<Rightarrow> json gomap \<Rightarrow> string \<Rightarrow> unit res" where
  "validateAdditional obj properties schema path =
     (case map_of schema ''additionalProperties'' of
        None \<Rightarrow> Inr ()
      | Some (JBool additional) \<Rightarrow>
          if additional then Inr ()
          else (case find (\<lambda>k. map_of properties k = None) (map fst obj) of
                  None \<Rightarrow> Inr ()
                | Some key \<Rightarrow> bad_output (path @ ''.'' @ key @ '' is not allowed''))
      | Some _ \<Rightarrow> bad_output (path @ ''.additionalProperties must be a boolean''))"

function validateValue :: "json \<Rightarrow> json gomap \<Rightarrow> string \<Rightarrow> unit res"
  and validateProperties :: "json gomap \<Rightarrow> json gomap \<Rightarrow> string \<Rightarrow> unit res"
  and validateItems :: "json list \<Rightarrow> json gomap \<Rightarrow> string \<Rightarrow> nat \<Rightarrow> unit res" where
  "validateValue value schema path =
     (let typeName = trim_space (str_entry schema ''type'') in
      if typeName = [] then bad_output (path @ ''.type is required'')
      else res_bind (validateEnum value schema path) (\<lambda>_.
        if typeName = ''object'' then
          (case value of
             JObj obj \<Rightarrow>
               res_bind (case map_of schema ''properties'' of
                           None \<Rightarrow> Inr []
                         | Some (JObj props) \<Rightarrow> Inr props
                         | Some _ \<Rightarrow> bad_output (path @ ''.properties must be an object'')) (\<lambda>properties.
               res_bind (case map_of schema ''required'' of
                           None \<Rightarrow> Inr ()
                         | Some (JArr required) \<Rightarrow> validateRequired obj required path
                         | Some _ \<Rightarrow> bad_output (path @ ''.required must be an array'')) (\<lambda>_.
               res_bind (validateAdditional obj properties schema path) (\<lambda>_.
               case map_of schema ''properties'' of
                 Some (JObj props) \<Rightarrow> validateProperties obj props path
               | _ \<Rightarrow> Inr ())))
           | _ \<Rightarrow> bad_output (path @ '' must be an object''))
        else if typeName = ''array'' then
          (case value of
             JArr items \<Rightarrow>
               (case map_of schema ''items'' of
                  None \<Rightarrow> bad_output (path @ ''.items is required'')
                | Some (JObj itemSchema) \<Rightarrow> validateItems items itemSchema path 0
                | Some _ \<Rightarrow> bad_output (path @ ''.items must be an object''))
           | _ \<Rightarrow> bad_output (path @ '' must be an array''))
        else if typeName = ''string'' then
          (case value of JStr s \<Rightarrow> Inr () | _ \<Rightarrow> bad_output (path @ '' must be a string''))
        else if typeName = ''number'' then
          (if isJSONNumber value then Inr () else bad_output (path @ '' must be a number''))
        else if typeName = ''integer'' then
          (if isJSONInteger value then Inr () else bad_output (path @ '' must be an integer''))
        else if typeName = ''boolean'' then
          (case value of JBool b \<Rightarrow> Inr () | _ \<Rightarrow> bad_output (path @ '' must be a boolean''))
        else if typeName = ''null'' then
          (if value = JNull then Inr () else bad_output (path @ '' must be null''))
        else bad_output (''unsupported schema type '' @ go_quote typeName)))"
| "validateProperties obj [] path = Inr ()"
| "validateProperties obj ((name, child) # props) path =
     (case map_of obj name of
        None \<Rightarrow> validateProperties obj props path
      | Some childValue \<Rightarrow>
          (case child of
             JObj childSchema \<Rightarrow>
               res_bind (validateValue childValue childSchema (path @ ''.'' @ name)) (\<lambda>_. validateProperties obj props path)
           | _ \<Rightarrow> bad_output (path @ ''.properties.'' @ name @ '' must be an object'')))"
| "validateItems [] itemSchema path idx = Inr ()"
| "validateItems (v # vs) itemSchema path idx =
     res_bind (validateValue v itemSchema (path @ ''['' @ nat_text idx @ '']'')) (\<lambda>_.
       validateItems vs itemSchema path (Suc idx))"
  by pat_completeness auto
termination
  by (relation "measures [\<lambda>x. case x of Inl (v, s, p) \<Rightarrow> size (JObj s) | Inr (Inl (obj, s, p)) \<Rightarrow> size (JObj s)
        | Inr (Inr (vs, s, p, i)) \<Rightarrow> size (JObj s),
      \<lambda>x. case x of Inl _ \<Rightarrow> 0 | Inr (Inl _) \<Rightarrow> 0 | Inr (Inr (vs, s, p, i)) \<Rightarrow> Suc (length vs)]")
    (auto dest!: map_of_size)

declare validateValue.simps [simp del]

definition validateJSONSchemaOutput :: "raw \<Rightarrow> string \<Rightarrow> unit res" where
  "validateJSONSchemaOutput schemaRaw outputText =
     res_bind (decodeStructuredOutput outputText) (\<lambda>value.
       case unmarshal_any_map schemaRaw of
         None \<Rightarrow> Inl (schemaError ''text.format.schema must be valid JSON'')
       | Some schema \<Rightarrow> validateValue value schema ''$'')"

section \<open>What a schema means\<close>

definition schema_type :: "json gomap \<Rightarrow> string" where
  "schema_type schema = trim_space (str_entry schema ''type'')"

definition schema_properties :: "json gomap \<Rightarrow> json gomap" where
  "schema_properties schema = (case map_of schema ''properties'' of Some (JObj props) \<Rightarrow> props | _ \<Rightarrow> [])"

definition schema_required :: "json gomap \<Rightarrow> string list" where
  "schema_required schema =
     (case map_of schema ''required'' of Some (JArr es) \<Rightarrow> map (\<lambda>e. trim_space (as_str e)) es | _ \<Rightarrow> [])"

definition schema_closed :: "json gomap \<Rightarrow> bool" where
  "schema_closed schema \<longleftrightarrow> map_of schema ''additionalProperties'' = Some (JBool False)"

definition enum_allows :: "json gomap \<Rightarrow> json \<Rightarrow> bool" where
  "enum_allows schema v \<longleftrightarrow>
     (case map_of schema ''enum'' of Some (JArr cs) \<Rightarrow> list_ex (\<lambda>c. valuesEqual c v) cs | _ \<Rightarrow> True)"

text \<open>The meaning of a schema, independently of the order of the checks.\<close>

inductive conforms :: "json \<Rightarrow> json gomap \<Rightarrow> bool" where
  object: "schema_type s = ''object'' \<Longrightarrow> enum_allows s (JObj obj) \<Longrightarrow>
    \<forall>name \<in> set (schema_required s). map_of obj name \<noteq> None \<Longrightarrow>
    schema_closed s \<longrightarrow> (\<forall>k \<in> fst ` set obj. map_of (schema_properties s) k \<noteq> None) \<Longrightarrow>
    \<forall>(name, child) \<in> set (schema_properties s). \<forall>v. map_of obj name = Some v \<longrightarrow>
      (\<exists>cs. child = JObj cs \<and> conforms v cs) \<Longrightarrow>
    conforms (JObj obj) s"
| array: "schema_type s = ''array'' \<Longrightarrow> enum_allows s (JArr vs) \<Longrightarrow> map_of s ''items'' = Some (JObj cs) \<Longrightarrow>
    \<forall>v \<in> set vs. conforms v cs \<Longrightarrow> conforms (JArr vs) s"
| string: "schema_type s = ''string'' \<Longrightarrow> enum_allows s (JStr x) \<Longrightarrow> conforms (JStr x) s"
| number: "schema_type s = ''number'' \<Longrightarrow> enum_allows s (JNum t) \<Longrightarrow> conforms (JNum t) s"
| integer: "schema_type s = ''integer'' \<Longrightarrow> enum_allows s (JNum t) \<Longrightarrow> literal_integral t \<Longrightarrow> conforms (JNum t) s"
| boolean: "schema_type s = ''boolean'' \<Longrightarrow> enum_allows s (JBool b) \<Longrightarrow> conforms (JBool b) s"
| null: "schema_type s = ''null'' \<Longrightarrow> enum_allows s JNull \<Longrightarrow> conforms JNull s"

inductive_simps conforms_object: "conforms (JObj obj) s"
inductive_simps conforms_array: "conforms (JArr vs) s"
inductive_simps conforms_string: "conforms (JStr x) s"
inductive_simps conforms_number: "conforms (JNum t) s"
inductive_simps conforms_boolean: "conforms (JBool b) s"
inductive_simps conforms_null: "conforms JNull s"

lemmas conforms_simps = conforms_object conforms_array conforms_string conforms_number conforms_boolean conforms_null

subsection \<open>Supported schemas\<close>

lemma res_bind_unit [simp]: "res_bind m (\<lambda>_. f) = Inr y \<longleftrightarrow> (\<exists>x. m = Inr x) \<and> f = Inr y"
  by (auto simp: res_bind_Inr_iff)

lemma unit_Inr: "(\<exists>x :: unit. m = Inr x) \<longleftrightarrow> m = Inr ()"
  by auto

lemma supportedProperties_iff:
  "supportedProperties props path = Inr () \<longleftrightarrow>
     (\<forall>(name, child) \<in> set props. \<exists>cs. child = JObj cs \<and> validateSupportedNode cs (path @ ''.properties.'' @ name) = Inr ())"
proof (induction props)
  case (Cons p props)
  then show ?case by (cases p; cases "snd p") (auto simp: unit_Inr)
qed simp

text \<open>What remains of a supported node, apart from its keys and its children.\<close>

definition object_shape :: "json gomap \<Rightarrow> bool" where
  "object_shape s \<longleftrightarrow> \<not> additionalMalformed s \<and>
     (case map_of s ''properties'' of None \<Rightarrow> True | Some (JObj ps) \<Rightarrow> True | Some _ \<Rightarrow> False) \<and>
     (case map_of s ''required'' of None \<Rightarrow> True | Some (JArr es) \<Rightarrow> list_all (\<lambda>e. trim_space (as_str e) \<noteq> []) es
      | Some _ \<Rightarrow> False)"

definition node_shape :: "json gomap \<Rightarrow> bool" where
  "node_shape s \<longleftrightarrow>
     schema_type s \<in> set [''object'', ''array'', ''string'', ''number'', ''integer'', ''boolean'', ''null''] \<and>
     \<not> enumMalformed s \<and> (schema_type s = ''object'' \<longrightarrow> object_shape s) \<and>
     (schema_type s = ''array'' \<longrightarrow> (\<exists>cs. map_of s ''items'' = Some (JObj cs)))"

lemma supportedRequired_named:
  "supportedRequired properties es path = Inr () \<Longrightarrow> list_all (\<lambda>e. trim_space (as_str e) \<noteq> []) es"
  by (induction es) (auto simp: Let_def split: if_splits)

lemma supported_object_shape:
  assumes "\<not> additionalMalformed s"
    and "res_bind (case map_of s ''properties'' of
           None \<Rightarrow> Inr []
         | Some (JObj props) \<Rightarrow> res_bind (supportedProperties props path) (\<lambda>_. Inr props)
         | Some _ \<Rightarrow> Inl (schemaError (path @ ''.properties must be an object''))) (\<lambda>properties.
       case map_of s ''required'' of
         None \<Rightarrow> Inr ()
       | Some (JArr required) \<Rightarrow> supportedRequired properties required path
       | Some _ \<Rightarrow> Inl (schemaError (path @ ''.required must be an array of strings''))) = Inr ()"
  shows "object_shape s \<and> supportedProperties (schema_properties s) path = Inr ()"
proof -
  obtain properties where p: "(case map_of s ''properties'' of
           None \<Rightarrow> Inr []
         | Some (JObj props) \<Rightarrow> res_bind (supportedProperties props path) (\<lambda>_. Inr props)
         | Some _ \<Rightarrow> Inl (schemaError (path @ ''.properties must be an object''))) = Inr properties"
    and r: "(case map_of s ''required'' of
         None \<Rightarrow> Inr ()
       | Some (JArr required) \<Rightarrow> supportedRequired properties required path
       | Some _ \<Rightarrow> Inl (schemaError (path @ ''.required must be an array of strings''))) = Inr ()"
    using assms(2) unfolding res_bind_Inr_iff by blast
  have "case map_of s ''required'' of None \<Rightarrow> True | Some (JArr es) \<Rightarrow> list_all (\<lambda>e. trim_space (as_str e) \<noteq> []) es
      | Some _ \<Rightarrow> False"
    using r by (auto dest: supportedRequired_named split: option.splits json.splits)
  moreover have "case map_of s ''properties'' of None \<Rightarrow> True | Some (JObj ps) \<Rightarrow> True | Some _ \<Rightarrow> False"
    "supportedProperties (schema_properties s) path = Inr ()"
    using p by (auto simp: schema_properties_def unit_Inr split: option.splits json.splits)
  ultimately show ?thesis using assms(1) by (simp add: object_shape_def)
qed

lemma supported_shape:
  assumes "validateSupportedNode s path = Inr ()"
  shows "node_shape s \<and> (schema_type s = ''object'' \<longrightarrow> supportedProperties (schema_properties s) path = Inr ()) \<and>
    (\<forall>cs. schema_type s = ''array'' \<and> map_of s ''items'' = Some (JObj cs) \<longrightarrow>
       validateSupportedNode cs (path @ ''.items'') = Inr ())"
proof -
  note a = assms [unfolded validateSupportedNode.simps [of s path] Let_def schema_type_def [symmetric]]
  have t: "schema_type s \<noteq> []"
    "schema_type s \<in> set [''object'', ''array'', ''string'', ''number'', ''integer'', ''boolean'', ''null'']"
    using a by (simp_all split: if_splits)
  have f: "find (\<lambda>k. k \<notin> set (schemaAllowedKeys (schema_type s))) (map fst s) = None"
    using a t by (simp split: option.splits if_splits)
  have e: "\<not> enumMalformed s" using a t f by (simp split: if_splits)
  consider "schema_type s = ''object''" | "schema_type s = ''array''" | "schema_type s \<noteq> ''object''" "schema_type s \<noteq> ''array''"
    by blast
  then show ?thesis
  proof cases
    case 1
    with a f e have "\<not> additionalMalformed s" by (simp split: if_splits)
    with a f e 1 have "object_shape s \<and> supportedProperties (schema_properties s) path = Inr ()"
      by (intro supported_object_shape) simp_all
    with 1 t e show ?thesis by (simp add: node_shape_def)
  next
    case 2
    with a f e obtain cs where "map_of s ''items'' = Some (JObj cs)" "validateSupportedNode cs (path @ ''.items'') = Inr ()"
      by (simp split: option.splits json.splits)
    with 2 t e show ?thesis by (simp add: node_shape_def)
  next
    case 3
    with t e show ?thesis by (simp add: node_shape_def)
  qed
qed

definition supported :: "json gomap \<Rightarrow> bool" where
  "supported s \<longleftrightarrow> (\<exists>path. validateSupportedNode s path = Inr ())"

lemma supported_properties:
  assumes "supported s" "schema_type s = ''object''" "(name, child) \<in> set (schema_properties s)"
  obtains cs where "child = JObj cs" "supported cs"
proof -
  obtain path where "validateSupportedNode s path = Inr ()" using assms(1) by (auto simp: supported_def)
  with supported_shape assms(2) have "supportedProperties (schema_properties s) path = Inr ()" by blast
  with assms(3) that show thesis by (fastforce simp: supportedProperties_iff supported_def)
qed

lemma supported_items:
  assumes "supported s" "schema_type s = ''array''"
  obtains cs where "map_of s ''items'' = Some (JObj cs)" "supported cs"
  using assms supported_shape [of s] that unfolding supported_def node_shape_def by blast

lemma supported_node: "supported s \<Longrightarrow> node_shape s"
  using supported_shape by (auto simp: supported_def)

subsection \<open>The validator decides conformance\<close>

lemma items_conform:
  assumes "\<And>v path. validateValue v cs path = Inr () \<longleftrightarrow> conforms v cs"
  shows "validateItems vs cs path i = Inr () \<longleftrightarrow> (\<forall>v \<in> set vs. conforms v cs)"
  by (induction vs arbitrary: i) (simp_all add: unit_Inr assms)

lemma properties_conform:
  assumes "\<forall>(name, child) \<in> set props. \<exists>cs. child = JObj cs \<and>
      (\<forall>v path. validateValue v cs path = Inr () \<longleftrightarrow> conforms v cs)"
  shows "validateProperties obj props path = Inr () \<longleftrightarrow>
    (\<forall>(name, child) \<in> set props. \<forall>v. map_of obj name = Some v \<longrightarrow> (\<exists>cs. child = JObj cs \<and> conforms v cs))"
  using assms
proof (induction props)
  case (Cons p props)
  obtain name cs where p: "p = (name, JObj cs)" "\<And>v path. validateValue v cs path = Inr () \<longleftrightarrow> conforms v cs"
    using Cons.prems by auto
  show ?case using Cons by (cases "map_of obj name") (simp_all add: p unit_Inr)
qed simp

lemma required_iff:
  assumes "list_all (\<lambda>e. trim_space (as_str e) \<noteq> []) es"
  shows "validateRequired obj es path = Inr () \<longleftrightarrow> (\<forall>e \<in> set es. map_of obj (trim_space (as_str e)) \<noteq> None)"
  using assms by (induction es) (auto simp: Let_def)

lemma additional_iff:
  assumes "\<not> additionalMalformed s"
  shows "validateAdditional obj props s path = Inr () \<longleftrightarrow>
    (schema_closed s \<longrightarrow> (\<forall>k \<in> fst ` set obj. map_of props k \<noteq> None))"
  using assms unfolding validateAdditional_def schema_closed_def additionalMalformed_def
  by (auto simp: find_None_iff find_Some_iff split: option.splits json.splits)

lemma enum_iff: "\<not> enumMalformed s \<Longrightarrow> validateEnum v s path = Inr () \<longleftrightarrow> enum_allows s v"
  by (auto simp: validateEnum_def enum_allows_def enumMalformed_def split: option.splits json.splits list.splits)

lemma entry_size: "(k, v) \<in> set kvs \<Longrightarrow> size v < size (JObj kvs)"
  by (induction kvs) auto

lemma object_conforms:
  assumes "object_shape s" "schema_type s = ''object''" "\<not> enumMalformed s"
    and "\<forall>(name, child) \<in> set (schema_properties s). \<exists>cs. child = JObj cs \<and>
      (\<forall>v path. validateValue v cs path = Inr () \<longleftrightarrow> conforms v cs)"
  shows "validateValue v s path = Inr () \<longleftrightarrow> conforms v s"
proof (cases v)
  case (JObj obj)
  note shape = assms(1) [unfolded object_shape_def]
  have p: "(case map_of s ''properties'' of None \<Rightarrow> Inr [] | Some (JObj props) \<Rightarrow> Inr props
      | Some _ \<Rightarrow> bad_output (path @ ''.properties must be an object'')) = Inr (schema_properties s)"
    using shape by (auto simp: schema_properties_def split: option.splits json.splits)
  have r: "(case map_of s ''required'' of None \<Rightarrow> Inr () | Some (JArr required) \<Rightarrow> validateRequired obj required path
      | Some _ \<Rightarrow> bad_output (path @ ''.required must be an array'')) = Inr () \<longleftrightarrow>
      (\<forall>name \<in> set (schema_required s). map_of obj name \<noteq> None)"
    using shape by (auto simp: schema_required_def required_iff split: option.splits json.splits)
  have q: "(case map_of s ''properties'' of Some (JObj props) \<Rightarrow> validateProperties obj props path | _ \<Rightarrow> Inr ()) = Inr () \<longleftrightarrow>
      (\<forall>(name, child) \<in> set (schema_properties s). \<forall>v. map_of obj name = Some v \<longrightarrow> (\<exists>cs. child = JObj cs \<and> conforms v cs))"
    using shape assms(4) properties_conform [of "schema_properties s" obj path]
    by (auto simp: schema_properties_def split: option.splits json.splits)
  show ?thesis
    unfolding JObj validateValue.simps [of "JObj obj" s path] Let_def schema_type_def [symmetric] conforms_object
    using assms(2) shape by (simp add: unit_Inr p r q enum_iff [OF assms(3)] additional_iff)
qed (use assms(2) in \<open>simp_all add: validateValue.simps [of _ s path] Let_def schema_type_def [symmetric] conforms_simps\<close>)

lemma array_conforms:
  assumes "map_of s ''items'' = Some (JObj cs)" "schema_type s = ''array''" "\<not> enumMalformed s"
    and "\<And>v path. validateValue v cs path = Inr () \<longleftrightarrow> conforms v cs"
  shows "validateValue v s path = Inr () \<longleftrightarrow> conforms v s"
  unfolding validateValue.simps [of v s path] Let_def schema_type_def [symmetric]
  by (cases v) (use assms(2) in \<open>simp_all add: conforms_simps unit_Inr enum_iff [OF assms(3)] assms(1) items_conform [OF assms(4)]\<close>)

lemma leaf_conforms:
  assumes "node_shape s" "schema_type s \<noteq> ''object''" "schema_type s \<noteq> ''array''"
  shows "validateValue v s path = Inr () \<longleftrightarrow> conforms v s"
proof -
  have e: "\<not> enumMalformed s" and t: "schema_type s \<in> set [''string'', ''number'', ''integer'', ''boolean'', ''null'']"
    using assms by (auto simp: node_shape_def)
  show ?thesis
    unfolding validateValue.simps [of v s path] Let_def schema_type_def [symmetric]
    by (cases v) (use t in \<open>auto simp: conforms_simps unit_Inr enum_iff [OF e]\<close>)
qed

lemma validator_decides:
  "supported s \<Longrightarrow> validateValue v s path = Inr () \<longleftrightarrow> conforms v s"
proof (induction "size (JObj s)" arbitrary: s v path rule: less_induct)
  case less
  note shape = supported_node [OF less.prems, unfolded node_shape_def]
  consider (obj) "schema_type s = ''object''" | (arr) "schema_type s = ''array''"
    | (leaf) "schema_type s \<noteq> ''object''" "schema_type s \<noteq> ''array''" by blast
  then show ?case
  proof cases
    case obj
    have "\<exists>cs. child = JObj cs \<and> (\<forall>v path. validateValue v cs path = Inr () \<longleftrightarrow> conforms v cs)"
      if entry: "(name, child) \<in> set (schema_properties s)" for name child
    proof -
      obtain cs where cs: "child = JObj cs" "supported cs" using supported_properties [OF less.prems obj entry] by blast
      obtain props where props: "map_of s ''properties'' = Some (JObj props)" "(name, child) \<in> set props"
        using entry by (cases "map_of s ''properties''") (auto simp: schema_properties_def split: json.splits)
      have "size (JObj cs) < size (JObj props)" using props(2) cs(1) entry_size by blast
      also have "\<dots> < size (JObj s)" using props(1) by (rule map_of_size)
      finally show ?thesis using less.hyps cs by blast
    qed
    then show ?thesis using shape obj by (intro object_conforms) auto
  next
    case arr
    obtain cs where cs: "map_of s ''items'' = Some (JObj cs)" "supported cs" using supported_items [OF less.prems arr] by blast
    have "\<not> enumMalformed s" using shape by simp
    then show ?thesis using less.hyps [OF map_of_size [OF cs(1)] cs(2)] by (rule array_conforms [OF cs(1) arr])
  next
    case leaf
    then show ?thesis using supported_node [OF less.prems] by (rule leaf_conforms [rotated])
  qed
qed

section \<open>Parsed configurations\<close>

lemma parsed_cases:
  assumes "ParseResponseTextConfig r = Inr cfg"
  obtains (default) "cfg = DefaultResponseTextConfig"
  | (plain) t where "t = ''text'' \<or> t = ''json_object''"
      "cfg = \<lparr>tf_type = t, tf_name = [], tf_strict = None, tf_schema = RawEmpty\<rparr>"
  | (schema) name strict kvs s where
      "cfg = \<lparr>tf_type = ''json_schema'', tf_name = trim_space name, tf_strict = strict, tf_schema = RawJson (JObj kvs)\<rparr>"
      "unmarshal_any_map (RawJson (JObj kvs)) = Some s" "validateSupportedNode s ''$'' = Inr ()"
proof -
  consider "cfg = DefaultResponseTextConfig" | r' where "parseResponseTextFormat r' = Inr cfg"
  proof (cases "raw_absent r")
    case True
    then show ?thesis using assms that(1) by (simp add: ParseResponseTextConfig_def)
  next
    case False
    then obtain payload where p: "unmarshal_raw_map r = Some payload"
      using assms by (cases "unmarshal_raw_map r") (simp_all add: ParseResponseTextConfig_def)
    show ?thesis
    proof (cases "payload = [] \<or> raw_absent (raw_entry payload ''format'')")
      case True
      then show ?thesis using assms False p that(1)
        by (cases "find (\<lambda>k. k \<noteq> ''format'') (map fst payload)")
          (auto simp: ParseResponseTextConfig_def split: if_splits)
    next
      case present: False
      then show ?thesis using assms False p that(2)
        by (cases "find (\<lambda>k. k \<noteq> ''format'') (map fst payload)") (simp_all add: ParseResponseTextConfig_def)
    qed
  qed
  then show thesis
  proof cases
    case 1
    then show thesis by (rule default)
  next
    case (2 r')
    obtain payload where p: "unmarshal_raw_map r' = Some payload"
      using 2 by (auto simp: parseResponseTextFormat_def split: option.splits)
    obtain t where t: "formatTypeName payload = Inr t"
      using 2 p by (auto simp: parseResponseTextFormat_def res_bind_Inr_iff)
    show thesis
    proof (cases "t = ''text'' \<or> t = ''json_object''")
      case True
      then show thesis using 2 p t by (intro plain [of t]) (auto simp: parseResponseTextFormat_def res_bind_Inr_iff Let_def)
    next
      case False
      with 2 p t have t': "t = ''json_schema''" by (auto simp: parseResponseTextFormat_def split: if_splits)
      obtain name strict schema where f: "formatName payload = Inr name" "formatStrict payload = Inr strict"
        "formatSchema payload = Inr schema"
        "cfg = \<lparr>tf_type = ''json_schema'', tf_name = name, tf_strict = strict, tf_schema = schema\<rparr>"
        using 2 p t t' by (auto simp: parseResponseTextFormat_def res_bind_Inr_iff)
      have n: "trim_space name = name"
        using f(1) by (auto simp: formatName_def split: option.splits json.splits)
      obtain kvs s where "schema = RawJson (JObj kvs)" "unmarshal_any_map (RawJson (JObj kvs)) = Some s"
        "validateSupportedNode s ''$'' = Inr ()"
        using f(3) by (auto simp: formatSchema_def unit_Inr split: option.splits json.splits)
      then show thesis using f(4) n by (intro schema [of name strict kvs s]) simp_all
    qed
  qed
qed

lemma gomap_of_sorted: "sorted_wrt (<) (map fst m) \<Longrightarrow> gomap_of m = m"
  by (rule gomap_of_wf) (simp add: gomap_wf_def)

lemma schema_format_parsed:
  assumes "unmarshal_any_map (RawJson (JObj kvs)) = Some s" "validateSupportedNode s ''$'' = Inr ()"
  shows "ParseResponseTextConfig (MarshalResponseTextConfig
      \<lparr>tf_type = ''json_schema'', tf_name = trim_space name, tf_strict = strict, tf_schema = RawJson (JObj kvs)\<rparr>) =
    Inr \<lparr>tf_type = ''json_schema'', tf_name = trim_space name, tf_strict = strict, tf_schema = RawJson (JObj kvs)\<rparr>"
proof -
  let ?front = "[(''type'', JStr ''json_schema'')] @
        (if trim_space name = [] then [] else [(''name'', JStr (trim_space name))]) @
        (case strict of None \<Rightarrow> [] | Some b \<Rightarrow> [(''strict'', JBool b)]) @ [(''schema'', JObj kvs)]"
  have m: "map_of (gomap_of ?front) = map_of ?front"
    by (rule ext) (auto simp: map_of_gomap_of map_of_rev_distinct split: option.splits)
  have k: "set (map fst (gomap_of ?front)) \<subseteq> {''type'', ''name'', ''strict'', ''schema''}"
  proof
    fix x assume "x \<in> set (map fst (gomap_of ?front))"
    then have "map_of (gomap_of ?front) x \<noteq> None" by (auto simp: map_of_eq_None_iff)
    then show "x \<in> {''type'', ''name'', ''strict'', ''schema''}" unfolding m by (auto split: if_splits option.splits)
  qed
  have "parseResponseTextFormat (RawJson (JObj ?front)) =
      Inr \<lparr>tf_type = ''json_schema'', tf_name = trim_space name, tf_strict = strict, tf_schema = RawJson (JObj kvs)\<rparr>"
  proof -
    have "filter (\<lambda>x. x \<notin> set [''type'', ''name'', ''strict'', ''schema'']) (map fst (gomap_of ?front)) = []"
      using k by (subst filter_empty_conv) (auto simp only: list.set)
    then have "rejectUnsupportedKeys (gomap_of ?front) [''type'', ''name'', ''strict'', ''schema''] = Inr ()"
      unfolding rejectUnsupportedKeys_def Let_def by (simp only: if_True simp_thms)
    moreover have "formatTypeName (gomap_of ?front) = Inr ''json_schema''"
      unfolding formatTypeName_def m by (simp add: trim_space_word)
    moreover have "formatName (gomap_of ?front) = Inr (trim_space name)"
      unfolding formatName_def m by (cases strict) (simp_all add: trim_space_idem)
    moreover have "formatStrict (gomap_of ?front) = Inr strict"
      unfolding formatStrict_def m by (cases strict) simp_all
    moreover have "formatSchema (gomap_of ?front) = Inr (RawJson (JObj kvs))"
      unfolding formatSchema_def m using assms by (cases strict) auto
    ultimately show ?thesis by (simp add: parseResponseTextFormat_def Let_def)
  qed
  moreover have "MarshalResponseTextConfig
      \<lparr>tf_type = ''json_schema'', tf_name = trim_space name, tf_strict = strict, tf_schema = RawJson (JObj kvs)\<rparr> =
      RawJson (JObj [(''format'', JObj ?front)])"
    by (simp add: MarshalResponseTextConfig_def text_format_json_def)
  ultimately show ?thesis
    by (simp add: ParseResponseTextConfig_def raw_absent_def gomap_of_sorted raw_entry_def)
qed

section \<open>Normalised output\<close>

lemma trimmed_content: "unwrapStructuredOutputJSONFence s = Some t \<Longrightarrow> trim_space t = t \<and> t \<noteq> []"
  by (auto simp: unwrapStructuredOutputJSONFence_def Let_def split: if_splits option.splits)

lemma normalized_text_idem:
  "NormalizeStructuredOutputJSONText (NormalizeStructuredOutputJSONText s) = NormalizeStructuredOutputJSONText s"
proof (cases "trim_space s = [] \<or> read_json (trim_space s) \<noteq> None")
  case True
  then show ?thesis by (auto simp: NormalizeStructuredOutputJSONText_def Let_def)
next
  case False
  show ?thesis
  proof (cases "\<exists>t. unwrapStructuredOutputJSONFence (trim_space s) = Some t \<and> read_json t \<noteq> None")
    case True
    then obtain t where t: "unwrapStructuredOutputJSONFence (trim_space s) = Some t" "read_json t \<noteq> None" by blast
    then have "NormalizeStructuredOutputJSONText s = t" using False by (simp add: NormalizeStructuredOutputJSONText_def)
    then show ?thesis using t trimmed_content [OF t(1)] by (simp add: NormalizeStructuredOutputJSONText_def)
  next
    case no: False
    then have "NormalizeStructuredOutputJSONText s = trim_space s"
      using False by (auto simp: NormalizeStructuredOutputJSONText_def Let_def split: option.splits)
    moreover have "NormalizeStructuredOutputJSONText (trim_space s) = NormalizeStructuredOutputJSONText s"
      by (simp add: NormalizeStructuredOutputJSONText_def)
    ultimately show ?thesis by simp
  qed
qed

lemma schema_output_iff:
  assumes "ParseResponseTextConfig r = Inr cfg" and "tf_type cfg = ''json_schema''"
  shows "\<exists>schema. unmarshal_any_map (tf_schema cfg) = Some schema \<and>
    (\<forall>out. validateJSONSchemaOutput (tf_schema cfg) out = Inr () \<longleftrightarrow>
       (\<exists>j. read_json (NormalizeStructuredOutputJSONText out) = Some j \<and>
          NormalizeStructuredOutputJSONText out \<noteq> [] \<and> conforms (use_number j) schema))"
  using assms(1)
proof (cases rule: parsed_cases)
  case (schema name strict kvs s)
  have "supported s" using schema(3) by (auto simp: supported_def)
  then have "validateJSONSchemaOutput (tf_schema cfg) out = Inr () \<longleftrightarrow>
       (\<exists>j. read_json (NormalizeStructuredOutputJSONText out) = Some j \<and>
          NormalizeStructuredOutputJSONText out \<noteq> [] \<and> conforms (use_number j) s)" for out
    using schema(1,2) validator_decides [of s]
    by (auto simp: validateJSONSchemaOutput_def decodeStructuredOutput_def res_bind_Inr_iff Let_def
        simp del: unmarshal_any_map.simps split: option.splits)
  then show ?thesis using schema(1,2) by auto
qed (use assms(2) in \<open>auto simp: DefaultResponseTextConfig_def\<close>)

section \<open>Properties\<close>

text \<open>C25: the output of a request with a JSON schema is accepted exactly when it conforms to the schema.
  For every text configuration the shim accepts, the schema decodes, and the validator accepts an
  output exactly when the output is a JSON text (after unwrapping a code fence) whose value conforms to
  the schema, in the order-independent meaning of \<open>conforms\<close>.\<close>

theorem schema_output_conforms:
  assumes "ParseResponseTextConfig r = Inr cfg" and "tf_type cfg = ''json_schema''"
  shows "\<exists>schema. unmarshal_any_map (tf_schema cfg) = Some schema \<and>
    (\<forall>out. validateJSONSchemaOutput (tf_schema cfg) out = Inr () \<longleftrightarrow>
       (\<exists>j. read_json (NormalizeStructuredOutputJSONText out) = Some j \<and>
          NormalizeStructuredOutputJSONText out \<noteq> [] \<and> conforms (use_number j) schema))"
  using assms by (rule schema_output_iff)

text \<open>A text configuration survives storage: what the shim writes into a response for a
  configuration it accepted is parsed to the same configuration.\<close>

theorem text_config_roundtrip:
  assumes "ParseResponseTextConfig r = Inr cfg"
  shows "ParseResponseTextConfig (MarshalResponseTextConfig cfg) = Inr cfg"
  using assms
proof (cases rule: parsed_cases)
  case (schema name strict kvs s)
  then show ?thesis using schema_format_parsed by simp
qed (auto simp: DefaultResponseTextConfig_def MarshalResponseTextConfig_def text_format_json_def trim_space_word
    ParseResponseTextConfig_def raw_absent_def gomap_of_sorted raw_entry_def parseResponseTextFormat_def
    formatTypeName_def rejectUnsupportedKeys_def)

definition string_schema_config :: raw where
  "string_schema_config = RawJson (JObj [(''format'', JObj [(''type'', JStr ''json_schema''),
     (''schema'', JObj [(''type'', JStr ''string'')])])])"

definition string_schema_format :: text_format where
  "string_schema_format = \<lparr>tf_type = ''json_schema'', tf_name = [], tf_strict = None,
     tf_schema = RawJson (JObj [(''type'', JStr ''string'')])\<rparr>"

lemma string_schema_parsed: "ParseResponseTextConfig string_schema_config = Inr string_schema_format"
proof -
  have "validateSupportedNode [(''type'', JStr ''string'')] ''$'' = Inr ()"
    by (simp add: validateSupportedNode.simps str_entry_def trim_space_word schemaAllowedKeys_def enumMalformed_def)
  then have "ParseResponseTextConfig (MarshalResponseTextConfig string_schema_format) = Inr string_schema_format"
    using schema_format_parsed [of "[(''type'', JStr ''string'')]" "[(''type'', JStr ''string'')]" "[]" None]
    by (simp add: string_schema_format_def gomap_of_sorted)
  then show ?thesis
    by (simp add: string_schema_config_def string_schema_format_def MarshalResponseTextConfig_def text_format_json_def)
qed

theorem text_config_roundtrip_witness:
  "ParseResponseTextConfig (MarshalResponseTextConfig string_schema_format) = Inr string_schema_format"
  by (rule text_config_roundtrip [OF string_schema_parsed])

theorem schema_output_conforms_witness:
  "validateJSONSchemaOutput (tf_schema string_schema_format) (json_text (JStr ''ok'')) = Inr () \<and>
   validateJSONSchemaOutput (tf_schema string_schema_format) (json_text JNull) \<noteq> Inr ()"
proof -
  have v: "valid_utf8 ''ok''" by (rule valid_utf8_all_ascii) simp
  have r: "read_json (json_text (JStr ''ok'')) = Some (JStr ''ok'')" "read_json (json_text JNull) = Some JNull"
    by (rule read_json_text; simp add: v del: valid_utf8.simps)+
  have t: "trim_space (json_text (JStr ''ok'')) = json_text (JStr ''ok'')" "trim_space (json_text JNull) = json_text JNull"
    by (rule trim_space_word; simp)+
  have n: "NormalizeStructuredOutputJSONText (json_text (JStr ''ok'')) = json_text (JStr ''ok'')"
    "NormalizeStructuredOutputJSONText (json_text JNull) = json_text JNull"
    unfolding NormalizeStructuredOutputJSONText_def t Let_def r by simp_all
  have "json_text (JStr ''ok'') \<noteq> []" by simp
  moreover have c: "schema_type [(''type'', JStr ''string'')] = ''string''"
    by (simp add: schema_type_def str_entry_def trim_space_word)
  ultimately show ?thesis
    using schema_output_conforms [OF string_schema_parsed] r n
    by (auto simp: string_schema_format_def conforms_simps enum_allows_def gomap_of_sorted simp del: json_text.simps)
qed

end
