(* ===== verification/Go_Time.thy ===== *)
theory Go_Time
  imports Go_Json_Text
begin

text \<open>
  Times as the program stores them: \<^verbatim>\<open>internal/domain/time.go\<close> and \<^verbatim>\<open>formatUnixTime\<close> of the response
  service, over the parts of the package \<^verbatim>\<open>time\<close> they use: the proleptic Gregorian calendar, the layout
  \<^verbatim>\<open>RFC3339Nano\<close> for whole seconds in UTC, and its parser with the leniencies of \<^verbatim>\<open>time.Parse\<close> (an hour of
  one digit, a comma before the fraction, zone offsets up to 24:60).
\<close>

section \<open>The calendar\<close>

definition leap_year :: "int \<Rightarrow> bool" where
  "leap_year y \<longleftrightarrow> y mod 4 = 0 \<and> (y mod 100 \<noteq> 0 \<or> y mod 400 = 0)"

definition days_in :: "int \<Rightarrow> int \<Rightarrow> int" where
  "days_in y m = (if m = 2 then (if leap_year y then 29 else 28)
                  else if m = 4 \<or> m = 6 \<or> m = 9 \<or> m = 11 then 30 else 31)"

text \<open>Days from the first of January of the year 1 to that of another year, and to a date of the year.\<close>

definition days_before_year :: "int \<Rightarrow> int" where
  "days_before_year y = 365 * (y - 1) + (y - 1) div 4 - (y - 1) div 100 + (y - 1) div 400"

fun days_before_month :: "int \<Rightarrow> nat \<Rightarrow> int" where
  "days_before_month y 0 = 0"
| "days_before_month y (Suc m) = days_before_month y m + days_in y (int m + 1)"

definition unix_days :: int where
  "unix_days = 719162"

definition day_number :: "int \<Rightarrow> int \<Rightarrow> int \<Rightarrow> int" where
  "day_number y m d = days_before_year y + days_before_month y (nat (m - 1)) + (d - 1) - unix_days"

text \<open>The year of a day and the day within the year: cycles of 400, 100, 4 and 1 years.\<close>

definition year_and_day :: "int \<Rightarrow> int \<times> int" where
  "year_and_day z =
     (let a = z div 146097; r = z mod 146097;
          b = min 3 (r div 36524); r2 = r - 36524 * b;
          c = r2 div 1461; r3 = r2 mod 1461;
          e = min 3 (r3 div 365)
      in (400 * a + 100 * b + 4 * c + e + 1, r3 - 365 * e))"

fun month_and_day :: "int \<Rightarrow> int list \<Rightarrow> int \<Rightarrow> int \<times> int" where
  "month_and_day y [] d = (12, d + 1)"
| "month_and_day y (m # ms) d =
     (if d < days_in y m then (m, d + 1) else month_and_day y ms (d - days_in y m))"

definition civil :: "int \<Rightarrow> int \<times> int \<times> int" where
  "civil z = (let (y, d) = year_and_day (z + unix_days) in (y, month_and_day y [1..12] d))"

section \<open>RFC 3339\<close>

definition pad :: "nat \<Rightarrow> int \<Rightarrow> string" where
  "pad w n = replicate (w - length (int_text n)) (CHR ''0'') @ int_text n"

text \<open>\<^verbatim>\<open>FormatTime(time.Unix(n, 0).UTC())\<close>: no fraction of a second is written.\<close>

definition formatUnixTime :: "int \<Rightarrow> string" where
  "formatUnixTime n =
     (let (y, m, d) = civil (n div 86400); s = n mod 86400 in
      (if y < 0 then ''-'' @ pad 4 (- y) else pad 4 y) @ ''-'' @ pad 2 m @ ''-'' @ pad 2 d @ ''T'' @
      pad 2 (s div 3600) @ '':'' @ pad 2 (s div 60 mod 60) @ '':'' @ pad 2 (s mod 60) @ ''Z'')"

text \<open>The pieces of \<^verbatim>\<open>time.Parse(time.RFC3339Nano, s)\<close>: a number of two digits, a literal, a fraction, a zone.\<close>

definition getnum :: "bool \<Rightarrow> string \<Rightarrow> (int \<times> string) option" where
  "getnum fixed s =
     (case s of
        c1 # c2 # rest \<Rightarrow>
          if \<not> is_digit c1 then None
          else if is_digit c2 then Some (digits_value [c1, c2], rest)
          else if fixed then None else Some (digits_value [c1], c2 # rest)
      | [c1] \<Rightarrow> if is_digit c1 \<and> \<not> fixed then Some (digits_value [c1], []) else None
      | [] \<Rightarrow> None)"

definition expect :: "char \<Rightarrow> string \<Rightarrow> string option" where
  "expect c s = (case s of x # rest \<Rightarrow> if x = c then Some rest else None | [] \<Rightarrow> None)"

definition skip_fraction :: "string \<Rightarrow> string" where
  "skip_fraction s =
     (case s of
        c # d # rest \<Rightarrow> if (c = CHR ''.'' \<or> c = CHR '','') \<and> is_digit d then dropWhile is_digit (d # rest) else s
      | _ \<Rightarrow> s)"

definition zone_offset :: "string \<Rightarrow> int option" where
  "zone_offset s =
     (case s of
        [] \<Rightarrow> None
      | sign # rest \<Rightarrow>
          if s = ''Z'' then Some 0
          else if sign \<noteq> CHR ''+'' \<and> sign \<noteq> CHR ''-'' then None
          else
            Option.bind (getnum True rest) (\<lambda>(hh, r1).
            Option.bind (expect (CHR '':'') r1) (\<lambda>r2.
            Option.bind (getnum True r2) (\<lambda>(mm, r3).
            if hh > 24 \<or> mm > 60 \<or> r3 \<noteq> [] then None
            else Some ((if sign = CHR ''-'' then -1 else 1) * (hh * 3600 + mm * 60))))))"

definition parse_date :: "string \<Rightarrow> ((int \<times> int \<times> int) \<times> string) option" where
  "parse_date s =
     (if length s < 4 \<or> \<not> list_all is_digit (take 4 s) then None
      else
        Option.bind (expect (CHR ''-'') (drop 4 s)) (\<lambda>s1.
        Option.bind (getnum True s1) (\<lambda>(m, s2).
        if m \<le> 0 \<or> 12 < m then None else
        Option.bind (expect (CHR ''-'') s2) (\<lambda>s3.
        Option.bind (getnum True s3) (\<lambda>(d, s4). Some ((digits_value (take 4 s), m, d), s4))))))"

definition parse_clock :: "string \<Rightarrow> (int \<times> string) option" where
  "parse_clock s =
     Option.bind (getnum False s) (\<lambda>(h, s1).
     if 24 \<le> h then None else
     Option.bind (expect (CHR '':'') s1) (\<lambda>s2.
     Option.bind (getnum True s2) (\<lambda>(mi, s3).
     if 60 \<le> mi then None else
     Option.bind (expect (CHR '':'') s3) (\<lambda>s4.
     Option.bind (getnum True s4) (\<lambda>(sec, s5).
     if 60 \<le> sec then None else Some (h * 3600 + mi * 60 + sec, s5))))))"

definition ParseTimeUnix :: "string \<Rightarrow> int option" where
  "ParseTimeUnix str =
     Option.bind (parse_date (trim_space str)) (\<lambda>((y, m, d), s1).
     Option.bind (expect (CHR ''T'') s1) (\<lambda>s2.
     Option.bind (parse_clock s2) (\<lambda>(clock, s3).
     Option.bind (zone_offset (skip_fraction s3)) (\<lambda>offset.
     if d < 1 \<or> days_in y m < d then None
     else Some (day_number y m d * 86400 + clock - offset)))))"


section \<open>Dates\<close>

lemma capped_div:
  fixes r k :: int
  assumes "0 \<le> r" "0 < k" "r \<le> 4 * k"
  shows "0 \<le> min 3 (r div k) \<and> min 3 (r div k) \<le> 3 \<and> 0 \<le> r - k * min 3 (r div k) \<and>
    r - k * min 3 (r div k) \<le> k \<and> (min 3 (r div k) < 3 \<longrightarrow> r - k * min 3 (r div k) < k)"
proof -
  have q: "k * (r div k) + r mod k = r" "0 \<le> r mod k" "r mod k < k" using assms(2) by simp_all
  have p: "0 \<le> r div k" using assms by (simp add: pos_imp_zdiv_nonneg_iff)
  show ?thesis
  proof (cases "3 \<le> r div k")
    case True
    then have "k * 3 \<le> k * (r div k)" using assms(2) by simp
    then have "k * 3 \<le> r" using q by linarith
    moreover have m: "min 3 (r div k) = 3" using True by simp
    ultimately show ?thesis unfolding m using assms(3) by linarith
  next
    case False
    then have m: "min 3 (r div k) = r div k" by simp
    show ?thesis unfolding m using False p q by linarith
  qed
qed

lemma year_parts:
  assumes "year_and_day z = (y, d)"
  obtains a b c e r3 where "y = 400 * a + 100 * b + 4 * c + e + 1" "d = r3 - 365 * e"
    "z = 146097 * a + 36524 * b + 1461 * c + r3" "0 \<le> b" "b \<le> 3" "0 \<le> c" "c \<le> 24" "0 \<le> e" "e \<le> 3"
    "0 \<le> r3" "r3 < 1461" "b < 3 \<longrightarrow> 1461 * c + r3 < 36524" "1461 * c + r3 \<le> 36524"
    "0 \<le> d" "d \<le> 365" "e < 3 \<longrightarrow> d < 365"
proof -
  define a where "a = z div 146097"
  define r where "r = z mod 146097"
  define b where "b = min 3 (r div 36524)"
  define r2 where "r2 = r - 36524 * b"
  define c where "c = r2 div 1461"
  define r3 where "r3 = r2 mod 1461"
  define e where "e = min 3 (r3 div 365)"
  have "year_and_day z = (400 * a + 100 * b + 4 * c + e + 1, r3 - 365 * e)"
    unfolding year_and_day_def Let_def a_def r_def b_def r2_def c_def r3_def e_def by (rule refl)
  then have y: "y = 400 * a + 100 * b + 4 * c + e + 1" "d = r3 - 365 * e" using assms by simp_all
  have r: "0 \<le> r" "r < 146097" "z = 146097 * a + r" unfolding r_def a_def by simp_all
  have b: "0 \<le> b \<and> b \<le> 3 \<and> 0 \<le> r2 \<and> r2 \<le> 36524 \<and> (b < 3 \<longrightarrow> r2 < 36524)"
    unfolding r2_def b_def using r(1,2) by (intro capped_div) simp_all
  have c: "r2 = 1461 * c + r3" "0 \<le> r3" "r3 < 1461" unfolding c_def r3_def by simp_all
  then have c': "0 \<le> c" "c \<le> 24" using b by linarith+
  have e: "0 \<le> e \<and> e \<le> 3 \<and> 0 \<le> d \<and> d \<le> 365 \<and> (e < 3 \<longrightarrow> d < 365)"
    unfolding y(2) e_def using c(2,3) by (intro capped_div) simp_all
  have "z = 146097 * a + 36524 * b + 1461 * c + r3" using r(3) r2_def c(1) by simp
  then show thesis using b c c' e by (intro that [OF y]) simp_all
qed

lemma year_day_bounds:
  assumes "year_and_day z = (y, d)"
  shows "days_before_year y + d = z \<and> 0 \<le> d \<and> d < 365 + (if leap_year y then 1 else 0)"
  using assms
proof (rule year_parts)
  fix a b c e r3
  assume y: "y = 400 * a + 100 * b + 4 * c + e + 1" "d = r3 - 365 * e"
    and z: "z = 146097 * a + 36524 * b + 1461 * c + r3"
    and b: "0 \<le> b" "b \<le> 3" and c: "0 \<le> c" "c \<le> 24" and e: "0 \<le> e" "e \<le> 3"
    and r3: "0 \<le> r3" "r3 < 1461" "b < 3 \<longrightarrow> 1461 * c + r3 < 36524"
    and d: "0 \<le> d" "d \<le> 365" "e < 3 \<longrightarrow> d < 365"
  have "(y - 1) div 4 = 100 * a + 25 * b + c" "(y - 1) div 100 = 4 * a + b" "(y - 1) div 400 = a"
    using b c e unfolding y(1)
    by (intro int_div_pos_eq [where r = e] int_div_pos_eq [where r = "4 * c + e"]
        int_div_pos_eq [where r = "100 * b + 4 * c + e"]; simp)+
  then have "days_before_year y + d = z"
    unfolding days_before_year_def using y z by simp
  moreover have "leap_year y" if "d = 365"
  proof -
    have "e = 3" using that d(3) e by linarith
    then have "r3 = 1460" using that y(2) by simp
    then have full: "c = 24 \<longrightarrow> b = 3" using r3(3) b by auto
    have y4: "y = 4 * (100 * a + 25 * b + c + 1)" unfolding y(1) \<open>e = 3\<close> by simp
    show ?thesis
    proof (cases "c = 24")
      case True
      then have "y = 400 * (a + 1)" using full y4 by simp
      then show ?thesis unfolding leap_year_def by simp
    next
      case False
      then have "y mod 100 = 4 * (c + 1)" using c y4
        by (intro int_mod_pos_eq [where q = "4 * a + b"]) simp_all
      then show ?thesis using c y4 unfolding leap_year_def by simp
    qed
  qed
  ultimately show ?thesis using d(1,2) by (cases "d = 365") auto
qed

lemma year_range:
  assumes "year_and_day z = (y, d)" "- 366 \<le> z" "z < 3652059"
  shows "0 \<le> y \<and> y < 10000"
  using assms(1)
proof (rule year_parts)
  fix a b c e r3
  assume y: "y = 400 * a + 100 * b + 4 * c + e + 1" "d = r3 - 365 * e"
    and z: "z = 146097 * a + 36524 * b + 1461 * c + r3"
    and b: "0 \<le> b" "b \<le> 3" and c: "0 \<le> c" "c \<le> 24" and e: "0 \<le> e" "e \<le> 3"
    and r3: "0 \<le> r3" "r3 < 1461" "1461 * c + r3 \<le> 36524"
    and d: "0 \<le> d" "d \<le> 365" "e < 3 \<longrightarrow> d < 365"
  have a: "-1 \<le> a" "a \<le> 24" using assms(2,3) z b c r3 by linarith+
  have "0 \<le> y"
  proof (cases "a = -1")
    case True
    then have "36524 * b + 1461 * c + r3 \<ge> 145731" using assms(2) z by simp
    then have b3: "b = 3" using b r3 by linarith
    then have "1461 * c + r3 \<ge> 36159" using \<open>36524 * b + 1461 * c + r3 \<ge> 145731\<close> by simp
    then have c24: "c = 24" using c r3 by linarith
    then have "r3 \<ge> 1095" using \<open>1461 * c + r3 \<ge> 36159\<close> by simp
    then have "e = 3" using d(3) e y(2) by linarith
    then show ?thesis using y(1) True b3 c24 by simp
  next
    case False
    then show ?thesis using y(1) a b c e by linarith
  qed
  moreover have "y < 10000"
  proof (rule ccontr)
    assume "\<not> y < 10000"
    then have "a = 24" "b = 3" "c = 24" "e = 3" using y(1) a b c e by linarith+
    then show False using z y(2) d(1) assms(3) by simp
  qed
  ultimately show ?thesis by blast
qed

lemma month_loop:
  assumes "month_and_day y ms d = (m, k)" "0 \<le> d" "d < sum_list (map (days_in y) ms)"
  shows "\<exists>before after. ms = before @ m # after \<and> 1 \<le> k \<and> k \<le> days_in y m \<and>
    sum_list (map (days_in y) before) + (k - 1) = d"
  using assms
proof (induction ms arbitrary: d)
  case (Cons x ms)
  show ?case
  proof (cases "d < days_in y x")
    case True
    then show ?thesis using Cons.prems by (intro exI [of _ "[]"] exI [of _ ms]) auto
  next
    case False
    then obtain before after where "ms = before @ m # after" "1 \<le> k" "k \<le> days_in y m"
      "sum_list (map (days_in y) before) + (k - 1) = d - days_in y x"
      using Cons.prems Cons.IH [of "d - days_in y x"] by auto
    then show ?thesis by (intro exI [of _ "x # before"] exI [of _ after]) auto
  qed
qed simp

lemma days_before_month_sum: "days_before_month y n = sum_list (map (days_in y) [1..int n])"
  by (induction n) (simp_all add: upto_rec2 add.commute)

lemma upto_front: "[i..j] = before @ m # after \<Longrightarrow> before = [i..m - 1] \<and> i \<le> m \<and> m \<le> j"
proof (induction before arbitrary: i)
  case Nil
  then have "i \<le> j" by (cases "i \<le> j") simp_all
  then show ?case using Nil by (simp add: upto_rec1)
next
  case (Cons b before)
  then have "i \<le> j" by (cases "i \<le> j") simp_all
  then have "b = i" "[i + 1..j] = before @ m # after" using Cons.prems by (auto simp: upto_rec1)
  with Cons.IH [of "i + 1"] show ?case by (simp add: upto_rec1 [of i])
qed

lemma month_day_bounds:
  assumes "month_and_day y [1..12] d = (m, k)" "0 \<le> d" "d < 365 + (if leap_year y then 1 else 0)"
  shows "1 \<le> m \<and> m \<le> 12 \<and> 1 \<le> k \<and> k \<le> days_in y m \<and> days_before_month y (nat (m - 1)) + (k - 1) = d"
proof -
  have "sum_list (map (days_in y) [1..12]) = 365 + (if leap_year y then 1 else 0)"
    by (simp add: days_in_def upto_rec1)
  then obtain before after where "[1..12] = before @ m # after" "1 \<le> k" "k \<le> days_in y m"
    "sum_list (map (days_in y) before) + (k - 1) = d"
    using month_loop [OF assms(1,2)] assms(3) by auto
  with upto_front [of 1 12 before m after] show ?thesis by (auto simp: days_before_month_sum)
qed

lemma civil_day_number:
  assumes "civil z = (y, m, d)"
  shows "day_number y m d = z \<and> 1 \<le> m \<and> m \<le> 12 \<and> 1 \<le> d \<and> d \<le> days_in y m"
proof -
  obtain k where k: "year_and_day (z + unix_days) = (y, k)" "month_and_day y [1..12] k = (m, d)"
    using assms by (auto simp: civil_def Let_def split: prod.splits)
  from year_day_bounds [OF k(1)] month_day_bounds [OF k(2)] show ?thesis
    by (auto simp: day_number_def)
qed

section \<open>Reading back\<close>

lemma digits_acc_length: "0 \<le> n \<Longrightarrow> n < 10 ^ Suc w \<Longrightarrow> length (digits_acc n acc) \<le> Suc w + length acc"
proof (induction w arbitrary: n acc)
  case 0
  then show ?case by (simp add: digits_acc.simps)
next
  case (Suc w)
  show ?case
  proof (cases "n < 10")
    case True
    then show ?thesis by (simp add: digits_acc.simps)
  next
    case False
    have "n div 10 < 10 ^ Suc w" using Suc.prems by (simp add: div_less_iff_less_mult)
    then show ?thesis using Suc.IH [of "n div 10" "char_of (48 + nat (n mod 10)) # acc"] False
      by (simp add: digits_acc.simps [of n])
  qed
qed

lemma digits_value_zeros: "digits_value (replicate k (CHR ''0'') @ ds) = digits_value ds"
  by (induction k) (simp_all add: digits_value_def)

lemma pad_digits:
  assumes "0 \<le> n" "n < 10 ^ Suc w"
  shows "length (pad (Suc w) n) = Suc w" "list_all is_digit (pad (Suc w) n)" "digits_value (pad (Suc w) n) = n"
proof -
  have "length (int_text n) \<le> Suc w" using digits_acc_length [OF assms, of "[]"] assms(1) by (simp add: int_text_def)
  then show "length (pad (Suc w) n) = Suc w" by (simp add: pad_def)
  show "list_all is_digit (pad (Suc w) n)" "digits_value (pad (Suc w) n) = n"
    using int_text_digits [OF assms(1)] by (auto simp: pad_def digits_value_zeros list_all_iff is_digit_def)
qed

lemma getnum_pad: "0 \<le> n \<Longrightarrow> n < 100 \<Longrightarrow> getnum fixed (pad 2 n @ s) = Some (n, s)"
proof -
  assume "0 \<le> n" "n < 100"
  then have p: "length (pad 2 n) = 2" "list_all is_digit (pad 2 n)" "digits_value (pad 2 n) = n"
    using pad_digits [of n 1] by (simp_all add: numeral_2_eq_2)
  then obtain c1 c2 where "pad 2 n = [c1, c2]" by (auto simp: length_Suc_conv numeral_2_eq_2)
  then show ?thesis using p by (simp add: getnum_def)
qed

lemma parse_formatted_date:
  assumes "0 \<le> y" "y < 10000" "1 \<le> m" "m \<le> 12" "0 \<le> d" "d < 100"
  shows "parse_date (pad 4 y @ ''-'' @ pad 2 m @ ''-'' @ pad 2 d @ s) = Some ((y, m, d), s)"
proof -
  have p: "length (pad 4 y) = 4" "list_all is_digit (pad 4 y)" "digits_value (pad 4 y) = y"
    using pad_digits [of y 3] assms(1,2) by (simp_all add: eval_nat_numeral)
  then show ?thesis using assms(3-6) by (simp add: parse_date_def expect_def getnum_pad)
qed

lemma parse_padded_clock:
  assumes "0 \<le> h" "h < 24" "0 \<le> mi" "mi < 60" "0 \<le> sec" "sec < 60"
  shows "parse_clock (pad 2 h @ '':'' @ pad 2 mi @ '':'' @ pad 2 sec @ s) = Some (h * 3600 + mi * 60 + sec, s)"
  using assms by (simp add: parse_clock_def expect_def getnum_pad)

lemma parse_formatted_clock:
  assumes "0 \<le> t" "t < 86400"
  shows "parse_clock (pad 2 (t div 3600) @ '':'' @ pad 2 (t div 60 mod 60) @ '':'' @ pad 2 (t mod 60) @ s) = Some (t, s)"
proof -
  have h: "0 \<le> t div 3600" "t div 3600 < 24"
    using assms by (simp_all add: div_less_iff_less_mult pos_imp_zdiv_nonneg_iff)
  have "t div 3600 = t div 60 div 60" by (simp add: zdiv_zmult2_eq)
  then have "t div 3600 * 3600 + t div 60 mod 60 * 60 + t mod 60 = t"
    using div_mult_mod_eq [of "t div 60" 60] div_mult_mod_eq [of t 60] by linarith
  then show ?thesis using parse_padded_clock [OF h, of "t div 60 mod 60" "t mod 60" s] by simp
qed

text \<open>A time the shim stores reads back: for every second of the years 0 to 9999, parsing the RFC 3339
  text that is written for a Unix time gives that Unix time.\<close>

theorem unix_time_roundtrip:
  assumes "- 62167219200 \<le> n" and "n < 253402300800"
  shows "ParseTimeUnix (formatUnixTime n) = Some n"
proof -
  obtain y m d where c: "civil (n div 86400) = (y, m, d)" by (cases "civil (n div 86400)") auto
  note b = civil_day_number [OF c]
  have "d \<le> 31" using b by (auto simp: days_in_def split: if_splits)
  obtain k where k: "year_and_day (n div 86400 + unix_days) = (y, k)"
    using c by (auto simp: civil_def Let_def split: prod.splits)
  have "- 366 \<le> n div 86400 + unix_days" "n div 86400 + unix_days < 3652059"
    using zdiv_mono1 [OF assms(1), of 86400] assms(2) by (simp_all add: unix_days_def div_less_iff_less_mult)
  then have y: "0 \<le> y" "y < 10000" using year_range [OF k] by blast+
  let ?rest = "''T'' @ pad 2 (n mod 86400 div 3600) @ '':'' @ pad 2 (n mod 86400 div 60 mod 60) @ '':'' @
    pad 2 (n mod 86400 mod 60) @ ''Z''"
  have f: "formatUnixTime n = pad 4 y @ ''-'' @ pad 2 m @ ''-'' @ pad 2 d @ ?rest"
    using c y(1) by (simp add: formatUnixTime_def Let_def)
  have t: "trim_space (formatUnixTime n) = formatUnixTime n"
  proof (rule trim_space_word)
    obtain x xs where x: "pad 4 y = x # xs" "is_digit x"
      using pad_digits [of y 3] y by (cases "pad 4 y") (auto simp: eval_nat_numeral)
    show "formatUnixTime n \<noteq> []" "33 \<le> byte (hd (formatUnixTime n))" "byte (hd (formatUnixTime n)) < 127"
      using x by (auto simp: f is_digit_def)
    show "33 \<le> byte (last (formatUnixTime n))" "byte (last (formatUnixTime n)) < 127"
      by (simp_all add: f)
  qed
  have "parse_clock (pad 2 (n mod 86400 div 3600) @ '':'' @ pad 2 (n mod 86400 div 60 mod 60) @ '':'' @
      pad 2 (n mod 86400 mod 60) @ ''Z'') = Some (n mod 86400, ''Z'')"
    by (rule parse_formatted_clock) simp_all
  moreover have "parse_date (formatUnixTime n) = Some ((y, m, d), ?rest)"
    unfolding f using y b \<open>d \<le> 31\<close> by (intro parse_formatted_date) auto
  ultimately show ?thesis
    using b unfolding ParseTimeUnix_def t by (simp add: expect_def skip_fraction_def zone_offset_def)
qed

theorem unix_time_roundtrip_witness: "ParseTimeUnix (formatUnixTime 951782400) = Some 951782400"
  by (rule unix_time_roundtrip) simp_all

end
