(* ===== verification/Response_Model.thy ===== *)
theory Response_Model
  imports Response_Text Go_Time Response_Store
begin

text \<open>
  The response resource: \<^verbatim>\<open>Response\<close> of \<^verbatim>\<open>internal/domain/models.go\<close>, its construction and its reading
  from storage (\<^verbatim>\<open>response.go\<close>), its printed form (\<^verbatim>\<open>response_json.go\<close>), the parsing of an upstream
  response (\<^verbatim>\<open>response_parse.go\<close>) and the fields a response takes from its request (\<^verbatim>\<open>response_surface.go\<close>).

  A pointer is an option, a conversation reference is its identifier, \<^verbatim>\<open>nil\<close> metadata is \<open>None\<close>; an output
  list that is empty is printed as the empty array. Trimming and copying a raw message does not
  change what it denotes.
\<close>

section \<open>The response resource\<close>

record response =
  rp_id :: string
  rp_object :: string
  rp_created_at :: int
  rp_status :: string
  rp_completed_at :: "int option"
  rp_error :: raw
  rp_frequency_penalty :: raw
  rp_incomplete_details :: raw
  rp_instructions :: raw
  rp_max_output_tokens :: raw
  rp_max_tool_calls :: raw
  rp_model :: string
  rp_output :: "item list"
  rp_parallel_tool_calls :: raw
  rp_presence_penalty :: raw
  rp_previous :: string
  rp_prompt :: raw
  rp_prompt_cache_key :: raw
  rp_prompt_cache_retention :: raw
  rp_reasoning :: raw
  rp_safety_identifier :: raw
  rp_service_tier :: raw
  rp_conversation :: "string option"
  rp_background :: "bool option"
  rp_store :: "bool option"
  rp_temperature :: raw
  rp_text :: raw
  rp_tool_choice :: raw
  rp_tools :: raw
  rp_top_logprobs :: raw
  rp_top_p :: raw
  rp_truncation :: raw
  rp_usage :: raw
  rp_user :: raw
  rp_metadata :: "string gomap option"
  rp_output_text :: string

definition empty_response :: response where
  "empty_response = \<lparr>rp_id = [], rp_object = [], rp_created_at = 0, rp_status = [], rp_completed_at = None,
     rp_error = RawEmpty, rp_frequency_penalty = RawEmpty, rp_incomplete_details = RawEmpty,
     rp_instructions = RawEmpty, rp_max_output_tokens = RawEmpty, rp_max_tool_calls = RawEmpty, rp_model = [],
     rp_output = [], rp_parallel_tool_calls = RawEmpty, rp_presence_penalty = RawEmpty, rp_previous = [],
     rp_prompt = RawEmpty, rp_prompt_cache_key = RawEmpty, rp_prompt_cache_retention = RawEmpty,
     rp_reasoning = RawEmpty, rp_safety_identifier = RawEmpty, rp_service_tier = RawEmpty,
     rp_conversation = None, rp_background = None, rp_store = None, rp_temperature = RawEmpty,
     rp_text = RawEmpty, rp_tool_choice = RawEmpty, rp_tools = RawEmpty, rp_top_logprobs = RawEmpty,
     rp_top_p = RawEmpty, rp_truncation = RawEmpty, rp_usage = RawEmpty, rp_user = RawEmpty,
     rp_metadata = None, rp_output_text = []\<rparr>"

definition NewConversationReference :: "string \<Rightarrow> string option" where
  "NewConversationReference id' = (if trim_space id' = [] then None else Some (trim_space id'))"

definition ConversationReferenceID :: "string option \<Rightarrow> string" where
  "ConversationReferenceID ref = (case ref of None \<Rightarrow> [] | Some id' \<Rightarrow> trim_space id')"

definition NewResponse :: "string \<Rightarrow> string \<Rightarrow> string \<Rightarrow> string \<Rightarrow> string \<Rightarrow> int \<Rightarrow> response" where
  "NewResponse id' model outputText previousResponseID conversationID createdAt =
     empty_response\<lparr>rp_id := id', rp_object := ''response'', rp_created_at := createdAt,
       rp_status := ''completed'', rp_completed_at := Some createdAt, rp_model := model,
       rp_output := [NewOutputTextMessage outputText], rp_background := Some False, rp_store := Some True,
       rp_text := mustMarshalDefaultResponseTextConfig, rp_metadata := Some [], rp_output_text := outputText,
       rp_previous := previousResponseID, rp_conversation := NewConversationReference conversationID\<rparr>"

section \<open>The surface of a request\<close>

definition rawJSONNull :: raw where "rawJSONNull = RawJson JNull"
definition rawJSONTrue :: raw where "rawJSONTrue = RawJson (JBool True)"
definition rawJSONAuto :: raw where "rawJSONAuto = RawJson (JStr ''auto'')"
definition rawJSONDefault :: raw where "rawJSONDefault = RawJson (JStr ''default'')"
definition rawJSONDisabled :: raw where "rawJSONDisabled = RawJson (JStr ''disabled'')"
definition rawJSONDefaultReasoning :: raw where
  "rawJSONDefaultReasoning = RawJson (JObj [(''effort'', JNull), (''summary'', JNull)])"
definition rawJSONEmptyArray :: raw where "rawJSONEmptyArray = RawJson (JArr [])"
definition rawJSONZero :: raw where "rawJSONZero = RawJson (JNum ''0'')"
definition rawJSONZeroPointZero :: raw where "rawJSONZeroPointZero = RawJson (JNum ''0.0'')"
definition rawJSONOnePointZero :: raw where "rawJSONOnePointZero = RawJson (JNum ''1.0'')"

definition coalesceRawMessage :: "raw \<Rightarrow> raw \<Rightarrow> raw \<Rightarrow> raw" where
  "coalesceRawMessage primary secondary fallback =
     (if primary \<noteq> RawEmpty then primary else if secondary \<noteq> RawEmpty then secondary else fallback)"

fun extractConversationReference :: "raw \<Rightarrow> string option" where
  "extractConversationReference (RawJson (JStr s)) = NewConversationReference s"
| "extractConversationReference (RawJson (JObj kvs)) =
     (case struct_string ''id'' kvs [] of None \<Rightarrow> None | Some s \<Rightarrow> NewConversationReference s)"
| "extractConversationReference _ = None"

text \<open>The flag says whether the tool was changed.\<close>

definition sanitizeTool :: "json gomap \<Rightarrow> json gomap \<times> bool" where
  "sanitizeTool tool =
     (let ty = trim_space (str_entry tool ''type'') in
      if ty = ''function'' then
        (if map_of tool ''strict'' = None then (gomap_set ''strict'' (JBool False) tool, True) else (tool, False))
      else if ty = ''mcp'' then
        (gomap_del ''server_url'' (gomap_del ''headers'' (gomap_del ''authorization'' tool)),
         map_of tool ''authorization'' \<noteq> None \<or> map_of tool ''headers'' \<noteq> None \<or> map_of tool ''server_url'' \<noteq> None)
      else (tool, False))"

text \<open>A \<^verbatim>\<open>null\<close> among the tools is the nil map and is printed as \<^verbatim>\<open>null\<close> again.\<close>

definition tool_json :: "json \<Rightarrow> json gomap \<Rightarrow> json" where
  "tool_json j tool = (if j = JNull then JNull else JObj tool)"

definition sanitizeResponseRequestToolsRaw :: "raw \<Rightarrow> raw" where
  "sanitizeResponseRequestToolsRaw r =
     (if raw_absent r then r
      else case (unmarshal_raw_list r, unmarshal_any_maps r) of
        (Some js, Some tools) \<Rightarrow>
          if list_ex (\<lambda>t. snd (sanitizeTool t)) tools
          then RawJson (JArr (map2 tool_json js (map (\<lambda>t. fst (sanitizeTool t)) tools)))
          else r
      | _ \<Rightarrow> r)"

definition SanitizeResponseRequestSurfaceJSON :: "raw \<Rightarrow> raw" where
  "SanitizeResponseRequestSurfaceJSON request =
     (case request of
        RawJson (JObj kvs) \<Rightarrow>
          (let payload = gomap_of kvs in
           RawJson (JObj (case map_of payload ''tools'' of
               None \<Rightarrow> payload
             | Some j \<Rightarrow> (case sanitizeResponseRequestToolsRaw (RawJson j) of
                            RawJson j' \<Rightarrow> gomap_set ''tools'' j' payload | _ \<Rightarrow> payload))))
      | _ \<Rightarrow> request)"

definition parseResponseRequestFields :: "raw \<Rightarrow> json gomap" where
  "parseResponseRequestFields request = (case unmarshal_raw_map request of None \<Rightarrow> [] | Some payload \<Rightarrow> payload)"

definition requestPreviousResponseID :: "json gomap \<Rightarrow> string" where
  "requestPreviousResponseID payload =
     (case unmarshal_string (raw_entry payload ''previous_response_id'') of None \<Rightarrow> [] | Some s \<Rightarrow> trim_space s)"

definition requestConversationReference :: "json gomap \<Rightarrow> string option" where
  "requestConversationReference payload = extractConversationReference (raw_entry payload ''conversation'')"

definition add_null :: "string \<Rightarrow> json gomap \<Rightarrow> json gomap" where
  "add_null k m = (if map_of m k = None then gomap_set k JNull m else m)"

definition normalizeReasoningRaw :: "raw \<Rightarrow> raw" where
  "normalizeReasoningRaw r =
     (if r = RawEmpty then RawEmpty
      else case unmarshal_raw_map r of
        None \<Rightarrow> r
      | Some payload \<Rightarrow>
          if payload = [] then rawJSONDefaultReasoning
          else RawJson (JObj (add_null ''summary'' (add_null ''effort'' payload))))"

definition HydrateResponseRequestSurface :: "response \<Rightarrow> raw \<Rightarrow> response" where
  "HydrateResponseRequestSurface response requestJSON =
     (let payload = parseResponseRequestFields (SanitizeResponseRequestSurfaceJSON requestJSON);
          from = (\<lambda>k. raw_entry payload k)
      in response\<lparr>
        rp_previous := (if rp_previous response = [] then requestPreviousResponseID payload else rp_previous response),
        rp_conversation := (case rp_conversation response of None \<Rightarrow> requestConversationReference payload | Some c \<Rightarrow> Some c),
        rp_instructions := coalesceRawMessage (rp_instructions response) (from ''instructions'') rawJSONNull,
        rp_max_output_tokens := coalesceRawMessage (rp_max_output_tokens response) (from ''max_output_tokens'') rawJSONNull,
        rp_max_tool_calls := coalesceRawMessage (rp_max_tool_calls response) (from ''max_tool_calls'') rawJSONNull,
        rp_parallel_tool_calls := coalesceRawMessage (rp_parallel_tool_calls response) (from ''parallel_tool_calls'') rawJSONTrue,
        rp_prompt := coalesceRawMessage (rp_prompt response) (from ''prompt'') rawJSONNull,
        rp_prompt_cache_key := coalesceRawMessage (rp_prompt_cache_key response) (from ''prompt_cache_key'') rawJSONNull,
        rp_prompt_cache_retention := coalesceRawMessage (rp_prompt_cache_retention response) (from ''prompt_cache_retention'') rawJSONNull,
        rp_reasoning := coalesceRawMessage (rp_reasoning response) (normalizeReasoningRaw (from ''reasoning'')) rawJSONDefaultReasoning,
        rp_safety_identifier := coalesceRawMessage (rp_safety_identifier response) (from ''safety_identifier'') rawJSONNull,
        rp_service_tier := coalesceRawMessage (rp_service_tier response) (from ''service_tier'') rawJSONDefault,
        rp_frequency_penalty := coalesceRawMessage (rp_frequency_penalty response) (from ''frequency_penalty'') rawJSONZeroPointZero,
        rp_presence_penalty := coalesceRawMessage (rp_presence_penalty response) (from ''presence_penalty'') rawJSONZeroPointZero,
        rp_temperature := coalesceRawMessage (rp_temperature response) (from ''temperature'') rawJSONOnePointZero,
        rp_tool_choice := coalesceRawMessage (rp_tool_choice response) (from ''tool_choice'') rawJSONAuto,
        rp_tools := coalesceRawMessage (rp_tools response) (from ''tools'') rawJSONEmptyArray,
        rp_top_logprobs := coalesceRawMessage (rp_top_logprobs response) (from ''top_logprobs'') rawJSONZero,
        rp_top_p := coalesceRawMessage (rp_top_p response) (from ''top_p'') rawJSONOnePointZero,
        rp_truncation := coalesceRawMessage (rp_truncation response) (from ''truncation'') rawJSONDisabled,
        rp_user := coalesceRawMessage (rp_user response) (from ''user'') rawJSONNull\<rparr>)"

fun rawStringFieldUnset :: "raw \<Rightarrow> bool" where
  "rawStringFieldUnset (RawJson (JStr s)) = (trim_space s = [])"
| "rawStringFieldUnset r = raw_absent r"

definition rawConversationFieldUnset :: "raw \<Rightarrow> bool" where
  "rawConversationFieldUnset r = (raw_absent r \<or> extractConversationReference r = None)"

definition HydrateResponseContinuationJSON :: "raw \<Rightarrow> raw \<Rightarrow> raw res" where
  "HydrateResponseContinuationJSON responseJSON requestJSON =
     (let payload = parseResponseRequestFields (SanitizeResponseRequestSurfaceJSON requestJSON);
          previousResponseID = requestPreviousResponseID payload;
          conversation = requestConversationReference payload
      in if payload = [] \<or> (previousResponseID = [] \<and> conversation = None) then Inr responseJSON
         else case unmarshal_raw_map responseJSON of
           None \<Rightarrow> Inl JSONError
         | Some responseFields \<Rightarrow>
             let setPrevious = (previousResponseID \<noteq> [] \<and> rawStringFieldUnset (raw_entry responseFields ''previous_response_id''));
                 f1 = (if setPrevious then gomap_set ''previous_response_id'' (JStr previousResponseID) responseFields else responseFields);
                 setConversation = (conversation \<noteq> None \<and> rawConversationFieldUnset (raw_entry f1 ''conversation''));
                 f2 = (if setConversation then gomap_set ''conversation'' (JObj [(''id'', JStr (the conversation))]) f1 else f1)
             in if responseJSON = RawJson JNull \<and> (setPrevious \<or> setConversation)
                  then Inl (GoPanic ''assignment to entry in nil map'')
                else if \<not> setPrevious \<and> \<not> setConversation then Inr responseJSON
                else Inr (RawJson (JObj f2)))"

section \<open>Printing and parsing\<close>

definition item_json :: "item \<Rightarrow> json res" where
  "item_json i = marshal_raw (Item_MarshalJSON i)"

text \<open>A list of items that is empty is printed as the empty array.\<close>

definition items_json :: "item list \<Rightarrow> json res" where
  "items_json items = (case map_res item_json items of Inl e \<Rightarrow> Inl e | Inr js \<Rightarrow> Inr (JArr js))"

definition bool_ptr_json :: "bool option \<Rightarrow> json" where
  "bool_ptr_json b = (case b of None \<Rightarrow> JNull | Some x \<Rightarrow> JBool x)"

definition int_ptr_json :: "int option \<Rightarrow> json" where
  "int_ptr_json n = (case n of None \<Rightarrow> JNull | Some x \<Rightarrow> JNum (int_text x))"

definition metadata_json :: "string gomap option \<Rightarrow> json" where
  "metadata_json m = (case m of None \<Rightarrow> JNull | Some kvs \<Rightarrow> JObj (map (\<lambda>(k, v). (k, JStr v)) kvs))"

definition response_entries :: "response \<Rightarrow> (string \<times> json res) list" where
  "response_entries r =
     [(''id'', Inr (JStr (rp_id r))),
      (''object'', Inr (JStr (rp_object r))),
      (''created_at'', Inr (JNum (int_text (rp_created_at r)))),
      (''status'', Inr (JStr (rp_status r))),
      (''completed_at'', Inr (int_ptr_json (rp_completed_at r))),
      (''error'', marshal_raw (rp_error r)),
      (''incomplete_details'', marshal_raw (rp_incomplete_details r)),
      (''instructions'', marshal_raw (rp_instructions r)),
      (''max_output_tokens'', marshal_raw (rp_max_output_tokens r)),
      (''max_tool_calls'', marshal_raw (rp_max_tool_calls r)),
      (''model'', Inr (JStr (rp_model r))),
      (''output'', items_json (rp_output r)),
      (''parallel_tool_calls'', marshal_raw (rp_parallel_tool_calls r)),
      (''previous_response_id'', Inr (if rp_previous r = [] then JNull else JStr (rp_previous r))),
      (''prompt'', marshal_raw (rp_prompt r)),
      (''prompt_cache_key'', marshal_raw (rp_prompt_cache_key r)),
      (''prompt_cache_retention'', marshal_raw (rp_prompt_cache_retention r)),
      (''reasoning'', marshal_raw (rp_reasoning r)),
      (''safety_identifier'', marshal_raw (rp_safety_identifier r)),
      (''service_tier'', marshal_raw (coalesceRawMessage (rp_service_tier r) RawEmpty rawJSONDefault))] @
     (case rp_conversation r of None \<Rightarrow> [] | Some c \<Rightarrow> [(''conversation'', Inr (JObj [(''id'', JStr c)]))]) @
     [(''background'', Inr (bool_ptr_json (rp_background r))),
      (''store'', Inr (bool_ptr_json (rp_store r))),
      (''temperature'', marshal_raw (rp_temperature r)),
      (''text'', marshal_raw (rp_text r)),
      (''tool_choice'', marshal_raw (rp_tool_choice r)),
      (''tools'', marshal_raw (rp_tools r)),
      (''top_logprobs'', marshal_raw (coalesceRawMessage (rp_top_logprobs r) RawEmpty rawJSONZero)),
      (''top_p'', marshal_raw (rp_top_p r)),
      (''truncation'', marshal_raw (rp_truncation r)),
      (''usage'', marshal_raw (rp_usage r)),
      (''user'', marshal_raw (rp_user r)),
      (''metadata'', Inr (metadata_json (rp_metadata r))),
      (''frequency_penalty'', marshal_raw (coalesceRawMessage (rp_frequency_penalty r) RawEmpty rawJSONZeroPointZero)),
      (''presence_penalty'', marshal_raw (coalesceRawMessage (rp_presence_penalty r) RawEmpty rawJSONZeroPointZero)),
      (''output_text'', Inr (JStr (rp_output_text r)))]"

definition Response_MarshalJSON :: "response \<Rightarrow> raw res" where
  "Response_MarshalJSON r =
     (case map_res (\<lambda>(k, m). case m of Inl e \<Rightarrow> Inl e | Inr j \<Rightarrow> Inr (k, j)) (response_entries r) of
        Inl e \<Rightarrow> Inl e | Inr kvs \<Rightarrow> Inr (RawJson (JObj kvs)))"

definition marshalResponseJSON :: "response \<Rightarrow> raw res" where
  "marshalResponseJSON r =
     (case Response_MarshalJSON r of Inl e \<Rightarrow> Inl (Wrap ''marshal response json'' e) | Inr doc \<Rightarrow> Inr doc)"

text \<open>Pointers: \<^verbatim>\<open>null\<close> sets the nil pointer.\<close>

fun struct_bool_ptr :: "string \<Rightarrow> (string \<times> json) list \<Rightarrow> bool option \<Rightarrow> bool option option" where
  "struct_bool_ptr f [] acc = Some acc"
| "struct_bool_ptr f ((k, v) # kvs) acc =
     (if equal_fold k f
      then (case v of JNull \<Rightarrow> struct_bool_ptr f kvs None
            | JBool b \<Rightarrow> struct_bool_ptr f kvs (Some b)
            | _ \<Rightarrow> None)
      else struct_bool_ptr f kvs acc)"

fun struct_int_ptr :: "string \<Rightarrow> (string \<times> json) list \<Rightarrow> int option \<Rightarrow> int option option" where
  "struct_int_ptr f [] acc = Some acc"
| "struct_int_ptr f ((k, v) # kvs) acc =
     (if equal_fold k f
      then (case v of JNull \<Rightarrow> struct_int_ptr f kvs None
            | JNum t \<Rightarrow> (case int_of_number t of None \<Rightarrow> None | Some n \<Rightarrow> struct_int_ptr f kvs (Some n))
            | _ \<Rightarrow> None)
      else struct_int_ptr f kvs acc)"

text \<open>The fields of the payload that are not raw documents; \<open>None\<close> is the decoding error.\<close>

record upstream_scalars =
  us_id :: string
  us_object :: string
  us_created_at :: int
  us_status :: string
  us_completed_at :: "int option"
  us_model :: string
  us_previous :: string
  us_background :: "bool option"
  us_store :: "bool option"
  us_output_text :: string
  us_output :: "raw list"

definition upstream_payload :: "(string \<times> json) list \<Rightarrow> upstream_scalars option" where
  "upstream_payload kvs =
     Option.bind (struct_string ''id'' kvs []) (\<lambda>id'.
     Option.bind (struct_string ''object'' kvs []) (\<lambda>obj.
     Option.bind (struct_int ''created_at'' kvs 0) (\<lambda>createdAt.
     Option.bind (struct_string ''status'' kvs []) (\<lambda>status.
     Option.bind (struct_int_ptr ''completed_at'' kvs None) (\<lambda>completedAt.
     Option.bind (struct_string ''model'' kvs []) (\<lambda>model.
     Option.bind (struct_string ''previous_response_id'' kvs []) (\<lambda>previous.
     Option.bind (struct_bool_ptr ''background'' kvs None) (\<lambda>background.
     Option.bind (struct_bool_ptr ''store'' kvs None) (\<lambda>stored.
     Option.bind (struct_string ''output_text'' kvs []) (\<lambda>outputText.
     Option.bind (struct_raws ''output'' kvs []) (\<lambda>out.
     Some \<lparr>us_id = id', us_object = obj, us_created_at = createdAt, us_status = status,
           us_completed_at = completedAt, us_model = model, us_previous = previous,
           us_background = background, us_store = stored, us_output_text = outputText,
           us_output = out\<rparr>)))))))))))"

fun upstreamOutputLoop :: "nat \<Rightarrow> raw list \<Rightarrow> item list res" where
  "upstreamOutputLoop index [] = Inr []"
| "upstreamOutputLoop index (rawItem # rest) =
     (case NewItem rawItem of
        Inl e \<Rightarrow> Inl (Wrap (''decode upstream response output['' @ nat_text index @ '']'') e)
      | Inr i \<Rightarrow> res_bind (upstreamOutputLoop (Suc index) rest) (\<lambda>items. Inr (i # items)))"

definition assistantText :: "item list \<Rightarrow> string" where
  "assistantText items =
     concat (map (\<lambda>i. if iType i \<noteq> ''message'' \<or> iRole i \<noteq> ''assistant'' then []
                      else concat (map part_text (iContent i))) items)"

definition ParseUpstreamResponse :: "raw \<Rightarrow> response res" where
  "ParseUpstreamResponse doc =
     (let decoded = (case doc of RawJson (JObj kvs) \<Rightarrow> map_option (Pair kvs) (upstream_payload kvs)
                     | RawJson JNull \<Rightarrow> map_option (Pair []) (upstream_payload [])
                     | _ \<Rightarrow> None)
      in case decoded of
        None \<Rightarrow> Inl (Wrap ''decode upstream response'' JSONError)
      | Some (kvs, payload) \<Rightarrow>
          if us_id payload = [] then Inl (Errorf ''upstream response id is empty'')
          else
            res_bind (upstreamOutputLoop 0 (us_output payload)) (\<lambda>items.
            let field = (\<lambda>k. struct_raw k kvs RawEmpty);
                status1 = (if trim_space (us_status payload) = [] \<and> us_completed_at payload \<noteq> None
                           then ''completed'' else trim_space (us_status payload));
                outputText = (if us_output_text payload = [] then assistantText items else us_output_text payload);
                out = (if outputText \<noteq> [] \<and> items = [] then [NewOutputTextMessage outputText] else items);
                status2 = (if status1 = [] \<and> (outputText \<noteq> [] \<or> out \<noteq> []) then ''completed'' else status1)
            in Inr \<lparr>rp_id = us_id payload,
                 rp_object = (if us_object payload = [] then ''response'' else us_object payload),
                 rp_created_at = us_created_at payload,
                 rp_status = status2,
                 rp_completed_at = (if equal_fold status2 ''completed'' then us_completed_at payload else None),
                 rp_error = field ''error'', rp_frequency_penalty = field ''frequency_penalty'',
                 rp_incomplete_details = field ''incomplete_details'', rp_instructions = field ''instructions'',
                 rp_max_output_tokens = field ''max_output_tokens'', rp_max_tool_calls = field ''max_tool_calls'',
                 rp_model = us_model payload, rp_output = out,
                 rp_parallel_tool_calls = field ''parallel_tool_calls'',
                 rp_presence_penalty = field ''presence_penalty'', rp_previous = us_previous payload,
                 rp_prompt = field ''prompt'', rp_prompt_cache_key = field ''prompt_cache_key'',
                 rp_prompt_cache_retention = field ''prompt_cache_retention'', rp_reasoning = field ''reasoning'',
                 rp_safety_identifier = field ''safety_identifier'', rp_service_tier = field ''service_tier'',
                 rp_conversation = extractConversationReference (field ''conversation''),
                 rp_background = us_background payload, rp_store = us_store payload,
                 rp_temperature = field ''temperature'',
                 rp_text = (if raw_absent (field ''text'') then mustMarshalDefaultResponseTextConfig else field ''text''),
                 rp_tool_choice = field ''tool_choice'', rp_tools = field ''tools'',
                 rp_top_logprobs = field ''top_logprobs'', rp_top_p = field ''top_p'',
                 rp_truncation = field ''truncation'', rp_usage = field ''usage'', rp_user = field ''user'',
                 rp_metadata = Some (case NormalizeResponseMetadata (field ''metadata'') of Inl e \<Rightarrow> [] | Inr md \<Rightarrow> md),
                 rp_output_text = outputText\<rparr>))"

section \<open>Stored responses\<close>

definition hydrateStoredResponse :: "response \<Rightarrow> stored_response \<Rightarrow> response" where
  "hydrateStoredResponse response stored =
     (let createdAt = (if rp_created_at response \<noteq> 0 then rp_created_at response
                       else case ParseTimeUnix (sr_created stored) of Some n \<Rightarrow> n | None \<Rightarrow> 0);
          status = (if rp_status response \<noteq> [] then rp_status response
                    else if rp_completed_at response \<noteq> None \<or> rp_output response \<noteq> [] \<or>
                            trim_space (rp_output_text response) \<noteq> [] then ''completed'' else ''in_progress'');
          completedAt = (if equal_fold status ''completed''
                         then (case rp_completed_at response of Some n \<Rightarrow> Some n | None \<Rightarrow> ParseTimeUnix (sr_completed stored))
                         else None);
          outputText = (if rp_output_text response = [] then sr_output_text stored else rp_output_text response);
          out1 = (if rp_output response = [] then sr_output stored else rp_output response);
          out2 = (if outputText \<noteq> [] \<and> out1 = [] \<and> status = ''completed'' then [NewOutputTextMessage outputText] else out1)
      in HydrateResponseRequestSurface (response\<lparr>
           rp_id := (if rp_id response = [] then sr_id stored else rp_id response),
           rp_object := (if rp_object response = [] then ''response'' else rp_object response),
           rp_model := (if rp_model response = [] then sr_model stored else rp_model response),
           rp_previous := (if rp_previous response = [] then sr_previous stored else rp_previous response),
           rp_conversation := (case rp_conversation response of None \<Rightarrow> NewConversationReference (sr_conversation stored) | Some c \<Rightarrow> Some c),
           rp_text := (if raw_absent (rp_text response) then InferResponseTextConfigFromRequestJSON (sr_request stored) else rp_text response),
           rp_metadata := (case rp_metadata response of None \<Rightarrow> Some (InferResponseMetadataFromRequestJSON (sr_request stored)) | Some md \<Rightarrow> Some md),
           rp_store := (case rp_store response of None \<Rightarrow> Some (sr_store stored) | Some b \<Rightarrow> Some b),
           rp_background := (case rp_background response of None \<Rightarrow> Some False | Some b \<Rightarrow> Some b),
           rp_created_at := createdAt, rp_status := status, rp_completed_at := completedAt,
           rp_output_text := outputText, rp_output := out2\<rparr>) (sr_request stored))"

definition ResponseFromStored :: "stored_response \<Rightarrow> response" where
  "ResponseFromStored stored =
     (case (if sr_response stored = RawEmpty then Inl JSONError else ParseUpstreamResponse (sr_response stored)) of
        Inr response \<Rightarrow> hydrateStoredResponse response stored
      | Inl e \<Rightarrow>
          hydrateStoredResponse (empty_response\<lparr>rp_id := sr_id stored, rp_object := ''response'',
            rp_model := sr_model stored, rp_previous := sr_previous stored,
            rp_conversation := NewConversationReference (sr_conversation stored),
            rp_text := InferResponseTextConfigFromRequestJSON (sr_request stored),
            rp_output_text := sr_output_text stored, rp_output := sr_output stored\<rparr>) stored)"

section \<open>Secrets of remote tools\<close>

definition secret_keys :: "string list" where
  "secret_keys = [''authorization'', ''headers'', ''server_url'']"

definition mcp_tool :: "json gomap \<Rightarrow> bool" where
  "mcp_tool tool \<longleftrightarrow> trim_space (str_entry tool ''type'') = ''mcp''"

lemma any_fields_map_of:
  assumes "any_fields kvs = Some m"
  shows "map fst m = map fst kvs" "map_of (rev m) k = None \<longleftrightarrow> map_of (rev kvs) k = None"
    "map_of (rev m) k = Some (JStr s) \<longleftrightarrow> map_of (rev kvs) k = Some (JStr s)"
proof -
  have str: "any_of j = Some (JStr s) \<longleftrightarrow> j = JStr s" for j by (cases j) auto
  have "list_all2 (\<lambda>(k, v) (k', v'). k = k' \<and> any_of v = Some v') kvs m"
    using assms by (induction kvs arbitrary: m) (auto split: option.splits)
  then have r: "list_all2 (\<lambda>(k, v) (k', v'). k = k' \<and> any_of v = Some v') (rev kvs) (rev m)"
    by (simp add: list_all2_rev1)
  show "map fst m = map fst kvs"
    using \<open>list_all2 _ kvs m\<close> by (induction rule: list_all2_induct) auto
  from r show "map_of (rev m) k = None \<longleftrightarrow> map_of (rev kvs) k = None"
    by (induction rule: list_all2_induct) auto
  from r show "map_of (rev m) k = Some (JStr s) \<longleftrightarrow> map_of (rev kvs) k = Some (JStr s)"
    by (induction rule: list_all2_induct) (auto simp: str)
qed

lemma str_entry_any:
  assumes "any_fields kvs = Some m"
  shows "str_entry (gomap_of m) k = str_entry (gomap_of kvs) k"
proof (cases "\<exists>s. map_of (gomap_of kvs) k = Some (JStr s)")
  case True
  then obtain s where "map_of (gomap_of kvs) k = Some (JStr s)" by blast
  moreover from this have "map_of (gomap_of m) k = Some (JStr s)"
    using any_fields_map_of(3) [OF assms] by (simp add: map_of_gomap_of)
  ultimately show ?thesis by (simp add: str_entry_def)
next
  case False
  then have "\<nexists>s. map_of (gomap_of m) k = Some (JStr s)"
    using any_fields_map_of(3) [OF assms] by (simp add: map_of_gomap_of)
  with False show ?thesis by (auto simp: str_entry_def split: option.splits json.splits)
qed

lemma sanitized_tool_clean:
  assumes "mcp_tool (fst (sanitizeTool t))" "k \<in> set secret_keys"
  shows "map_of (fst (sanitizeTool t)) k = None"
proof -
  let ?ty = "trim_space (str_entry t ''type'')"
  have other: "str_entry (gomap_set ''strict'' v t) ''type'' = str_entry t ''type''" for v
    by (simp add: str_entry_def map_of_gomap_set)
  have "?ty = ''mcp''"
    using assms(1) by (auto simp: mcp_tool_def sanitizeTool_def Let_def other split: if_splits)
  then show ?thesis using assms(2)
    by (auto simp: sanitizeTool_def Let_def map_of_gomap_del secret_keys_def)
qed

lemma all_some_id [simp]: "all_some (map Some ys) = Some ys"
  by (induction ys) simp_all

lemma all_some_Some: "all_some xs = Some ys \<Longrightarrow> xs = map Some ys"
  by (induction xs arbitrary: ys) (auto split: option.splits)

lemma any_map_wf: "unmarshal_any_map (RawJson j) = Some t \<Longrightarrow> gomap_wf t"
  by (cases j) (auto simp: gomap_wf_of, simp add: gomap_wf_def)

lemma sanitized_wf: "gomap_wf t \<Longrightarrow> gomap_wf (fst (sanitizeTool t))"
  by (auto simp: sanitizeTool_def Let_def gomap_wf_set gomap_wf_del)

text \<open>A tool that the sanitizer leaves alone has no secrets, as a raw map either.\<close>

lemma unchanged_tool_clean:
  assumes "unmarshal_any_map (RawJson j) = Some t" "\<not> snd (sanitizeTool t)" "unmarshal_raw_map (RawJson j) = Some r"
    and "mcp_tool r" "k \<in> set secret_keys"
  shows "map_of r k = None"
proof (cases j)
  case (JObj kvs)
  obtain m where m: "any_fields kvs = Some m" "t = gomap_of m" using assms(1) JObj by auto
  have r: "r = gomap_of kvs" using assms(3) JObj by simp
  have "mcp_tool t" using assms(4) str_entry_any [OF m(1)] unfolding mcp_tool_def m(2) r by simp
  then have "map_of t k = None"
    using assms(2,5) by (auto simp: mcp_tool_def sanitizeTool_def Let_def secret_keys_def split: if_splits)
  then show ?thesis using any_fields_map_of(2) [OF m(1)] unfolding m(2) r by (simp add: map_of_gomap_of)
qed (use assms in \<open>auto simp: mcp_tool_def str_entry_def\<close>)

lemma tools_sanitized:
  assumes "unmarshal_raw_list (RawJson tools) = Some js" "map (\<lambda>j. unmarshal_any_map (RawJson j)) js = map Some ts"
  shows "\<exists>out rs. sanitizeResponseRequestToolsRaw (RawJson tools) = RawJson out \<and>
    unmarshal_raw_maps (RawJson out) = Some rs \<and>
    (\<forall>t \<in> set rs. mcp_tool t \<longrightarrow> (\<forall>k \<in> set secret_keys. map_of t k = None))"
proof -
  have each: "unmarshal_any_map (RawJson (js ! i)) = Some (ts ! i)" if "i < length js" for i
    using assms(2) that by (metis length_map nth_map)
  have len: "length ts = length js" using assms(2) by (metis length_map)
  have raw: "\<exists>r. unmarshal_raw_map (RawJson j) = Some r" if "unmarshal_any_map (RawJson j) = Some t" for j t
    using that by (cases j) auto
  have any: "unmarshal_any_maps (RawJson tools) = Some ts" using assms by (simp add: unmarshal_any_maps_def)
  show ?thesis
  proof (cases "raw_absent (RawJson tools) \<or> \<not> list_ex (\<lambda>t. snd (sanitizeTool t)) ts")
    case True
    then have same: "sanitizeResponseRequestToolsRaw (RawJson tools) = RawJson tools"
      using assms(1) any by (auto simp: sanitizeResponseRequestToolsRaw_def)
    define rs where "rs = map (\<lambda>j. the (unmarshal_raw_map (RawJson j))) js"
    have rs: "unmarshal_raw_map (RawJson (js ! i)) = Some (rs ! i)" if "i < length js" for i
      using raw [OF each [OF that]] that by (auto simp: rs_def)
    have "map (\<lambda>j. unmarshal_raw_map (RawJson j)) js = map Some rs"
      using rs by (intro nth_equalityI) (auto simp: rs_def)
    then have "unmarshal_raw_maps (RawJson tools) = Some rs" using assms(1) by (simp add: unmarshal_raw_maps_def)
    moreover have kept: "\<not> snd (sanitizeTool (ts ! i))" if "i < length js" for i
    proof (cases "js = []")
      case False
      then have "\<not> raw_absent (RawJson tools)" using assms(1) by (auto simp: raw_absent_def)
      then show ?thesis using True that len by (auto simp: list_ex_iff)
    qed (use that in simp)
    moreover have "map_of t k = None" if t: "t \<in> set rs" "mcp_tool t" "k \<in> set secret_keys" for t k
    proof -
      have "length rs = length js" by (simp add: rs_def)
      then obtain i where i: "i < length js" "t = rs ! i" using t by (auto simp: in_set_conv_nth)
      show ?thesis using unchanged_tool_clean [OF each [OF i(1)] kept [OF i(1)] rs [OF i(1)]] that i(2) by simp
    qed
    ultimately show ?thesis using same by blast
  next
    case False
    let ?ss = "map (\<lambda>t. fst (sanitizeTool t)) ts"
    have out: "sanitizeResponseRequestToolsRaw (RawJson tools) = RawJson (JArr (map2 tool_json js ?ss))"
      using False assms(1) any by (simp add: sanitizeResponseRequestToolsRaw_def)
    define rs where "rs = map2 (\<lambda>j s. if j = JNull then [] else s) js ?ss"
    have "unmarshal_raw_map (RawJson (tool_json (js ! i) (?ss ! i))) = Some (rs ! i)" if "i < length js" for i
      using that len gomap_of_wf [OF sanitized_wf [OF any_map_wf [OF each [OF that]]]]
      by (simp add: tool_json_def rs_def)
    then have "map (\<lambda>j. unmarshal_raw_map (RawJson j)) (map2 tool_json js ?ss) = map Some rs"
      using len by (intro nth_equalityI) (auto simp: rs_def)
    then have "unmarshal_raw_maps (RawJson (JArr (map2 tool_json js ?ss))) = Some rs"
      by (simp add: unmarshal_raw_maps_def)
    moreover have "map_of t k = None" if t: "t \<in> set rs" "mcp_tool t" "k \<in> set secret_keys" for t k
    proof -
      obtain i where i: "i < length js" "t = rs ! i" using t len by (auto simp: in_set_conv_nth rs_def)
      then have "t = [] \<or> t = fst (sanitizeTool (ts ! i))" using len by (simp add: rs_def)
      then show ?thesis using that(2,3) sanitized_tool_clean by auto
    qed
    ultimately show ?thesis using out by blast
  qed
qed

section \<open>Hydration\<close>

lemma coalesce_idem:
  "f \<noteq> RawEmpty \<Longrightarrow> coalesceRawMessage (coalesceRawMessage r s f) s f = coalesceRawMessage r s f"
  by (simp add: coalesceRawMessage_def)

lemma coalesce_present: "r \<noteq> RawEmpty \<Longrightarrow> coalesceRawMessage r s f = r"
  by (simp add: coalesceRawMessage_def)

lemma coalesce_not_empty: "f \<noteq> RawEmpty \<Longrightarrow> coalesceRawMessage r s f \<noteq> RawEmpty"
  by (simp add: coalesceRawMessage_def)

lemmas raw_defaults = rawJSONNull_def rawJSONTrue_def rawJSONAuto_def rawJSONDefault_def rawJSONDisabled_def
  rawJSONDefaultReasoning_def rawJSONEmptyArray_def rawJSONZero_def rawJSONZeroPointZero_def rawJSONOnePointZero_def

lemma hydrate_idem:
  "HydrateResponseRequestSurface (HydrateResponseRequestSurface r req) req = HydrateResponseRequestSurface r req"
  unfolding HydrateResponseRequestSurface_def Let_def
  by (rule response.equality) (simp_all add: coalesce_idem raw_defaults split: option.splits)

abbreviation request_fields :: "raw \<Rightarrow> json gomap" where
  "request_fields req \<equiv> parseResponseRequestFields (SanitizeResponseRequestSurfaceJSON req)"

lemma hydrate_sel:
  "rp_id (HydrateResponseRequestSurface r req) = rp_id r"
  "rp_object (HydrateResponseRequestSurface r req) = rp_object r"
  "rp_created_at (HydrateResponseRequestSurface r req) = rp_created_at r"
  "rp_status (HydrateResponseRequestSurface r req) = rp_status r"
  "rp_completed_at (HydrateResponseRequestSurface r req) = rp_completed_at r"
  "rp_error (HydrateResponseRequestSurface r req) = rp_error r"
  "rp_frequency_penalty (HydrateResponseRequestSurface r req) = coalesceRawMessage (rp_frequency_penalty r) (raw_entry (request_fields req) ''frequency_penalty'') rawJSONZeroPointZero"
  "rp_incomplete_details (HydrateResponseRequestSurface r req) = rp_incomplete_details r"
  "rp_instructions (HydrateResponseRequestSurface r req) = coalesceRawMessage (rp_instructions r) (raw_entry (request_fields req) ''instructions'') rawJSONNull"
  "rp_max_output_tokens (HydrateResponseRequestSurface r req) = coalesceRawMessage (rp_max_output_tokens r) (raw_entry (request_fields req) ''max_output_tokens'') rawJSONNull"
  "rp_max_tool_calls (HydrateResponseRequestSurface r req) = coalesceRawMessage (rp_max_tool_calls r) (raw_entry (request_fields req) ''max_tool_calls'') rawJSONNull"
  "rp_model (HydrateResponseRequestSurface r req) = rp_model r"
  "rp_output (HydrateResponseRequestSurface r req) = rp_output r"
  "rp_parallel_tool_calls (HydrateResponseRequestSurface r req) = coalesceRawMessage (rp_parallel_tool_calls r) (raw_entry (request_fields req) ''parallel_tool_calls'') rawJSONTrue"
  "rp_presence_penalty (HydrateResponseRequestSurface r req) = coalesceRawMessage (rp_presence_penalty r) (raw_entry (request_fields req) ''presence_penalty'') rawJSONZeroPointZero"
  "rp_previous (HydrateResponseRequestSurface r req) = (if rp_previous r = [] then requestPreviousResponseID (request_fields req) else rp_previous r)"
  "rp_prompt (HydrateResponseRequestSurface r req) = coalesceRawMessage (rp_prompt r) (raw_entry (request_fields req) ''prompt'') rawJSONNull"
  "rp_prompt_cache_key (HydrateResponseRequestSurface r req) = coalesceRawMessage (rp_prompt_cache_key r) (raw_entry (request_fields req) ''prompt_cache_key'') rawJSONNull"
  "rp_prompt_cache_retention (HydrateResponseRequestSurface r req) = coalesceRawMessage (rp_prompt_cache_retention r) (raw_entry (request_fields req) ''prompt_cache_retention'') rawJSONNull"
  "rp_reasoning (HydrateResponseRequestSurface r req) = coalesceRawMessage (rp_reasoning r) (normalizeReasoningRaw (raw_entry (request_fields req) ''reasoning'')) rawJSONDefaultReasoning"
  "rp_safety_identifier (HydrateResponseRequestSurface r req) = coalesceRawMessage (rp_safety_identifier r) (raw_entry (request_fields req) ''safety_identifier'') rawJSONNull"
  "rp_service_tier (HydrateResponseRequestSurface r req) = coalesceRawMessage (rp_service_tier r) (raw_entry (request_fields req) ''service_tier'') rawJSONDefault"
  "rp_conversation (HydrateResponseRequestSurface r req) = (case rp_conversation r of None \<Rightarrow> requestConversationReference (request_fields req) | Some c \<Rightarrow> Some c)"
  "rp_background (HydrateResponseRequestSurface r req) = rp_background r"
  "rp_store (HydrateResponseRequestSurface r req) = rp_store r"
  "rp_temperature (HydrateResponseRequestSurface r req) = coalesceRawMessage (rp_temperature r) (raw_entry (request_fields req) ''temperature'') rawJSONOnePointZero"
  "rp_text (HydrateResponseRequestSurface r req) = rp_text r"
  "rp_tool_choice (HydrateResponseRequestSurface r req) = coalesceRawMessage (rp_tool_choice r) (raw_entry (request_fields req) ''tool_choice'') rawJSONAuto"
  "rp_tools (HydrateResponseRequestSurface r req) = coalesceRawMessage (rp_tools r) (raw_entry (request_fields req) ''tools'') rawJSONEmptyArray"
  "rp_top_logprobs (HydrateResponseRequestSurface r req) = coalesceRawMessage (rp_top_logprobs r) (raw_entry (request_fields req) ''top_logprobs'') rawJSONZero"
  "rp_top_p (HydrateResponseRequestSurface r req) = coalesceRawMessage (rp_top_p r) (raw_entry (request_fields req) ''top_p'') rawJSONOnePointZero"
  "rp_truncation (HydrateResponseRequestSurface r req) = coalesceRawMessage (rp_truncation r) (raw_entry (request_fields req) ''truncation'') rawJSONDisabled"
  "rp_usage (HydrateResponseRequestSurface r req) = rp_usage r"
  "rp_user (HydrateResponseRequestSurface r req) = coalesceRawMessage (rp_user r) (raw_entry (request_fields req) ''user'') rawJSONNull"
  "rp_metadata (HydrateResponseRequestSurface r req) = rp_metadata r"
  "rp_output_text (HydrateResponseRequestSurface r req) = rp_output_text r"
  by (simp_all add: HydrateResponseRequestSurface_def Let_def)

section \<open>Messages\<close>

text \<open>The message of an answer.\<close>

definition output_message :: "string \<Rightarrow> item" where
  "output_message str =
     \<lparr>iRaw = RawJson (JObj [(''type'', JStr ''message''), (''status'', JStr ''completed''), (''role'', JStr ''assistant''),
        (''content'', JArr [JObj [(''type'', JStr ''output_text''), (''text'', JStr str),
           (''annotations'', JArr []), (''logprobs'', JArr [])]])]),
      iMeta = None, iType = ''message'', iRole = ''assistant'',
      iContent = (if str = [] then [] else [\<lparr>part_type = ''output_text'', part_text = str\<rparr>])\<rparr>"

lemma fold_case_output_keys: "fold_case ''status'' = ''status''" "fold_case ''annotations'' = ''annotations''"
  by (simp_all add: fold_case.simps lower_char_def)

lemma output_message_decodes: "NewItem (Item_MarshalJSON (output_message str)) = Inr (output_message str)"
  by (auto simp: Item_MarshalJSON_def NewItem_def key_folds fold_case_output_keys
      Let_def output_message_def extractTextParts_def raw_absent_def unmarshal_raw_maps_def
      gomap_of_def List.map_filter_def extractTextPart_def less_list_code)

lemma NewOutputTextMessage_eq: "NewOutputTextMessage str = (if quotable str then output_message str else empty_item)"
proof (cases "quotable str")
  case True
  have "Item_MarshalJSON (output_message str) = iRaw (output_message str)" by (simp add: Item_MarshalJSON_def output_message_def)
  then show ?thesis using True output_message_decodes [of str]
    by (simp add: NewOutputTextMessage_def item_or_zero_def reread_quoted_eq) (simp add: output_message_def)
next
  case False
  then show ?thesis by (simp add: NewOutputTextMessage_def item_or_zero_def reread_quoted_eq NewItem_def)
qed

section \<open>Properties\<close>

text \<open>C26: secrets of remote tools are not echoed. When the tools of a request decode, no tool of type
  \<^verbatim>\<open>mcp\<close> in the sanitised request carries its authorization, headers or server address.\<close>

theorem mcp_secrets_hidden:
  assumes "map_of (gomap_of kvs) ''tools'' = Some tools" and "unmarshal_any_maps (RawJson tools) = Some ts"
  shows "\<exists>out rs. raw_entry (parseResponseRequestFields (SanitizeResponseRequestSurfaceJSON (RawJson (JObj kvs)))) ''tools'' = RawJson out \<and>
    unmarshal_raw_maps (RawJson out) = Some rs \<and>
    (\<forall>t \<in> set rs. mcp_tool t \<longrightarrow> (\<forall>k \<in> set secret_keys. map_of t k = None))"
proof -
  obtain js where js: "unmarshal_raw_list (RawJson tools) = Some js" "map (\<lambda>j. unmarshal_any_map (RawJson j)) js = map Some ts"
    using assms(2) by (auto simp: unmarshal_any_maps_def dest: all_some_Some split: option.splits)
  obtain out rs where o: "sanitizeResponseRequestToolsRaw (RawJson tools) = RawJson out" "unmarshal_raw_maps (RawJson out) = Some rs"
    "\<forall>t \<in> set rs. mcp_tool t \<longrightarrow> (\<forall>k \<in> set secret_keys. map_of t k = None)"
    using tools_sanitized [OF js] by blast
  have "raw_entry (parseResponseRequestFields (SanitizeResponseRequestSurfaceJSON (RawJson (JObj kvs)))) ''tools'' = RawJson out"
    using assms(1) o(1) gomap_of_wf [OF gomap_wf_set [OF gomap_wf_of [of kvs]], of "''tools''" out]
    by (simp add: SanitizeResponseRequestSurfaceJSON_def parseResponseRequestFields_def raw_entry_def map_of_gomap_set)
  with o show ?thesis by blast
qed

text \<open>Filling a response from its request settles it: every request field has a value afterwards, and
  filling it again changes nothing.\<close>

theorem hydration_settles:
  "HydrateResponseRequestSurface (HydrateResponseRequestSurface r req) req = HydrateResponseRequestSurface r req \<and>
   RawEmpty \<notin> (\<lambda>f. f (HydrateResponseRequestSurface r req)) ` {rp_instructions, rp_max_output_tokens, rp_max_tool_calls,
     rp_parallel_tool_calls, rp_prompt, rp_prompt_cache_key, rp_prompt_cache_retention, rp_reasoning, rp_safety_identifier,
     rp_service_tier, rp_frequency_penalty, rp_presence_penalty, rp_temperature, rp_tool_choice, rp_tools, rp_top_logprobs,
     rp_top_p, rp_truncation, rp_user}"
proof
  have n: "RawEmpty = coalesceRawMessage x s f \<longleftrightarrow> x = RawEmpty \<and> s = RawEmpty \<and> f = RawEmpty" for x s f
    by (auto simp: coalesceRawMessage_def)
  show "HydrateResponseRequestSurface (HydrateResponseRequestSurface r req) req = HydrateResponseRequestSurface r req"
    by (rule hydrate_idem)
  show "RawEmpty \<notin> (\<lambda>f. f (HydrateResponseRequestSurface r req)) ` {rp_instructions, rp_max_output_tokens, rp_max_tool_calls,
     rp_parallel_tool_calls, rp_prompt, rp_prompt_cache_key, rp_prompt_cache_retention, rp_reasoning, rp_safety_identifier,
     rp_service_tier, rp_frequency_penalty, rp_presence_penalty, rp_temperature, rp_tool_choice, rp_tools, rp_top_logprobs,
     rp_top_p, rp_truncation, rp_user}"
    by (simp add: hydrate_sel n raw_defaults)
qed

theorem mcp_secrets_hidden_witness:
  "\<exists>out rs. raw_entry (parseResponseRequestFields (SanitizeResponseRequestSurfaceJSON (RawJson (JObj
      [(''tools'', JArr [JObj [(''type'', JStr ''mcp''), (''authorization'', JStr ''s'')]])])))) ''tools'' = RawJson out \<and>
    unmarshal_raw_maps (RawJson out) = Some rs \<and>
    (\<forall>t \<in> set rs. mcp_tool t \<longrightarrow> map_of t ''authorization'' = None)"
proof -
  let ?tools = "JArr [JObj [(''type'', JStr ''mcp''), (''authorization'', JStr ''s'')]]"
  have "map_of (gomap_of [(''tools'', ?tools)]) ''tools'' = Some ?tools" by (simp add: map_of_gomap_of)
  moreover have "unmarshal_any_maps (RawJson ?tools) = Some [gomap_of [(''type'', JStr ''mcp''), (''authorization'', JStr ''s'')]]"
    by (simp add: unmarshal_any_maps_def)
  ultimately show ?thesis using mcp_secrets_hidden [of "[(''tools'', ?tools)]" ?tools] by (fastforce simp: secret_keys_def)
qed

end
