(* ===== verification/Local_Generation.thy ===== *)
theory Local_Generation
  imports Response_Context Response_Model Tool_Markup
begin

text \<open>Local generation: the text context given to the model behind the shim (\<^verbatim>\<open>domain/local_generation.go\<close>
  and \<^verbatim>\<open>buildLocalTextGenerationContext\<close> of \<^verbatim>\<open>service/responses.go\<close>), the attempts at an answer
  and the repair of leaked tool markup, and the checks of a structured answer
  (\<^verbatim>\<open>service/response_text.go\<close>). The model itself is a parameter, one function per attempt. The
  properties: the summary of tool outputs is the complete text cut at the limit; at most three
  attempts are made and no tool markup is returned; an accepted answer has the requested shape.\<close>

section \<open>The context of a local generation\<close>

fun ProjectLocalTextGenerationContext :: "item list \<Rightarrow> item list res" where
  "ProjectLocalTextGenerationContext [] = Inr []"
| "ProjectLocalTextGenerationContext (i # items) =
     (if iType i \<noteq> ''message'' then ProjectLocalTextGenerationContext items
      else if Item_HasNonTextMessageContent i then Inl ErrUnsupportedShape
      else if iRole i \<in> set [''system'', ''developer'', ''user'', ''assistant'']
        then res_bind (ProjectLocalTextGenerationContext items) (\<lambda>out. Inr (i # out))
      else Inl ErrUnsupportedShape)"

definition isLocalTextGenerationToolOutput :: "string \<Rightarrow> bool" where
  "isLocalTextGenerationToolOutput itemType \<longleftrightarrow>
     trim_space itemType \<in> set [''function_call_output'', ''custom_tool_call_output'', ''shell_call_output'',
       ''apply_patch_call_output'']"

definition outputPartsText :: "json gomap list \<Rightarrow> string" where
  "outputPartsText parts =
     join (filter (\<lambda>t. t \<noteq> []) (map (\<lambda>p. trim_space (str_entry p ''text'')) parts)) newline"

definition stringifyLocalGenerationOutput :: "raw \<Rightarrow> string" where
  "stringifyLocalGenerationOutput r =
     (if raw_absent r then []
      else case r of
        RawJson (JStr s) \<Rightarrow> s
      | RawJson j \<Rightarrow>
          (case unmarshal_any_maps r of
             Some parts \<Rightarrow> if outputPartsText parts \<noteq> [] then outputPartsText parts else json_text j
           | None \<Rightarrow> json_text j)
      | RawBad t \<Rightarrow> trim_space t
      | RawEmpty \<Rightarrow> [])"

definition localTextGenerationToolOutput :: "item \<Rightarrow> string" where
  "localTextGenerationToolOutput i =
     (if trim_space (iType i) = ''apply_patch_call_output'' then
        (let status = trim_space (Item_StringField i ''status'');
             out = trim_space (stringifyLocalGenerationOutput (Item_OutputRaw i))
         in if status = [] then out
            else if out = [] then ''status: '' @ status
            else ''status: '' @ status @ newline @ out)
      else stringifyLocalGenerationOutput (Item_OutputRaw i))"

definition localToolOutputSummaryTruncationNotice :: string where
  "localToolOutputSummaryTruncationNotice =
     newline @ newline @ ''[truncated by shim local tool output summary limit]''"

definition summaryHeader :: string where
  "summaryHeader = ''Tool output data:'' @ newline @ newline"

text \<open>The builder is the string written so far; the flag says that the text did not fit.\<close>

definition writeBoundedLocalToolSummary :: "string \<Rightarrow> string \<Rightarrow> int \<Rightarrow> string \<times> bool" where
  "writeBoundedLocalToolSummary builder str maxBytes =
     (let remaining = maxBytes - int (length builder) in
      if remaining \<le> 0 then (builder, True)
      else if int (length str) \<le> remaining then (builder @ str, False)
      else (builder @ take (nat remaining) str, True))"

definition toolOutputPart :: "item \<Rightarrow> string" where
  "toolOutputPart i =
     (let callID = trim_space (Item_CallID i) in
      to_upper (map (\<lambda>c. if c = CHR ''_'' then CHR '' '' else c) (iType i)) @
      (if callID = [] then [] else '' ('' @ callID @ '')'') @ '':'' @ newline @
      trim_space (localTextGenerationToolOutput i))"

fun localToolSummaryLoop :: "bool \<Rightarrow> int \<Rightarrow> item list \<Rightarrow> string \<Rightarrow> bool \<Rightarrow> string \<times> bool" where
  "localToolSummaryLoop reserve limit [] builder wroteOutput = (builder, wroteOutput)"
| "localToolSummaryLoop reserve limit (i # items) builder wroteOutput =
     (if \<not> isLocalTextGenerationToolOutput (iType i) \<or> trim_space (localTextGenerationToolOutput i) = []
      then localToolSummaryLoop reserve limit items builder wroteOutput
      else
        case writeBoundedLocalToolSummary builder
               ((if wroteOutput then newline @ newline else []) @ toolOutputPart i) limit of
          (builder', truncated) \<Rightarrow>
            if truncated then (builder' @ (if reserve then localToolOutputSummaryTruncationNotice else []), True)
            else localToolSummaryLoop reserve limit items builder' True)"

definition localToolOutputSummary :: "item list \<Rightarrow> int \<Rightarrow> string option" where
  "localToolOutputSummary items maxBytes =
     (if maxBytes \<le> 0 then None
      else
        let notice = int (length localToolOutputSummaryTruncationNotice);
            reserve = (maxBytes > notice + int (length summaryHeader));
            limit = (if reserve then maxBytes - notice else maxBytes)
        in case localToolSummaryLoop reserve limit items summaryHeader False of
             (builder, wroteOutput) \<Rightarrow> if wroteOutput then Some builder else None)"

definition localToolPrompt :: string where
  "localToolPrompt = ''Local tool outputs are provided below as data. Use them to answer the original request. '' @
     ''Do not call tools, do not print tool-call templates, and do not expose internal tool-call markup.''"

definition buildLocalTextGenerationContext :: "item list \<Rightarrow> int \<Rightarrow> (item list \<times> bool) res" where
  "buildLocalTextGenerationContext items maxToolOutputSummaryBytes =
     (case ProjectLocalTextGenerationContext items of
        Inl e \<Rightarrow> Inl e
      | Inr projected \<Rightarrow>
          (case localToolOutputSummary items maxToolOutputSummaryBytes of
             None \<Rightarrow> Inr (projected, False)
           | Some summary \<Rightarrow>
               Inr ([NewInputTextMessage ''system'' localToolPrompt] @ projected @
                    [NewInputTextMessage ''user'' summary], True)))"

section \<open>Generation with repair\<close>

definition repairInstruction :: string where
  "repairInstruction = ''The previous draft attempted to print internal tool-call markup as plain text. '' @
     ''Discard that draft. Produce only the final plain-text answer from the available tool output. '' @
     ''Do not call tools and do not print tool markers, DSML tool blocks, or fenced JSON command/apply_patch blocks.''"

definition appendRawToolMarkupRepairInstruction :: "item list \<Rightarrow> item list" where
  "appendRawToolMarkupRepairInstruction items = items @ [NewInputTextMessage ''system'' repairInstruction]"

definition maxLocalTextRawToolMarkupRepairRetries :: nat where
  "maxLocalTextRawToolMarkupRepairRetries = 2"

function generateLoop :: "(nat \<Rightarrow> generator) \<Rightarrow> create_response_input \<Rightarrow> item list \<Rightarrow> nat \<Rightarrow> item list \<Rightarrow> string res" where
  "generateLoop generate input generationContext repairAttempt contextItems =
     (case generate repairAttempt (in_model input) contextItems (in_options input) of
        Inl e \<Rightarrow> Inl e
      | Inr outputText \<Rightarrow>
          if \<not> ContainsPseudoToolText outputText then Inr outputText
          else if repairAttempt \<ge> maxLocalTextRawToolMarkupRepairRetries
            then Inl (InvalidResponseError ''model emitted raw tool-call markup'')
          else generateLoop generate input generationContext (Suc repairAttempt)
                 (appendRawToolMarkupRepairInstruction generationContext))"
  by pat_completeness auto
termination
  by (relation "measure (\<lambda>(g, i, c, k, cs). maxLocalTextRawToolMarkupRepairRetries - k)") auto

declare generateLoop.simps [simp del]

definition generateLocalResponseText ::
  "(nat \<Rightarrow> generator) \<Rightarrow> create_response_input \<Rightarrow> item list \<Rightarrow> string res" where
  "generateLocalResponseText generate input generationContext =
     generateLoop generate input generationContext 0 generationContext"

section \<open>Structured answers\<close>

definition ensureLocalResponseUsage :: "item list \<Rightarrow> response \<Rightarrow> response res" where
  "ensureLocalResponseUsage contextItems response =
     (if \<not> raw_absent (rp_usage response) then Inr response
      else
        res_bind (EstimateSyntheticTokenCount contextItems) (\<lambda>inputTokens.
        res_bind (EstimateSyntheticTokenCount (rp_output response)) (\<lambda>outputTokens.
        Inr (response\<lparr>rp_usage := BuildSyntheticUsage inputTokens outputTokens\<rparr>))))"

definition responseHasAssistantText :: "response \<Rightarrow> bool" where
  "responseHasAssistantText response \<longleftrightarrow>
     trim_space (rp_output_text response) \<noteq> [] \<or>
     list_ex (\<lambda>i. iType i = ''message'' \<and> iRole i = ''assistant'' \<and>
        list_ex (\<lambda>p. trim_space (part_text p) \<noteq> []) (iContent i)) (rp_output response)"

definition validateJSONModeContext :: "item list \<Rightarrow> unit res" where
  "validateJSONModeContext items =
     (if contains (concat (map (\<lambda>i. if iType i \<noteq> ''message'' then [] else MessageText i @ newline) items)) ''JSON''
      then Inr ()
      else Inl (ValidationError ''text.format''
        (''text.format.type=json_object requires '' @ [CHR 34] @ ''JSON'' @ [CHR 34] @
         '' to appear somewhere in the conversation context'')))"

definition validateLocalResponseTextRequest :: "text_config \<Rightarrow> item list \<Rightarrow> unit res" where
  "validateLocalResponseTextRequest config contextItems =
     (if tf_type config \<noteq> ''json_object'' then Inr () else validateJSONModeContext contextItems)"

definition PrepareLocalResponseText :: "create_response_input \<Rightarrow> item list \<Rightarrow> text_config res" where
  "PrepareLocalResponseText input contextItems =
     res_bind (ParseResponseTextConfig (in_text_config input)) (\<lambda>config.
     res_bind (validateLocalResponseTextRequest config contextItems) (\<lambda>_. Inr config))"

definition normalizeLocalStructuredOutput :: "response \<Rightarrow> response" where
  "normalizeLocalStructuredOutput response =
     (let normalized = NormalizeStructuredOutputJSONText (rp_output_text response) in
      if normalized = [] \<or> normalized = rp_output_text response then response
      else response\<lparr>rp_output_text := normalized, rp_output := [NewOutputTextMessage normalized]\<rparr>)"

definition FinalizeLocalResponse :: "create_response_input \<Rightarrow> item list \<Rightarrow> response \<Rightarrow> response res" where
  "FinalizeLocalResponse input contextItems response =
     res_bind (ParseResponseTextConfig (in_text_config input)) (\<lambda>config.
     res_bind (validateLocalResponseTextRequest config contextItems) (\<lambda>_.
     res_bind (ensureLocalResponseUsage contextItems (response\<lparr>rp_text := MarshalResponseTextConfig config\<rparr>)) (\<lambda>response1.
     if \<not> responseHasAssistantText response1 then Inr response1
     else if tf_type config = ''json_object'' then
       res_bind (validateJSONModeContext contextItems) (\<lambda>_.
       let response2 = normalizeLocalStructuredOutput response1 in
       res_bind (validateJSONObjectOutput (rp_output_text response2)) (\<lambda>_. Inr response2))
     else if tf_type config = ''json_schema'' then
       (let response2 = normalizeLocalStructuredOutput response1 in
        res_bind (validateJSONSchemaOutput (tf_schema config) (rp_output_text response2)) (\<lambda>_. Inr response2))
     else Inr response1)))"

section \<open>The summary of tool outputs\<close>

definition blank_line :: string where
  "blank_line = newline @ newline"

definition summary_parts :: "item list \<Rightarrow> string list" where
  "summary_parts items = map toolOutputPart
     (filter (\<lambda>i. isLocalTextGenerationToolOutput (iType i) \<and> trim_space (localTextGenerationToolOutput i) \<noteq> []) items)"

definition continued :: "bool \<Rightarrow> string list \<Rightarrow> string" where
  "continued wrote ps = (if ps = [] then [] else (if wrote then blank_line else []) @ join ps blank_line)"

lemma join_concat: "join (p # ps) sep = p @ concat (map (\<lambda>q. sep @ q) ps)"
  by (induction ps arbitrary: p) simp_all

lemma continued_Cons: "continued wrote (p # ps) = ((if wrote then blank_line else []) @ p) @ continued True ps"
  by (cases ps) (simp_all add: continued_def join_concat)

lemma part_nonempty: "toolOutputPart i \<noteq> []"
  by (simp add: toolOutputPart_def Let_def)

lemma summary_loop:
  assumes "int (length builder) \<le> limit"
  shows "localToolSummaryLoop reserve limit items builder wrote =
    (let ps = summary_parts items; full = builder @ continued wrote ps in
     if ps = [] then (builder, wrote)
     else if int (length full) \<le> limit then (full, True)
     else (take (nat limit) full @ (if reserve then localToolOutputSummaryTruncationNotice else []), True))"
  using assms
proof (induction items arbitrary: builder wrote)
  case Nil
  then show ?case by (simp add: summary_parts_def)
next
  case (Cons i items)
  show ?case
  proof (cases "isLocalTextGenerationToolOutput (iType i) \<and> trim_space (localTextGenerationToolOutput i) \<noteq> []")
    case False
    then have "summary_parts (i # items) = summary_parts items" by (auto simp: summary_parts_def)
    then show ?thesis using False Cons.IH [OF Cons.prems, of wrote] by (auto simp: Let_def)
  next
    case True
    define w where "w = (if wrote then blank_line else []) @ toolOutputPart i"
    have ps: "summary_parts (i # items) = toolOutputPart i # summary_parts items"
      using True by (simp add: summary_parts_def)
    have full: "builder @ continued wrote (summary_parts (i # items)) = builder @ w @ continued True (summary_parts items)"
      unfolding ps continued_Cons w_def by simp
    have full': "builder @ continued wrote (toolOutputPart i # summary_parts items) =
        (builder @ w) @ continued True (summary_parts items)"
      using full ps by simp
    have w: "w \<noteq> []" using part_nonempty by (simp add: w_def)
    have step: "localToolSummaryLoop reserve limit (i # items) builder wrote =
      (case writeBoundedLocalToolSummary builder w limit of
          (builder', truncated) \<Rightarrow>
            if truncated then (builder' @ (if reserve then localToolOutputSummaryTruncationNotice else []), True)
            else localToolSummaryLoop reserve limit items builder' True)"
      using True by (simp add: w_def blank_line_def)
    show ?thesis
    proof (cases "int (length builder) + int (length w) \<le> limit")
      case fits: True
      then have b: "writeBoundedLocalToolSummary builder w limit = (builder @ w, False)"
        using w by (cases w) (auto simp: writeBoundedLocalToolSummary_def Let_def)
      have "int (length (builder @ w)) \<le> limit" using fits by simp
      note IH = Cons.IH [OF this, of True]
      have none: "continued True [] = []" by (simp add: continued_def)
      show ?thesis
        unfolding step b Let_def ps full' prod.case if_False if_not_P [OF list.distinct(2)]
        using IH fits none by (cases "summary_parts items = []") (simp_all add: Let_def)
    next
      case False
      have b: "writeBoundedLocalToolSummary builder w limit = (builder @ take (nat (limit - int (length builder))) w, True)"
        using False Cons.prems by (auto simp: writeBoundedLocalToolSummary_def Let_def)
      have cut: "take (nat limit) ((builder @ w) @ continued True (summary_parts items)) =
          builder @ take (nat (limit - int (length builder))) w"
        using False Cons.prems by (simp add: nat_diff_distrib)
      have long: "\<not> int (length ((builder @ w) @ continued True (summary_parts items))) \<le> limit" using False by simp
      show ?thesis unfolding step b Let_def ps full' prod.case if_not_P [OF long] cut by simp
    qed
  qed
qed

text \<open>The complete text, without a limit.\<close>

definition full_summary :: "item list \<Rightarrow> string" where
  "full_summary items = summaryHeader @ join (summary_parts items) blank_line"

section \<open>Attempts\<close>

definition attempt_context :: "item list \<Rightarrow> nat \<Rightarrow> item list" where
  "attempt_context ctx k = (if k = 0 then ctx else appendRawToolMarkupRepairInstruction ctx)"

definition attempt :: "(nat \<Rightarrow> generator) \<Rightarrow> create_response_input \<Rightarrow> item list \<Rightarrow> nat \<Rightarrow> string res" where
  "attempt generate input ctx k = generate k (in_model input) (attempt_context ctx k) (in_options input)"

definition spoiled :: "string res \<Rightarrow> bool" where
  "spoiled r \<longleftrightarrow> (\<exists>t. r = Inr t \<and> ContainsPseudoToolText t)"

lemma generate_loop_step:
  "generateLoop generate input ctx k (attempt_context ctx k) =
     (if \<not> spoiled (attempt generate input ctx k) then attempt generate input ctx k
      else if 2 \<le> k then Inl (InvalidResponseError ''model emitted raw tool-call markup'')
      else generateLoop generate input ctx (Suc k) (attempt_context ctx (Suc k)))"
  by (subst generateLoop.simps)
    (auto simp: attempt_def spoiled_def maxLocalTextRawToolMarkupRepairRetries_def attempt_context_def split: sum.splits)

lemma generate_attempts:
  "generateLocalResponseText generate input ctx =
     (if \<not> spoiled (attempt generate input ctx 0) then attempt generate input ctx 0
      else if \<not> spoiled (attempt generate input ctx 1) then attempt generate input ctx 1
      else if \<not> spoiled (attempt generate input ctx 2) then attempt generate input ctx 2
      else Inl (InvalidResponseError ''model emitted raw tool-call markup''))"
proof -
  have "generateLocalResponseText generate input ctx = generateLoop generate input ctx 0 (attempt_context ctx 0)"
    by (simp add: generateLocalResponseText_def attempt_context_def)
  also have "\<dots> = (if \<not> spoiled (attempt generate input ctx 0) then attempt generate input ctx 0
      else if \<not> spoiled (attempt generate input ctx 1) then attempt generate input ctx 1
      else if \<not> spoiled (attempt generate input ctx 2) then attempt generate input ctx 2
      else Inl (InvalidResponseError ''model emitted raw tool-call markup''))"
    by (simp add: generate_loop_step [of _ _ _ 0] generate_loop_step [of _ _ _ "Suc 0"] generate_loop_step [of _ _ _ "Suc (Suc 0)"]
        eval_nat_numeral)
  finally show ?thesis .
qed

section \<open>Finalized answers\<close>

lemma finalized_cases:
  assumes "FinalizeLocalResponse input ctx r = Inr r'"
  obtains config r1 where "ParseResponseTextConfig (in_text_config input) = Inr config"
    "ensureLocalResponseUsage ctx (r\<lparr>rp_text := MarshalResponseTextConfig config\<rparr>) = Inr r1"
    "rp_output_text r1 = rp_output_text r" "rp_output r1 = rp_output r" "responseHasAssistantText r1 = responseHasAssistantText r"
    "\<not> responseHasAssistantText r \<Longrightarrow> r' = r1"
    "responseHasAssistantText r \<Longrightarrow> tf_type config = ''json_object'' \<Longrightarrow>
       r' = normalizeLocalStructuredOutput r1 \<and> validateJSONObjectOutput (rp_output_text r') = Inr ()"
    "responseHasAssistantText r \<Longrightarrow> tf_type config = ''json_schema'' \<Longrightarrow>
       r' = normalizeLocalStructuredOutput r1 \<and> validateJSONSchemaOutput (tf_schema config) (rp_output_text r') = Inr ()"
    "tf_type config \<noteq> ''json_object'' \<Longrightarrow> tf_type config \<noteq> ''json_schema'' \<Longrightarrow> r' = r1"
proof -
  obtain config r1 where c: "ParseResponseTextConfig (in_text_config input) = Inr config"
    "ensureLocalResponseUsage ctx (r\<lparr>rp_text := MarshalResponseTextConfig config\<rparr>) = Inr r1"
    and f: "(if \<not> responseHasAssistantText r1 then Inr r1
     else if tf_type config = ''json_object'' then
       res_bind (validateJSONModeContext ctx) (\<lambda>_.
       let response2 = normalizeLocalStructuredOutput r1 in
       res_bind (validateJSONObjectOutput (rp_output_text response2)) (\<lambda>_. Inr response2))
     else if tf_type config = ''json_schema'' then
       (let response2 = normalizeLocalStructuredOutput r1 in
        res_bind (validateJSONSchemaOutput (tf_schema config) (rp_output_text response2)) (\<lambda>_. Inr response2))
     else Inr r1) = Inr r'"
    using assms unfolding FinalizeLocalResponse_def res_bind_Inr_iff by blast
  have s: "rp_output_text r1 = rp_output_text r" "rp_output r1 = rp_output r"
    using c(2) by (auto simp: ensureLocalResponseUsage_def res_bind_Inr_iff split: if_splits)
  then have h: "responseHasAssistantText r1 = responseHasAssistantText r" by (simp add: responseHasAssistantText_def)
  show thesis
    by (rule that [OF c s h]) (use f h in \<open>auto simp: Let_def split: if_splits\<close>)
qed

lemma normalized_output_text:
  "rp_output_text (normalizeLocalStructuredOutput r) =
     (if NormalizeStructuredOutputJSONText (rp_output_text r) = [] then rp_output_text r
      else NormalizeStructuredOutputJSONText (rp_output_text r))"
  by (auto simp: normalizeLocalStructuredOutput_def Let_def)

lemma normalized_output_fixed:
  assumes "NormalizeStructuredOutputJSONText (rp_output_text (normalizeLocalStructuredOutput r)) \<noteq> []"
  shows "NormalizeStructuredOutputJSONText (rp_output_text (normalizeLocalStructuredOutput r)) =
    rp_output_text (normalizeLocalStructuredOutput r)"
  using assms normalized_text_idem [of "rp_output_text r"] by (auto simp: normalized_output_text)

section \<open>Properties\<close>

text \<open>The summary of tool outputs is the complete text cut at the limit. With a limit of at least the
  length of the heading, the summary is all tool outputs in order when they fit, and otherwise their
  text cut at the limit, where a notice is added when there is room for it; it never exceeds the limit.\<close>

theorem tool_summary_is_cut_text:
  assumes "int (length summaryHeader) \<le> maxBytes"
  shows "localToolOutputSummary items maxBytes =
    (let notice = localToolOutputSummaryTruncationNotice;
         reserve = (int (length notice) + int (length summaryHeader) < maxBytes);
         limit = (if reserve then maxBytes - int (length notice) else maxBytes)
     in if summary_parts items = [] then None
        else if int (length (full_summary items)) \<le> limit then Some (full_summary items)
        else Some (take (nat limit) (full_summary items) @ (if reserve then notice else []))) \<and>
    (\<forall>s. localToolOutputSummary items maxBytes = Some s \<longrightarrow> int (length s) \<le> maxBytes)"
proof -
  let ?n = "localToolOutputSummaryTruncationNotice"
  define reserve where "reserve \<longleftrightarrow> int (length ?n) + int (length summaryHeader) < maxBytes"
  define limit where "limit = (if reserve then maxBytes - int (length ?n) else maxBytes)"
  have l: "int (length summaryHeader) \<le> limit" "0 < maxBytes" "0 \<le> limit"
    using assms by (auto simp: limit_def reserve_def summaryHeader_def newline_def)
  have c: "summaryHeader @ continued False (summary_parts items) = full_summary items" if "summary_parts items \<noteq> []"
    using that by (simp add: full_summary_def continued_def)
  have eq: "localToolOutputSummary items maxBytes =
     (if summary_parts items = [] then None
        else if int (length (full_summary items)) \<le> limit then Some (full_summary items)
        else Some (take (nat limit) (full_summary items) @ (if reserve then ?n else [])))"
    using summary_loop [OF l(1), of reserve items False] l(2) c
    by (cases "summary_parts items = []")
      (simp_all add: localToolOutputSummary_def Let_def reserve_def [symmetric] limit_def [symmetric])
  moreover have "int (length s) \<le> maxBytes" if "localToolOutputSummary items maxBytes = Some s" for s
    using that l(3) unfolding eq by (auto simp: limit_def split: if_splits)
  ultimately show ?thesis by (simp add: Let_def reserve_def limit_def)
qed

text \<open>C21: generation ends after at most three attempts and never returns tool markup. The result is the
  first attempt that is an error or a text without leaked tool syntax, where every attempt after the
  first has the repair instruction appended; when all three leak, the result is an error.\<close>

theorem generation_repairs:
  "generateLocalResponseText generate input ctx =
     (case find (\<lambda>k. \<not> spoiled (attempt generate input ctx k)) [0, 1, 2] of
        Some k \<Rightarrow> attempt generate input ctx k
      | None \<Rightarrow> Inl (InvalidResponseError ''model emitted raw tool-call markup'')) \<and>
   \<not> spoiled (generateLocalResponseText generate input ctx)"
proof -
  have "\<not> spoiled (Inl (InvalidResponseError m))" for m by (simp add: spoiled_def)
  then show ?thesis
    unfolding generate_attempts
    by (cases "spoiled (attempt generate input ctx 0)"; cases "spoiled (attempt generate input ctx 1)";
        cases "spoiled (attempt generate input ctx 2)") simp_all
qed

text \<open>C20: a structured answer is what the request asked for. When an answer with text is accepted for a
  request with the JSON format, the text of the response is a JSON object; for a request with a
  schema, the text of the response is a JSON value that conforms to the schema.\<close>

theorem structured_answer_guaranteed:
  assumes "FinalizeLocalResponse input ctx r = Inr r'" and "responseHasAssistantText r"
    and "ParseResponseTextConfig (in_text_config input) = Inr config"
  shows "(tf_type config = ''json_object'' \<longrightarrow> (\<exists>kvs. read_json (rp_output_text r') = Some (JObj kvs))) \<and>
    (tf_type config = ''json_schema'' \<longrightarrow>
      (\<exists>schema j. unmarshal_any_map (tf_schema config) = Some schema \<and> read_json (rp_output_text r') = Some j \<and>
         conforms (use_number j) schema))"
  using assms(1)
proof (rule finalized_cases)
  fix config' r1
  assume c: "ParseResponseTextConfig (in_text_config input) = Inr config'"
    and o: "responseHasAssistantText r \<Longrightarrow> tf_type config' = ''json_object'' \<Longrightarrow>
       r' = normalizeLocalStructuredOutput r1 \<and> validateJSONObjectOutput (rp_output_text r') = Inr ()"
    and s: "responseHasAssistantText r \<Longrightarrow> tf_type config' = ''json_schema'' \<Longrightarrow>
       r' = normalizeLocalStructuredOutput r1 \<and> validateJSONSchemaOutput (tf_schema config') (rp_output_text r') = Inr ()"
  have same: "config' = config" using c assms(3) by simp
  have object: "\<exists>kvs. read_json (rp_output_text r') = Some (JObj kvs)" if "tf_type config = ''json_object''"
  proof -
    have r': "r' = normalizeLocalStructuredOutput r1" and v: "validateJSONObjectOutput (rp_output_text r') = Inr ()"
      using o assms(2) that same by blast+
    let ?n = "NormalizeStructuredOutputJSONText (rp_output_text r')"
    have d: "?n \<noteq> [] \<and> (\<exists>kvs. read_json ?n = Some (JObj kvs))"
      using v by (auto simp: validateJSONObjectOutput_def decodeStructuredOutput_def res_bind_Inr_iff Let_def
          elim!: use_number.elims split: if_splits option.splits json.splits)
    then have "?n = rp_output_text r'" unfolding r' using normalized_output_fixed by blast
    with d show ?thesis by simp
  qed
  have schema: "\<exists>schema j. unmarshal_any_map (tf_schema config) = Some schema \<and> read_json (rp_output_text r') = Some j \<and>
      conforms (use_number j) schema" if t: "tf_type config = ''json_schema''"
  proof -
    have r': "r' = normalizeLocalStructuredOutput r1" and v: "validateJSONSchemaOutput (tf_schema config) (rp_output_text r') = Inr ()"
      using s assms(2) t same by blast+
    obtain sch j where j: "unmarshal_any_map (tf_schema config) = Some sch"
      "read_json (NormalizeStructuredOutputJSONText (rp_output_text r')) = Some j"
      "NormalizeStructuredOutputJSONText (rp_output_text r') \<noteq> []" "conforms (use_number j) sch"
      using schema_output_iff [OF assms(3) t] v by blast
    have "NormalizeStructuredOutputJSONText (rp_output_text r') = rp_output_text r'"
      using j(3) unfolding r' by (rule normalized_output_fixed)
    with j show ?thesis by auto
  qed
  show ?thesis using object schema by blast
qed

section \<open>Witnesses\<close>

definition sample_tool_output :: item where
  "sample_tool_output = \<lparr>iRaw = RawJson (JObj [(''call_id'', JStr ''c''), (''output'', JStr ''ok'')]), iMeta = None,
     iType = ''shell_call_output'', iRole = [], iContent = []\<rparr>"

lemma sample_tool_part:
  "summary_parts [sample_tool_output] = [''SHELL CALL OUTPUT (c):'' @ newline @ ''ok'']"
proof -
  have "localTextGenerationToolOutput sample_tool_output = ''ok''"
    by (simp add: localTextGenerationToolOutput_def sample_tool_output_def Item_RawField_def raw_entry_def gomap_of_def
        stringifyLocalGenerationOutput_def raw_absent_def trim_space_word Let_def Item_Map_def)
  moreover have "trim_space (Item_CallID sample_tool_output) = ''c''"
    by (simp add: sample_tool_output_def Item_StringField_def Item_RawField_def Item_Map_def trim_space_word Let_def
        raw_entry_def gomap_of_def)
  moreover have "iType sample_tool_output = ''shell_call_output''" by (simp add: sample_tool_output_def)
  moreover have "to_upper (map (\<lambda>c. if c = CHR ''_'' then CHR '' '' else c) ''shell_call_output'') = ''SHELL CALL OUTPUT''"
    by code_simp
  ultimately show ?thesis
    by (simp add: summary_parts_def isLocalTextGenerationToolOutput_def toolOutputPart_def trim_space_word Let_def)
qed

theorem tool_summary_is_cut_text_witness:
  "localToolOutputSummary [sample_tool_output] 100 = Some (summaryHeader @ ''SHELL CALL OUTPUT (c):'' @ newline @ ''ok'') \<and>
   localToolOutputSummary [sample_tool_output] 20 = Some (summaryHeader @ ''S'')"
  using tool_summary_is_cut_text [of 100 "[sample_tool_output]"] tool_summary_is_cut_text [of 20 "[sample_tool_output]"]
  by (simp add: sample_tool_part full_summary_def summaryHeader_def newline_def localToolOutputSummaryTruncationNotice_def Let_def)

lemma sample_text_conforms:
  "validateJSONSchemaOutput (tf_schema string_schema_format) (json_text (JStr ''ok'')) = Inr ()"
  "NormalizeStructuredOutputJSONText (json_text (JStr ''ok'')) = json_text (JStr ''ok'')"
  "trim_space (json_text (JStr ''ok'')) = json_text (JStr ''ok'')"
proof -
  have v: "valid_utf8 ''ok''" by (rule valid_utf8_all_ascii) simp
  have r: "read_json (json_text (JStr ''ok'')) = Some (JStr ''ok'')"
    by (rule read_json_text) (simp add: v del: valid_utf8.simps)
  show t: "trim_space (json_text (JStr ''ok'')) = json_text (JStr ''ok'')" by (rule trim_space_word) simp_all
  show n: "NormalizeStructuredOutputJSONText (json_text (JStr ''ok'')) = json_text (JStr ''ok'')"
    unfolding NormalizeStructuredOutputJSONText_def t Let_def r by simp
  have "json_text (JStr ''ok'') \<noteq> []" by simp
  moreover have "schema_type [(''type'', JStr ''string'')] = ''string''"
    by (simp add: schema_type_def str_entry_def trim_space_word)
  ultimately show "validateJSONSchemaOutput (tf_schema string_schema_format) (json_text (JStr ''ok'')) = Inr ()"
    using schema_output_iff [OF string_schema_parsed] r n
    by (auto simp: string_schema_format_def conforms_simps enum_allows_def gomap_of_sorted simp del: json_text.simps)
qed

definition sample_structured_request :: create_response_input where
  "sample_structured_request = sample_request\<lparr>in_text_config := string_schema_config\<rparr>"

definition sample_structured_response :: response where
  "sample_structured_response = empty_response\<lparr>rp_output_text := json_text (JStr ''ok''), rp_usage := RawJson (JObj [])\<rparr>"

theorem structured_answer_guaranteed_witness:
  "\<exists>r schema j. FinalizeLocalResponse sample_structured_request [] sample_structured_response = Inr r \<and>
     unmarshal_any_map (tf_schema string_schema_format) = Some schema \<and> read_json (rp_output_text r) = Some j \<and>
     conforms (use_number j) schema"
proof -
  have t: "responseHasAssistantText sample_structured_response"
    using sample_text_conforms(3) by (simp add: responseHasAssistantText_def sample_structured_response_def del: json_text.simps) simp
  have p: "ParseResponseTextConfig (in_text_config sample_structured_request) = Inr string_schema_format"
    using string_schema_parsed by (simp add: sample_structured_request_def)
  have ty: "tf_type string_schema_format = ''json_schema''" by (simp add: string_schema_format_def)
  let ?r = "sample_structured_response\<lparr>rp_text := MarshalResponseTextConfig string_schema_format\<rparr>"
  have u: "ensureLocalResponseUsage [] ?r = Inr ?r"
    by (simp add: ensureLocalResponseUsage_def sample_structured_response_def raw_absent_def)
  have o: "rp_output_text ?r = json_text (JStr ''ok'')" by (simp add: sample_structured_response_def)
  then have nn: "normalizeLocalStructuredOutput ?r = ?r"
    by (simp add: normalizeLocalStructuredOutput_def sample_text_conforms del: json_text.simps)
  have h: "responseHasAssistantText ?r" using t by (simp add: responseHasAssistantText_def)
  have "FinalizeLocalResponse sample_structured_request [] sample_structured_response = Inr ?r"
    using p ty u nn h o sample_text_conforms(1)
    by (simp add: FinalizeLocalResponse_def validateLocalResponseTextRequest_def Let_def del: json_text.simps)
  with structured_answer_guaranteed [OF this t p] ty show ?thesis by auto
qed

end
