(* ===== verification/Response_Printing.thy ===== *)
theory Response_Printing
  imports Response_Model
begin

text \<open>
  A response that was printed and stored reads back: the lookups of the struct decoder in the printed
  document, the response as it is parsed again (\<open>reread\<close>, where absent documents have become
  \<^verbatim>\<open>null\<close>), and the theorem that reading a stored response prints the stored document.
\<close>

section \<open>Reading a printed response\<close>

definition canonical_keys :: "(string \<times> 'a) list \<Rightarrow> bool" where
  "canonical_keys kvs \<longleftrightarrow> distinct (map fst kvs) \<and> list_all (\<lambda>k. fold_case k = k) (map fst kvs)"

lemma canonical_Cons:
  "canonical_keys ((k, v) # kvs) \<Longrightarrow> fold_case f = f \<Longrightarrow>
     canonical_keys kvs \<and> fold_case k = k \<and> (equal_fold k f \<longleftrightarrow> k = f) \<and> (k = f \<longrightarrow> map_of kvs f = None)"
  by (auto simp: canonical_keys_def equal_fold_def map_of_eq_None_iff)

lemma struct_raw_lookup:
  "canonical_keys kvs \<Longrightarrow> fold_case f = f \<Longrightarrow>
     struct_raw f kvs acc = (case map_of kvs f of None \<Rightarrow> acc | Some v \<Rightarrow> RawJson v)"
proof (induction kvs arbitrary: acc)
  case (Cons p kvs)
  then show ?case using canonical_Cons [of "fst p" "snd p" kvs f] by (cases p) auto
qed simp

lemma struct_string_lookup:
  "canonical_keys kvs \<Longrightarrow> fold_case f = f \<Longrightarrow>
     struct_string f kvs acc = (case map_of kvs f of None \<Rightarrow> Some acc | Some JNull \<Rightarrow> Some acc | Some (JStr s) \<Rightarrow> Some s | Some _ \<Rightarrow> None)"
proof (induction kvs arbitrary: acc)
  case (Cons p kvs)
  then show ?case using canonical_Cons [of "fst p" "snd p" kvs f] by (cases p; cases "snd p") auto
qed simp

lemma struct_int_lookup:
  "canonical_keys kvs \<Longrightarrow> fold_case f = f \<Longrightarrow>
     struct_int f kvs acc = (case map_of kvs f of None \<Rightarrow> Some acc | Some JNull \<Rightarrow> Some acc
       | Some (JNum t) \<Rightarrow> int_of_number t | Some _ \<Rightarrow> None)"
proof (induction kvs arbitrary: acc)
  case (Cons p kvs)
  then show ?case using canonical_Cons [of "fst p" "snd p" kvs f]
    by (cases p; cases "snd p") (auto split: option.splits)
qed simp

lemma struct_int_ptr_lookup:
  "canonical_keys kvs \<Longrightarrow> fold_case f = f \<Longrightarrow>
     struct_int_ptr f kvs acc = (case map_of kvs f of None \<Rightarrow> Some acc | Some JNull \<Rightarrow> Some None
       | Some (JNum t) \<Rightarrow> map_option Some (int_of_number t) | Some _ \<Rightarrow> None)"
proof (induction kvs arbitrary: acc)
  case (Cons p kvs)
  then show ?case using canonical_Cons [of "fst p" "snd p" kvs f]
    by (cases p; cases "snd p") (auto split: option.splits)
qed simp

lemma struct_bool_ptr_lookup:
  "canonical_keys kvs \<Longrightarrow> fold_case f = f \<Longrightarrow>
     struct_bool_ptr f kvs acc = (case map_of kvs f of None \<Rightarrow> Some acc | Some JNull \<Rightarrow> Some None
       | Some (JBool b) \<Rightarrow> Some (Some b) | Some _ \<Rightarrow> None)"
proof (induction kvs arbitrary: acc)
  case (Cons p kvs)
  then show ?case using canonical_Cons [of "fst p" "snd p" kvs f] by (cases p; cases "snd p") auto
qed simp

lemma struct_raws_lookup:
  "canonical_keys kvs \<Longrightarrow> fold_case f = f \<Longrightarrow>
     struct_raws f kvs acc = (case map_of kvs f of None \<Rightarrow> Some acc | Some JNull \<Rightarrow> Some []
       | Some (JArr js) \<Rightarrow> Some (map RawJson js) | Some _ \<Rightarrow> None)"
proof (induction kvs arbitrary: acc)
  case (Cons p kvs)
  then show ?case using canonical_Cons [of "fst p" "snd p" kvs f] by (cases p; cases "snd p") auto
qed simp

lemmas struct_lookups = struct_raw_lookup struct_string_lookup struct_int_lookup struct_int_ptr_lookup
  struct_bool_ptr_lookup struct_raws_lookup

subsection \<open>The printed entries\<close>

lemma response_keys_fold:
  "list_all (\<lambda>k. fold_case k = k) (map fst (response_entries r))"
  by (simp add: response_entries_def fold_case.simps lower_char_def split: option.splits)

lemma response_keys_distinct: "distinct (map fst (response_entries r))"
  by (simp add: response_entries_def split: option.splits)

lemma response_key_folds:
  "fold_case ''id'' = ''id''"
  "fold_case ''object'' = ''object''"
  "fold_case ''created_at'' = ''created_at''"
  "fold_case ''status'' = ''status''"
  "fold_case ''completed_at'' = ''completed_at''"
  "fold_case ''error'' = ''error''"
  "fold_case ''incomplete_details'' = ''incomplete_details''"
  "fold_case ''instructions'' = ''instructions''"
  "fold_case ''max_output_tokens'' = ''max_output_tokens''"
  "fold_case ''max_tool_calls'' = ''max_tool_calls''"
  "fold_case ''model'' = ''model''"
  "fold_case ''output'' = ''output''"
  "fold_case ''parallel_tool_calls'' = ''parallel_tool_calls''"
  "fold_case ''previous_response_id'' = ''previous_response_id''"
  "fold_case ''prompt'' = ''prompt''"
  "fold_case ''prompt_cache_key'' = ''prompt_cache_key''"
  "fold_case ''prompt_cache_retention'' = ''prompt_cache_retention''"
  "fold_case ''reasoning'' = ''reasoning''"
  "fold_case ''safety_identifier'' = ''safety_identifier''"
  "fold_case ''service_tier'' = ''service_tier''"
  "fold_case ''conversation'' = ''conversation''"
  "fold_case ''background'' = ''background''"
  "fold_case ''store'' = ''store''"
  "fold_case ''temperature'' = ''temperature''"
  "fold_case ''text'' = ''text''"
  "fold_case ''tool_choice'' = ''tool_choice''"
  "fold_case ''tools'' = ''tools''"
  "fold_case ''top_logprobs'' = ''top_logprobs''"
  "fold_case ''top_p'' = ''top_p''"
  "fold_case ''truncation'' = ''truncation''"
  "fold_case ''usage'' = ''usage''"
  "fold_case ''user'' = ''user''"
  "fold_case ''metadata'' = ''metadata''"
  "fold_case ''frequency_penalty'' = ''frequency_penalty''"
  "fold_case ''presence_penalty'' = ''presence_penalty''"
  "fold_case ''output_text'' = ''output_text''"
  by (simp_all add: fold_case.simps lower_char_def)

fun doc_json :: "raw \<Rightarrow> json" where
  "doc_json (RawJson j) = j"
| "doc_json _ = JNull"

lemma marshal_raw_doc: "marshal_raw x = Inr j \<Longrightarrow> j = doc_json x"
  by (cases x) auto

lemma map_res_entries:
  "map_res (\<lambda>(k, m). case m of Inl e \<Rightarrow> Inl e | Inr j \<Rightarrow> Inr (k, j)) es = Inr kvs \<Longrightarrow>
     es = map (\<lambda>(k, j). (k, Inr j)) kvs"
  by (induction es arbitrary: kvs) (auto split: sum.splits)

lemma printed_entries:
  assumes "Response_MarshalJSON r = Inr doc"
  obtains kvs where "doc = RawJson (JObj kvs)" "canonical_keys kvs"
    "response_entries r = map (\<lambda>(k, j). (k, Inr j)) kvs"
proof -
  obtain kvs where k: "map_res (\<lambda>(k, m). case m of Inl e \<Rightarrow> Inl e | Inr j \<Rightarrow> Inr (k, j)) (response_entries r) = Inr kvs"
    "doc = RawJson (JObj kvs)"
    using assms by (auto simp: Response_MarshalJSON_def split: sum.splits)
  note e = map_res_entries [OF k(1)]
  have "map fst (response_entries r) = map fst kvs" unfolding e by (simp add: comp_def case_prod_beta)
  then have "canonical_keys kvs"
    using response_keys_fold [of r] response_keys_distinct [of r] by (simp add: canonical_keys_def)
  with k(2) e show thesis by (intro that)
qed

lemma entry_value:
  assumes "es = map (\<lambda>(k, j). (k, Inr j)) kvs" "map_of es k = Some m"
  shows "\<exists>j. m = Inr j \<and> map_of kvs k = Some j"
  using assms(2) unfolding assms(1) by (induction kvs) (auto split: if_splits)

lemma printed_raw:
  assumes "response_entries r = map (\<lambda>(k, j). (k, Inr j)) kvs" "map_of (response_entries r) k = Some (marshal_raw x)"
  shows "map_of kvs k = Some (doc_json x)"
  using entry_value [OF assms] marshal_raw_doc by metis

lemma printed_plain:
  assumes "response_entries r = map (\<lambda>(k, j). (k, Inr j)) kvs" "map_of (response_entries r) k = Some (Inr j)"
  shows "map_of kvs k = Some j"
  using entry_value [OF assms] by auto

lemma printed_lookups:
  assumes "response_entries r = map (\<lambda>(k, j). (k, Inr j)) kvs"
  shows
  "map_of kvs ''error'' = Some (doc_json (rp_error r))"
  "map_of kvs ''incomplete_details'' = Some (doc_json (rp_incomplete_details r))"
  "map_of kvs ''instructions'' = Some (doc_json (rp_instructions r))"
  "map_of kvs ''max_output_tokens'' = Some (doc_json (rp_max_output_tokens r))"
  "map_of kvs ''max_tool_calls'' = Some (doc_json (rp_max_tool_calls r))"
  "map_of kvs ''parallel_tool_calls'' = Some (doc_json (rp_parallel_tool_calls r))"
  "map_of kvs ''prompt'' = Some (doc_json (rp_prompt r))"
  "map_of kvs ''prompt_cache_key'' = Some (doc_json (rp_prompt_cache_key r))"
  "map_of kvs ''prompt_cache_retention'' = Some (doc_json (rp_prompt_cache_retention r))"
  "map_of kvs ''reasoning'' = Some (doc_json (rp_reasoning r))"
  "map_of kvs ''safety_identifier'' = Some (doc_json (rp_safety_identifier r))"
  "map_of kvs ''temperature'' = Some (doc_json (rp_temperature r))"
  "map_of kvs ''text'' = Some (doc_json (rp_text r))"
  "map_of kvs ''tool_choice'' = Some (doc_json (rp_tool_choice r))"
  "map_of kvs ''tools'' = Some (doc_json (rp_tools r))"
  "map_of kvs ''top_p'' = Some (doc_json (rp_top_p r))"
  "map_of kvs ''truncation'' = Some (doc_json (rp_truncation r))"
  "map_of kvs ''usage'' = Some (doc_json (rp_usage r))"
  "map_of kvs ''user'' = Some (doc_json (rp_user r))"
  "map_of kvs ''service_tier'' = Some (doc_json (coalesceRawMessage (rp_service_tier r) RawEmpty rawJSONDefault))"
  "map_of kvs ''top_logprobs'' = Some (doc_json (coalesceRawMessage (rp_top_logprobs r) RawEmpty rawJSONZero))"
  "map_of kvs ''frequency_penalty'' = Some (doc_json (coalesceRawMessage (rp_frequency_penalty r) RawEmpty rawJSONZeroPointZero))"
  "map_of kvs ''presence_penalty'' = Some (doc_json (coalesceRawMessage (rp_presence_penalty r) RawEmpty rawJSONZeroPointZero))"
  "map_of kvs ''id'' = Some (JStr (rp_id r))"
  "map_of kvs ''object'' = Some (JStr (rp_object r))"
  "map_of kvs ''created_at'' = Some (JNum (int_text (rp_created_at r)))"
  "map_of kvs ''status'' = Some (JStr (rp_status r))"
  "map_of kvs ''completed_at'' = Some (int_ptr_json (rp_completed_at r))"
  "map_of kvs ''model'' = Some (JStr (rp_model r))"
  "map_of kvs ''previous_response_id'' = Some (if rp_previous r = [] then JNull else JStr (rp_previous r))"
  "map_of kvs ''background'' = Some (bool_ptr_json (rp_background r))"
  "map_of kvs ''store'' = Some (bool_ptr_json (rp_store r))"
  "map_of kvs ''metadata'' = Some (metadata_json (rp_metadata r))"
  "map_of kvs ''output_text'' = Some (JStr (rp_output_text r))"
  by (rule printed_raw [OF assms] printed_plain [OF assms], simp add: response_entries_def split: option.splits)+

lemma printed_conversation:
  assumes "response_entries r = map (\<lambda>(k, j). (k, Inr j)) kvs"
  shows "map_of kvs ''conversation'' = map_option (\<lambda>c. JObj [(''id'', JStr c)]) (rp_conversation r)"
proof (cases "rp_conversation r")
  case None
  have "''conversation'' \<notin> fst ` set (response_entries r)" by (simp add: response_entries_def None)
  moreover have "fst ` set (response_entries r) = fst ` set kvs" unfolding assms by force
  ultimately show ?thesis using None by (simp add: map_of_eq_None_iff)
next
  case (Some c)
  have "map_of (response_entries r) ''conversation'' = Some (Inr (JObj [(''id'', JStr c)]))"
    by (simp add: response_entries_def Some)
  from printed_plain [OF assms this] Some show ?thesis by simp
qed

lemma printed_output:
  assumes "response_entries r = map (\<lambda>(k, j). (k, Inr j)) kvs"
  shows "\<exists>js. map_res item_json (rp_output r) = Inr js \<and> map_of kvs ''output'' = Some (JArr js)"
proof -
  have "map_of (response_entries r) ''output'' = Some (items_json (rp_output r))"
    by (simp add: response_entries_def split: option.splits)
  from entry_value [OF assms this] show ?thesis by (auto simp: items_json_def split: sum.splits)
qed

text \<open>What is required of a response so that it reads back: the fields a finished response has.\<close>

definition settled :: "response \<Rightarrow> item list \<Rightarrow> bool" where
  "settled r items \<longleftrightarrow> rp_id r \<noteq> [] \<and> rp_object r \<noteq> [] \<and> 0 < rp_created_at r \<and> rp_created_at r < 2 ^ 63 \<and>
     (\<forall>n. rp_completed_at r = Some n \<longrightarrow> 0 \<le> n \<and> n < 2 ^ 63) \<and>
     trim_space (rp_status r) = rp_status r \<and> rp_status r \<noteq> [] \<and>
     (equal_fold (rp_status r) ''completed'' \<longleftrightarrow> rp_completed_at r \<noteq> None) \<and>
     (\<forall>c. rp_conversation r = Some c \<longrightarrow> trim_space c = c \<and> c \<noteq> []) \<and>
     rp_background r \<noteq> None \<and> rp_store r \<noteq> None \<and> \<not> raw_absent (rp_text r) \<and>
     (\<exists>md. rp_metadata r = Some md \<and> metadata_ok md) \<and>
     map_res (\<lambda>i. NewItem (Item_MarshalJSON i)) (rp_output r) = Inr items \<and>
     (rp_output_text r = [] \<longrightarrow> assistantText items = []) \<and> (rp_output_text r \<noteq> [] \<longrightarrow> rp_output r \<noteq> [])"

text \<open>The response as it is read back: absent documents have become \<^verbatim>\<open>null\<close>.\<close>

definition reread :: "response \<Rightarrow> item list \<Rightarrow> response" where
  "reread r items = r\<lparr>rp_output := items,
     rp_error := RawJson (doc_json (rp_error r)),
     rp_incomplete_details := RawJson (doc_json (rp_incomplete_details r)),
     rp_instructions := RawJson (doc_json (rp_instructions r)),
     rp_max_output_tokens := RawJson (doc_json (rp_max_output_tokens r)),
     rp_max_tool_calls := RawJson (doc_json (rp_max_tool_calls r)),
     rp_parallel_tool_calls := RawJson (doc_json (rp_parallel_tool_calls r)),
     rp_prompt := RawJson (doc_json (rp_prompt r)),
     rp_prompt_cache_key := RawJson (doc_json (rp_prompt_cache_key r)),
     rp_prompt_cache_retention := RawJson (doc_json (rp_prompt_cache_retention r)),
     rp_reasoning := RawJson (doc_json (rp_reasoning r)),
     rp_safety_identifier := RawJson (doc_json (rp_safety_identifier r)),
     rp_service_tier := RawJson (doc_json (coalesceRawMessage (rp_service_tier r) RawEmpty rawJSONDefault)),
     rp_temperature := RawJson (doc_json (rp_temperature r)),
     rp_text := RawJson (doc_json (rp_text r)),
     rp_tool_choice := RawJson (doc_json (rp_tool_choice r)),
     rp_tools := RawJson (doc_json (rp_tools r)),
     rp_top_logprobs := RawJson (doc_json (coalesceRawMessage (rp_top_logprobs r) RawEmpty rawJSONZero)),
     rp_top_p := RawJson (doc_json (rp_top_p r)),
     rp_truncation := RawJson (doc_json (rp_truncation r)),
     rp_usage := RawJson (doc_json (rp_usage r)),
     rp_user := RawJson (doc_json (rp_user r)),
     rp_frequency_penalty := RawJson (doc_json (coalesceRawMessage (rp_frequency_penalty r) RawEmpty rawJSONZeroPointZero)),
     rp_presence_penalty := RawJson (doc_json (coalesceRawMessage (rp_presence_penalty r) RawEmpty rawJSONZeroPointZero))\<rparr>"

lemma output_loop:
  assumes "map_res item_json items = Inr js" "map_res (\<lambda>i. NewItem (Item_MarshalJSON i)) items = Inr items'"
  shows "upstreamOutputLoop n (map RawJson js) = Inr items'"
  using assms
proof (induction items arbitrary: js items' n)
  case (Cons i items)
  obtain j js' where j: "js = j # js'" "item_json i = Inr j" "map_res item_json items = Inr js'"
    using Cons.prems(1) by (auto split: sum.splits)
  obtain i' is' where i: "items' = i' # is'" "NewItem (Item_MarshalJSON i) = Inr i'"
    "map_res (\<lambda>i. NewItem (Item_MarshalJSON i)) items = Inr is'"
    using Cons.prems(2) by (auto split: sum.splits)
  have "Item_MarshalJSON i = RawJson j"
    using j(2) i(2) by (cases "Item_MarshalJSON i") (auto simp: item_json_def NewItem_def)
  then show ?case using Cons.IH [OF j(3) i(3)] j i by simp
qed simp

lemma normalize_printed_metadata:
  "metadata_ok md \<Longrightarrow> NormalizeResponseMetadata (RawJson (JObj (map (\<lambda>(k, v). (k, JStr v)) md))) = Inr md"
proof -
  assume m: "metadata_ok md"
  then have wf: "gomap_wf md" by (simp add: metadata_ok_def)
  have "gomap_of (map (\<lambda>(k, v). (k, JStr v)) md) = map (\<lambda>(k, v). (k, JStr v)) md"
    by (rule gomap_of_wf) (simp add: gomap_wf_map wf)
  then show ?thesis using m
    by (simp add: NormalizeResponseMetadata_def normalizeMetadata_def raw_absent_def any_fields_JStr map_res_metadata metadata_ok_def)
qed

lemma printed_payload:
  assumes "response_entries r = map (\<lambda>(k, j). (k, Inr j)) kvs" "canonical_keys kvs" "settled r items"
    and "map_res item_json (rp_output r) = Inr js"
  shows "upstream_payload kvs = Some \<lparr>us_id = rp_id r, us_object = rp_object r, us_created_at = rp_created_at r,
    us_status = rp_status r, us_completed_at = rp_completed_at r, us_model = rp_model r, us_previous = rp_previous r,
    us_background = rp_background r, us_store = rp_store r, us_output_text = rp_output_text r,
    us_output = map RawJson js\<rparr>"
proof -
  note l = printed_lookups [OF assms(1)]
  have o: "map_of kvs ''output'' = Some (JArr js)" using printed_output [OF assms(1)] assms(4) by auto
  have n: "int_of_number (int_text (rp_created_at r)) = Some (rp_created_at r)"
    using assms(3) by (intro int_of_int_text) (auto simp: settled_def)
  have c: "struct_int_ptr ''completed_at'' kvs None = Some (rp_completed_at r)"
    using assms(2,3) l by (cases "rp_completed_at r")
      (auto simp: struct_int_ptr_lookup response_key_folds int_ptr_json_def settled_def int_of_int_text)
  have b: "struct_bool_ptr ''background'' kvs None = Some (rp_background r)" "struct_bool_ptr ''store'' kvs None = Some (rp_store r)"
    using assms(2) l by (auto simp: struct_bool_ptr_lookup response_key_folds bool_ptr_json_def split: option.splits)
  show ?thesis
    unfolding upstream_payload_def
    by (simp add: c b n o l response_key_folds struct_string_lookup [OF assms(2)] struct_int_lookup [OF assms(2)]
        struct_raws_lookup [OF assms(2)])
qed

lemma parse_printed:
  assumes "Response_MarshalJSON r = Inr doc" "settled r items"
  shows "ParseUpstreamResponse doc = Inr (reread r items)"
proof -
  obtain kvs where k: "doc = RawJson (JObj kvs)" "canonical_keys kvs" "response_entries r = map (\<lambda>(k, j). (k, Inr j)) kvs"
    using printed_entries [OF assms(1)] .
  obtain js where js: "map_res item_json (rp_output r) = Inr js" using printed_output [OF k(3)] by blast
  note s = assms(2) [unfolded settled_def]
  note l = printed_lookups [OF k(3)]
  note p = printed_payload [OF k(3,2) assms(2) js]
  have items: "upstreamOutputLoop 0 (map RawJson js) = Inr items" using output_loop [OF js] s by blast
  have "length items = length (rp_output r)" using s by (auto dest: map_res_length)
  have raws: "struct_raw f kvs RawEmpty = RawJson (doc_json x)" if "map_of kvs f = Some (doc_json x)" "fold_case f = f" for f x
    using struct_raw_lookup [OF k(2) that(2), of RawEmpty] that(1) by simp
  obtain md where md: "rp_metadata r = Some md" "metadata_ok md" using s by blast
  have conv: "extractConversationReference (struct_raw ''conversation'' kvs RawEmpty) = rp_conversation r"
    using printed_conversation [OF k(3)] s
    by (cases "rp_conversation r")
      (auto simp: struct_raw_lookup [OF k(2)] response_key_folds equal_fold_def NewConversationReference_def)
  have meta: "NormalizeResponseMetadata (struct_raw ''metadata'' kvs RawEmpty) = Inr md"
    using l(33) md by (simp add: struct_raw_lookup [OF k(2)] response_key_folds metadata_json_def normalize_printed_metadata)
  have "map_of (response_entries r) ''text'' = Some (marshal_raw (rp_text r))"
    by (simp add: response_entries_def split: option.splits)
  from entry_value [OF k(3) this] have tx: "\<not> raw_absent (RawJson (doc_json (rp_text r)))"
    using s by (cases "rp_text r") (auto simp: raw_absent_def)
  have st: "trim_space (rp_status r) = rp_status r" "rp_status r \<noteq> []" "rp_id r \<noteq> []" "rp_object r \<noteq> []"
    "equal_fold (rp_status r) ''completed'' \<longleftrightarrow> rp_completed_at r \<noteq> None" using s by blast+
  have ot: "(if rp_output_text r = [] then assistantText items else rp_output_text r) = rp_output_text r"
    "rp_output_text r \<noteq> [] \<Longrightarrow> items \<noteq> []"
    using s \<open>length items = length (rp_output r)\<close> by auto
  show ?thesis
    unfolding ParseUpstreamResponse_def k(1) Let_def
    apply (simp only: raw.case json.case p option.map option.case prod.case upstream_scalars.simps st items res_bind.simps
        if_False sum.inject ot)
    apply (rule response.equality)
                        apply (simp_all add: reread_def raws l response_key_folds conv meta md tx st ot)
    using ot(2) by blast
qed

subsection \<open>Reading a stored response\<close>

lemma reread_prints:
  assumes "Response_MarshalJSON r = Inr doc" "map_res (\<lambda>i. NewItem (Item_MarshalJSON i)) (rp_output r) = Inr items"
  shows "response_entries (reread r items) = response_entries r"
proof -
  obtain kvs where k: "response_entries r = map (\<lambda>(k, j). (k, Inr j)) kvs" using printed_entries [OF assms(1)] .
  have out: "items_json items = items_json (rp_output r)"
  proof -
    have "item_json i' = item_json i" if "NewItem (Item_MarshalJSON i) = Inr i'" for i i'
      using that by (cases "Item_MarshalJSON i") (auto simp: item_json_def NewItem_def Item_MarshalJSON_def Let_def split: json.splits option.splits)
    then have "map_res item_json items = map_res item_json xs"
      if "map_res (\<lambda>i. NewItem (Item_MarshalJSON i)) xs = Inr items" for xs
      using that by (induction xs arbitrary: items) (auto split: sum.splits)
    with assms(2) show ?thesis by (simp add: items_json_def)
  qed
  have all: "list_all (\<lambda>m. \<exists>j. m = Inr j) (map snd (response_entries r))"
    unfolding k by (auto simp: list_all_iff)
  have doc: "(\<exists>j. marshal_raw x = Inr j) \<longleftrightarrow> marshal_raw x = Inr (doc_json x)" for x by (cases x) auto
  have c: "coalesceRawMessage (RawJson j) s f = RawJson j" for j s f by (simp add: coalesceRawMessage_def)
  show ?thesis
    using all unfolding response_entries_def reread_def by (cases "rp_conversation r") (simp_all add: doc out c)
qed

text \<open>The row a response is stored in agrees with the response.\<close>

definition stored_as :: "response \<Rightarrow> raw \<Rightarrow> stored_response \<Rightarrow> bool" where
  "stored_as r doc stored \<longleftrightarrow> sr_response stored = doc \<and>
     (rp_model r = [] \<longrightarrow> sr_model stored = []) \<and> (rp_previous r = [] \<longrightarrow> sr_previous stored = []) \<and>
     (rp_conversation r = None \<longrightarrow> trim_space (sr_conversation stored) = []) \<and>
     (rp_output_text r = [] \<longrightarrow> sr_output_text stored = []) \<and> (rp_output r = [] \<longrightarrow> sr_output stored = [])"

lemma reread_sel:
  "rp_id (reread r items) = rp_id r"
  "rp_object (reread r items) = rp_object r"
  "rp_created_at (reread r items) = rp_created_at r"
  "rp_status (reread r items) = rp_status r"
  "rp_completed_at (reread r items) = rp_completed_at r"
  "rp_error (reread r items) = RawJson (doc_json (rp_error r))"
  "rp_frequency_penalty (reread r items) = RawJson (doc_json (coalesceRawMessage (rp_frequency_penalty r) RawEmpty rawJSONZeroPointZero))"
  "rp_incomplete_details (reread r items) = RawJson (doc_json (rp_incomplete_details r))"
  "rp_instructions (reread r items) = RawJson (doc_json (rp_instructions r))"
  "rp_max_output_tokens (reread r items) = RawJson (doc_json (rp_max_output_tokens r))"
  "rp_max_tool_calls (reread r items) = RawJson (doc_json (rp_max_tool_calls r))"
  "rp_model (reread r items) = rp_model r"
  "rp_output (reread r items) = items"
  "rp_parallel_tool_calls (reread r items) = RawJson (doc_json (rp_parallel_tool_calls r))"
  "rp_presence_penalty (reread r items) = RawJson (doc_json (coalesceRawMessage (rp_presence_penalty r) RawEmpty rawJSONZeroPointZero))"
  "rp_previous (reread r items) = rp_previous r"
  "rp_prompt (reread r items) = RawJson (doc_json (rp_prompt r))"
  "rp_prompt_cache_key (reread r items) = RawJson (doc_json (rp_prompt_cache_key r))"
  "rp_prompt_cache_retention (reread r items) = RawJson (doc_json (rp_prompt_cache_retention r))"
  "rp_reasoning (reread r items) = RawJson (doc_json (rp_reasoning r))"
  "rp_safety_identifier (reread r items) = RawJson (doc_json (rp_safety_identifier r))"
  "rp_service_tier (reread r items) = RawJson (doc_json (coalesceRawMessage (rp_service_tier r) RawEmpty rawJSONDefault))"
  "rp_conversation (reread r items) = rp_conversation r"
  "rp_background (reread r items) = rp_background r"
  "rp_store (reread r items) = rp_store r"
  "rp_temperature (reread r items) = RawJson (doc_json (rp_temperature r))"
  "rp_text (reread r items) = RawJson (doc_json (rp_text r))"
  "rp_tool_choice (reread r items) = RawJson (doc_json (rp_tool_choice r))"
  "rp_tools (reread r items) = RawJson (doc_json (rp_tools r))"
  "rp_top_logprobs (reread r items) = RawJson (doc_json (coalesceRawMessage (rp_top_logprobs r) RawEmpty rawJSONZero))"
  "rp_top_p (reread r items) = RawJson (doc_json (rp_top_p r))"
  "rp_truncation (reread r items) = RawJson (doc_json (rp_truncation r))"
  "rp_usage (reread r items) = RawJson (doc_json (rp_usage r))"
  "rp_user (reread r items) = RawJson (doc_json (rp_user r))"
  "rp_metadata (reread r items) = rp_metadata r"
  "rp_output_text (reread r items) = rp_output_text r"
  by (simp_all add: reread_def)

lemma hydrate_reread:
  assumes "HydrateResponseRequestSurface r req = r"
  shows "HydrateResponseRequestSurface (reread r items) req = reread r items"
proof -
  have c: "coalesceRawMessage (RawJson j) s f = RawJson j" for j s f by (simp add: coalesceRawMessage_def)
  have "(if rp_previous r = [] then requestPreviousResponseID (request_fields req) else rp_previous r) = rp_previous r"
    "(case rp_conversation r of None \<Rightarrow> requestConversationReference (request_fields req) | Some c \<Rightarrow> Some c) = rp_conversation r"
    using arg_cong [OF assms, of rp_previous] arg_cong [OF assms, of rp_conversation] by (simp_all only: hydrate_sel)
  then show ?thesis
    by (intro response.equality) (simp_all only: reread_sel hydrate_sel c, simp)
qed

lemma hydrate_stored_reread:
  assumes "settled r items" "stored_as r doc stored" "HydrateResponseRequestSurface r (sr_request stored) = r"
    and "\<not> raw_absent (RawJson (doc_json (rp_text r)))"
  shows "hydrateStoredResponse (reread r items) stored = reread r items"
proof -
  note s = assms(1) [unfolded settled_def] and t = assms(2) [unfolded stored_as_def]
  have len: "length items = length (rp_output r)" using s by (auto dest: map_res_length)
  have ne: "rp_id r \<noteq> []" "rp_object r \<noteq> []" "rp_created_at r \<noteq> 0" "rp_status r \<noteq> []" using s by auto
  obtain bg st md where some: "rp_background r = Some bg" "rp_store r = Some st" "rp_metadata r = Some md" using s by auto
  have imps: "equal_fold (rp_status r) ''completed'' \<longleftrightarrow> rp_completed_at r \<noteq> None"
    "rp_output_text r = [] \<longrightarrow> sr_output_text stored = []" "items = [] \<longrightarrow> sr_output stored = [] \<and> rp_output_text r = []"
    "rp_model r = [] \<longrightarrow> sr_model stored = []" "rp_previous r = [] \<longrightarrow> sr_previous stored = []"
    "rp_conversation r = None \<longrightarrow> NewConversationReference (sr_conversation stored) = None"
    using s t len by (auto simp: NewConversationReference_def)
  have "hydrateStoredResponse (reread r items) stored = HydrateResponseRequestSurface (reread r items) (sr_request stored)"
    unfolding hydrateStoredResponse_def Let_def
    by (rule arg_cong2 [where f = HydrateResponseRequestSurface, OF _ refl], rule response.equality)
      (use imps in \<open>auto simp: reread_sel ne some assms(4) split: option.splits\<close>)
  then show ?thesis using hydrate_reread [OF assms(3)] by simp
qed

lemma stored_reads_back:
  assumes "Response_MarshalJSON r = Inr doc" "settled r items" "stored_as r doc stored"
    and "HydrateResponseRequestSurface r (sr_request stored) = r"
  shows "ResponseFromStored stored = reread r items"
proof -
  obtain kvs where k: "doc = RawJson (JObj kvs)" "response_entries r = map (\<lambda>(k, j). (k, Inr j)) kvs"
    using printed_entries [OF assms(1)] by blast
  have "map_of (response_entries r) ''text'' = Some (marshal_raw (rp_text r))"
    by (simp add: response_entries_def split: option.splits)
  from entry_value [OF k(2) this] have tx: "\<not> raw_absent (RawJson (doc_json (rp_text r)))"
    using assms(2) by (cases "rp_text r") (auto simp: raw_absent_def settled_def)
  have "sr_response stored = doc" "doc \<noteq> RawEmpty" using assms(3) k by (auto simp: stored_as_def)
  then have "ResponseFromStored stored = hydrateStoredResponse (reread r items) stored"
    using parse_printed [OF assms(1,2)] by (simp add: ResponseFromStored_def)
  then show ?thesis using hydrate_stored_reread [OF assms(2,3,4) tx] by simp
qed

section \<open>Properties\<close>

text \<open>A stored response is served unchanged. When a finished response was printed and stored, reading
  the row back gives a response that prints to exactly the same document.\<close>

theorem stored_response_reprints:
  assumes "Response_MarshalJSON r = Inr doc" and "settled r items" and "stored_as r doc stored"
    and "HydrateResponseRequestSurface r (sr_request stored) = r"
  shows "Response_MarshalJSON (ResponseFromStored stored) = Inr doc"
proof -
  have "map_res (\<lambda>i. NewItem (Item_MarshalJSON i)) (rp_output r) = Inr items" using assms(2) by (simp add: settled_def)
  from reread_prints [OF assms(1) this] stored_reads_back [OF assms] assms(1) show ?thesis
    by (simp add: Response_MarshalJSON_def)
qed

definition sample_stored_response :: response where
  "sample_stored_response = HydrateResponseRequestSurface (NewResponse ''resp_1'' ''m'' ''hi'' [] [] 1) RawEmpty"

lemma sample_settled: "settled sample_stored_response [output_message ''hi'']"
proof -
  have "trim_space ''completed'' = ''completed''" by (simp add: trim_space_word)
  moreover have "quotable ''hi''" by (simp add: quotable_def unquotable_def)
  moreover have "metadata_ok []" by (simp add: metadata_ok_def gomap_wf_def)
  ultimately show ?thesis
    unfolding settled_def sample_stored_response_def hydrate_sel
    by (simp add: NewResponse_def NewOutputTextMessage_eq output_message_decodes raw_absent_def parseResponseRequestFields_def
        SanitizeResponseRequestSurfaceJSON_def requestConversationReference_def raw_entry_def NewConversationReference_def
        mustMarshalDefaultResponseTextConfig_def)
qed

theorem stored_response_reprints_witness:
  "\<exists>doc stored. Response_MarshalJSON sample_stored_response = Inr doc \<and> sr_response stored = doc \<and>
     Response_MarshalJSON (ResponseFromStored stored) = Inr doc"
proof -
  have q: "quotable ''hi''" by (simp add: quotable_def unquotable_def)
  obtain doc where doc: "Response_MarshalJSON sample_stored_response = Inr doc"
    unfolding Response_MarshalJSON_def response_entries_def sample_stored_response_def hydrate_sel
    by (simp add: NewResponse_def NewOutputTextMessage_eq q items_json_def item_json_def Item_MarshalJSON_def output_message_def
        parseResponseRequestFields_def SanitizeResponseRequestSurfaceJSON_def requestConversationReference_def raw_entry_def
        NewConversationReference_def coalesceRawMessage_def raw_defaults normalizeReasoningRaw_def empty_response_def
        mustMarshalDefaultResponseTextConfig_def)
  define stored where "stored = sample_response\<lparr>sr_request := RawEmpty, sr_response := doc, sr_previous := [], sr_conversation := []\<rparr>"
  have "stored_as sample_stored_response doc stored"
    unfolding stored_as_def sample_stored_response_def hydrate_sel stored_def by (simp add: NewResponse_def sample_response_def)
  moreover have "HydrateResponseRequestSurface sample_stored_response (sr_request stored) = sample_stored_response"
    unfolding sample_stored_response_def stored_def by (simp add: hydrate_idem)
  ultimately have "Response_MarshalJSON (ResponseFromStored stored) = Inr doc"
    by (rule stored_response_reprints [OF doc sample_settled])
  moreover have "sr_response stored = doc" by (simp add: stored_def)
  ultimately show ?thesis using doc by blast
qed

end
