(* ===== verification/Response_Service.thy ===== *)
theory Response_Service
  imports Local_Generation Response_Printing
begin

text \<open>
  The response service (\<^verbatim>\<open>service/responses.go\<close>): creating a response, streaming it, warming up, saving a
  response of the upstream, reading, refreshing and deleting. A method returns its result together with
  the store, also when it fails, so that what was written before a failure stays visible.

  The stores are the records \<open>response_store_ops\<close> and \<open>memory_store_ops\<close>; what the service relies on is the
  locale \<open>service_stores\<close>, which the SQLite stores interpret. The hooks of a stream are functions on what the
  client has received. The readings of the clock in one request are a record.
\<close>

section \<open>Steps with a state and an error\<close>

text \<open>The result of a method that may fail after it has changed the store: the state is kept in both
  cases. A storage operation that fails leaves its own state unchanged.\<close>

type_synonym ('a, 's) outcome = "'a res \<times> 's"

definition sr_bind :: "('a, 's) outcome \<Rightarrow> ('a \<Rightarrow> 's \<Rightarrow> ('b, 's) outcome) \<Rightarrow> ('b, 's) outcome" where
  "sr_bind m k = (case m of (Inl e, s) \<Rightarrow> (Inl e, s) | (Inr a, s) \<Rightarrow> k a s)"

definition commit :: "('a \<times> 's) res \<Rightarrow> 's \<Rightarrow> ('a, 's) outcome" where
  "commit r s = (case r of Inl e \<Rightarrow> (Inl e, s) | Inr (a, s') \<Rightarrow> (Inr a, s'))"

definition pure_step :: "'a res \<Rightarrow> 's \<Rightarrow> ('a, 's) outcome" where
  "pure_step r s = (r, s)"

text \<open>The readings of the clock in one request: when memory is recalled, when the response is created,
  when it is completed and when a memory note is captured.\<close>

record clock =
  ck_recall :: string
  ck_created :: int
  ck_completed :: int
  ck_capture :: string

section \<open>Configuration\<close>

definition zero_memory_config :: memory_config where
  "zero_memory_config = \<lparr>mc_backend = [], mc_inject = False, mc_max_notes = 0, mc_max_note_bytes = 0,
     mc_max_context_bytes = 0, mc_namespace = []\<rparr>"

definition NewResponseServiceWithLimits ::
  "(nat \<Rightarrow> string option) \<Rightarrow> 's response_store_ops \<Rightarrow> (nat \<Rightarrow> generator) \<Rightarrow> response_limits \<Rightarrow> 's response_service" where
  "NewResponseServiceWithLimits uuid store generate limits =
     \<lparr>sv_store = store, sv_generate = generate, sv_compact = Heuristic_Compact uuid, sv_memory_store = None,
      sv_memory_config = zero_memory_config, sv_limits = normalizeResponseServiceLimits limits\<rparr>"

definition NewResponseService ::
  "(nat \<Rightarrow> string option) \<Rightarrow> 's response_store_ops \<Rightarrow> (nat \<Rightarrow> generator) \<Rightarrow> 's response_service" where
  "NewResponseService uuid store generate =
     NewResponseServiceWithLimits uuid store generate \<lparr>rl_lineage_items = 0, rl_summary_bytes = 0\<rparr>"

definition SetCompactor ::
  "(nat \<Rightarrow> string option) \<Rightarrow> compactor option \<Rightarrow> 's response_service \<Rightarrow> 's response_service" where
  "SetCompactor uuid nxt svc =
     svc\<lparr>sv_compact := (case nxt of None \<Rightarrow> Heuristic_Compact uuid | Some c \<Rightarrow> c)\<rparr>"

definition SetMemory ::
  "'s memory_store_ops option \<Rightarrow> memory_config \<Rightarrow> 's response_service \<Rightarrow> 's response_service res" where
  "SetMemory store cfg svc =
     res_bind (Config_NormalizeConfig cfg) (\<lambda>normalized.
       if Config_Enabled normalized \<and> store = None
       then Inl (Errorf (''memory store is required when responses.memory.backend='' @ mc_backend normalized))
       else Inr (svc\<lparr>sv_memory_config := normalized,
              sv_memory_store := (if Config_Enabled normalized then store else None)\<rparr>))"

section \<open>Creating a response\<close>

definition prepareCreate ::
  "'s response_service \<Rightarrow> (nat \<Rightarrow> string option) \<Rightarrow> clock \<Rightarrow> create_response_input \<Rightarrow> nat \<Rightarrow> 's \<Rightarrow>
   (prepared_response \<times> nat, 's) outcome" where
  "prepareCreate svc uuid ck input n s =
     sr_bind (commit (PrepareCreateContext svc (ck_recall ck) input s) s) (\<lambda>ctx.
       pure_step (case NewPrefixedID uuid n ''resp'' of
         Inl e \<Rightarrow> Inl (Wrap ''generate response id'' e)
       | Inr responseID \<Rightarrow>
           Inr (\<lparr>pr_id = responseID, pr_normalized = pc_normalized ctx, pr_effective = pc_effective ctx,
                 pr_context = pc_context ctx, pr_output_prefix = [], pr_conversation = pc_conversation ctx,
                 pr_created = ck_created ck\<rparr>, Suc n)))"

text \<open>The tests \<^verbatim>\<open>input.Store == nil || *input.Store\<close> and
  \<^verbatim>\<open>input.Background != nil && *input.Background\<close>.\<close>

definition publicStore :: "create_response_input \<Rightarrow> bool" where
  "publicStore input \<longleftrightarrow> in_store input \<noteq> Some False"

definition inBackground :: "create_response_input \<Rightarrow> bool" where
  "inBackground input \<longleftrightarrow> in_background input = Some True"

definition formatResponseCompletedAt :: "response \<Rightarrow> string" where
  "formatResponseCompletedAt response = (case rp_completed_at response of None \<Rightarrow> [] | Some t \<Rightarrow> formatUnixTime t)"

text \<open>The row of a response.\<close>

definition storedRow :: "create_response_input \<Rightarrow> response \<Rightarrow> raw \<Rightarrow> item list \<Rightarrow> item list \<Rightarrow> stored_response" where
  "storedRow input response responseJSON normalizedInput effectiveInput =
     \<lparr>sr_id = rp_id response, sr_model = rp_model response, sr_request = in_request_json input,
      sr_response = responseJSON, sr_input = normalizedInput, sr_effective = effectiveInput,
      sr_output = rp_output response, sr_output_text = rp_output_text response, sr_previous = rp_previous response,
      sr_conversation = ConversationReferenceID (rp_conversation response), sr_store = publicStore input,
      sr_created = formatUnixTime (rp_created_at response), sr_completed = formatResponseCompletedAt response\<rparr>"

definition persistShadow :: "create_response_input \<Rightarrow> bool" where
  "persistShadow input \<longleftrightarrow> in_force_shadow input \<or> in_previous input \<noteq> [] \<or> in_conversation input \<noteq> [] \<or> publicStore input"

definition persistResponse ::
  "'s response_service \<Rightarrow> create_response_input \<Rightarrow> conversation \<Rightarrow> stored_response \<Rightarrow> nat \<Rightarrow> 's \<Rightarrow> (nat, 's) outcome" where
  "persistResponse svc input conversation stored n s =
     (if in_conversation input \<noteq> []
      then commit (rs_save_append (sv_store svc) conversation stored (sr_input stored) (sr_output stored) n s) s
      else if persistShadow input
        then commit (map_sum id (Pair n) (rs_save (sv_store svc) stored s)) s
      else (Inr n, s))"

definition captureStep ::
  "'s response_service \<Rightarrow> (nat \<Rightarrow> string option) \<Rightarrow> clock \<Rightarrow> create_response_input \<Rightarrow> string \<Rightarrow> nat \<Rightarrow> 's \<Rightarrow> (nat, 's) outcome" where
  "captureStep svc uuid ck input responseID n s =
     commit (captureMemoryNote (sv_memory_store svc) (sv_memory_config svc) uuid (ck_capture ck) input responseID n s) s"

text \<open>The part of \<^verbatim>\<open>completeCreate\<close> before the storage: the response and its row.\<close>

definition completedRow ::
  "(nat \<Rightarrow> string option) \<Rightarrow> prepared_response \<Rightarrow> item list \<Rightarrow> create_response_input \<Rightarrow> string \<Rightarrow> nat \<Rightarrow>
   (response \<times> stored_response \<times> nat) res" where
  "completedRow uuid prepared generationContext input outputText n =
     res_bind (FinalizeLocalResponse input generationContext
       (NewResponse (pr_id prepared) (in_model input) outputText (in_previous input) (in_conversation input)
          (pr_created prepared))) (\<lambda>response1.
     res_bind (NormalizeResponseMetadata (in_metadata input)) (\<lambda>metadata.
     let response2 = HydrateResponseRequestSurface (response1\<lparr>rp_metadata := Some metadata,
           rp_store := Some (publicStore input), rp_background := Some (inBackground input)\<rparr>) (in_request_json input) in
     res_bind (EnsureItemIDs uuid n (pr_normalized prepared)) (\<lambda>(normalizedInput, n1).
     res_bind (buildStoredEffectiveInputItems uuid (pr_effective prepared) normalizedInput n1) (\<lambda>(effectiveInput, n2).
     res_bind (EnsureItemIDs uuid n2 (pr_output_prefix prepared @ rp_output response2)) (\<lambda>(out, n3).
     let response3 = response2\<lparr>rp_output := out\<rparr> in
     res_bind (marshalResponseJSON response3) (\<lambda>responseJSON.
     Inr (response3, storedRow input response3 responseJSON normalizedInput effectiveInput, n3)))))))"

definition completeCreate ::
  "'s response_service \<Rightarrow> (nat \<Rightarrow> string option) \<Rightarrow> clock \<Rightarrow> prepared_response \<Rightarrow> item list \<Rightarrow>
   create_response_input \<Rightarrow> string \<Rightarrow> nat \<Rightarrow> 's \<Rightarrow> (response, 's) outcome" where
  "completeCreate svc uuid ck prepared generationContext input outputText n s =
     sr_bind (pure_step (completedRow uuid prepared generationContext input outputText n) s) (\<lambda>(response, stored, n1) s1.
     sr_bind (persistResponse svc input (pr_conversation prepared) stored n1 s1) (\<lambda>n2 s2.
     sr_bind (captureStep svc uuid ck input (rp_id response) n2 s2) (\<lambda>n3 s3.
     (Inr response, s3))))"

definition ResponseService_Create ::
  "'s response_service \<Rightarrow> (nat \<Rightarrow> string option) \<Rightarrow> clock \<Rightarrow> create_response_input \<Rightarrow> nat \<Rightarrow> 's \<Rightarrow> (response, 's) outcome" where
  "ResponseService_Create svc uuid ck input n s =
     sr_bind (prepareCreate svc uuid ck input n s) (\<lambda>(prepared0, n0) s0.
     sr_bind (pure_step (applyAutomaticCompaction svc input prepared0 n0) s0) (\<lambda>(prepared, n1) s1.
     sr_bind (pure_step (buildLocalTextGenerationContext (pr_context prepared) (rl_summary_bytes (sv_limits svc))) s1)
       (\<lambda>(generationContext, _) s2.
     sr_bind (pure_step (PrepareLocalResponseText input generationContext) s2) (\<lambda>_ s3.
     sr_bind (pure_step (generateLocalResponseText (sv_generate svc) input generationContext) s3) (\<lambda>outputText s4.
     completeCreate svc uuid ck prepared generationContext input outputText n1 s4)))))"

definition TryCreatePreparedLocalTextResponse ::
  "'s response_service \<Rightarrow> (nat \<Rightarrow> string option) \<Rightarrow> int \<Rightarrow> create_response_input \<Rightarrow> prepared_context \<Rightarrow> string \<Rightarrow> nat \<Rightarrow>
   response option res" where
  "TryCreatePreparedLocalTextResponse svc uuid unixNow input prepared responseID n =
     res_bind (buildLocalTextGenerationContext (pc_context prepared) (rl_summary_bytes (sv_limits svc)))
       (\<lambda>(generationContext, hasToolOutput).
     if \<not> hasToolOutput then Inr None
     else
       res_bind (PrepareLocalResponseText input generationContext) (\<lambda>_.
       res_bind (generateLocalResponseText (sv_generate svc) input generationContext) (\<lambda>outputText.
       if trim_space outputText = [] then Inl (InvalidResponseError ''llama content was empty'')
       else
         res_bind (if trim_space responseID = []
                   then map_sum (Wrap ''generate response id'') id (NewPrefixedID uuid n ''resp'')
                   else Inr responseID) (\<lambda>responseID1.
         Inr (Some (HydrateResponseRequestSurface
           (NewResponse responseID1 (in_model input) outputText (in_previous input) (in_conversation input) unixNow)
           (in_request_json input)))))))"

section \<open>Streaming\<close>

text \<open>The hooks of a stream act on what the client has received; a hook that is \<^verbatim>\<open>nil\<close> is \<open>None\<close>.\<close>

record 'h stream_hooks =
  sh_created :: "(response \<Rightarrow> item list \<Rightarrow> 'h \<Rightarrow> (unit, 'h) outcome) option"
  sh_delta :: "(string \<Rightarrow> 'h \<Rightarrow> (unit, 'h) outcome) option"

definition on_client :: "('h \<Rightarrow> (unit, 'h) outcome) option \<Rightarrow> 's \<times> 'h \<Rightarrow> (unit, 's \<times> 'h) outcome" where
  "on_client hook st =
     (case hook of None \<Rightarrow> (Inr (), st)
      | Some f \<Rightarrow> (case f (snd st) of (r, h) \<Rightarrow> (r, fst st, h)))"

definition on_store :: "('s \<Rightarrow> ('a, 's) outcome) \<Rightarrow> 's \<times> 'h \<Rightarrow> ('a, 's \<times> 'h) outcome" where
  "on_store f st = (case f (fst st) of (r, s) \<Rightarrow> (r, s, snd st))"

text \<open>The response announced to the client before the generation.\<close>

definition announcedResponse :: "prepared_response \<Rightarrow> create_response_input \<Rightarrow> text_config \<Rightarrow> string gomap \<Rightarrow> response" where
  "announcedResponse prepared input config metadata =
     HydrateResponseRequestSurface (empty_response\<lparr>rp_id := pr_id prepared, rp_object := ''response'',
       rp_created_at := pr_created prepared, rp_status := ''in_progress'', rp_model := in_model input,
       rp_previous := in_previous input, rp_conversation := NewConversationReference (in_conversation input),
       rp_background := Some (inBackground input), rp_store := Some (publicStore input),
       rp_text := MarshalResponseTextConfig config, rp_metadata := Some metadata\<rparr>) (in_request_json input)"

definition CreateStream ::
  "'s response_service \<Rightarrow> (nat \<Rightarrow> string option) \<Rightarrow> clock \<Rightarrow> create_response_input \<Rightarrow> 'h stream_hooks \<Rightarrow> nat \<Rightarrow>
   's \<times> 'h \<Rightarrow> (response, 's \<times> 'h) outcome" where
  "CreateStream svc uuid ck input hooks n st =
     sr_bind (on_store (prepareCreate svc uuid ck input n) st) (\<lambda>(prepared0, n0) st0.
     sr_bind (pure_step (applyAutomaticCompaction svc input prepared0 n0) st0) (\<lambda>(prepared, n1) st1.
     sr_bind (pure_step (buildLocalTextGenerationContext (pr_context prepared) (rl_summary_bytes (sv_limits svc))) st1)
       (\<lambda>(generationContext, _) st2.
     sr_bind (pure_step (PrepareLocalResponseText input generationContext) st2) (\<lambda>textConfig st3.
     sr_bind (pure_step (NormalizeResponseMetadata (in_metadata input)) st3) (\<lambda>metadata st4.
     sr_bind (on_client (map_option (\<lambda>f. f (announcedResponse prepared input textConfig metadata) (pr_output_prefix prepared))
                (sh_created hooks)) st4) (\<lambda>_ st5.
     sr_bind (pure_step (generateLocalResponseText (sv_generate svc) input generationContext) st5) (\<lambda>outputText st6.
     if trim_space outputText = [] then (Inl (InvalidResponseError ''llama stream content was empty''), st6)
     else
       sr_bind (on_client (map_option (\<lambda>f. f outputText) (sh_delta hooks)) st6) (\<lambda>_ st7.
       on_store (completeCreate svc uuid ck prepared generationContext input outputText n1) st7))))))))"

section \<open>Warming up\<close>

definition warmupResponse :: "prepared_response \<Rightarrow> clock \<Rightarrow> create_response_input \<Rightarrow> string gomap \<Rightarrow> response" where
  "warmupResponse prepared ck input metadata =
     HydrateResponseRequestSurface (empty_response\<lparr>rp_id := pr_id prepared, rp_object := ''response'',
       rp_created_at := pr_created prepared, rp_status := ''completed'', rp_completed_at := Some (ck_completed ck),
       rp_model := in_model input, rp_previous := in_previous input,
       rp_conversation := NewConversationReference (in_conversation input), rp_background := Some False,
       rp_store := Some (publicStore input), rp_text := InferResponseTextConfigFromRequestJSON (in_request_json input),
       rp_metadata := Some metadata\<rparr>) (in_request_json input)"

definition warmupRow ::
  "(nat \<Rightarrow> string option) \<Rightarrow> clock \<Rightarrow> prepared_response \<Rightarrow> create_response_input \<Rightarrow> nat \<Rightarrow>
   (response \<times> stored_response \<times> nat) res" where
  "warmupRow uuid ck prepared input n =
     res_bind (NormalizeResponseMetadata (in_metadata input)) (\<lambda>metadata.
     let response = warmupResponse prepared ck input metadata in
     res_bind (EnsureItemIDs uuid n (pr_normalized prepared)) (\<lambda>(normalizedInput, n1).
     res_bind (buildStoredEffectiveInputItems uuid (pr_effective prepared) normalizedInput n1) (\<lambda>(effectiveInput, n2).
     res_bind (marshalResponseJSON response) (\<lambda>responseJSON.
     Inr (response, storedRow input response responseJSON normalizedInput effectiveInput, n2)))))"

definition CreateWarmup ::
  "'s response_service \<Rightarrow> (nat \<Rightarrow> string option) \<Rightarrow> clock \<Rightarrow> create_response_input \<Rightarrow> nat \<Rightarrow> 's \<Rightarrow> (response, 's) outcome" where
  "CreateWarmup svc uuid ck input n s =
     sr_bind (prepareCreate svc uuid ck input n s) (\<lambda>(prepared0, n0) s0.
     sr_bind (pure_step (applyAutomaticCompaction svc input prepared0 n0) s0) (\<lambda>(prepared, n1) s1.
     sr_bind (pure_step (warmupRow uuid ck prepared input n1) s1) (\<lambda>(response, stored, n2) s2.
     sr_bind (persistResponse svc input (pr_conversation prepared) stored n2 s2) (\<lambda>_ s3.
     (Inr response, s3)))))"

section \<open>Responses of the upstream\<close>

definition responseRequiresOutput :: "response \<Rightarrow> bool" where
  "responseRequiresOutput response \<longleftrightarrow>
     rp_status response = [] \<or> equal_fold (trim_space (rp_status response)) ''completed''"

fun rawMessageEmpty :: "raw \<Rightarrow> bool" where
  "rawMessageEmpty RawEmpty = True"
| "rawMessageEmpty (RawBad t) = (trim_space t = [])"
| "rawMessageEmpty (RawJson j) = False"

text \<open>The defaults a response of the upstream receives from its request.\<close>

definition textUnset :: "raw \<Rightarrow> bool" where
  "textUnset r \<longleftrightarrow> raw_absent r \<or> rawMessageEmpty r"

definition externalDefaults :: "create_response_input \<Rightarrow> response \<Rightarrow> response res" where
  "externalDefaults input response =
     res_bind (case rp_metadata response of None \<Rightarrow> NormalizeResponseMetadata (in_metadata input) | Some md \<Rightarrow> Inr md) (\<lambda>metadata.
     Inr (HydrateResponseRequestSurface (response\<lparr>
       rp_object := ''response'',
       rp_model := (if rp_model response = [] then in_model input else rp_model response),
       rp_previous := (if rp_previous response = [] \<and> in_previous input \<noteq> [] then in_previous input else rp_previous response),
       rp_conversation := (if rp_conversation response = None \<and> in_conversation input \<noteq> []
                           then NewConversationReference (in_conversation input) else rp_conversation response),
       rp_text := (if textUnset (rp_text response) then InferResponseTextConfigFromRequestJSON (in_request_json input)
                   else rp_text response),
       rp_store := (case rp_store response of None \<Rightarrow> Some (publicStore input) | Some b \<Rightarrow> Some b),
       rp_background := (case rp_background response of None \<Rightarrow> Some (inBackground input) | Some b \<Rightarrow> Some b),
       rp_metadata := Some metadata\<rparr>) (in_request_json input)))"

text \<open>The status, the times and the output of such a response.\<close>

definition externalLifecycle :: "int \<Rightarrow> response \<Rightarrow> response" where
  "externalLifecycle unixNow response =
     (let status = (if rp_status response \<noteq> [] then rp_status response
                    else if trim_space (rp_output_text response) \<noteq> [] \<or> rp_output response \<noteq> [] then ''completed''
                    else ''in_progress'')
      in response\<lparr>rp_created_at := (if rp_created_at response = 0 then unixNow else rp_created_at response),
           rp_status := status,
           rp_completed_at := (if \<not> equal_fold status ''completed'' then None
                               else case rp_completed_at response of None \<Rightarrow> Some unixNow | Some t \<Rightarrow> Some t),
           rp_output := (if trim_space (rp_output_text response) \<noteq> [] \<and> rp_output response = []
                         then [NewOutputTextMessage (rp_output_text response)] else rp_output response)\<rparr>)"

definition externalRow ::
  "(nat \<Rightarrow> string option) \<Rightarrow> int \<Rightarrow> prepared_context \<Rightarrow> create_response_input \<Rightarrow> response \<Rightarrow> nat \<Rightarrow>
   (response \<times> stored_response \<times> nat) res" where
  "externalRow uuid unixNow prepared input response n =
     res_bind (externalDefaults input response) (\<lambda>response1.
     let response2 = externalLifecycle unixNow response1 in
     if responseRequiresOutput response2 \<and> rp_output response2 = []
     then Inl (ValidationError ''output'' ''assistant output is required'')
     else
       res_bind (EnsureItemIDs uuid n (pc_normalized prepared)) (\<lambda>(normalizedInput, n1).
       res_bind (buildStoredEffectiveInputItems uuid (pc_effective prepared) normalizedInput n1) (\<lambda>(effectiveInput, n2).
       res_bind (if rp_output response2 = [] then Inr ([], n2) else EnsureItemIDs uuid n2 (rp_output response2)) (\<lambda>(out, n3).
       let response3 = response2\<lparr>rp_output := out\<rparr> in
       res_bind (marshalResponseJSON response3) (\<lambda>responseJSON.
       Inr (response3, storedRow input response3 responseJSON normalizedInput effectiveInput, n3))))))"

definition SaveExternalResponse ::
  "'s response_service \<Rightarrow> (nat \<Rightarrow> string option) \<Rightarrow> clock \<Rightarrow> prepared_context \<Rightarrow> create_response_input \<Rightarrow> response \<Rightarrow> nat \<Rightarrow>
   's \<Rightarrow> (response, 's) outcome" where
  "SaveExternalResponse svc uuid ck prepared input response n s =
     sr_bind (pure_step (externalRow uuid (ck_completed ck) prepared input response n) s) (\<lambda>(response1, stored, n1) s1.
     sr_bind (persistResponse svc input (pc_conversation prepared) stored n1 s1) (\<lambda>n2 s2.
     sr_bind (captureStep svc uuid ck input (rp_id response1) n2 s2) (\<lambda>_ s3.
     (Inr response1, s3))))"

section \<open>Replay artifacts\<close>

definition SaveReplayArtifacts ::
  "'s response_service \<Rightarrow> string \<Rightarrow> replay_artifact list \<Rightarrow> 's \<Rightarrow> 's res" where
  "SaveReplayArtifacts svc responseID artifacts s =
     (if trim_space responseID = [] \<or> artifacts = [] then Inr s
      else rs_save_artifacts (sv_store svc) responseID artifacts s)"

definition GetReplayArtifacts :: "'s response_service \<Rightarrow> string \<Rightarrow> 's \<Rightarrow> replay_artifact list res" where
  "GetReplayArtifacts svc responseID s =
     (if trim_space responseID = [] then Inr [] else rs_artifacts (sv_store svc) responseID s)"

section \<open>Reading\<close>

definition idRequired :: error where
  "idRequired = ValidationError ''id'' ''response id is required''"

definition ResponseService_Get :: "'s response_service \<Rightarrow> string \<Rightarrow> 's \<Rightarrow> response res" where
  "ResponseService_Get svc rid s =
     (if rid = [] then Inl idRequired
      else res_bind (rs_get (sv_store svc) rid s) (\<lambda>stored.
        if \<not> sr_store stored then Inl ErrNotFound else Inr (ResponseFromStored stored)))"

definition HasPreviousResponse :: "'s response_service \<Rightarrow> string \<Rightarrow> 's \<Rightarrow> bool res" where
  "HasPreviousResponse svc rid s =
     (if rid = [] then Inl idRequired else res_bind (rs_get (sv_store svc) rid s) (\<lambda>_. Inr True))"

text \<open>A set of identifiers is the list of its elements.\<close>

definition itemIDs :: "item list \<Rightarrow> string list" where
  "itemIDs items = filter (\<lambda>i. i \<noteq> []) (map (\<lambda>i. trim_space (Item_ID i)) items)"

definition conversationInputItemsPrefix :: "conversation_item list \<Rightarrow> stored_response \<Rightarrow> item list option" where
  "conversationInputItemsPrefix items stored =
     (if items = [] then None
      else
        let inputIDs = itemIDs (sr_input stored);
            lastInputIndex = last_index_loop (\<lambda>ci. ci_id ci \<in> set inputIDs) 0 items (-1)
        in if lastInputIndex \<ge> 0 then Some (domainItemsFromConversation (take (nat lastInputIndex + 1) items))
           else
             let outputIDs = itemIDs (sr_output stored) in
             if list_ex (\<lambda>ci. ci_id ci \<in> set outputIDs) items
             then Some (domainItemsFromConversation (takeWhile (\<lambda>ci. ci_id ci \<notin> set outputIDs) items))
             else None)"

definition reconstructStoredInputItems ::
  "'s response_service \<Rightarrow> (nat \<Rightarrow> string option) \<Rightarrow> stored_response \<Rightarrow> nat \<Rightarrow> 's \<Rightarrow> (item list \<times> nat) res" where
  "reconstructStoredInputItems svc uuid stored n s =
     (let fromConversation =
        (if sr_conversation stored \<noteq> [] then
           (case rs_conversation (sv_store svc) (sr_conversation stored) s of
              Inl e \<Rightarrow> sr_input stored
            | Inr (c, items) \<Rightarrow>
                (case conversationInputItemsPrefix items stored of Some is' \<Rightarrow> is' | None \<Rightarrow> sr_input stored))
         else sr_input stored)
      in if sr_previous stored \<noteq> [] then
           (case rs_lineage (sv_store svc) (sr_previous stored) (rl_lineage_items (sv_limits svc)) s of
              Inr lineage \<Rightarrow> EnsureItemIDs uuid n (response_items lineage @ sr_input stored)
            | Inl e \<Rightarrow> EnsureItemIDs uuid n fromConversation)
         else EnsureItemIDs uuid n fromConversation)"

definition GetInputItems ::
  "'s response_service \<Rightarrow> (nat \<Rightarrow> string option) \<Rightarrow> string \<Rightarrow> nat \<Rightarrow> 's \<Rightarrow> (item list \<times> nat) res" where
  "GetInputItems svc uuid rid n s =
     (if rid = [] then Inl idRequired
      else res_bind (rs_get (sv_store svc) rid s) (\<lambda>stored.
        if \<not> sr_store stored then Inl ErrNotFound
        else if sr_effective stored \<noteq> [] then Inr (sr_effective stored, n)
        else reconstructStoredInputItems svc uuid stored n s))"

section \<open>Deleting\<close>

record response_deletion =
  rd_id :: string
  rd_object :: string
  rd_deleted :: bool

definition ResponseService_Delete :: "'s response_service \<Rightarrow> string \<Rightarrow> 's \<Rightarrow> (response_deletion, 's) outcome" where
  "ResponseService_Delete svc rid s =
     (if rid = [] then (Inl idRequired, s)
      else sr_bind (pure_step (rs_get (sv_store svc) rid s) s) (\<lambda>stored s1.
        if \<not> sr_store stored then (Inl ErrNotFound, s1)
        else commit (map_sum id (Pair \<lparr>rd_id = rid, rd_object = ''response'', rd_deleted = True\<rparr>)
               (rs_delete (sv_store svc) rid s1)) s1))"

definition DeleteShadowResponse :: "'s response_service \<Rightarrow> string \<Rightarrow> 's \<Rightarrow> (unit, 's) outcome" where
  "DeleteShadowResponse svc id0 s =
     (let rid = trim_space id0;
          absent = (\<lambda>e. errors_is (MapStorageError e) ErrNotFound)
      in if rid = [] then (Inr (), s)
         else case rs_get (sv_store svc) rid s of
           Inl e \<Rightarrow> (if absent e then Inr () else Inl e, s)
         | Inr stored \<Rightarrow>
             if sr_store stored then (Inr (), s)
             else case rs_delete (sv_store svc) rid s of
               Inl e \<Rightarrow> (if absent e then Inr () else Inl e, s)
             | Inr s' \<Rightarrow> (Inr (), s'))"

section \<open>Refreshing\<close>

text \<open>Keep what is set, else take the other value; one function for each kind of field.\<close>

definition keep_raw :: "raw \<Rightarrow> raw \<Rightarrow> raw" where
  "keep_raw a b = (if rawMessageEmpty a then b else a)"

definition keep_list :: "'a list \<Rightarrow> 'a list \<Rightarrow> 'a list" where
  "keep_list a b = (if a = [] then b else a)"

definition keep_ptr :: "'a option \<Rightarrow> 'a option \<Rightarrow> 'a option" where
  "keep_ptr a b = (if a = None then b else a)"

definition mergeStoredResponseLifecycle :: "response \<Rightarrow> response \<Rightarrow> response" where
  "mergeStoredResponseLifecycle r cur = r\<lparr>
     rp_id := keep_list (rp_id r) (rp_id cur),
     rp_object := keep_list (rp_object r) ''response'',
     rp_created_at := (if rp_created_at r = 0 then rp_created_at cur else rp_created_at r),
     rp_status := keep_list (rp_status r) (rp_status cur),
     rp_completed_at := keep_ptr (rp_completed_at r) (rp_completed_at cur),
     rp_error := keep_raw (rp_error r) (rp_error cur),
     rp_incomplete_details := keep_raw (rp_incomplete_details r) (rp_incomplete_details cur),
     rp_model := keep_list (rp_model r) (rp_model cur),
     rp_output := keep_list (rp_output r) (rp_output cur),
     rp_previous := keep_list (rp_previous r) (rp_previous cur),
     rp_conversation := keep_ptr (rp_conversation r) (rp_conversation cur),
     rp_background := keep_ptr (rp_background r) (rp_background cur),
     rp_store := keep_ptr (rp_store r) (rp_store cur),
     rp_text := (if textUnset (rp_text r) then rp_text cur else rp_text r),
     rp_usage := keep_raw (rp_usage r) (rp_usage cur),
     rp_instructions := keep_raw (rp_instructions r) (rp_instructions cur),
     rp_max_output_tokens := keep_raw (rp_max_output_tokens r) (rp_max_output_tokens cur),
     rp_max_tool_calls := keep_raw (rp_max_tool_calls r) (rp_max_tool_calls cur),
     rp_parallel_tool_calls := keep_raw (rp_parallel_tool_calls r) (rp_parallel_tool_calls cur),
     rp_prompt := keep_raw (rp_prompt r) (rp_prompt cur),
     rp_prompt_cache_key := keep_raw (rp_prompt_cache_key r) (rp_prompt_cache_key cur),
     rp_prompt_cache_retention := keep_raw (rp_prompt_cache_retention r) (rp_prompt_cache_retention cur),
     rp_reasoning := keep_raw (rp_reasoning r) (rp_reasoning cur),
     rp_safety_identifier := keep_raw (rp_safety_identifier r) (rp_safety_identifier cur),
     rp_service_tier := keep_raw (rp_service_tier r) (rp_service_tier cur),
     rp_temperature := keep_raw (rp_temperature r) (rp_temperature cur),
     rp_tool_choice := keep_raw (rp_tool_choice r) (rp_tool_choice cur),
     rp_tools := keep_raw (rp_tools r) (rp_tools cur),
     rp_top_logprobs := keep_raw (rp_top_logprobs r) (rp_top_logprobs cur),
     rp_top_p := keep_raw (rp_top_p r) (rp_top_p cur),
     rp_truncation := keep_raw (rp_truncation r) (rp_truncation cur),
     rp_user := keep_raw (rp_user r) (rp_user cur),
     rp_metadata := keep_ptr (keep_ptr (rp_metadata r) (rp_metadata cur)) (Some []),
     rp_output_text := keep_list (rp_output_text r) (rp_output_text cur)\<rparr>"

text \<open>The row of a refreshed response.\<close>

definition refreshedRow :: "(nat \<Rightarrow> string option) \<Rightarrow> response \<Rightarrow> stored_response \<Rightarrow> nat \<Rightarrow> (response \<times> stored_response) res" where
  "refreshedRow uuid response stored n =
     (let response1 = mergeStoredResponseLifecycle response (ResponseFromStored stored);
          response2 = (if trim_space (rp_output_text response1) \<noteq> [] \<and> rp_output response1 = []
                       then response1\<lparr>rp_output := [NewOutputTextMessage (rp_output_text response1)]\<rparr> else response1)
      in if responseRequiresOutput response2 \<and> rp_output response2 = []
         then Inl (ValidationError ''output'' ''assistant output is required'')
         else
           res_bind (if rp_output response2 = [] then Inr ([], n) else EnsureItemIDs uuid n (rp_output response2)) (\<lambda>(out, n1).
           let response3 = response2\<lparr>rp_output := out\<rparr> in
           res_bind (marshalResponseJSON response3) (\<lambda>responseJSON.
           Inr (response3, stored\<lparr>sr_model := rp_model response3, sr_response := responseJSON,
             sr_output := rp_output response3, sr_output_text := rp_output_text response3,
             sr_previous := rp_previous response3,
             sr_conversation := ConversationReferenceID (rp_conversation response3),
             sr_created := (if rp_created_at response3 \<noteq> 0 then formatUnixTime (rp_created_at response3) else sr_created stored),
             sr_completed := formatResponseCompletedAt response3\<rparr>))))"

definition ResponseService_Refresh ::
  "'s response_service \<Rightarrow> (nat \<Rightarrow> string option) \<Rightarrow> response \<Rightarrow> nat \<Rightarrow> 's \<Rightarrow> (response, 's) outcome" where
  "ResponseService_Refresh svc uuid response n s =
     (if rp_id response = [] then (Inl idRequired, s)
      else
        sr_bind (pure_step (rs_get (sv_store svc) (rp_id response) s) s) (\<lambda>stored s1.
        sr_bind (pure_step (refreshedRow uuid response stored n) s1) (\<lambda>(response1, row) s2.
        commit (map_sum id (Pair response1) (rs_save (sv_store svc) row s2)) s2)))"

section \<open>Errors of the generator\<close>

fun errors_as_upstream :: "error \<Rightarrow> bool" where
  "errors_as_upstream (UpstreamError c m) = True"
| "errors_as_upstream (InvalidResponseError m) = True"
| "errors_as_upstream (Wrap m e) = errors_as_upstream e"
| "errors_as_upstream _ = False"

fun errors_as_timeout :: "error \<Rightarrow> bool" where
  "errors_as_timeout (TimeoutError m) = True"
| "errors_as_timeout (Wrap m e) = errors_as_timeout e"
| "errors_as_timeout _ = False"

definition MapGeneratorError :: "error \<Rightarrow> error" where
  "MapGeneratorError e =
     (if errors_as_timeout e then ErrUpstreamTimeout
      else if errors_as_upstream e then ErrUpstreamFailure else e)"

section \<open>Outcomes\<close>

lemma sr_bind_Inr_iff: "sr_bind m k = (Inr b, s') \<longleftrightarrow> (\<exists>a s1. m = (Inr a, s1) \<and> k a s1 = (Inr b, s'))"
  by (auto simp: sr_bind_def split: prod.splits sum.splits)

lemma sr_bind_Inl_iff:
  "sr_bind m k = (Inl e, s') \<longleftrightarrow> m = (Inl e, s') \<or> (\<exists>a s1. m = (Inr a, s1) \<and> k a s1 = (Inl e, s'))"
  by (auto simp: sr_bind_def split: prod.splits sum.splits)

lemma sr_bind_step [simp]: "sr_bind (Inr a, s) k = k a s" "sr_bind (Inl e, s) k = (Inl e, s)"
  by (simp_all add: sr_bind_def)

lemma commit_Inr_iff: "commit r s = (Inr a, s') \<longleftrightarrow> r = Inr (a, s')"
  by (auto simp: commit_def split: sum.splits)

lemma commit_Inl_iff: "commit r s = (Inl e, s') \<longleftrightarrow> r = Inl e \<and> s' = s"
  by (auto simp: commit_def split: sum.splits)

lemma pure_step_iff: "pure_step r s = (q, s') \<longleftrightarrow> r = q \<and> s' = s"
  by (auto simp: pure_step_def)

lemma map_sum_Inr_iff: "map_sum f g r = Inr b \<longleftrightarrow> (\<exists>a. r = Inr a \<and> g a = b)"
  by (cases r) auto

lemma map_sum_Inl_iff: "map_sum f g r = Inl b \<longleftrightarrow> (\<exists>a. r = Inl a \<and> f a = b)"
  by (cases r) auto

lemmas outcome_simps = sr_bind_Inr_iff commit_Inr_iff pure_step_iff map_sum_Inr_iff
lemmas failure_simps = sr_bind_Inl_iff commit_Inl_iff pure_step_iff map_sum_Inl_iff

section \<open>The stores of the service\<close>

text \<open>What the service relies on: a saved response reads back, a deleted one is gone, other responses
  are as before, and the memory notes do not touch the responses.\<close>

locale service_stores =
  fixes ops :: "'s response_store_ops" and mem :: "'s memory_store_ops"
  assumes save_get: "storable_response r \<Longrightarrow> rs_save ops r s = Inr s' \<Longrightarrow> rs_get ops (sr_id r) s' = Inr r"
    and save_other: "rs_save ops r s = Inr s' \<Longrightarrow> k \<noteq> sr_id r \<Longrightarrow> rs_get ops k s' = rs_get ops k s"
    and save_append_get: "storable_response r \<Longrightarrow> rs_save_append ops c r inp outp n s = Inr (n', s') \<Longrightarrow>
      rs_get ops (sr_id r) s' = Inr r"
    and delete_get: "rs_delete ops k s = Inr s' \<Longrightarrow>
      rs_get ops j s' = (if j = k then Inl StorageErrNotFound else rs_get ops j s)"
    and delete_known: "rs_get ops k s = Inr r \<Longrightarrow> \<exists>s'. rs_delete ops k s = Inr s'"
    and note_frame: "ms_save mem nt s = Inr s' \<Longrightarrow> rs_get ops k s' = rs_get ops k s"
    and touch_frame: "ms_touch mem ids now s = Inr s' \<Longrightarrow> rs_get ops k s' = rs_get ops k s"
begin

definition wired :: "'s response_service \<Rightarrow> bool" where
  "wired svc \<longleftrightarrow> sv_store svc = ops \<and> (sv_memory_store svc = None \<or> sv_memory_store svc = Some mem)"

lemma capture_frame:
  assumes "wired svc" "captureStep svc uuid ck input rid n s = (q, s')"
  shows "rs_get ops k s' = rs_get ops k s"
  using assms note_frame
  by (auto simp: captureStep_def captureMemoryNote_def wired_def commit_def memoryRequestEnabled_def Let_def
      split: sum.splits if_splits option.splits prod.splits)

lemma persisted_get:
  assumes "wired svc" "persistResponse svc input c stored n s = (Inr n', s')" "persistShadow input" "storable_response stored"
  shows "rs_get ops (sr_id stored) s' = Inr stored"
  using assms save_get save_append_get by (auto simp: persistResponse_def outcome_simps wired_def split: if_splits)

lemma completed_get:
  assumes "wired svc" "completeCreate svc uuid ck p ctx input out n s = (Inr r, s')" "persistShadow input"
  obtains stored n1 where "completedRow uuid p ctx input out n = Inr (r, stored, n1)" "sr_id stored = rp_id r"
    "storable_response stored \<Longrightarrow> rs_get ops (rp_id r) s' = Inr stored"
proof -
  obtain stored n1 n2 n3 s2 where *: "completedRow uuid p ctx input out n = Inr (r, stored, n1)"
    "persistResponse svc input (pr_conversation p) stored n1 s = (Inr n2, s2)"
    "captureStep svc uuid ck input (rp_id r) n2 s2 = (Inr n3, s')"
    using assms(2) by (auto simp: completeCreate_def outcome_simps)
  have i: "sr_id stored = rp_id r"
    using *(1) by (auto simp: completedRow_def res_bind_Inr_iff storedRow_def Let_def)
  show thesis
    by (rule that [OF *(1) i]) (use persisted_get [OF assms(1) *(2) assms(3)] capture_frame [OF assms(1) *(3)] i in simp)
qed

text \<open>A response is visible when it was stored for the client.\<close>

lemma get_visible:
  assumes "sv_store svc = ops" "rs_get ops rid s = Inr stored" "rid \<noteq> []"
  shows "ResponseService_Get svc rid s = (if sr_store stored then Inr (ResponseFromStored stored) else Inl ErrNotFound)"
    "HasPreviousResponse svc rid s = Inr True"
    "\<not> sr_store stored \<Longrightarrow> GetInputItems svc uuid rid n s = Inl ErrNotFound"
    "\<not> sr_store stored \<Longrightarrow> ResponseService_Delete svc rid s = (Inl ErrNotFound, s)"
    "sr_store stored \<Longrightarrow> trim_space rid = rid \<Longrightarrow> DeleteShadowResponse svc rid s = (Inr (), s)"
  using assms by (simp_all add: ResponseService_Get_def HasPreviousResponse_def GetInputItems_def ResponseService_Delete_def DeleteShadowResponse_def pure_step_def)

lemma deleted_gone:
  assumes "sv_store svc = ops" "rs_get ops rid s = Inr stored" "rid \<noteq> []"
  shows "sr_store stored \<Longrightarrow> \<exists>s'. ResponseService_Delete svc rid s = (Inr \<lparr>rd_id = rid, rd_object = ''response'', rd_deleted = True\<rparr>, s') \<and>
      (\<forall>j. rs_get ops j s' = (if j = rid then Inl StorageErrNotFound else rs_get ops j s))"
    "\<not> sr_store stored \<Longrightarrow> trim_space rid = rid \<Longrightarrow> \<exists>s'. DeleteShadowResponse svc rid s = (Inr (), s') \<and>
      (\<forall>j. rs_get ops j s' = (if j = rid then Inl StorageErrNotFound else rs_get ops j s))"
proof -
  obtain s' where s': "rs_delete ops rid s = Inr s'" using delete_known [OF assms(2)] by blast
  note g = delete_get [OF s']
  show "\<exists>s'. ResponseService_Delete svc rid s = (Inr \<lparr>rd_id = rid, rd_object = ''response'', rd_deleted = True\<rparr>, s') \<and>
      (\<forall>j. rs_get ops j s' = (if j = rid then Inl StorageErrNotFound else rs_get ops j s))" if "sr_store stored"
    using that assms s' g by (auto simp: ResponseService_Delete_def pure_step_def commit_def)
  show "\<exists>s'. DeleteShadowResponse svc rid s = (Inr (), s') \<and>
      (\<forall>j. rs_get ops j s' = (if j = rid then Inl StorageErrNotFound else rs_get ops j s))"
    if "\<not> sr_store stored" "trim_space rid = rid"
    using that assms s' g by (auto simp: DeleteShadowResponse_def Let_def)
qed

end

lemma tbl_find_without: "tbl_find key j (filter (\<lambda>r. key r \<noteq> k) t) = (if j = k then None else tbl_find key j t)"
  by (induction t) (auto simp: tbl_find_def)

lemma appended_response:
  assumes "storable_response r" "SaveResponseAndAppendConversation uuid c r inp outp n d = Inr (n', d')"
  shows "GetResponse (sr_id r) d' = Inr r"
proof -
  obtain d1 d2 cis where *: "bumpVersion (c_id c) (c_version c) (sr_completed r) d = Inr d1" "insertResponse r d1 = Inr d2"
    "insertPrepared uuid (c_id c) (sr_completed r)
       (BuildConversationAppendItems (nextConversationItemSeq (c_id c) d2) inp outp) n d2 = Inr (cis, n', d')"
    using assms(2) by (auto simp: SaveResponseAndAppendConversation_def split: sum.splits)
  have "responses d' = responses d2"
    using insertPrepared_all [OF *(3) numbered_build] insertAll_other by auto
  moreover obtain row where row: "encodeResponse r = Inr row" "responses d2 = responses d1 @ [row]"
    "rr_id row \<notin> rr_id ` set (responses d1)"
    using *(2) by (auto simp: insertResponse_def dest!: tbl_insert_SomeD split: sum.splits option.splits)
  moreover have "rr_id row = sr_id r" using encode_id [OF row(1)] .
  moreover have "scanStoredResponse row = Inr r" using encode_scan [OF assms(1)] row(1) by auto
  ultimately show ?thesis
    by (simp add: GetResponse_def tbl_find_append tbl_find_None [THEN iffD2] tbl_find_single)
qed

interpretation rs: service_stores "sqlite_response_ops uuid" sqlite_memory_ops for uuid
proof unfold_locales
  fix r s s'
  assume "storable_response r" "rs_save (sqlite_response_ops uuid) r s = Inr s'"
  then show "rs_get (sqlite_response_ops uuid) (sr_id r) s' = Inr r"
    using encode_scan [of r] save_find [of r _ s s'] by (auto simp: sqlite_response_ops_def GetResponse_def)
next
  fix r s s' k
  assume s: "rs_save (sqlite_response_ops uuid) r s = Inr s'" and k: "k \<noteq> sr_id r"
  then obtain row where "encodeResponse r = Inr row" by (auto simp: sqlite_response_ops_def SaveResponse_def split: sum.splits)
  then show "rs_get (sqlite_response_ops uuid) k s' = rs_get (sqlite_response_ops uuid) k s"
    using save_find [of r row s s' k] s k by (auto simp: sqlite_response_ops_def GetResponse_def)
next
  fix r c inp outp n s n' s'
  assume "storable_response r" "rs_save_append (sqlite_response_ops uuid) c r inp outp n s = Inr (n', s')"
  then show "rs_get (sqlite_response_ops uuid) (sr_id r) s' = Inr r"
    using appended_response by (simp add: sqlite_response_ops_def)
next
  fix k s s' j
  assume "rs_delete (sqlite_response_ops uuid) k s = Inr s'"
  then show "rs_get (sqlite_response_ops uuid) j s' =
      (if j = k then Inl StorageErrNotFound else rs_get (sqlite_response_ops uuid) j s)"
    by (auto simp: sqlite_response_ops_def DeleteResponse_def GetResponse_def tbl_delete_def tbl_find_without split: if_splits)
next
  fix k s r
  assume "rs_get (sqlite_response_ops uuid) k s = Inr r"
  then show "\<exists>s'. rs_delete (sqlite_response_ops uuid) k s = Inr s'"
    by (auto simp: sqlite_response_ops_def DeleteResponse_def GetResponse_def tbl_delete_def filter_empty_conv
        dest!: tbl_find_SomeD split: option.splits)
next
  fix nt s s' k
  assume "ms_save sqlite_memory_ops nt s = Inr s'"
  then show "rs_get (sqlite_response_ops uuid) k s' = rs_get (sqlite_response_ops uuid) k s"
    by (auto simp: sqlite_response_ops_def sqlite_memory_ops_def GetResponse_def SaveMemoryNote_def Let_def split: if_splits sum.splits)
next
  fix ids now s s' k
  assume "ms_touch sqlite_memory_ops ids now s = Inr s'"
  then show "rs_get (sqlite_response_ops uuid) k s' = rs_get (sqlite_response_ops uuid) k s"
    by (auto simp: sqlite_response_ops_def sqlite_memory_ops_def GetResponse_def TouchMemoryNotes_def Let_def split: if_splits sum.splits)
qed

end
