(* ===== verification/Response_Lifecycle.thy ===== *)
theory Response_Lifecycle
  imports Response_Service
begin

text \<open>
  The life of a response in the response service: a created response is served as it was returned, its input
  items are the whole context, a response that is not stored for the client is hidden, a stream agrees with
  an ordinary creation, a failed request leaves nothing behind, and a refresh keeps the row.
\<close>

section \<open>Completed responses\<close>

lemma item_id_empty: "Item_ID empty_item = []"
  by (simp add: Item_StringField_def Item_RawField_def empty_item_def)

text \<open>Items that have an identifier and can be stored are read back from a printed response, without
  the metadata of the shim.\<close>

lemma stored_item_decodes:
  assumes "storable j" "Item_ID j \<noteq> []"
  shows "NewItem (Item_MarshalJSON j) = Inr (j\<lparr>iMeta := None\<rparr>)"
proof -
  have "j \<noteq> empty_item" using assms(2) item_id_empty by auto
  then have wf: "item_wf j" using assms(1) by (simp add: storable_def)
  then obtain kvs where "iRaw j = RawJson (JObj kvs)" by (rule item_wf_obtain)
  then show ?thesis using wf by (simp add: Item_MarshalJSON_def item_wf_def)
qed

lemma ensured_storable:
  assumes "EnsureItemIDs uuid n items = Inr (out, n')" "\<forall>i \<in> set items. storable i"
  shows "\<forall>j \<in> set out. storable j \<and> Item_ID j \<noteq> []" "length out = length items"
proof -
  have l: "list_all2 (assigned uuid n n') items out" using EnsureItemIDs_spec [OF assms(1)] by blast
  then show "length out = length items" by (simp add: list_all2_lengthD)
  show "\<forall>j \<in> set out. storable j \<and> Item_ID j \<noteq> []"
  proof
    fix j assume "j \<in> set out"
    then obtain k where "k < length out" "out ! k = j" by (auto simp: in_set_conv_nth)
    then have "assigned uuid n n' (items ! k) j" "items ! k \<in> set items" using l by (auto simp: list_all2_conv_all_nth)
    then show "storable j \<and> Item_ID j \<noteq> []" using assms(2) assigned_storable by (auto simp: assigned_def)
  qed
qed

lemma output_message_storable: "storable (NewOutputTextMessage t)"
proof (cases "quotable t")
  case True
  have "item_wf (output_message t)"
    using output_message_decodes [of t] by (rule NewItem_wf)
  moreover have "\<not> has_envelope_key (output_message t)"
    by (simp add: has_envelope_key_def Item_RawField_def output_message_def raw_entry_def map_of_gomap_of)
  ultimately show ?thesis using True by (simp add: NewOutputTextMessage_eq storable_def meta_wf_def) (simp add: output_message_def)
next
  case False
  then show ?thesis by (simp add: NewOutputTextMessage_eq storable_def)
qed

lemma effective_storable:
  assumes "buildStoredEffectiveInputItems uuid eff norm n = Inr (out, n')"
    and "\<forall>i \<in> set eff. storable i" "\<forall>i \<in> set norm. storable i"
  shows "\<forall>j \<in> set out. storable j"
proof -
  have "\<forall>i \<in> set (take k eff). storable i" for k using assms(2) in_set_takeD by fast
  then have app: "\<forall>i \<in> set (take k eff @ norm). storable i" for k using assms(3) by (simp add: ball_Un)
  define items where "items = (if eff = [] then norm
     else if norm \<noteq> [] \<and> length eff \<ge> length norm then take (length eff - length norm) eff @ norm else eff)"
  have "buildStoredEffectiveInputItems uuid eff norm n = EnsureItemIDs uuid n items"
    by (simp add: buildStoredEffectiveInputItems_def items_def)
  then have "EnsureItemIDs uuid n items = Inr (out, n')" using assms(1) by simp
  moreover have "\<forall>i \<in> set items. storable i"
    using assms(2,3) app [of "length eff - length norm"] unfolding items_def by (simp split del: if_split) (simp split: if_split)
  ultimately show ?thesis using ensured_storable(1) by blast
qed

lemma conversation_reference_trimmed:
  "NewConversationReference s = Some c \<Longrightarrow> trim_space c = c \<and> c \<noteq> []"
  "requestConversationReference m = Some c \<Longrightarrow> trim_space c = c \<and> c \<noteq> []"
proof -
  show n: "NewConversationReference s = Some c \<Longrightarrow> trim_space c = c \<and> c \<noteq> []" for s
    by (auto simp: NewConversationReference_def split: if_splits)
  show "requestConversationReference m = Some c \<Longrightarrow> trim_space c = c \<and> c \<noteq> []"
    unfolding requestConversationReference_def
    by (cases "raw_entry m ''conversation''" rule: extractConversationReference.cases) (use n in \<open>auto split: option.splits\<close>)
qed

text \<open>What the checks of an answer keep: everything but the usage, the text configuration and, for a
  structured answer, the text with its message.\<close>

definition same_frame :: "response \<Rightarrow> response \<Rightarrow> bool" where
  "same_frame r r' \<longleftrightarrow> rp_id r' = rp_id r \<and> rp_object r' = rp_object r \<and> rp_created_at r' = rp_created_at r \<and>
     rp_status r' = rp_status r \<and> rp_completed_at r' = rp_completed_at r \<and> rp_conversation r' = rp_conversation r"

lemma usage_frame: "ensureLocalResponseUsage ctx r = Inr r' \<Longrightarrow>
    same_frame r r' \<and> rp_text r' = rp_text r \<and> rp_output r' = rp_output r \<and> rp_output_text r' = rp_output_text r"
  by (auto simp: ensureLocalResponseUsage_def res_bind_Inr_iff same_frame_def split: if_splits)

lemma structured_frame: "same_frame r (normalizeLocalStructuredOutput r) \<and>
    rp_text (normalizeLocalStructuredOutput r) = rp_text r \<and>
    (rp_output r = [NewOutputTextMessage (rp_output_text r)] \<longrightarrow>
     rp_output (normalizeLocalStructuredOutput r) = [NewOutputTextMessage (rp_output_text (normalizeLocalStructuredOutput r))])"
  by (simp add: normalizeLocalStructuredOutput_def Let_def same_frame_def)

lemma finalize_frame:
  assumes "FinalizeLocalResponse input ctx r = Inr r'" and o: "rp_output r = [NewOutputTextMessage (rp_output_text r)]"
  shows "same_frame r r' \<and> (\<exists>config. rp_text r' = MarshalResponseTextConfig config) \<and>
    rp_output r' = [NewOutputTextMessage (rp_output_text r')]"
  using assms(1)
proof (rule finalized_cases)
  fix config r1
  assume u: "ensureLocalResponseUsage ctx (r\<lparr>rp_text := MarshalResponseTextConfig config\<rparr>) = Inr r1"
    and a: "\<not> responseHasAssistantText r \<Longrightarrow> r' = r1"
    and b: "responseHasAssistantText r \<Longrightarrow> tf_type config = ''json_object'' \<Longrightarrow>
       r' = normalizeLocalStructuredOutput r1 \<and> validateJSONObjectOutput (rp_output_text r') = Inr ()"
    and c: "responseHasAssistantText r \<Longrightarrow> tf_type config = ''json_schema'' \<Longrightarrow>
       r' = normalizeLocalStructuredOutput r1 \<and> validateJSONSchemaOutput (tf_schema config) (rp_output_text r') = Inr ()"
    and d: "tf_type config \<noteq> ''json_object'' \<Longrightarrow> tf_type config \<noteq> ''json_schema'' \<Longrightarrow> r' = r1"
  have r1: "same_frame r r1" "rp_text r1 = MarshalResponseTextConfig config" "rp_output r1 = [NewOutputTextMessage (rp_output_text r1)]"
    using usage_frame [OF u] o by (simp_all add: same_frame_def)
  have "r' = r1 \<or> r' = normalizeLocalStructuredOutput r1" using a b c d by blast
  then show ?thesis using r1 structured_frame [of r1] by (auto simp: same_frame_def)
qed

lemma hydrate_output:
  "HydrateResponseRequestSurface (r\<lparr>rp_output := out\<rparr>) req = (HydrateResponseRequestSurface r req)\<lparr>rp_output := out\<rparr>"
  by (simp add: HydrateResponseRequestSurface_def Let_def)

lemma config_present: "\<not> raw_absent (MarshalResponseTextConfig config)"
  by (simp add: MarshalResponseTextConfig_def mustMarshalDefaultResponseTextConfig_def raw_absent_def split: option.splits)

text \<open>A completed response with text is settled, and its row agrees with it.\<close>

lemma completed_row_facts:
  assumes "completedRow uuid p ctx input t n = Inr (r, stored, n1)"
  obtains norm eff n2 n3 doc where
    "marshalResponseJSON r = Inr doc" "stored = storedRow input r doc norm eff"
    "EnsureItemIDs uuid n (pr_normalized p) = Inr (norm, n2)"
    "buildStoredEffectiveInputItems uuid (pr_effective p) norm n2 = Inr (eff, n3)"
    "EnsureItemIDs uuid n3 (pr_output_prefix p @ [NewOutputTextMessage (rp_output_text r)]) = Inr (rp_output r, n1)"
    "HydrateResponseRequestSurface r (in_request_json input) = r"
    "rp_id r = pr_id p" "rp_object r = ''response''" "rp_created_at r = pr_created p" "rp_status r = ''completed''"
    "rp_completed_at r = Some (pr_created p)" "\<forall>c. rp_conversation r = Some c \<longrightarrow> trim_space c = c \<and> c \<noteq> []"
    "rp_background r \<noteq> None" "rp_store r = Some (publicStore input)" "\<not> raw_absent (rp_text r)"
    "\<exists>md. rp_metadata r = Some md \<and> metadata_ok md"
proof -
  let ?new = "NewResponse (pr_id p) (in_model input) t (in_previous input) (in_conversation input) (pr_created p)"
  let ?upd = "\<lambda>r1 md. r1\<lparr>rp_metadata := Some md, rp_store := Some (publicStore input), rp_background := Some (inBackground input)\<rparr>"
  obtain r1 md norm n2 eff n3 out doc where *:
    "FinalizeLocalResponse input ctx ?new = Inr r1"
    "NormalizeResponseMetadata (in_metadata input) = Inr md"
    "EnsureItemIDs uuid n (pr_normalized p) = Inr (norm, n2)"
    "buildStoredEffectiveInputItems uuid (pr_effective p) norm n2 = Inr (eff, n3)"
    "EnsureItemIDs uuid n3 (pr_output_prefix p @ rp_output (HydrateResponseRequestSurface (?upd r1 md) (in_request_json input))) = Inr (out, n1)"
    "r = (HydrateResponseRequestSurface (?upd r1 md) (in_request_json input))\<lparr>rp_output := out\<rparr>"
    "marshalResponseJSON r = Inr doc" "stored = storedRow input r doc norm eff"
    using assms by (auto simp: completedRow_def res_bind_Inr_iff Let_def)
  have f: "rp_id r1 = pr_id p" "rp_object r1 = ''response''" "rp_created_at r1 = pr_created p" "rp_status r1 = ''completed''"
    "rp_completed_at r1 = Some (pr_created p)" "rp_conversation r1 = NewConversationReference (in_conversation input)"
    "\<exists>config. rp_text r1 = MarshalResponseTextConfig config" "rp_output r1 = [NewOutputTextMessage (rp_output_text r1)]"
    using finalize_frame [OF *(1)] by (simp_all add: NewResponse_def same_frame_def)
  have tx: "rp_output_text r = rp_output_text r1" "rp_output r = out" by (simp_all add: *(6) hydrate_sel)
  have conv: "rp_conversation r = (case NewConversationReference (in_conversation input) of
      None \<Rightarrow> requestConversationReference (request_fields (in_request_json input)) | Some c \<Rightarrow> Some c)"
    by (simp add: *(6) hydrate_sel f)
  show thesis
  proof (rule that [OF *(7,8,3,4)])
    show "EnsureItemIDs uuid n3 (pr_output_prefix p @ [NewOutputTextMessage (rp_output_text r)]) = Inr (rp_output r, n1)"
      using *(5) f(8) tx by (simp add: hydrate_sel)
    show "HydrateResponseRequestSurface r (in_request_json input) = r"
      by (simp add: *(6) hydrate_output hydrate_idem)
    show "\<forall>c. rp_conversation r = Some c \<longrightarrow> trim_space c = c \<and> c \<noteq> []"
      using conv conversation_reference_trimmed by (auto split: option.splits)
    show "\<exists>md. rp_metadata r = Some md \<and> metadata_ok md"
      using *(2) normalizeMetadata_sound by (auto simp: *(6) hydrate_sel NormalizeResponseMetadata_def)
    show "\<not> raw_absent (rp_text r)" using f(7) config_present by (auto simp: *(6) hydrate_sel)
  qed (simp_all add: *(6) hydrate_sel f)
qed

lemma map_res_each:
  "(\<And>x. x \<in> set xs \<Longrightarrow> f x = Inr (g x)) \<Longrightarrow> map_res f xs = Inr (map g xs)"
  by (induction xs) auto

lemma completed_settled:
  assumes "completedRow uuid p ctx input t n = Inr (r, stored, n1)" "rp_output_text r \<noteq> []"
    and "pr_id p \<noteq> []" "0 < pr_created p" "pr_created p < 2 ^ 63"
    and "\<forall>i \<in> set (pr_normalized p) \<union> set (pr_effective p) \<union> set (pr_output_prefix p). storable i"
  shows "storable_response stored" "settled r (map (\<lambda>i. i\<lparr>iMeta := None\<rparr>) (rp_output r))"
    "\<exists>doc. Response_MarshalJSON r = Inr doc \<and> stored_as r doc stored"
    "HydrateResponseRequestSurface r (sr_request stored) = r" "sr_store stored = publicStore input"
    "\<exists>norm eff n2 n3. EnsureItemIDs uuid n (pr_normalized p) = Inr (norm, n2) \<and>
       buildStoredEffectiveInputItems uuid (pr_effective p) norm n2 = Inr (eff, n3) \<and> sr_input stored = norm \<and> sr_effective stored = eff"
proof -
  obtain norm eff n2 n3 doc where doc: "marshalResponseJSON r = Inr doc" and stored: "stored = storedRow input r doc norm eff"
    and norm: "EnsureItemIDs uuid n (pr_normalized p) = Inr (norm, n2)"
    and eff: "buildStoredEffectiveInputItems uuid (pr_effective p) norm n2 = Inr (eff, n3)"
    and out: "EnsureItemIDs uuid n3 (pr_output_prefix p @ [NewOutputTextMessage (rp_output_text r)]) = Inr (rp_output r, n1)"
    and hyd: "HydrateResponseRequestSurface r (in_request_json input) = r"
    and f: "rp_id r = pr_id p" "rp_object r = ''response''" "rp_created_at r = pr_created p" "rp_status r = ''completed''"
    "rp_completed_at r = Some (pr_created p)" "\<forall>c. rp_conversation r = Some c \<longrightarrow> trim_space c = c \<and> c \<noteq> []"
    "rp_background r \<noteq> None" "rp_store r = Some (publicStore input)" "\<not> raw_absent (rp_text r)"
    "\<exists>md. rp_metadata r = Some md \<and> metadata_ok md"
    by (rule completed_row_facts [OF assms(1)]) (rule that; assumption)
  have norm_st: "\<forall>i \<in> set norm. storable i" using ensured_storable(1) [OF norm] assms(6) by blast
  have eff_st: "\<forall>i \<in> set eff. storable i" using effective_storable [OF eff] norm_st assms(6) by blast
  have out_st: "\<forall>i \<in> set (rp_output r). storable i \<and> Item_ID i \<noteq> []" "rp_output r \<noteq> []"
    using ensured_storable [OF out] assms(6) output_message_storable by auto
  show "storable_response stored"
    using norm_st eff_st out_st by (auto simp: storable_response_def stored storedRow_def)
  have dec: "map_res (\<lambda>i. NewItem (Item_MarshalJSON i)) (rp_output r) = Inr (map (\<lambda>i. i\<lparr>iMeta := None\<rparr>) (rp_output r))"
    using out_st stored_item_decodes by (intro map_res_each) blast
  have cw: "trim_space ''completed'' = ''completed''" by (simp add: trim_space_word)
  show "settled r (map (\<lambda>i. i\<lparr>iMeta := None\<rparr>) (rp_output r))"
    unfolding settled_def f(1-5) using assms(2-5) f(6-10) dec out_st(2) cw by (simp add: equal_fold_def)
  have "Response_MarshalJSON r = Inr doc" using doc by (auto simp: marshalResponseJSON_def split: sum.splits)
  moreover have "stored_as r doc stored"
    by (simp add: stored_as_def stored storedRow_def ConversationReferenceID_def)
  ultimately show "\<exists>doc. Response_MarshalJSON r = Inr doc \<and> stored_as r doc stored" by blast
  show "HydrateResponseRequestSurface r (sr_request stored) = r" using hyd by (simp add: stored storedRow_def)
  show "sr_store stored = publicStore input" by (simp add: stored storedRow_def)
  show "\<exists>norm eff n2 n3. EnsureItemIDs uuid n (pr_normalized p) = Inr (norm, n2) \<and>
       buildStoredEffectiveInputItems uuid (pr_effective p) norm n2 = Inr (eff, n3) \<and> sr_input stored = norm \<and> sr_effective stored = eff"
    using norm eff by (simp add: stored storedRow_def)
qed

section \<open>The steps of a creation\<close>

lemma prepared_create:
  assumes "prepareCreate svc uuid ck input n s = (Inr (p, n0), s0)"
  obtains ctx u where "PrepareCreateContext svc (ck_recall ck) input s = Inr (ctx, s0)" "uuid n = Some u" "n0 = Suc n"
    "p = \<lparr>pr_id = ''resp_'' @ u, pr_normalized = pc_normalized ctx, pr_effective = pc_effective ctx,
       pr_context = pc_context ctx, pr_output_prefix = [], pr_conversation = pc_conversation ctx, pr_created = ck_created ck\<rparr>"
  using assms unfolding prepareCreate_def
  by (auto simp: outcome_simps NewPrefixedID_def split: sum.splits option.splits)

lemma create_cases:
  assumes "ResponseService_Create svc uuid ck input n s = (Inr r, s')"
  obtains p0 n0 s0 p n1 ctx b config t where "prepareCreate svc uuid ck input n s = (Inr (p0, n0), s0)"
    "applyAutomaticCompaction svc input p0 n0 = Inr (p, n1)"
    "buildLocalTextGenerationContext (pr_context p) (rl_summary_bytes (sv_limits svc)) = Inr (ctx, b)"
    "PrepareLocalResponseText input ctx = Inr config"
    "generateLocalResponseText (sv_generate svc) input ctx = Inr t"
    "completeCreate svc uuid ck p ctx input t n1 s0 = (Inr r, s')"
  using assms unfolding ResponseService_Create_def by (auto simp: outcome_simps)

lemma completed_id: "completeCreate svc uuid ck p ctx input t n s = (Inr r, s') \<Longrightarrow> rp_id r = pr_id p"
proof -
  assume "completeCreate svc uuid ck p ctx input t n s = (Inr r, s')"
  then obtain stored n1 where "completedRow uuid p ctx input t n = Inr (r, stored, n1)"
    by (auto simp: completeCreate_def outcome_simps)
  then show ?thesis by (rule completed_row_facts)
qed

lemma no_compaction_policy:
  "parseCompactionThreshold (in_context_management input) = Inr None \<Longrightarrow> applyAutomaticCompaction svc input p n = Inr (p, n)"
  by (simp add: applyAutomaticCompaction_def)

lemma effective_has_input:
  assumes "PrepareCreateContext svc now input s = Inr (ctx, s')"
  obtains base where "pc_effective ctx = base @ pc_normalized ctx"
  using assms unfolding PrepareCreateContext_def by (rule prepare_cases) (rule that)

text \<open>What is known after a creation without compaction: the row that was stored.\<close>

lemma created_row:
  assumes "ResponseService_Create svc uuid ck input n d = (Inr r, d')"
    and "PrepareCreateContext svc (ck_recall ck) input d = Inr (ctx, d0)" "\<forall>i \<in> set (pc_effective ctx). storable i"
    and "sv_store svc = sqlite_response_ops uuid'" "sv_memory_store svc = None \<or> sv_memory_store svc = Some sqlite_memory_ops"
    and "parseCompactionThreshold (in_context_management input) = Inr None"
    and "0 < ck_created ck" "ck_created ck < 2 ^ 63" "rp_output_text r \<noteq> []" "persistShadow input"
  obtains stored norm eff m1 m2 where "GetResponse (rp_id r) d' = Inr stored" "rp_id r \<noteq> []" "sr_store stored = publicStore input"
    "settled r (map (\<lambda>i. i\<lparr>iMeta := None\<rparr>) (rp_output r))"
    "\<exists>doc. Response_MarshalJSON r = Inr doc \<and> stored_as r doc stored"
    "HydrateResponseRequestSurface r (sr_request stored) = r"
    "EnsureItemIDs uuid (Suc n) (pc_normalized ctx) = Inr (norm, m1)"
    "buildStoredEffectiveInputItems uuid (pc_effective ctx) norm m1 = Inr (eff, m2)" "sr_effective stored = eff"
  using assms(1)
proof (rule create_cases)
  fix p0 n0 s0 p n1 gctx b config t
  assume p0: "prepareCreate svc uuid ck input n d = (Inr (p0, n0), s0)" and p: "applyAutomaticCompaction svc input p0 n0 = Inr (p, n1)"
    and c: "completeCreate svc uuid ck p gctx input t n1 s0 = (Inr r, d')"
  obtain u where u: "n0 = Suc n" "p0 = \<lparr>pr_id = ''resp_'' @ u, pr_normalized = pc_normalized ctx, pr_effective = pc_effective ctx,
       pr_context = pc_context ctx, pr_output_prefix = [], pr_conversation = pc_conversation ctx, pr_created = ck_created ck\<rparr>"
    using p0 assms(2) by (auto elim!: prepared_create)
  have eq: "p = p0" "n1 = Suc n" using p no_compaction_policy [OF assms(6), of svc p0 n0] u(1) by auto
  obtain base where "pc_effective ctx = base @ pc_normalized ctx" using effective_has_input [OF assms(2)] .
  then have st: "\<forall>i \<in> set (pr_normalized p) \<union> set (pr_effective p) \<union> set (pr_output_prefix p). storable i"
    using assms(3) by (auto simp: eq u(2))
  have w: "rs.wired uuid' svc" using assms(4,5) by (simp add: rs.wired_def)
  obtain stored n2 where row: "completedRow uuid p gctx input t n1 = Inr (r, stored, n2)"
    and got: "storable_response stored \<Longrightarrow> rs_get (sqlite_response_ops uuid') (rp_id r) d' = Inr stored"
    using rs.completed_get [OF w c assms(10)] by blast
  have ne: "pr_id p \<noteq> []" "rp_id r = pr_id p" using completed_id [OF c] by (simp_all add: eq u(2))
  have t: "0 < pr_created p" "pr_created p < 2 ^ 63" using assms(7,8) by (simp_all add: eq u(2))
  note f = completed_settled [OF row assms(9) ne(1) t st]
  obtain norm eff m1 m2 where e: "EnsureItemIDs uuid n1 (pr_normalized p) = Inr (norm, m1)"
    "buildStoredEffectiveInputItems uuid (pr_effective p) norm m1 = Inr (eff, m2)" "sr_effective stored = eff"
    using f(6) by blast
  have "EnsureItemIDs uuid (Suc n) (pc_normalized ctx) = Inr (norm, m1)"
    "buildStoredEffectiveInputItems uuid (pc_effective ctx) norm m1 = Inr (eff, m2)"
    using e(1,2) by (simp_all add: eq u(2))
  moreover have "GetResponse (rp_id r) d' = Inr stored" using got f(1) by (simp add: sqlite_response_ops_def)
  ultimately show thesis using ne f(2-5) e(3) that by metis
qed

text \<open>The stored items of a request: each one keeps its place and metadata, and has an identifier.\<close>

definition identified :: "item \<Rightarrow> item \<Rightarrow> bool" where
  "identified i j \<longleftrightarrow> Item_ID j \<noteq> [] \<and> iMeta j = iMeta i \<and> (Item_ID i \<noteq> [] \<longrightarrow> j = i)"

lemma ensured_identified: "EnsureItemIDs uuid n items = Inr (out, n') \<Longrightarrow> list_all2 identified items out"
proof -
  assume "EnsureItemIDs uuid n items = Inr (out, n')"
  then have "list_all2 (assigned uuid n n') items out" using EnsureItemIDs_spec by blast
  then show ?thesis by (rule list_all2_mono) (auto simp: assigned_def identified_def split: if_splits)
qed

lemma identified_trans: "identified i j \<Longrightarrow> identified j k \<Longrightarrow> identified i k"
  by (auto simp: identified_def)

lemma stored_effective_identified:
  assumes "EnsureItemIDs uuid m norm0 = Inr (norm, m1)" "buildStoredEffectiveInputItems uuid (base @ norm0) norm m1 = Inr (eff, m2)"
  shows "list_all2 identified (base @ norm0) eff"
proof -
  have l: "list_all2 identified norm0 norm" "length norm = length norm0"
    using ensured_identified [OF assms(1)] by (auto dest: list_all2_lengthD)
  have "EnsureItemIDs uuid m1 (base @ norm) = Inr (eff, m2)"
    using assms(2) l(2) by (auto simp: buildStoredEffectiveInputItems_def split: if_splits)
  then have "list_all2 identified (base @ norm) eff" by (rule ensured_identified)
  then obtain e1 e2 where e: "eff = e1 @ e2" "list_all2 identified base e1" "list_all2 identified norm e2"
    by (auto simp: list_all2_append1)
  then show ?thesis using list_all2_trans [OF identified_trans l(1) e(3)] by (simp add: list_all2_appendI)
qed

section \<open>Failures\<close>

lemma memory_off: "sv_memory_store svc = None \<Longrightarrow> captureStep svc uuid ck input rid n s = (Inr n, s)"
  by (simp add: captureStep_def captureMemoryNote_def memoryRequestEnabled_def commit_def)

lemma prepare_memory_off:
  assumes "sv_memory_store svc = None" "prepareCreate svc uuid ck input n s = (q, s')"
  shows "s' = s"
proof (cases "PrepareCreateContext svc (ck_recall ck) input s")
  case (Inl e)
  then show ?thesis using assms(2) by (simp add: prepareCreate_def commit_def)
next
  case (Inr a)
  obtain ctx s0 where a: "a = (ctx, s0)" by (cases a)
  have "s0 = s" using Inr [unfolded a PrepareCreateContext_def]
    by (rule prepare_cases) (simp add: assms(1) memoryContextItems_def memoryRequestEnabled_def)
  then show ?thesis using assms(2) Inr a by (simp add: prepareCreate_def commit_def pure_step_def)
qed

lemma persist_failure: "persistResponse svc input c stored n s = (Inl e, s') \<Longrightarrow> s' = s"
  by (auto simp: persistResponse_def failure_simps split: if_splits)

lemma complete_failure:
  assumes "sv_memory_store svc = None" "completeCreate svc uuid ck p ctx input t n s = (Inl e, s')"
  shows "s' = s"
  using assms(2) persist_failure unfolding completeCreate_def
  by (auto simp: failure_simps memory_off [OF assms(1)] split: prod.splits)

section \<open>Refreshed rows\<close>

lemma merge_sel:
  "rp_id (mergeStoredResponseLifecycle r cur) = keep_list (rp_id r) (rp_id cur)"
  "rp_status (mergeStoredResponseLifecycle r cur) = keep_list (rp_status r) (rp_status cur)"
  "rp_output_text (mergeStoredResponseLifecycle r cur) = keep_list (rp_output_text r) (rp_output_text cur)"
  by (simp_all add: mergeStoredResponseLifecycle_def)

lemma refreshed_facts:
  assumes "refreshedRow uuid response stored n = Inr (r, row)" "rp_id response \<noteq> []" "sr_id stored = rp_id response"
  shows "sr_id row = rp_id response" "sr_request row = sr_request stored" "sr_input row = sr_input stored"
    "sr_effective row = sr_effective stored" "sr_store row = sr_store stored" "sr_output row = rp_output r"
    "sr_output_text row = rp_output_text r" "rp_id r = rp_id response"
    "rp_status r = keep_list (rp_status response) (rp_status (ResponseFromStored stored))"
    "rp_output_text r = keep_list (rp_output_text response) (rp_output_text (ResponseFromStored stored))"
proof -
  let ?m = "mergeStoredResponseLifecycle response (ResponseFromStored stored)"
  obtain out doc where r: "r = ?m\<lparr>rp_output := out\<rparr>"
    and row: "row = stored\<lparr>sr_model := rp_model r, sr_response := doc,
             sr_output := rp_output r, sr_output_text := rp_output_text r, sr_previous := rp_previous r,
             sr_conversation := ConversationReferenceID (rp_conversation r),
             sr_created := (if rp_created_at r \<noteq> 0 then formatUnixTime (rp_created_at r) else sr_created stored),
             sr_completed := formatResponseCompletedAt r\<rparr>"
    using assms(1) unfolding refreshedRow_def Let_def by (auto simp: res_bind_Inr_iff split: if_splits)
  show "sr_id row = rp_id response" "sr_request row = sr_request stored" "sr_input row = sr_input stored"
    "sr_effective row = sr_effective stored" "sr_store row = sr_store stored" "sr_output row = rp_output r"
    "sr_output_text row = rp_output_text r"
    using assms(3) by (simp_all add: row)
  show "rp_id r = rp_id response"
    "rp_status r = keep_list (rp_status response) (rp_status (ResponseFromStored stored))"
    "rp_output_text r = keep_list (rp_output_text response) (rp_output_text (ResponseFromStored stored))"
    using assms(2) by (simp_all add: r merge_sel keep_list_def)
qed

lemma generated_clean: "generateLocalResponseText generate input ctx = Inr t \<Longrightarrow> \<not> ContainsPseudoToolText t"
  by (auto simp: generate_attempts spoiled_def split: if_splits)

section \<open>Streams\<close>

text \<open>A client that records what it receives.\<close>

datatype stream_event = Created response "item list" | Delta string

definition recording :: "stream_event list stream_hooks" where
  "recording = \<lparr>sh_created = Some (\<lambda>r items h. (Inr (), h @ [Created r items])),
     sh_delta = Some (\<lambda>t h. (Inr (), h @ [Delta t]))\<rparr>"

lemma on_store_iff: "on_store f (s, h) = (q, s', h') \<longleftrightarrow> f s = (q, s') \<and> h' = h"
  by (auto simp: on_store_def split: prod.splits)

lemma recording_steps:
  "on_client (map_option (\<lambda>f. f r items) (sh_created recording)) (s, h) = (Inr (), s, h @ [Created r items])"
  "on_client (map_option (\<lambda>f. f t) (sh_delta recording)) (s, h) = (Inr (), s, h @ [Delta t])"
  by (simp_all add: on_client_def recording_def)

lemma prepared_metadata:
  assumes "prepareCreate svc uuid ck input n s = (Inr (p, n0), s0)"
  shows "\<exists>md. NormalizeResponseMetadata (in_metadata input) = Inr md"
  using assms
proof (rule prepared_create)
  fix ctx u assume "PrepareCreateContext svc (ck_recall ck) input s = Inr (ctx, s0)"
  then show ?thesis unfolding PrepareCreateContext_def by (rule prepare_cases) blast
qed

lemma stream_cases:
  assumes "CreateStream svc uuid ck input recording n (s, []) = (Inr r, s', events)"
  obtains p0 n0 s0 p n1 ctx b config md t where "prepareCreate svc uuid ck input n s = (Inr (p0, n0), s0)"
    "applyAutomaticCompaction svc input p0 n0 = Inr (p, n1)"
    "buildLocalTextGenerationContext (pr_context p) (rl_summary_bytes (sv_limits svc)) = Inr (ctx, b)"
    "PrepareLocalResponseText input ctx = Inr config"
    "generateLocalResponseText (sv_generate svc) input ctx = Inr t" "trim_space t \<noteq> []"
    "completeCreate svc uuid ck p ctx input t n1 s0 = (Inr r, s')"
    "events = [Created (announcedResponse p input config md) (pr_output_prefix p), Delta t]"
  using assms unfolding CreateStream_def
  by (auto simp: outcome_simps on_store_iff recording_steps split: if_splits)

lemma announced_facts:
  "rp_id (announcedResponse p input config md) = pr_id p" "rp_status (announcedResponse p input config md) = ''in_progress''"
  "rp_output (announcedResponse p input config md) = []" "rp_output_text (announcedResponse p input config md) = []"
  by (simp_all add: announcedResponse_def hydrate_sel empty_response_def)

section \<open>Properties\<close>

text \<open>The input items of a created response are the whole context it was asked in: the items of the
  history and of the request in their order, each with its metadata and an identifier; an item that had
  an identifier is unchanged.\<close>

theorem created_input_items:
  assumes "ResponseService_Create svc uuid ck input n d = (Inr r, d')" and "publicStore input"
    and "PrepareCreateContext svc (ck_recall ck) input d = Inr (ctx, d0)" and "\<forall>i \<in> set (pc_effective ctx). storable i"
    and "sv_store svc = sqlite_response_ops uuid'" and "sv_memory_store svc = None \<or> sv_memory_store svc = Some sqlite_memory_ops"
    and "parseCompactionThreshold (in_context_management input) = Inr None"
    and "0 < ck_created ck" and "ck_created ck < 2 ^ 63" and "rp_output_text r \<noteq> []" and "pc_effective ctx \<noteq> []"
  shows "\<exists>items. GetInputItems svc uuid (rp_id r) m d' = Inr (items, m) \<and> list_all2 identified (pc_effective ctx) items"
proof -
  have "persistShadow input" using assms(2) by (simp add: persistShadow_def)
  then obtain stored norm eff m1 m2 where g: "GetResponse (rp_id r) d' = Inr stored" "rp_id r \<noteq> []" "sr_store stored = publicStore input"
    "EnsureItemIDs uuid (Suc n) (pc_normalized ctx) = Inr (norm, m1)"
    "buildStoredEffectiveInputItems uuid (pc_effective ctx) norm m1 = Inr (eff, m2)" "sr_effective stored = eff"
    by (rule created_row [OF assms(1,3-10)])
  obtain base where base: "pc_effective ctx = base @ pc_normalized ctx" using effective_has_input [OF assms(3)] .
  have l: "list_all2 identified (pc_effective ctx) eff"
    using stored_effective_identified [OF g(4)] g(5) unfolding base by blast
  then have "eff \<noteq> []" using assms(11) by auto
  then have "GetInputItems svc uuid (rp_id r) m d' = Inr (eff, m)"
    using g(1-3,6) assms(2,5) by (simp add: GetInputItems_def sqlite_response_ops_def)
  with l show ?thesis by blast
qed


text \<open>A streamed creation is the same as an ordinary one. When it succeeds, the same request without
  streaming returns the same response and leaves the same store, and the client has received the
  announcement of the response followed by one text, which is not blank and holds no tool markup.
  Conversely an ordinary creation succeeds as a stream too, unless the model answered with a blank text.\<close>

theorem streaming_agrees:
  "(CreateStream svc uuid ck input recording n (s, []) = (Inr r, s', events) \<longrightarrow>
     ResponseService_Create svc uuid ck input n s = (Inr r, s') \<and>
     (\<exists>a prefix t. events = [Created a prefix, Delta t] \<and> rp_id a = rp_id r \<and> rp_status a = ''in_progress'' \<and>
        rp_output a = [] \<and> trim_space t \<noteq> [] \<and> \<not> ContainsPseudoToolText t)) \<and>
   (ResponseService_Create svc uuid ck input n s = (Inr r, s') \<longrightarrow>
     (\<exists>events. CreateStream svc uuid ck input recording n (s, []) = (Inr r, s', events)) \<or>
     fst (CreateStream svc uuid ck input recording n (s, [])) = Inl (InvalidResponseError ''llama stream content was empty''))"
proof (intro conjI impI)
  assume stream: "CreateStream svc uuid ck input recording n (s, []) = (Inr r, s', events)"
  obtain p0 n0 s0 p n1 ctx b config md t where c: "prepareCreate svc uuid ck input n s = (Inr (p0, n0), s0)"
    "applyAutomaticCompaction svc input p0 n0 = Inr (p, n1)"
    "buildLocalTextGenerationContext (pr_context p) (rl_summary_bytes (sv_limits svc)) = Inr (ctx, b)"
    "PrepareLocalResponseText input ctx = Inr config"
    "generateLocalResponseText (sv_generate svc) input ctx = Inr t" "trim_space t \<noteq> []"
    "completeCreate svc uuid ck p ctx input t n1 s0 = (Inr r, s')"
    "events = [Created (announcedResponse p input config md) (pr_output_prefix p), Delta t]"
    using stream by (rule stream_cases)
  show "ResponseService_Create svc uuid ck input n s = (Inr r, s')"
    using c by (simp add: ResponseService_Create_def pure_step_def)
  have "\<not> ContainsPseudoToolText t" using generated_clean [of "sv_generate svc" input ctx] c(5) by simp
  then show "\<exists>a prefix t. events = [Created a prefix, Delta t] \<and> rp_id a = rp_id r \<and> rp_status a = ''in_progress'' \<and>
      rp_output a = [] \<and> trim_space t \<noteq> [] \<and> \<not> ContainsPseudoToolText t"
    using c(6,8) completed_id [OF c(7)] announced_facts by auto
next
  assume create: "ResponseService_Create svc uuid ck input n s = (Inr r, s')"
  obtain p0 n0 s0 p n1 ctx b config t where c: "prepareCreate svc uuid ck input n s = (Inr (p0, n0), s0)"
    "applyAutomaticCompaction svc input p0 n0 = Inr (p, n1)"
    "buildLocalTextGenerationContext (pr_context p) (rl_summary_bytes (sv_limits svc)) = Inr (ctx, b)"
    "PrepareLocalResponseText input ctx = Inr config"
    "generateLocalResponseText (sv_generate svc) input ctx = Inr t"
    "completeCreate svc uuid ck p ctx input t n1 s0 = (Inr r, s')"
    using create by (rule create_cases)
  obtain md where md: "NormalizeResponseMetadata (in_metadata input) = Inr md" using prepared_metadata [OF c(1)] by blast
  have st: "on_store (prepareCreate svc uuid ck input n) (s, []) = (Inr (p0, n0), s0, [])"
    "on_store (completeCreate svc uuid ck p ctx input t n1) (s0, h) = (Inr r, s', h)" for h :: "stream_event list"
    using c(1,6) by (simp_all add: on_store_def)
  show "(\<exists>events. CreateStream svc uuid ck input recording n (s, []) = (Inr r, s', events)) \<or>
     fst (CreateStream svc uuid ck input recording n (s, [])) = Inl (InvalidResponseError ''llama stream content was empty'')"
    unfolding CreateStream_def by (simp add: st c(2-5) md pure_step_def recording_steps)
qed

text \<open>C8: a failed request leaves nothing behind. Without memory, a creation, a warm-up or the saving of an
  upstream response that fails, at whatever step, leaves the store as it was.\<close>

theorem failed_request_keeps_store:
  assumes "sv_memory_store svc = None"
  shows "(ResponseService_Create svc uuid ck input n s = (Inl e, s') \<longrightarrow> s' = s) \<and>
    (CreateWarmup svc uuid ck input n s = (Inl e, s') \<longrightarrow> s' = s) \<and>
    (SaveExternalResponse svc uuid ck prepared input response n s = (Inl e, s') \<longrightarrow> s' = s)"
proof (intro conjI impI)
  note m = prepare_memory_off [OF assms]
  show "s' = s" if "ResponseService_Create svc uuid ck input n s = (Inl e, s')"
    using that complete_failure [OF assms] unfolding ResponseService_Create_def
    by (auto simp: failure_simps split: prod.splits dest!: m)
  show "s' = s" if "CreateWarmup svc uuid ck input n s = (Inl e, s')"
    using that persist_failure unfolding CreateWarmup_def by (auto simp: failure_simps split: prod.splits dest!: m)
  show "s' = s" if "SaveExternalResponse svc uuid ck prepared input response n s = (Inl e, s')"
    using that persist_failure unfolding SaveExternalResponse_def
    by (auto simp: failure_simps memory_off [OF assms] split: prod.splits)
qed

text \<open>Refreshing a response only moves it forward. What the update says wins, what it leaves open is
  taken from the stored response; the request, the input items and the visibility of the row are kept,
  and no other response changes.\<close>

theorem refresh_keeps_row:
  assumes "ResponseService_Refresh svc uuid response n d = (Inr r, d')" and "sv_store svc = sqlite_response_ops uuid'"
    and "GetResponse (rp_id response) d = Inr stored" and "storable_response stored" and "sr_id stored = rp_id response"
    and "\<forall>i \<in> set (rp_output r). storable i"
  shows "\<exists>row. GetResponse (rp_id response) d' = Inr row \<and> rp_id r = rp_id response \<and>
    sr_request row = sr_request stored \<and> sr_input row = sr_input stored \<and> sr_effective row = sr_effective stored \<and>
    sr_store row = sr_store stored \<and> sr_output row = rp_output r \<and> sr_output_text row = rp_output_text r \<and>
    rp_status r = (if rp_status response = [] then rp_status (ResponseFromStored stored) else rp_status response) \<and>
    rp_output_text r = (if rp_output_text response = [] then rp_output_text (ResponseFromStored stored) else rp_output_text response) \<and>
    (\<forall>k. k \<noteq> rp_id response \<longrightarrow> GetResponse k d' = GetResponse k d)"
proof -
  have ops: "rs_get (sqlite_response_ops uuid') = GetResponse" by (simp add: sqlite_response_ops_def)
  obtain row where row: "refreshedRow uuid response stored n = Inr (r, row)" "rs_save (sqlite_response_ops uuid') row d = Inr d'"
    and ne: "rp_id response \<noteq> []"
    using assms(1,2,3) by (auto simp: ResponseService_Refresh_def outcome_simps ops split: if_splits)
  note f = refreshed_facts [OF row(1) ne assms(5)]
  have "storable_response row" using assms(4,6) f by (auto simp: storable_response_def)
  then have "GetResponse (rp_id response) d' = Inr row" using rs.save_get [OF _ row(2)] f(1) ops by simp
  moreover have "k \<noteq> rp_id response \<Longrightarrow> GetResponse k d' = GetResponse k d" for k
    using rs.save_other [OF row(2)] f(1) ops by simp
  ultimately show ?thesis using f by (auto simp: keep_list_def)
qed

section \<open>Witnesses\<close>

definition sample_clock :: clock where
  "sample_clock = \<lparr>ck_recall = ''t'', ck_created = 1, ck_completed = 1, ck_capture = ''t''\<rparr>"

definition plain_request :: "bool option \<Rightarrow> create_response_input" where
  "plain_request store = memory_sample_input\<lparr>in_metadata := RawEmpty, in_store := store, in_force_shadow := True\<rparr>"

definition sample_context :: prepared_context where
  "sample_context = \<lparr>pc_normalized = [input_message ''user'' ''hi''], pc_effective = [input_message ''user'' ''hi''],
     pc_context = [input_message ''user'' ''hi''], pc_conversation = zero_conversation, pc_refs = []\<rparr>"

lemma plain_request_sel:
  "in_model (plain_request st) = ''x''" "in_text_config (plain_request st) = RawEmpty" "in_metadata (plain_request st) = RawEmpty"
  "in_context_management (plain_request st) = RawEmpty" "in_store (plain_request st) = st" "in_previous (plain_request st) = []"
  "in_conversation (plain_request st) = []" "in_request_json (plain_request st) = RawEmpty" "in_options (plain_request st) = []"
  by (simp_all add: plain_request_def memory_sample_input_def)

lemma plain_prepared: "PrepareCreateContext sample_service now (plain_request st) d = Inr (sample_context, d)"
  by (simp add: PrepareCreateContext_def prepareResponseContext_def plain_request_def memory_sample_input_def
      NormalizeResponseMetadata_def normalizeMetadata_def raw_absent_def requestInputItems_def NormalizeInput_def
      requestBase_def CanonicalizeToolOutputs_def Let_def memoryContextItems_def memoryRequestEnabled_def sample_service_def
      hasRequestInput_def NewInputTextMessage_eq CollectToolCallReferences_def input_message_def quotable_def unquotable_def
      sample_context_def AppendCurrentRequestContext_def)

lemma hello_clean: "\<not> ContainsPseudoToolText ''hello''"
  by code_simp

lemma plain_generation:
  "buildLocalTextGenerationContext (pc_context sample_context) 65536 = Inr ([input_message ''user'' ''hi''], False)"
  "PrepareLocalResponseText (plain_request st) ctx = Inr DefaultResponseTextConfig"
  "generateLocalResponseText (sv_generate sample_service) (plain_request st) ctx = Inr ''hello''"
proof -
  have "\<not> isLocalTextGenerationToolOutput ''message''" by (simp add: isLocalTextGenerationToolOutput_def trim_space_word)
  moreover have "\<not> Item_HasNonTextMessageContent (input_message ''user'' ''hi'')"
    by (simp add: Item_HasNonTextMessageContent_def input_message_def Item_RawField_def raw_entry_def map_of_gomap_of
        gomap_of_def str_entry_def text_part_types_def unmarshal_any_maps_def)
  moreover have "iType (input_message ''user'' ''hi'') = ''message''" "iRole (input_message ''user'' ''hi'') = ''user''"
    by (simp_all add: input_message_def)
  ultimately show "buildLocalTextGenerationContext (pc_context sample_context) 65536 = Inr ([input_message ''user'' ''hi''], False)"
    by (simp add: buildLocalTextGenerationContext_def sample_context_def localToolOutputSummary_def Let_def)
  show "PrepareLocalResponseText (plain_request st) ctx = Inr DefaultResponseTextConfig"
    by (simp add: PrepareLocalResponseText_def plain_request_sel ParseResponseTextConfig_def raw_absent_def
        validateLocalResponseTextRequest_def DefaultResponseTextConfig_def)
  show "generateLocalResponseText (sv_generate sample_service) (plain_request st) ctx = Inr ''hello''"
    using hello_clean by (simp add: generate_attempts spoiled_def attempt_def sample_service_def)
qed

lemma with_id: "\<exists>j. Item_WithID (input_message ''user'' ''hi'') ''item_u'' = Inr j"
  "\<exists>j. Item_WithID (output_message ''hello'') ''item_u'' = Inr j"
proof -
  have k: "fold_case ''id'' = ''id''" by (simp add: fold_case.simps lower_char_def)
  show "\<exists>j. Item_WithID (input_message ''user'' ''hi'') ''item_u'' = Inr j"
    by (simp add: Item_WithID_def Item_WithField_def Item_WithMap_def Item_Map_def input_message_def NewItem_def key_folds k Let_def
        gomap_of_def less_list_code)
  show "\<exists>j. Item_WithID (output_message ''hello'') ''item_u'' = Inr j"
    by (simp add: Item_WithID_def Item_WithField_def Item_WithMap_def Item_Map_def output_message_def NewItem_def key_folds k Let_def
        gomap_of_def less_list_code fold_case_output_keys)
qed

lemma no_ids: "Item_ID (input_message ''user'' ''hi'') = []" "Item_ID (output_message ''hello'') = []"
  by (simp_all add: Item_StringField_def Item_RawField_def input_message_def output_message_def raw_entry_def map_of_gomap_of)

lemma plain_ensured:
  "\<exists>j. EnsureItemIDs sample_uuid n [input_message ''user'' ''hi''] = Inr ([j], Suc n) \<and> Item_ID j \<noteq> []"
  "\<exists>j. EnsureItemIDs sample_uuid n [output_message ''hello''] = Inr ([j], Suc n) \<and> Item_ID j \<noteq> []"
proof -
  have e: "\<exists>j. EnsureItemIDs sample_uuid n [i] = Inr ([j], Suc n) \<and> Item_ID j \<noteq> []"
    if none: "Item_ID i = []" and ok: "\<exists>j. Item_WithID i ''item_u'' = Inr j" for i
  proof -
    obtain j where j: "Item_WithID i ''item_u'' = Inr j" using ok by blast
    then have "EnsureItemIDs sample_uuid n [i] = Inr ([j], Suc n)"
      using none by (simp add: NewPrefixedID_def sample_uuid_def trim_space_word)
    with ensured_identified [OF this] show ?thesis by (auto simp: identified_def)
  qed
  show "\<exists>j. EnsureItemIDs sample_uuid n [input_message ''user'' ''hi''] = Inr ([j], Suc n) \<and> Item_ID j \<noteq> []"
    by (rule e [OF no_ids(1) with_id(1)])
  show "\<exists>j. EnsureItemIDs sample_uuid n [output_message ''hello''] = Inr ([j], Suc n) \<and> Item_ID j \<noteq> []"
    by (rule e [OF no_ids(2) with_id(2)])
qed

definition sample_answered :: prepared_response where
  "sample_answered = \<lparr>pr_id = ''resp_u'', pr_normalized = pc_normalized sample_context, pr_effective = pc_effective sample_context,
     pr_context = pc_context sample_context, pr_output_prefix = [], pr_conversation = zero_conversation, pr_created = 1\<rparr>"

lemma plain_storable: "\<forall>i \<in> set (pc_effective sample_context). storable i"
proof -
  have "item_wf (input_message ''user'' ''hi'')"
    by (simp add: item_wf_def input_message_def NewItem_def key_folds Let_def extractTextParts_def raw_absent_def
        unmarshal_raw_maps_def gomap_of_def List.map_filter_def extractTextPart_def less_list_code trim_space_word)
  moreover have "\<not> has_envelope_key (input_message ''user'' ''hi'')" "iMeta (input_message ''user'' ''hi'') = None"
    by (simp_all add: has_envelope_key_def Item_RawField_def input_message_def raw_entry_def map_of_gomap_of)
  ultimately show ?thesis by (simp add: sample_context_def storable_def meta_wf_def)
qed

lemma plain_finalized:
  "\<exists>usage. FinalizeLocalResponse (plain_request st) (pc_context sample_context)
     (NewResponse ''resp_u'' ''x'' ''hello'' [] [] 1) =
   Inr ((NewResponse ''resp_u'' ''x'' ''hello'' [] [] 1)\<lparr>rp_text := MarshalResponseTextConfig DefaultResponseTextConfig,
     rp_usage := RawJson usage\<rparr>)"
proof -
  have q: "quotable ''hello''" by (simp add: quotable_def unquotable_def)
  have c: "ParseResponseTextConfig RawEmpty = Inr DefaultResponseTextConfig" "tf_type DefaultResponseTextConfig = ''text''"
    by (simp_all add: ParseResponseTextConfig_def raw_absent_def DefaultResponseTextConfig_def)
  obtain a b where "EstimateSyntheticTokenCount (pc_context sample_context) = Inr a"
    "EstimateSyntheticTokenCount [output_message ''hello''] = Inr b"
    by (simp add: EstimateSyntheticTokenCount_def sample_context_def Item_MarshalJSON_def input_message_def output_message_def)
  moreover obtain u where "BuildSyntheticUsage a b = RawJson u" by (simp add: BuildSyntheticUsage_def)
  ultimately show ?thesis
    by (simp add: FinalizeLocalResponse_def plain_request_sel c validateLocalResponseTextRequest_def ensureLocalResponseUsage_def
        NewResponse_def empty_response_def raw_absent_def NewOutputTextMessage_eq q)
qed

lemma plain_completed:
  "\<exists>r stored n1. completedRow sample_uuid sample_answered (pc_context sample_context) (plain_request st) ''hello'' n =
     Inr (r, stored, n1) \<and> rp_output_text r = ''hello'' \<and> rp_id r = ''resp_u''"
proof -
  have q: "quotable ''hello''" by (simp add: quotable_def unquotable_def)
  obtain usage where fin: "FinalizeLocalResponse (plain_request st) (pc_context sample_context)
     (NewResponse ''resp_u'' ''x'' ''hello'' [] [] 1) =
     Inr ((NewResponse ''resp_u'' ''x'' ''hello'' [] [] 1)\<lparr>rp_text := MarshalResponseTextConfig DefaultResponseTextConfig,
     rp_usage := RawJson usage\<rparr>)" using plain_finalized by blast
  obtain i where i: "EnsureItemIDs sample_uuid n [input_message ''user'' ''hi''] = Inr ([i], Suc n)" "Item_ID i \<noteq> []"
    using plain_ensured(1) by blast
  obtain o' where o': "EnsureItemIDs sample_uuid (Suc n) [output_message ''hello''] = Inr ([o'], Suc (Suc n))" "Item_ID o' \<noteq> []"
    using plain_ensured(2) by blast
  have eff: "buildStoredEffectiveInputItems sample_uuid [input_message ''user'' ''hi''] [i] (Suc n) = Inr ([i], Suc n)"
    using i(2) by (simp add: buildStoredEffectiveInputItems_def)
  define r where "r = (HydrateResponseRequestSurface ((NewResponse ''resp_u'' ''x'' ''hello'' [] [] 1)\<lparr>
      rp_text := MarshalResponseTextConfig DefaultResponseTextConfig, rp_usage := RawJson usage, rp_metadata := Some [],
      rp_store := Some (publicStore (plain_request st)), rp_background := Some False\<rparr>) RawEmpty)\<lparr>rp_output := [o']\<rparr>"
  have "storable o'" using ensured_storable(1) [OF o'(1)] output_message_storable [of "''hello''"] q
    by (simp add: NewOutputTextMessage_eq)
  then have "\<exists>kvs. Item_MarshalJSON o' = RawJson (JObj kvs)"
    using stored_item_decodes [OF _ o'(2)] by (blast elim: NewItem_Inr_obtain)
  moreover obtain tx where tx: "MarshalResponseTextConfig DefaultResponseTextConfig = RawJson tx"
    by (cases "text_format_json DefaultResponseTextConfig")
      (auto simp: MarshalResponseTextConfig_def mustMarshalDefaultResponseTextConfig_def)
  ultimately obtain doc where doc: "marshalResponseJSON r = Inr doc"
    unfolding marshalResponseJSON_def Response_MarshalJSON_def response_entries_def r_def
    by (auto simp: hydrate_sel tx NewResponse_def items_json_def item_json_def parseResponseRequestFields_def SanitizeResponseRequestSurfaceJSON_def
        requestConversationReference_def raw_entry_def NewConversationReference_def coalesceRawMessage_def raw_defaults
        normalizeReasoningRaw_def empty_response_def)
  have new: "rp_output (NewResponse ''resp_u'' ''x'' ''hello'' [] [] 1) = [output_message ''hello'']"
    by (simp add: NewResponse_def NewOutputTextMessage_eq q)
  have bg: "\<not> inBackground (plain_request st)" by (simp add: inBackground_def plain_request_def memory_sample_input_def)
  have "completedRow sample_uuid sample_answered (pc_context sample_context) (plain_request st) ''hello'' n =
      Inr (r, storedRow (plain_request st) r doc [i] [i], Suc (Suc n))"
    using fin i(1) eff o'(1) doc new
    by (simp add: completedRow_def sample_answered_def plain_request_sel bg NormalizeResponseMetadata_def normalizeMetadata_def raw_absent_def
        Let_def r_def hydrate_sel sample_context_def del: EnsureItemIDs.simps)
  moreover have "rp_output_text r = ''hello''" "rp_id r = ''resp_u''" by (simp_all add: r_def hydrate_sel NewResponse_def)
  ultimately show ?thesis by blast
qed

lemma sample_wiring:
  "sv_store sample_service = sqlite_response_ops sample_uuid" "sv_memory_store sample_service = None"
  "rl_summary_bytes (sv_limits sample_service) = 65536"
  by (simp_all add: sample_service_def)

lemma plain_prepare: "prepareCreate sample_service sample_uuid sample_clock (plain_request st) 0 d = (Inr (sample_answered, 1), d)"
  by (simp add: prepareCreate_def plain_prepared commit_def pure_step_def NewPrefixedID_def sample_uuid_def sample_answered_def
      sample_clock_def) (simp add: sample_context_def)

lemma plain_threshold: "parseCompactionThreshold (in_context_management (plain_request st)) = Inr None"
  by (simp add: parseCompactionThreshold_def plain_request_sel raw_absent_def)

lemma plain_created:
  obtains r d' where "completeCreate sample_service sample_uuid sample_clock sample_answered (pc_context sample_context)
      (plain_request st) ''hello'' 1 d = (Inr r, d')" "rp_output_text r = ''hello''" "rp_id r = ''resp_u''"
proof -
  obtain r stored n1 where c: "completedRow sample_uuid sample_answered (pc_context sample_context) (plain_request st) ''hello'' 1 =
     Inr (r, stored, n1)" "rp_output_text r = ''hello''" "rp_id r = ''resp_u''" using plain_completed by blast
  have "storable_response stored"
    by (rule completed_settled(1) [OF c(1)]) (use c plain_storable in \<open>simp_all add: sample_answered_def sample_context_def\<close>)
  then obtain d' where "SaveResponse stored d = Inr d'" using encode_scan by (fastforce simp: SaveResponse_def)
  then have "persistResponse sample_service (plain_request st) (pr_conversation sample_answered) stored n1 d = (Inr n1, d')"
    by (simp add: persistResponse_def plain_request_sel sample_wiring sqlite_response_ops_def persistShadow_def commit_def)
      (simp add: plain_request_def)
  then have "completeCreate sample_service sample_uuid sample_clock sample_answered (pc_context sample_context)
      (plain_request st) ''hello'' 1 d = (Inr r, d')"
    using c(1) by (simp add: completeCreate_def pure_step_def memory_off [OF sample_wiring(2)])
  with c show thesis using that by blast
qed

lemma context_same: "pc_context sample_context = [input_message ''user'' ''hi'']" "pr_context sample_answered = pc_context sample_context"
  by (simp_all add: sample_context_def sample_answered_def)

lemma plain_create_from:
  assumes "completeCreate sample_service sample_uuid sample_clock sample_answered (pc_context sample_context)
      (plain_request st) ''hello'' 1 d = (Inr r, d')"
  shows "ResponseService_Create sample_service sample_uuid sample_clock (plain_request st) 0 d = (Inr r, d')"
  using assms plain_generation(1)
  by (simp add: ResponseService_Create_def plain_prepare pure_step_def no_compaction_policy [OF plain_threshold] context_same
      sample_wiring plain_generation(2,3))

theorem created_input_items_witness:
  "\<exists>r d' i. ResponseService_Create sample_service sample_uuid sample_clock (plain_request None) 0 empty_db = (Inr r, d') \<and>
     GetInputItems sample_service sample_uuid ''resp_u'' 9 d' = Inr ([i], 9) \<and> Item_ID i \<noteq> []"
proof -
  obtain r d' where c: "completeCreate sample_service sample_uuid sample_clock sample_answered (pc_context sample_context)
      (plain_request None) ''hello'' 1 empty_db = (Inr r, d')" "rp_output_text r = ''hello''" "rp_id r = ''resp_u''"
    by (rule plain_created)
  have pub: "publicStore (plain_request None)" by (simp add: publicStore_def plain_request_sel)
  have "\<exists>items. GetInputItems sample_service sample_uuid (rp_id r) 9 d' = Inr (items, 9) \<and>
      list_all2 identified (pc_effective sample_context) items"
    by (rule created_input_items [OF plain_create_from [OF c(1)] pub plain_prepared plain_storable sample_wiring(1) _ plain_threshold])
      (use c(2) sample_wiring(2) in \<open>simp_all add: sample_clock_def sample_context_def\<close>)
  then show ?thesis using plain_create_from [OF c(1)] c(3)
    by (auto simp: sample_context_def list_all2_Cons1 identified_def)
qed


theorem streaming_agrees_witness:
  "\<exists>r d' a. CreateStream sample_service sample_uuid sample_clock (plain_request None) recording 0 (empty_db, []) =
       (Inr r, d', [Created a [], Delta ''hello'']) \<and> rp_id a = rp_id r \<and>
     ResponseService_Create sample_service sample_uuid sample_clock (plain_request None) 0 empty_db = (Inr r, d')"
proof -
  let ?in = "plain_request None"
  obtain r d' where c: "completeCreate sample_service sample_uuid sample_clock sample_answered (pc_context sample_context)
      ?in ''hello'' 1 empty_db = (Inr r, d')" by (rule plain_created)
  define a where "a = announcedResponse sample_answered ?in DefaultResponseTextConfig []"
  have "on_store (prepareCreate sample_service sample_uuid sample_clock ?in 0) (empty_db, []) =
      (Inr (sample_answered, 1), empty_db, [] :: stream_event list)"
    "on_store (completeCreate sample_service sample_uuid sample_clock sample_answered (pc_context sample_context) ?in ''hello'' 1)
      (empty_db, h) = (Inr r, d', h)" for h :: "stream_event list"
    using c plain_prepare by (simp_all add: on_store_def)
  moreover have "NormalizeResponseMetadata (in_metadata ?in) = Inr []"
    by (simp add: plain_request_sel NormalizeResponseMetadata_def normalizeMetadata_def raw_absent_def)
  moreover have "trim_space ''hello'' \<noteq> []" "pr_output_prefix sample_answered = []" by (simp_all add: trim_space_word sample_answered_def)
  ultimately have st: "CreateStream sample_service sample_uuid sample_clock ?in recording 0 (empty_db, []) =
      (Inr r, d', [Created a [], Delta ''hello''])"
    using plain_generation(1)
    by (simp add: CreateStream_def pure_step_def recording_steps no_compaction_policy [OF plain_threshold] context_same
      sample_wiring plain_generation(2,3) a_def)
  with streaming_agrees [of sample_service sample_uuid sample_clock ?in 0 empty_db r d' "[Created a [], Delta ''hello'']"]
  show ?thesis by auto
qed

theorem failed_request_keeps_store_witness:
  "\<exists>e. ResponseService_Create sample_service sample_uuid sample_clock (sample_request\<lparr>in_model := []\<rparr>) 0 empty_db = (Inl e, empty_db)"
proof -
  obtain e s' where e: "ResponseService_Create sample_service sample_uuid sample_clock (sample_request\<lparr>in_model := []\<rparr>) 0 empty_db = (Inl e, s')"
    by (simp add: ResponseService_Create_def prepareCreate_def PrepareCreateContext_def prepareResponseContext_def commit_def)
  with failed_request_keeps_store [OF sample_wiring(2), of sample_uuid sample_clock "sample_request\<lparr>in_model := []\<rparr>" 0 empty_db e s']
  show ?thesis by simp
qed

lemma sample_response_read:
  "rp_error (ResponseFromStored sample_response) = RawEmpty" "rp_incomplete_details (ResponseFromStored sample_response) = RawEmpty"
  "rp_usage (ResponseFromStored sample_response) = RawEmpty" "rp_conversation (ResponseFromStored sample_response) = None"
  by (simp_all add: ResponseFromStored_def sample_response_def hydrateStoredResponse_def Let_def hydrate_sel empty_response_def
      NewConversationReference_def requestConversationReference_def parseResponseRequestFields_def SanitizeResponseRequestSurfaceJSON_def
      raw_entry_def gomap_of_def)

lemma refresh_ensured:
  "\<exists>j. EnsureItemIDs sample_uuid 0 [output_message ''hi''] = Inr ([j], 1) \<and> Item_ID j \<noteq> [] \<and> storable j"
proof -
  have k: "fold_case ''id'' = ''id''" by (simp add: fold_case.simps lower_char_def)
  have "\<exists>j. Item_WithID (output_message ''hi'') ''item_u'' = Inr j"
    by (simp add: Item_WithID_def Item_WithField_def Item_WithMap_def Item_Map_def output_message_def NewItem_def key_folds k Let_def
        gomap_of_def less_list_code fold_case_output_keys)
  moreover have "Item_ID (output_message ''hi'') = []"
    by (simp add: Item_StringField_def Item_RawField_def output_message_def raw_entry_def map_of_gomap_of)
  ultimately obtain j where e: "EnsureItemIDs sample_uuid 0 [output_message ''hi''] = Inr ([j], 1)"
    by (auto simp: NewPrefixedID_def sample_uuid_def trim_space_word)
  have "storable (output_message ''hi'')"
    using output_message_storable [of "''hi''"] by (simp add: NewOutputTextMessage_eq quotable_def unquotable_def)
  with ensured_storable(1) [OF e] e show ?thesis by auto
qed

definition sample_update :: response where
  "sample_update = sample_stored_response\<lparr>rp_status := ''failed'', rp_completed_at := None\<rparr>"

theorem refresh_keeps_row_witness:
  "\<exists>d d' r row. SaveResponse sample_response empty_db = Inr d \<and>
     ResponseService_Refresh sample_service sample_uuid sample_update 0 d = (Inr r, d') \<and>
     GetResponse ''resp_1'' d' = Inr row \<and> rp_status r = ''failed'' \<and> sr_input row = [sample_item] \<and> sr_store row"
proof -
  let ?m = "mergeStoredResponseLifecycle sample_update (ResponseFromStored sample_response)"
  have q: "quotable ''hi''" by (simp add: quotable_def unquotable_def)
  obtain d where d: "SaveResponse sample_response empty_db = Inr d" "GetResponse (sr_id sample_response) d = Inr sample_response"
    using encode_scan [OF sample_response_storable] rs.save_get [OF sample_response_storable]
    by (fastforce simp: SaveResponse_def sqlite_response_ops_def)
  obtain j where j: "EnsureItemIDs sample_uuid 0 [output_message ''hi''] = Inr ([j], 1)" "Item_ID j \<noteq> []" "storable j"
    using refresh_ensured by blast
  have raw: "\<exists>kvs. Item_MarshalJSON j = RawJson (JObj kvs)"
    using stored_item_decodes [OF j(3,2)] by (blast elim: NewItem_Inr_obtain)
  have id': "rp_id sample_update = ''resp_1''" "rp_status sample_update = ''failed''" "rp_output_text sample_update = ''hi''"
    by (simp_all add: sample_update_def sample_stored_response_def hydrate_sel NewResponse_def)
  have out: "rp_output ?m = [output_message ''hi'']"
    by (simp add: mergeStoredResponseLifecycle_def keep_list_def sample_update_def sample_stored_response_def hydrate_sel NewResponse_def
        NewOutputTextMessage_eq q)
  obtain doc where doc: "marshalResponseJSON (?m\<lparr>rp_output := [j]\<rparr>) = Inr doc"
    using raw
    unfolding marshalResponseJSON_def Response_MarshalJSON_def response_entries_def
    by (auto simp: mergeStoredResponseLifecycle_def keep_raw_def keep_list_def keep_ptr_def textUnset_def raw_absent_def
        sample_response_read sample_update_def sample_stored_response_def hydrate_sel NewResponse_def items_json_def item_json_def
        parseResponseRequestFields_def SanitizeResponseRequestSurfaceJSON_def requestConversationReference_def raw_entry_def
        NewConversationReference_def coalesceRawMessage_def raw_defaults normalizeReasoningRaw_def empty_response_def
        mustMarshalDefaultResponseTextConfig_def split: option.splits)
  obtain row where row: "refreshedRow sample_uuid sample_update sample_response 0 = Inr (?m\<lparr>rp_output := [j]\<rparr>, row)"
    using j(1) doc out by (simp add: refreshedRow_def Let_def del: EnsureItemIDs.simps)
  have six: "sr_id sample_response = rp_id sample_update" by (simp add: id' sample_response_def)
  note f = refreshed_facts [OF row _ six]
  have "storable_response row" using f j(3) id' sample_response_storable by (simp add: storable_response_def)
  then obtain d' where d': "SaveResponse row d = Inr d'" using encode_scan by (fastforce simp: SaveResponse_def)
  have run: "ResponseService_Refresh sample_service sample_uuid sample_update 0 d = (Inr (?m\<lparr>rp_output := [j]\<rparr>), d')"
    using d(2) row d' id' six by (simp add: ResponseService_Refresh_def sample_wiring sqlite_response_ops_def pure_step_def commit_def)
  have "\<forall>i \<in> set (rp_output (?m\<lparr>rp_output := [j]\<rparr>)). storable i" using j(3) by simp
  from refresh_keeps_row [OF run sample_wiring(1) _ sample_response_storable six this] d(2) six
  obtain row' where "GetResponse ''resp_1'' d' = Inr row'" "sr_input row' = sr_input sample_response"
    "sr_store row' = sr_store sample_response" "rp_status (?m\<lparr>rp_output := [j]\<rparr>) = ''failed''"
    using id' by auto
  with d(1) run show ?thesis by (auto simp: sample_response_def)
qed

end
