(* ===== verification/Event_Stream.thy ===== *)
theory Event_Stream
  imports Response_Text
begin

text \<open>
  Server-sent events: the bytes the emitters write (\<^verbatim>\<open>sse.go\<close>, \<^verbatim>\<open>responseStreamEmitter.write\<close> and
  \<^verbatim>\<open>done\<close>) and the reader of recorded streams (\<^verbatim>\<open>ssetrace/parser.go\<close>), with its scanner of lines and its
  limit on the length of a line. \<open>stream_reads_back\<close> is their round trip.
\<close>

section \<open>Integers in text\<close>

text \<open>\<^verbatim>\<open>strconv.Atoi\<close>: an optional sign and decimal digits, within 64 bits.\<close>

definition atoi :: "string \<Rightarrow> int option" where
  "atoi s =
     (case s of
        [] \<Rightarrow> None
      | c # cs \<Rightarrow>
          let neg = (c = CHR ''-'');
              ds = (if neg \<or> c = CHR ''+'' then cs else s);
              v = (if neg then - digits_value ds else digits_value ds)
          in if ds \<noteq> [] \<and> list_all is_digit ds \<and> - (2 ^ 63) \<le> v \<and> v < 2 ^ 63 then Some v else None)"

text \<open>The error of \<^verbatim>\<open>strconv.Atoi\<close>.\<close>

definition atoi_error :: "string \<Rightarrow> error" where
  "atoi_error s =
     (let ds = (if s \<noteq> [] \<and> (hd s = CHR ''-'' \<or> hd s = CHR ''+'') then tl s else s)
      in Errorf (''strconv.Atoi: parsing '' @ go_quote s @ '': '' @
           (if ds \<noteq> [] \<and> list_all is_digit ds then ''value out of range'' else ''invalid syntax'')))"

section \<open>Writing events\<close>

text \<open>The bytes of \<^verbatim>\<open>fmt.Fprintf(w, "event: %s\n", eventType)\<close> followed by
  \<^verbatim>\<open>fmt.Fprintf(w, "data: %s\n\n", body)\<close>, and of \<^verbatim>\<open>fmt.Fprint(w, "data: [DONE]\n\n")\<close>.\<close>

definition sse_write :: "string \<Rightarrow> string \<Rightarrow> string" where
  "sse_write eventType body = ''event: '' @ eventType @ newline @ ''data: '' @ body @ newline @ newline"

definition sse_done :: string where
  "sse_done = ''data: [DONE]'' @ newline @ newline"

section \<open>Lines\<close>

text \<open>The lines of a text as \<^verbatim>\<open>bufio.ScanLines\<close> splits it: a last line without its newline counts, unless
  it is empty.\<close>

function scan_lines :: "string \<Rightarrow> string list" where
  "scan_lines [] = []"
| "scan_lines (c # cs) =
     takeWhile (\<lambda>d. d \<noteq> CHR 10) (c # cs) # scan_lines (drop 1 (dropWhile (\<lambda>d. d \<noteq> CHR 10) (c # cs)))"
  by pat_completeness auto
termination
  by (relation "measure length")
    (auto intro: le_imp_less_Suc le_trans [OF diff_le_self length_dropWhile_le])

declare scan_lines.simps(2) [simp del]

text \<open>The carriage return before the newline is not part of the line.\<close>

definition drop_cr :: "string \<Rightarrow> string" where
  "drop_cr l = (if l \<noteq> [] \<and> last l = CHR 13 then butlast l else l)"

text \<open>\<^verbatim>\<open>scanner.Buffer(..., 16<<20)\<close>: a line of that many bytes or more does not fit.\<close>

definition max_line :: int where
  "max_line = 2 ^ 24"

section \<open>Reading events\<close>

record sse_event =
  ev_event :: string
  ev_id :: string
  ev_retry :: "int option"
  ev_data :: string
  ev_json :: json

record sse_stream =
  es_count :: nat
  es_done :: bool
  es_events :: "sse_event list"

text \<open>The variables of \<^verbatim>\<open>ParseReader\<close>.\<close>

record sse_reader =
  rd_done :: bool
  rd_events :: "sse_event list"
  rd_name :: string
  rd_ident :: string
  rd_retry :: "int option"
  rd_lines :: "string list"

definition empty_reader :: sse_reader where
  "empty_reader = \<lparr>rd_done = False, rd_events = [], rd_name = [], rd_ident = [], rd_retry = None, rd_lines = []\<rparr>"

text \<open>The value of \<^verbatim>\<open>event.JSON\<close>; \<^verbatim>\<open>nil\<close> is \<open>JNull\<close>.\<close>

definition event_json :: "string \<Rightarrow> json res" where
  "event_json data =
     (if data = ''[DONE]'' then Inr JNull
      else case read_json data of
        None \<Rightarrow> Inr JNull
      | Some j \<Rightarrow> (case any_of j of None \<Rightarrow> Inl (Wrap ''decode SSE event JSON'' JSONError) | Some v \<Rightarrow> Inr v))"

definition flush_event :: "sse_reader \<Rightarrow> sse_reader res" where
  "flush_event st =
     (if rd_lines st = [] \<and> rd_name st = [] \<and> rd_ident st = [] \<and> rd_retry st = None then Inr st
      else
        let data = join (rd_lines st) newline in
        res_bind (event_json data) (\<lambda>j.
          Inr \<lparr>rd_done = (rd_done st \<or> data = ''[DONE]''),
               rd_events = rd_events st @ [\<lparr>ev_event = rd_name st, ev_id = rd_ident st, ev_retry = rd_retry st,
                                            ev_data = data, ev_json = j\<rparr>],
               rd_name = [], rd_ident = [], rd_retry = None, rd_lines = []\<rparr>))"

text \<open>The name of a field and its value.\<close>

definition split_field :: "string \<Rightarrow> string \<times> string" where
  "split_field line =
     (if CHR '':'' \<in> set line
      then (takeWhile (\<lambda>c. c \<noteq> CHR '':'') line,
            trim_prefix (drop 1 (dropWhile (\<lambda>c. c \<noteq> CHR '':'') line)) '' '')
      else (line, []))"

definition read_line :: "string \<Rightarrow> sse_reader \<Rightarrow> sse_reader res" where
  "read_line line st =
     (if line = [] then flush_event st
      else if has_prefix line '':'' then Inr st
      else case split_field line of (field, v) \<Rightarrow>
        if field = ''event'' then Inr (st\<lparr>rd_name := v\<rparr>)
        else if field = ''data'' then Inr (st\<lparr>rd_lines := rd_lines st @ [v]\<rparr>)
        else if field = ''id'' then Inr (st\<lparr>rd_ident := v\<rparr>)
        else if field = ''retry'' then
          (case atoi (trim_space v) of
             None \<Rightarrow> Inl (Wrap (''parse SSE retry value '' @ go_quote v) (atoi_error (trim_space v)))
           | Some millis \<Rightarrow> Inr (st\<lparr>rd_retry := Some millis\<rparr>))
        else Inr st)"

fun read_lines :: "string list \<Rightarrow> sse_reader \<Rightarrow> sse_reader res" where
  "read_lines [] st = Inr st"
| "read_lines (l # ls) st =
     (if max_line \<le> int (length l) then Inl (Errorf ''bufio.Scanner: token too long'')
      else res_bind (read_line (drop_cr l) st) (read_lines ls))"

definition ParseReader :: "string \<Rightarrow> sse_stream res" where
  "ParseReader body =
     res_bind (read_lines (scan_lines body) empty_reader) (\<lambda>st.
     res_bind (flush_event st) (\<lambda>st'.
       Inr \<lparr>es_count = length (rd_events st'), es_done = rd_done st', es_events = rd_events st'\<rparr>))"

section \<open>What the writer wrote is read back\<close>

text \<open>A line that survives: it holds no newline, does not end in a carriage return and fits the buffer.\<close>

definition plain_line :: "string \<Rightarrow> bool" where
  "plain_line l \<longleftrightarrow> CHR 10 \<notin> set l \<and> (l = [] \<or> last l \<noteq> CHR 13) \<and> int (length l) + 7 < max_line"

lemma takeWhile_line: "CHR 10 \<notin> set l \<Longrightarrow> takeWhile (\<lambda>d. d \<noteq> CHR 10) (l @ CHR 10 # s) = l \<and>
    dropWhile (\<lambda>d. d \<noteq> CHR 10) (l @ CHR 10 # s) = CHR 10 # s"
  by (induction l) auto

lemma scan_line:
  assumes "CHR 10 \<notin> set l"
  shows "scan_lines (l @ CHR 10 # s) = l # scan_lines s"
proof (cases "l @ CHR 10 # s")
  case (Cons c cs)
  have "scan_lines (l @ CHR 10 # s) = takeWhile (\<lambda>d. d \<noteq> CHR 10) (l @ CHR 10 # s) #
      scan_lines (drop 1 (dropWhile (\<lambda>d. d \<noteq> CHR 10) (l @ CHR 10 # s)))"
    unfolding Cons by (rule scan_lines.simps(2))
  then show ?thesis using takeWhile_line [OF assms, of s] by simp
qed simp

lemma scan_written:
  assumes "CHR 10 \<notin> set t" "CHR 10 \<notin> set b"
  shows "scan_lines (sse_write t b @ s) = (''event: '' @ t) # (''data: '' @ b) # [] # scan_lines s"
  using scan_line [of "''event: '' @ t" "''data: '' @ b @ newline @ newline @ s"] scan_line [of "''data: '' @ b" "newline @ s"]
    scan_line [of "[]" s] assms
  by (simp add: sse_write_def newline_def)

lemma field_line: "split_field (''event: '' @ t) = (''event'', t)" "split_field (''data: '' @ t) = (''data'', t)"
  by (simp_all add: split_field_def trim_prefix_def has_prefix_def)

lemma drop_cr_line: "plain_line l \<Longrightarrow> p \<noteq> [] \<Longrightarrow> last p \<noteq> CHR 13 \<Longrightarrow> drop_cr (p @ l) = p @ l"
  by (cases "l = []") (auto simp: drop_cr_def plain_line_def)

lemma read_written:
  assumes "plain_line t" "plain_line b" "t \<noteq> []" "event_json b = Inr j" "b \<noteq> ''[DONE]''"
    and st: "rd_name st = []" "rd_ident st = []" "rd_retry st = None" "rd_lines st = []"
  shows "read_lines ((''event: '' @ t) # (''data: '' @ b) # [] # ls) st =
    read_lines ls (st\<lparr>rd_events := rd_events st @ [\<lparr>ev_event = t, ev_id = [], ev_retry = None, ev_data = b, ev_json = j\<rparr>]\<rparr>)"
proof -
  have l: "int (length t) + 7 < max_line" "int (length b) + 7 < max_line" "0 < max_line" using assms(1,2) by (auto simp: plain_line_def)
  have d: "drop_cr (''event: '' @ t) = ''event: '' @ t" "drop_cr (''data: '' @ b) = ''data: '' @ b" "drop_cr [] = []"
    using drop_cr_line [OF assms(1), of "''event: ''"] drop_cr_line [OF assms(2), of "''data: ''"] by (simp_all add: drop_cr_def)
  have "\<not> has_prefix (''event: '' @ t) '':''" "\<not> has_prefix (''data: '' @ b) '':''" by (simp_all add: has_prefix_def)
  then have e: "read_line (''event: '' @ t) s = Inr (s\<lparr>rd_name := t\<rparr>)"
    "read_line (''data: '' @ b) s = Inr (s\<lparr>rd_lines := rd_lines s @ [b]\<rparr>)" for s
    using field_line [of t] field_line [of b] by (simp_all add: read_line_def del: append.simps)
  have "flush_event (st\<lparr>rd_name := t, rd_lines := [b]\<rparr>) =
      Inr (st\<lparr>rd_events := rd_events st @ [\<lparr>ev_event = t, ev_id = [], ev_retry = None, ev_data = b, ev_json = j\<rparr>]\<rparr>)"
    using assms(3-5) st by (cases st) (simp add: flush_event_def Let_def)
  then show ?thesis using l d e(1) [of st] e(2) [of "st\<lparr>rd_name := t\<rparr>"] st by (simp add: read_line_def [of "[]"])
qed

text \<open>What JSON printing writes holds no control byte.\<close>

lemma esc_char_plain: "byte c < 0x80 \<Longrightarrow> \<forall>d \<in> set (esc_char c). 32 \<le> byte d"
  by (auto simp: esc_char_def hex_digit_def)

lemma esc_string_plain: "\<forall>d \<in> set (esc_string s). 32 \<le> byte d"
proof (induction s rule: esc_string.induct)
  case (2 c cs)
  define w where "w = rune_width (c # cs)"
  have h: "\<forall>d \<in> set (c # take (w - 1) cs). 32 \<le> byte d" if "w \<noteq> 0" "w \<noteq> 1"
  proof -
    have "is_rune (c # take (w - 1) cs)" using rune_width_take [of c cs w] that(1) by (simp add: w_def)
    moreover have "length (c # take (w - 1) cs) \<noteq> 1"
      using rune_width_le [of "c # cs"] that by (auto simp: w_def)
    ultimately have "list_all (\<lambda>d. 0x80 \<le> byte d) (c # take (w - 1) cs)" by (rule rune_high)
    then show ?thesis by (auto simp: list_all_iff)
  qed
  consider "w = 0" | "w = 1" | "w \<noteq> 0" "w \<noteq> 1" by blast
  then show ?case
  proof cases
    case 1
    then show ?thesis using 2(1) by (auto simp: w_def)
  next
    case w: 2
    then have "byte c < 0x80" using rune_width_1 [of c cs] by (simp add: w_def)
    then show ?thesis using 2(2) w esc_char_plain [of c] by (auto simp: w_def)
  next
    case 3
    then show ?thesis using 2(2) h by (auto simp: w_def Let_def)
  qed
qed simp



lemma digits_plain: "\<forall>d \<in> set (takeWhile is_digit s). 32 \<le> byte d"
  using set_takeWhileD [of _ is_digit s] by (fastforce simp: is_digit_def)

lemma valid_number_plain: "valid_number t \<Longrightarrow> \<forall>d \<in> set t. 32 \<le> byte d"
proof -
  assume "valid_number t"
  then obtain a b c d s1 s2 s3 where p: "sign_part t = Some (a, s1)" "int_part s1 = Some (b, s2)"
    "frac_part s2 = Some (c, s3)" "exp_part s3 = Some (d, [])" "t = a @ b @ c @ d"
    by (auto simp: valid_number_def read_number_def split: option.splits prod.splits)
  have "\<forall>x \<in> set a. 32 \<le> byte x" using p(1) by (auto simp: sign_part_def split: list.splits if_splits)
  moreover have "\<forall>x \<in> set b. 32 \<le> byte x"
    using p(2) digits_plain by (auto simp: int_part_def is_digit_def split: list.splits if_splits)
  moreover have "\<forall>x \<in> set c. 32 \<le> byte x"
    using p(3) digits_plain by (auto simp: frac_part_def split: list.splits if_splits)
  moreover have "\<forall>x \<in> set d. 32 \<le> byte x"
    using p(4) digits_plain by (auto simp: exp_part_def is_digit_def split: list.splits if_splits)
  ultimately show ?thesis unfolding p(5) by auto
qed

lemma join_set: "set (join xs sep) \<subseteq> set (concat xs) \<union> set sep"
  by (induction xs sep rule: join.induct) auto

lemma json_text_plain:
  "wf_json j \<Longrightarrow> \<forall>d \<in> set (json_text j). 32 \<le> byte d"
  "wf_fields kvs \<Longrightarrow> \<forall>d \<in> set (concat (fields_text kvs)). 32 \<le> byte d"
  "wf_list js \<Longrightarrow> \<forall>d \<in> set (concat (list_text js)). 32 \<le> byte d"
proof (induction j and kvs and js rule: json_text_fields_text_list_text.induct)
  case (4 s)
  show ?case using esc_string_plain [of s] by auto
next
  case (5 js)
  then show ?case using join_set [of "list_text js" "'',''"] by fastforce
next
  case (6 kvs)
  then show ?case using join_set [of "fields_text kvs" "'',''"] by fastforce
next
  case (10 kv kvs)
  then show ?case using esc_string_plain [of "fst kv"] by auto
qed (auto simp: valid_number_plain)

lemma json_text_no_D: "wf_json j \<Longrightarrow> hd (json_text j) \<noteq> CHR ''D''"
  using valid_number_hd [of "json_text j"] by (cases j) (auto simp: is_digit_def)

lemma json_text_no_marker: "wf_json j \<Longrightarrow> json_text j \<noteq> ''[DONE]''"
proof
  assume wf: "wf_json j" and t: "json_text j = ''[DONE]''"
  have "\<not> is_digit (CHR ''['')" by (simp add: is_digit_def)
  with wf t obtain js where j: "j = JArr js" using valid_number_hd [of "json_text j"] by (cases j) (auto split: if_splits)
  with t obtain x xs where js: "js = x # xs" by (cases js) auto
  have "hd (json_text x) \<noteq> CHR ''D''" "json_text x \<noteq> []" using json_text_no_D json_text_hd wf j js by auto
  with t show False by (cases "json_text x") (auto simp: j js join_Cons split: if_splits)
qed

lemma json_text_line:
  assumes "wf_json j" "int (length (json_text j)) + 7 < max_line"
  shows "plain_line (json_text j)" "json_text j \<noteq> ''[DONE]''" "event_json (json_text j) =
    (case any_of j of None \<Rightarrow> Inl (Wrap ''decode SSE event JSON'' JSONError) | Some v \<Rightarrow> Inr v)"
proof -
  have "\<forall>d \<in> set (json_text j). d \<noteq> CHR 10 \<and> d \<noteq> CHR 13"
  proof
    fix d assume "d \<in> set (json_text j)"
    then have "32 \<le> byte d" using json_text_plain(1) [OF assms(1)] by blast
    then show "d \<noteq> CHR 10 \<and> d \<noteq> CHR 13" by auto
  qed
  then have "CHR 10 \<notin> set (json_text j)" "json_text j = [] \<or> last (json_text j) \<noteq> CHR 13"
    by (blast, metis last_in_set)
  then show "plain_line (json_text j)" using assms(2) by (simp add: plain_line_def)
  have r: "read_json (json_text j) = Some j" using read_json_text [OF assms(1)] .
  show d: "json_text j \<noteq> ''[DONE]''" using json_text_no_marker [OF assms(1)] .
  show "event_json (json_text j) =
    (case any_of j of None \<Rightarrow> Inl (Wrap ''decode SSE event JSON'' JSONError) | Some v \<Rightarrow> Inr v)"
    unfolding event_json_def r if_not_P [OF d] by simp
qed

section \<open>A bound on the length of a printed document\<close>

lemma esc_string_length: "length (esc_string s) \<le> 6 * length s"
proof (induction s rule: esc_string.induct)
  case (2 c cs)
  define w where "w = rune_width (c # cs)"
  have w: "w \<le> Suc (length cs)" using rune_width_le [of "c # cs"] by (simp add: w_def)
  show ?case
  proof (cases "w = 0")
    case True
    then show ?thesis using 2(1) by (simp add: w_def)
  next
    case False
    let ?h = "if w = 1 then esc_char c else if map byte (c # take (w - 1) cs) = [0xE2, 0x80, 0xA8] then [CHR 92] @ ''u2028''
      else if map byte (c # take (w - 1) cs) = [0xE2, 0x80, 0xA9] then [CHR 92] @ ''u2029'' else c # take (w - 1) cs"
    have "length (esc_string (drop (w - 1) cs)) \<le> 6 * (length cs - (w - 1))" using 2(2) False by (simp add: w_def)
    moreover have "length ?h \<le> 6 * w" using w False by (auto simp: esc_char_def)
    ultimately have "length ?h + length (esc_string (drop (w - 1) cs)) \<le> 6 * length (c # cs)" using w False by simp
    then show ?thesis using False unfolding esc_string.simps Let_def w_def [symmetric] by (simp only: if_False length_append)
  qed
qed simp

fun json_bound :: "json \<Rightarrow> nat" and list_bound :: "json list \<Rightarrow> nat" and fields_bound :: "(string \<times> json) list \<Rightarrow> nat" where
  "json_bound JNull = 4"
| "json_bound (JBool b) = 5"
| "json_bound (JNum t) = length t"
| "json_bound (JStr s) = 6 * length s + 2"
| "json_bound (JArr js) = list_bound js + 2"
| "json_bound (JObj kvs) = fields_bound kvs + 2"
| "list_bound [] = 0"
| "list_bound (j # js) = json_bound j + 1 + list_bound js"
| "fields_bound [] = 0"
| "fields_bound (kv # kvs) = 6 * length (fst kv) + json_bound (snd kv) + 4 + fields_bound kvs"

lemma json_text_bound:
  "length (json_text j) \<le> json_bound j"
  "length (join (fields_text kvs) '','') \<le> fields_bound kvs"
  "length (join (list_text js) '','') \<le> list_bound js"
proof (induction j and kvs and js rule: json_text_fields_text_list_text.induct)
  case (4 s)
  show ?case using esc_string_length [of s] by simp
next
  case (10 kv kvs)
  then show ?case using esc_string_length [of "fst kv"] by (simp add: join_Cons)
qed (simp_all add: join_Cons)

section \<open>Streams\<close>

text \<open>The bytes of a stream: events one after the other, then the end marker.\<close>

definition sse_body :: "(string \<times> json) list \<Rightarrow> string" where
  "sse_body events = concat (map (\<lambda>(t, j). sse_write t (json_text j)) events) @ sse_done"

definition writable :: "string \<times> json \<Rightarrow> bool" where
  "writable e \<longleftrightarrow> (case e of (t, j) \<Rightarrow> t \<noteq> [] \<and> plain_line t \<and> wf_json j \<and> int (length (json_text j)) + 7 < max_line \<and> any_of j \<noteq> None)"

definition read_event :: "string \<times> json \<Rightarrow> sse_event" where
  "read_event e = (case e of (t, j) \<Rightarrow>
     \<lparr>ev_event = t, ev_id = [], ev_retry = None, ev_data = json_text j, ev_json = the (any_of j)\<rparr>)"

definition end_marker :: sse_event where
  "end_marker = \<lparr>ev_event = [], ev_id = [], ev_retry = None, ev_data = ''[DONE]'', ev_json = JNull\<rparr>"

lemma read_stream:
  assumes "\<forall>e \<in> set events. writable e" "rd_name st = []" "rd_ident st = []" "rd_retry st = None" "rd_lines st = []"
  shows "read_lines (scan_lines (concat (map (\<lambda>(t, j). sse_write t (json_text j)) events) @ rest)) st =
    read_lines (scan_lines rest) (st\<lparr>rd_events := rd_events st @ map read_event events\<rparr>)"
  using assms
proof (induction events arbitrary: st)
  case (Cons e events)
  obtain t j where e: "e = (t, j)" by fastforce
  then obtain v where w: "t \<noteq> []" "plain_line t" "wf_json j" "int (length (json_text j)) + 7 < max_line" "any_of j = Some v"
    using Cons.prems(1) by (auto simp: writable_def)
  note b = json_text_line [OF w(3,4)]
  have nl: "CHR 10 \<notin> set t" "CHR 10 \<notin> set (json_text j)" using w(2) b(1) by (auto simp: plain_line_def)
  let ?st = "st\<lparr>rd_events := rd_events st @ [\<lparr>ev_event = t, ev_id = [], ev_retry = None, ev_data = json_text j, ev_json = v\<rparr>]\<rparr>"
  let ?more = "concat (map (\<lambda>(t, j). sse_write t (json_text j)) events) @ rest"
  have "read_lines (scan_lines (concat (map (\<lambda>(t, j). sse_write t (json_text j)) (e # events)) @ rest)) st =
      read_lines ((''event: '' @ t) # (''data: '' @ json_text j) # [] # scan_lines ?more) st"
    using scan_written [OF nl, of ?more] by (simp add: e)
  also have "\<dots> = read_lines (scan_lines ?more) ?st"
    using Cons.prems b w by (intro read_written) simp_all
  also have "\<dots> = read_lines (scan_lines rest) (?st\<lparr>rd_events := rd_events ?st @ map read_event events\<rparr>)"
    using Cons.prems by (intro Cons.IH) auto
  finally show ?case by (simp add: e read_event_def [of "(t, j)"] w(5))
qed simp

lemma stream_reads_back_core:
  assumes "\<forall>e \<in> set events. writable e"
  shows "ParseReader (sse_body events) =
    Inr \<lparr>es_count = length events + 1, es_done = True, es_events = map read_event events @ [end_marker]\<rparr>"
proof -
  let ?st = "empty_reader\<lparr>rd_events := map read_event events\<rparr>"
  have d: "scan_lines sse_done = [''data: [DONE]'', []]"
    using scan_line [of "''data: [DONE]''" newline] scan_line [of "[]" "[]"] by (simp add: sse_done_def newline_def)
  have "read_lines (scan_lines (sse_body events)) empty_reader = read_lines (scan_lines sse_done) ?st"
    unfolding sse_body_def using read_stream [OF assms, of empty_reader sse_done] by (simp add: empty_reader_def)
  also have "\<dots> = Inr (?st\<lparr>rd_done := True, rd_events := map read_event events @ [end_marker]\<rparr>)"
    unfolding d using field_line(2) [of "''[DONE]''"]
    by (simp add: max_line_def drop_cr_def read_line_def has_prefix_def flush_event_def empty_reader_def event_json_def end_marker_def)
  finally show ?thesis by (simp add: ParseReader_def flush_event_def empty_reader_def)
qed

text \<open>C22: what the writer of a stream writes, the reader of recorded streams reads back: the events in their
  order, each with its name, its text and its decoded document, then the end marker.\<close>

theorem stream_reads_back:
  assumes "\<forall>e \<in> set events. writable e"
  shows "ParseReader (sse_body events) =
    Inr \<lparr>es_count = length events + 1, es_done = True, es_events = map read_event events @ [end_marker]\<rparr>"
  using assms by (rule stream_reads_back_core)

definition sample_events :: "(string \<times> json) list" where
  "sample_events = [(''response.created'', JObj [(''type'', JStr ''response.created''), (''seq'', JNull)]),
     (''response.done'', JArr [JStr ''a'', JBool True])]"

theorem stream_reads_back_witness:
  "ParseReader (sse_body sample_events) =
    Inr \<lparr>es_count = 3, es_done = True, es_events = map read_event sample_events @ [end_marker]\<rparr>"
proof -
  have "\<forall>e \<in> set sample_events. writable e"
    by (simp add: sample_events_def writable_def plain_line_def max_line_def esc_char_def)
  from stream_reads_back [OF this] show ?thesis by (simp add: sample_events_def)
qed

end
