(* ===== verification/Response_Replay.thy ===== *)
theory Response_Replay
  imports Event_Stream Response_Service
begin

text \<open>
  Replaying a stored response as a stream of events (\<^verbatim>\<open>httpapi/response_retrieve.go\<close>,
  \<^verbatim>\<open>response_stream_replay.go\<close>, \<^verbatim>\<open>response_replay_local_coding_tools.go\<close> and the helpers at the end of
  \<^verbatim>\<open>response_stream_proxy.go\<close>). The functions that call \<^verbatim>\<open>visit\<close> on one event after the other are the lists
  of those events; \<open>visit_events\<close> is the visitor, which numbers them, skips those before the starting point and
  stops at the first error. An item whose bytes are the document \<^verbatim>\<open>null\<close>, which no constructor of items
  makes, would have a nil map in Go; here its map is empty.
\<close>

section \<open>Payloads\<close>

text \<open>The values of a payload, a \<^verbatim>\<open>map[string]any\<close>: decoded documents and responses. A response prints
  itself, which can fail.\<close>

datatype any_value = AnyJson json | AnyResponse response

type_synonym payload = "any_value gomap"

fun marshal_any :: "any_value \<Rightarrow> json res" where
  "marshal_any (AnyJson j) = Inr j"
| "marshal_any (AnyResponse r) = res_bind (Response_MarshalJSON r) marshal_raw"

definition marshal_payload :: "payload \<Rightarrow> json res" where
  "marshal_payload p =
     map_sum id JObj (map_res (\<lambda>(k, v). map_sum id (Pair k) (marshal_any v)) p)"

text \<open>A payload of documents.\<close>

definition doc_payload :: "(string \<times> json) list \<Rightarrow> payload" where
  "doc_payload kvs = gomap_of (map (\<lambda>(k, v). (k, AnyJson v)) kvs)"

abbreviation JNat :: "nat \<Rightarrow> json" where "JNat n \<equiv> JNum (nat_text n)"

record replay_event =
  re_type :: string
  re_payload :: payload

definition doc_event :: "string \<Rightarrow> (string \<times> json) list \<Rightarrow> replay_event" where
  "doc_event ty kvs = \<lparr>re_type = ty, re_payload = doc_payload ((''type'', JStr ty) # kvs)\<rparr>"

definition response_event :: "string \<Rightarrow> response \<Rightarrow> replay_event" where
  "response_event ty r =
     \<lparr>re_type = ty, re_payload = gomap_of [(''type'', AnyJson (JStr ty)), (''response'', AnyResponse r)]\<rparr>"

text \<open>The map or the list under a key, empty when the value is of another kind.\<close>

definition map_entry :: "json gomap \<Rightarrow> string \<Rightarrow> json gomap" where
  "map_entry m k = (case map_of m k of Some (JObj kvs) \<Rightarrow> kvs | _ \<Rightarrow> [])"

definition list_entry :: "json gomap \<Rightarrow> string \<Rightarrow> json list" where
  "list_entry m k = (case map_of m k of Some (JArr js) \<Rightarrow> js | _ \<Rightarrow> [])"

text \<open>The filler of a delta: one letter for each rune.\<close>

definition obfuscation :: "bool \<Rightarrow> string \<Rightarrow> (string \<times> json) list" where
  "obfuscation includeObfuscation t =
     (if includeObfuscation then [(''obfuscation'', JStr (replicate (rune_count t) (CHR ''x'')))] else [])"

section \<open>Kinds of output items\<close>

abbreviation localBuiltinShellCallType :: string where "localBuiltinShellCallType \<equiv> ''shell_call''"
abbreviation localBuiltinApplyPatchCallType :: string where "localBuiltinApplyPatchCallType \<equiv> ''apply_patch_call''"

definition isSyntheticReplayOutputItemType :: "string \<Rightarrow> bool" where
  "isSyntheticReplayOutputItemType itemType \<longleftrightarrow> trim_space itemType \<in> set
     [''function_call'', ''custom_tool_call'', ''mcp_call'', ''mcp_tool_call'', localBuiltinShellCallType,
      localBuiltinApplyPatchCallType, ''mcp_approval_request'', ''mcp_list_tools'', ''tool_search_call'',
      ''tool_search_output'', ''web_search_call'', ''file_search_call'', ''code_interpreter_call'', ''computer_call'',
      ''image_generation_call'']"

definition syntheticReplayAddedItemNeedsInProgressStatus :: "string \<Rightarrow> json gomap \<Rightarrow> bool" where
  "syntheticReplayAddedItemNeedsInProgressStatus itemType item \<longleftrightarrow>
     (if trim_space itemType = ''mcp_approval_request'' \<or> trim_space itemType = ''mcp_list_tools''
      then trim_space (str_entry item ''status'') \<noteq> [] else True)"

definition isToolStreamItemType :: "string \<Rightarrow> bool" where
  "isToolStreamItemType itemType \<longleftrightarrow>
     trim_space itemType \<in> set [''function_call'', ''custom_tool_call'', ''mcp_call'', ''mcp_tool_call'']"

definition isLocalCodingToolStreamItemType :: "string \<Rightarrow> bool" where
  "isLocalCodingToolStreamItemType itemType \<longleftrightarrow>
     trim_space itemType \<in> set [localBuiltinShellCallType, localBuiltinApplyPatchCallType]"

definition isMCPToolStreamItemType :: "string \<Rightarrow> bool" where
  "isMCPToolStreamItemType itemType \<longleftrightarrow> trim_space itemType \<in> set [''mcp_call'', ''mcp_tool_call'']"

definition toolStreamEventShape :: "string \<Rightarrow> string \<times> string \<times> string" where
  "toolStreamEventShape itemType =
     (let ty = trim_space itemType in
      if ty = ''custom_tool_call'' then
        (''response.custom_tool_call_input.delta'', ''response.custom_tool_call_input.done'', ''input'')
      else if ty = ''mcp_call'' \<or> ty = ''mcp_tool_call'' then
        (''response.mcp_call_arguments.delta'', ''response.mcp_call_arguments.done'', ''arguments'')
      else (''response.function_call_arguments.delta'', ''response.function_call_arguments.done'', ''arguments''))"

definition toolStreamProgressEventType :: "string \<Rightarrow> string" where
  "toolStreamProgressEventType itemType =
     (if isMCPToolStreamItemType itemType then ''response.mcp_call.in_progress'' else [])"

definition toolStreamFailureEventType :: "string \<Rightarrow> string" where
  "toolStreamFailureEventType itemType =
     (if isMCPToolStreamItemType itemType then ''response.mcp_call.failed'' else [])"

definition isFailedToolStreamItem :: "json gomap \<Rightarrow> bool" where
  "isFailedToolStreamItem item \<longleftrightarrow>
     (if equal_fold (trim_space (str_entry item ''status'')) ''failed'' then True
      else case map_of item ''error'' of
        None \<Rightarrow> False
      | Some JNull \<Rightarrow> False
      | Some (JObj errMap) \<Rightarrow> errMap \<noteq> []
      | Some _ \<Rightarrow> True)"

fun emptyHostedSlicePlaceholder :: "json \<Rightarrow> json" where
  "emptyHostedSlicePlaceholder (JArr js) = JArr []"
| "emptyHostedSlicePlaceholder v = v"

text \<open>The identifier of a finished tool item, and the item with it.\<close>

definition ensureCompletedToolItemID :: "json gomap \<Rightarrow> string \<Rightarrow> nat \<Rightarrow> string \<times> json gomap" where
  "ensureCompletedToolItemID item responseID outputIndex =
     (let itemID = trim_space (str_entry item ''id'') in
      if itemID \<noteq> [] then (itemID, item)
      else
        let callID = trim_space (str_entry item ''call_id'') in
        if callID \<noteq> [] then (callID, gomap_set ''id'' (JStr callID) item)
        else
          let suffix = trim_prefix (trim_space responseID) ''resp_'';
              made = ''item_'' @ (if suffix = [] then ''stream_proxy'' else suffix) @ ''_'' @ nat_text outputIndex
          in (made, gomap_set ''id'' (JStr made) item))"

definition set_if_present :: "string \<Rightarrow> (json \<Rightarrow> json) \<Rightarrow> json gomap \<Rightarrow> json gomap" where
  "set_if_present k f m = (case map_of m k of None \<Rightarrow> m | Some v \<Rightarrow> gomap_set k (f v) m)"

text \<open>What an item shows before it is done, one branch for each kind.\<close>

definition inProgressFields :: "string \<Rightarrow> json gomap \<Rightarrow> json gomap" where
  "inProgressFields ty item =
     (if ty \<in> set [''function_call'', ''mcp_call'', ''mcp_tool_call''] then gomap_set ''arguments'' (JStr []) item
      else if ty = ''custom_tool_call'' then gomap_set ''input'' (JStr []) item
      else if ty = localBuiltinShellCallType then
        gomap_set ''action'' (JObj (gomap_set ''timeout_ms'' JNull (gomap_set ''max_output_length'' JNull
          (gomap_set ''commands'' (JArr []) (map_entry item ''action''))))) item
      else if ty = localBuiltinApplyPatchCallType then
        gomap_set ''operation'' (JObj (gomap_set ''diff'' (JStr []) (map_entry item ''operation''))) item
      else if ty = ''web_search_call'' then gomap_del ''action'' item
      else if ty = ''file_search_call'' then
        gomap_del ''search_results'' (gomap_del ''results'' (set_if_present ''queries'' (\<lambda>_. JArr []) item))
      else if ty = ''code_interpreter_call'' then
        gomap_del ''output'' (set_if_present ''outputs'' emptyHostedSlicePlaceholder
          (set_if_present ''code'' (\<lambda>_. JStr []) item))
      else if ty = ''computer_call'' then gomap_del ''actions'' item
      else if ty = ''image_generation_call'' then
        fold gomap_del [''background'', ''output_format'', ''quality'', ''size'', ''result'', ''revised_prompt'', ''action''] item
      else item)"

definition inProgressOutputItemSnapshot :: "json gomap \<Rightarrow> json gomap" where
  "inProgressOutputItemSnapshot item =
     (let cloned = inProgressFields (trim_space (str_entry item ''type'')) item;
          ty = trim_space (str_entry cloned ''type'');
          c1 = (if isMCPToolStreamItemType ty then gomap_del ''output'' cloned else cloned);
          c2 = gomap_del ''error'' c1
      in if syntheticReplayAddedItemNeedsInProgressStatus (trim_space (str_entry c2 ''type'')) item
         then gomap_set ''status'' (JStr ''in_progress'') c2 else c2)"

section \<open>Tools\<close>

definition hostedToolReplayEventTypes :: "string \<Rightarrow> json gomap \<Rightarrow> string list" where
  "hostedToolReplayEventTypes itemType item =
     (let ty = trim_space itemType in
      if isFailedToolStreamItem item then []
      else if ty = ''web_search_call'' then
        [''response.web_search_call.in_progress'', ''response.web_search_call.searching'', ''response.web_search_call.completed'']
      else if ty = ''file_search_call'' then
        [''response.file_search_call.in_progress'', ''response.file_search_call.searching'', ''response.file_search_call.completed'']
      else if ty = ''image_generation_call'' then
        [''response.image_generation_call.in_progress'', ''response.image_generation_call.generating'']
      else [])"

definition hostedToolReplayEvent :: "string \<Rightarrow> nat \<Rightarrow> string \<Rightarrow> replay_event" where
  "hostedToolReplayEvent itemID outputIndex eventType =
     doc_event eventType [(''item_id'', JStr itemID), (''output_index'', JNat outputIndex)]"

definition forEachCodeInterpreterReplayEvent :: "json gomap \<Rightarrow> string \<Rightarrow> nat \<Rightarrow> bool \<Rightarrow> replay_event list" where
  "forEachCodeInterpreterReplayEvent item itemID outputIndex includeObfuscation =
     (if trim_space (str_entry item ''type'') \<noteq> ''code_interpreter_call'' \<or> isFailedToolStreamItem item then []
      else
        [hostedToolReplayEvent itemID outputIndex ''response.code_interpreter_call.in_progress''] @
        (if map_of item ''code'' = None then []
         else
           let code = str_entry item ''code'' in
           (if code = [] then []
            else [doc_event ''response.code_interpreter_call_code.delta''
              ([(''item_id'', JStr itemID), (''output_index'', JNat outputIndex), (''delta'', JStr code)] @
               obfuscation includeObfuscation code)]) @
           [doc_event ''response.code_interpreter_call_code.done''
              [(''item_id'', JStr itemID), (''output_index'', JNat outputIndex), (''code'', JStr code)]]) @
        [hostedToolReplayEvent itemID outputIndex ''response.code_interpreter_call.interpreting'',
         hostedToolReplayEvent itemID outputIndex ''response.code_interpreter_call.completed''])"

text \<open>Which kinds of tool events a replay has.\<close>

record replay_profile =
  rpf_class :: string
  rpf_capabilities :: "string list"
  rpf_shell :: bool
  rpf_apply_patch :: bool

definition completedResponseReplayProfile :: replay_profile where
  "completedResponseReplayProfile = \<lparr>rpf_class = ''create_stream_completed_response'',
     rpf_capabilities = [''typed_text'', ''typed_function_call'', ''typed_tool_family'', ''generic_replay''],
     rpf_shell = True, rpf_apply_patch = True\<rparr>"

definition retrieveResponseReplayProfile :: replay_profile where
  "retrieveResponseReplayProfile = \<lparr>rpf_class = ''retrieve_stream_synthetic_replay'',
     rpf_capabilities = [''typed_text'', ''typed_tool_family'', ''generic_replay''],
     rpf_shell = False, rpf_apply_patch = True\<rparr>"

fun as_string :: "json \<Rightarrow> string" where
  "as_string (JStr s) = s"
| "as_string _ = []"

definition shellCommandEvents :: "nat \<Rightarrow> bool \<Rightarrow> nat \<times> json \<Rightarrow> replay_event list" where
  "shellCommandEvents outputIndex includeObfuscation ic =
     (case ic of (commandIndex, rawCommand) \<Rightarrow>
        let command = trim_space (as_string rawCommand) in
        [doc_event ''response.shell_call_command.added''
           [(''command'', JStr []), (''command_index'', JNat commandIndex), (''output_index'', JNat outputIndex)]] @
        (if command = [] then []
         else [doc_event ''response.shell_call_command.delta''
           ([(''command_index'', JNat commandIndex), (''delta'', JStr command), (''output_index'', JNat outputIndex)] @
            obfuscation includeObfuscation command)]) @
        [doc_event ''response.shell_call_command.done''
           [(''command'', JStr command), (''command_index'', JNat commandIndex), (''output_index'', JNat outputIndex)]])"

definition forEachLocalCodingToolReplayEvent ::
  "json gomap \<Rightarrow> string \<Rightarrow> nat \<Rightarrow> bool \<Rightarrow> replay_profile \<Rightarrow> replay_event list" where
  "forEachLocalCodingToolReplayEvent item itemID outputIndex includeObfuscation profile =
     (let ty = trim_space (str_entry item ''type'') in
      if ty = localBuiltinShellCallType then
        (if \<not> rpf_shell profile then []
         else concat (map (shellCommandEvents outputIndex includeObfuscation)
           (List.enumerate 0 (list_entry (map_entry item ''action'') ''commands''))))
      else if ty = localBuiltinApplyPatchCallType then
        (if \<not> rpf_apply_patch profile then []
         else
           let diff = str_entry (map_entry item ''operation'') ''diff'' in
           (if diff = [] then []
            else [doc_event ''response.apply_patch_call_operation_diff.delta''
              ([(''item_id'', JStr itemID), (''output_index'', JNat outputIndex), (''delta'', JStr diff)] @
               obfuscation includeObfuscation diff)]) @
           [doc_event ''response.apply_patch_call_operation_diff.done''
              [(''item_id'', JStr itemID), (''output_index'', JNat outputIndex), (''diff'', JStr diff)]])
      else [])"

section \<open>The events of one output item\<close>

definition replayItemPayload :: "item \<Rightarrow> json gomap" where
  "replayItemPayload item =
     (let payload = Item_Map item; itemID = trim_space (Item_ID item)
      in if itemID \<noteq> [] then gomap_set ''id'' (JStr itemID) payload else payload)"

fun object_parts :: "json list \<Rightarrow> json gomap list" where
  "object_parts [] = []"
| "object_parts (JObj kvs # js) = kvs # object_parts js"
| "object_parts (_ # js) = object_parts js"

definition responseReplayItemParts :: "item \<Rightarrow> json gomap list" where
  "responseReplayItemParts item = object_parts (list_entry (Item_Map item) ''content'')"

definition responseReplayPartAnnotations :: "json gomap \<Rightarrow> json list" where
  "responseReplayPartAnnotations part = filter (\<lambda>a. a \<noteq> JNull) (list_entry part ''annotations'')"

definition forEachResponseReplayTextAnnotationEvent :: "string \<Rightarrow> nat \<Rightarrow> nat \<Rightarrow> json list \<Rightarrow> replay_event list" where
  "forEachResponseReplayTextAnnotationEvent itemID outputIndex contentIndex annotations =
     map (\<lambda>(annotationIndex, annotation). doc_event ''response.output_text.annotation.added''
       [(''item_id'', JStr itemID), (''output_index'', JNat outputIndex), (''content_index'', JNat contentIndex),
        (''annotation_index'', JNat annotationIndex), (''annotation'', annotation)])
     (List.enumerate 0 annotations)"

definition responseReplayTextDeltaEvent :: "string \<Rightarrow> string \<Rightarrow> nat \<Rightarrow> nat \<Rightarrow> string \<Rightarrow> bool \<Rightarrow> replay_event" where
  "responseReplayTextDeltaEvent responseID itemID outputIndex contentIndex t includeObfuscation =
     doc_event ''response.output_text.delta''
       ([(''response_id'', JStr responseID), (''item_id'', JStr itemID), (''output_index'', JNat outputIndex),
         (''content_index'', JNat contentIndex), (''delta'', JStr t)] @ obfuscation includeObfuscation t)"

definition responseReplayToolDeltaEvent :: "string \<Rightarrow> string \<Rightarrow> string \<Rightarrow> nat \<Rightarrow> string \<Rightarrow> bool \<Rightarrow> replay_event" where
  "responseReplayToolDeltaEvent eventType responseID itemID outputIndex v includeObfuscation =
     doc_event eventType
       ([(''response_id'', JStr responseID), (''item_id'', JStr itemID), (''output_index'', JNat outputIndex),
         (''delta'', JStr v)] @ obfuscation includeObfuscation v)"

definition responseReplayReasoningDeltaEvent :: "string \<Rightarrow> nat \<Rightarrow> nat \<Rightarrow> string \<Rightarrow> replay_event" where
  "responseReplayReasoningDeltaEvent itemID outputIndex contentIndex t =
     doc_event ''response.reasoning_text.delta''
       [(''item_id'', JStr itemID), (''output_index'', JNat outputIndex), (''content_index'', JNat contentIndex),
        (''delta'', JStr t)]"

text \<open>The events of the parts of a message.\<close>

definition contentPartEvent :: "string \<Rightarrow> string \<Rightarrow> nat \<Rightarrow> nat \<Rightarrow> json gomap \<Rightarrow> replay_event" where
  "contentPartEvent eventType itemID outputIndex contentIndex part =
     doc_event eventType [(''item_id'', JStr itemID), (''output_index'', JNat outputIndex),
       (''content_index'', JNat contentIndex), (''part'', JObj part)]"

definition messagePartEvents :: "string \<Rightarrow> string \<Rightarrow> nat \<Rightarrow> bool \<Rightarrow> nat \<times> json gomap \<Rightarrow> replay_event list" where
  "messagePartEvents responseID itemID outputIndex includeObfuscation ip =
     (case ip of (contentIndex, part) \<Rightarrow>
        if trim_space (str_entry part ''type'') = ''output_text'' then
          let t = str_entry part ''text'' in
          [contentPartEvent ''response.content_part.added'' itemID outputIndex contentIndex
             (gomap_set ''annotations'' (JArr []) (gomap_set ''text'' (JStr []) part))] @
          (if t = [] then []
           else [responseReplayTextDeltaEvent responseID itemID outputIndex contentIndex t includeObfuscation]) @
          forEachResponseReplayTextAnnotationEvent itemID outputIndex contentIndex (responseReplayPartAnnotations part) @
          [doc_event ''response.output_text.done''
             [(''response_id'', JStr responseID), (''item_id'', JStr itemID), (''output_index'', JNat outputIndex),
              (''content_index'', JNat contentIndex), (''text'', JStr t)],
           contentPartEvent ''response.content_part.done'' itemID outputIndex contentIndex part]
        else
          [contentPartEvent ''response.content_part.added'' itemID outputIndex contentIndex part,
           contentPartEvent ''response.content_part.done'' itemID outputIndex contentIndex part])"

definition reasoningPartEvents :: "string \<Rightarrow> nat \<Rightarrow> nat \<times> json gomap \<Rightarrow> replay_event list" where
  "reasoningPartEvents itemID outputIndex ip =
     (case ip of (contentIndex, part) \<Rightarrow>
        let t = str_entry part ''text'' in
        if trim_space (str_entry part ''type'') \<noteq> ''reasoning_text'' \<or> t = [] then []
        else
          [responseReplayReasoningDeltaEvent itemID outputIndex contentIndex t,
           doc_event ''response.reasoning_text.done''
             [(''item_id'', JStr itemID), (''output_index'', JNat outputIndex), (''content_index'', JNat contentIndex),
              (''text'', JStr t)]])"

text \<open>The events of a call: its argument, then for MCP its progress and its failure.\<close>

definition toolCallEvents :: "string \<Rightarrow> string \<Rightarrow> string \<Rightarrow> nat \<Rightarrow> bool \<Rightarrow> item \<Rightarrow> replay_event list" where
  "toolCallEvents itemType responseID itemID outputIndex includeObfuscation item =
     (case toolStreamEventShape itemType of (deltaEvent, doneEvent, valueKey) \<Rightarrow>
        let progressEvent = toolStreamProgressEventType itemType;
            failedEvent = toolStreamFailureEventType itemType;
            doneItem = snd (ensureCompletedToolItemID (replayItemPayload item) responseID outputIndex);
            v = trim_space (str_entry doneItem valueKey);
            place = [(''response_id'', JStr responseID), (''item_id'', JStr itemID), (''output_index'', JNat outputIndex)]
        in (if v = [] then []
            else [responseReplayToolDeltaEvent deltaEvent responseID itemID outputIndex v includeObfuscation]) @
           [doc_event doneEvent (place @ [(''item'', JObj doneItem)] @ (if v = [] then [] else [(valueKey, JStr v)]))] @
           (if progressEvent = [] then [] else [doc_event progressEvent place]) @
           (if failedEvent \<noteq> [] \<and> isFailedToolStreamItem doneItem
            then [doc_event failedEvent (place @ (case map_of doneItem ''error'' of
                     None \<Rightarrow> [] | Some JNull \<Rightarrow> [] | Some err \<Rightarrow> [(''error'', err)]))]
            else []))"

subsection \<open>Recorded events\<close>

text \<open>\<^verbatim>\<open>int(f)\<close> of the double a number stands for: it is cut towards zero; a value that is no 64-bit integer
  becomes the least one.\<close>

definition f64_int :: "string \<Rightarrow> int" where
  "f64_int t =
     (case num_parts t of (neg, mant, e10) \<Rightarrow>
      case dec_ratio mant e10 of (a, b) \<Rightarrow>
      case round_f64 a b of
        None \<Rightarrow> - (2 ^ 63)
      | Some (m, e) \<Rightarrow>
          let n = (if e \<ge> 0 then m * 2 ^ nat e else m div 2 ^ nat (- e));
              v = (if neg then - n else n)
          in if - (2 ^ 63) \<le> v \<and> v < 2 ^ 63 then v else - (2 ^ 63))"

fun intAttr :: "json option \<Rightarrow> int option" where
  "intAttr (Some (JNum t)) = Some (f64_int t)"
| "intAttr _ = None"

definition raw_of_text :: "string \<Rightarrow> raw" where
  "raw_of_text s = (case read_json s of None \<Rightarrow> RawBad s | Some j \<Rightarrow> RawJson j)"

definition artifactEvent :: "nat \<Rightarrow> string \<Rightarrow> replay_artifact \<Rightarrow> replay_event list" where
  "artifactEvent outputIndex itemID artifact =
     (let ty = trim_space (ra_event artifact) in
      if ty = [] \<or> trim_space (ra_payload artifact) = [] then []
      else case unmarshal_any_map (raw_of_text (ra_payload artifact)) of
        None \<Rightarrow> []
      | Some payload \<Rightarrow>
          if trim_space (str_entry payload ''item_id'') \<noteq> itemID then []
          else if intAttr (map_of payload ''output_index'') \<noteq> Some (int outputIndex) then []
          else [\<lparr>re_type = ty, re_payload =
                  gomap_set ''type'' (AnyJson (JStr ty)) (map (\<lambda>(k, v). (k, AnyJson v)) payload)\<rparr>])"

definition forEachResponseReplayArtifactEventForItem ::
  "nat \<Rightarrow> string \<Rightarrow> replay_artifact list \<Rightarrow> replay_event list" where
  "forEachResponseReplayArtifactEventForItem outputIndex itemID artifacts =
     (if trim_space itemID = [] then [] else concat (map (artifactEvent outputIndex itemID) artifacts))"

subsection \<open>From added to done\<close>

definition addedItemPayload :: "string \<Rightarrow> nat \<Rightarrow> item \<Rightarrow> json gomap" where
  "addedItemPayload responseID outputIndex item =
     (let itemType = trim_space (iType item);
          payload = replayItemPayload item;
          added =
            (if itemType = ''message'' then gomap_set ''content'' (JArr []) payload
             else if isSyntheticReplayOutputItemType itemType then
               inProgressOutputItemSnapshot
                 (if isToolStreamItemType itemType then snd (ensureCompletedToolItemID payload responseID outputIndex) else payload)
             else payload)
      in if itemType = ''message'' \<or> (\<not> isSyntheticReplayOutputItemType itemType \<and> trim_space (Item_Status item) \<noteq> [])
         then gomap_set ''status'' (JStr ''in_progress'') added else added)"

definition outputItemEvent :: "string \<Rightarrow> nat \<Rightarrow> json gomap \<Rightarrow> replay_event" where
  "outputItemEvent eventType outputIndex payload =
     doc_event eventType [(''output_index'', JNat outputIndex), (''item'', JObj payload)]"

text \<open>The identifier the events of an item name.\<close>

definition replayItemID :: "string \<Rightarrow> nat \<Rightarrow> item \<Rightarrow> string" where
  "replayItemID responseID outputIndex item =
     (let added = addedItemPayload responseID outputIndex item in
      if isLocalCodingToolStreamItemType (trim_space (iType item))
      then fst (ensureCompletedToolItemID added responseID outputIndex)
      else trim_space (str_entry added ''id''))"

definition doneItemPayload :: "string \<Rightarrow> nat \<Rightarrow> item \<Rightarrow> json gomap" where
  "doneItemPayload responseID outputIndex item =
     (let itemType = trim_space (iType item); payload = replayItemPayload item in
      if isToolStreamItemType itemType \<or> isLocalCodingToolStreamItemType itemType
      then snd (ensureCompletedToolItemID payload responseID outputIndex) else payload)"

text \<open>What happens to an item between the two.\<close>

definition itemBodyEvents ::
  "string \<Rightarrow> nat \<Rightarrow> item \<Rightarrow> bool \<Rightarrow> replay_profile \<Rightarrow> replay_event list" where
  "itemBodyEvents responseID outputIndex item includeObfuscation profile =
     (let itemType = trim_space (iType item); itemID = replayItemID responseID outputIndex item in
      (if itemType = ''message'' then
         concat (map (messagePartEvents responseID (trim_space (Item_ID item)) outputIndex includeObfuscation)
           (List.enumerate 0 (responseReplayItemParts item)))
       else if itemType = ''reasoning'' then
         concat (map (reasoningPartEvents (trim_space (Item_ID item)) outputIndex)
           (List.enumerate 0 (responseReplayItemParts item)))
       else if itemType \<in> set [''function_call'', ''custom_tool_call'', ''mcp_call'', ''mcp_tool_call''] then
         toolCallEvents itemType responseID itemID outputIndex includeObfuscation item
       else []) @
      forEachLocalCodingToolReplayEvent (replayItemPayload item) itemID outputIndex includeObfuscation profile @
      forEachCodeInterpreterReplayEvent (replayItemPayload item) itemID outputIndex includeObfuscation @
      map (hostedToolReplayEvent itemID outputIndex) (hostedToolReplayEventTypes itemType (replayItemPayload item)))"

definition forEachResponseReplayOutputItemEvent ::
  "string \<Rightarrow> nat \<Rightarrow> item \<Rightarrow> replay_artifact list \<Rightarrow> bool \<Rightarrow> replay_profile \<Rightarrow> replay_event list" where
  "forEachResponseReplayOutputItemEvent responseID outputIndex item artifacts includeObfuscation profile =
     [outputItemEvent ''response.output_item.added'' outputIndex (addedItemPayload responseID outputIndex item)] @
     itemBodyEvents responseID outputIndex item includeObfuscation profile @
     forEachResponseReplayArtifactEventForItem outputIndex (replayItemID responseID outputIndex item) artifacts @
     [outputItemEvent ''response.output_item.done'' outputIndex (doneItemPayload responseID outputIndex item)]"

section \<open>The events of a response\<close>

definition responseReplaySnapshot :: "response \<Rightarrow> string \<Rightarrow> bool \<Rightarrow> response" where
  "responseReplaySnapshot response status completed =
     (let snapshot = response\<lparr>rp_status := status\<rparr> in
      if completed then snapshot
      else snapshot\<lparr>rp_completed_at := None, rp_error := RawEmpty, rp_incomplete_details := RawEmpty,
             rp_output := [], rp_output_text := []\<rparr>)"

definition responseReplayOutputItems :: "response \<Rightarrow> item list" where
  "responseReplayOutputItems response =
     (if rp_output response \<noteq> [] then rp_output response
      else if trim_space (rp_output_text response) = [] then []
      else [NewOutputTextMessage (rp_output_text response)])"

definition finalReplayEvent :: "response \<Rightarrow> string" where
  "finalReplayEvent response =
     (let status = trim_space (rp_status response) in
      if status = [] \<or> status = ''completed'' then ''response.completed'' else ''response.'' @ status)"

text \<open>The events in the order in which \<^verbatim>\<open>visit\<close> is called on them.\<close>

definition forEachResponseReplayEvent ::
  "response \<Rightarrow> replay_artifact list \<Rightarrow> bool \<Rightarrow> replay_profile \<Rightarrow> replay_event list" where
  "forEachResponseReplayEvent response artifacts includeObfuscation profile =
     (let created = responseReplaySnapshot response ''in_progress'' False in
      [response_event ''response.created'' created, response_event ''response.in_progress'' created] @
      concat (map (\<lambda>(outputIndex, outputItem).
          forEachResponseReplayOutputItemEvent (rp_id response) outputIndex outputItem artifacts includeObfuscation profile)
        (List.enumerate 0 (responseReplayOutputItems response))) @
      [response_event (finalReplayEvent response) response])"

section \<open>Emitting\<close>

record replay_options =
  ro_obfuscation :: bool
  ro_starting_after :: int
  ro_profile :: replay_profile

record replay_summary =
  rsum_class :: string
  rsum_capabilities :: "string list"
  rsum_events :: nat
  rsum_last :: string
  rsum_emitted :: nat

fun capability_names :: "string list \<Rightarrow> string list \<Rightarrow> string list" where
  "capability_names [] seen = []"
| "capability_names (c # cs) seen =
     (if c = [] \<or> c \<in> set seen then capability_names cs seen else c # capability_names cs (c # seen))"

definition responseReplayCapabilityNames :: "string list \<Rightarrow> string list" where
  "responseReplayCapabilityNames capabilities = capability_names capabilities []"

text \<open>The visitor of \<^verbatim>\<open>emitResponseReplayEvents\<close>: it numbers every event and hands those after the
  starting point to the emitter; the first error ends the loop.\<close>

definition number_event :: "nat \<Rightarrow> replay_event \<Rightarrow> replay_event" where
  "number_event n event = event\<lparr>re_payload := gomap_set ''sequence_number'' (AnyJson (JNat n)) (re_payload event)\<rparr>"

fun visit_events ::
  "(replay_event \<Rightarrow> 's \<Rightarrow> (unit, 's) outcome) \<Rightarrow> int \<Rightarrow> replay_event list \<Rightarrow> replay_summary \<Rightarrow> 's \<Rightarrow>
   unit res \<times> replay_summary \<times> 's" where
  "visit_events emit startingAfter [] summary s = (Inr (), summary, s)"
| "visit_events emit startingAfter (event # events) summary s =
     (let n = Suc (rsum_events summary);
          summary1 = summary\<lparr>rsum_events := n, rsum_last := re_type event\<rparr>
      in if startingAfter > 0 \<and> int n \<le> startingAfter then visit_events emit startingAfter events summary1 s
         else case emit (number_event n event) s of
           (Inl e, s1) \<Rightarrow> (Inl e, summary1, s1)
         | (Inr _, s1) \<Rightarrow>
             visit_events emit startingAfter events (summary1\<lparr>rsum_emitted := Suc (rsum_emitted summary1)\<rparr>) s1)"

definition emitResponseReplayEvents ::
  "response \<Rightarrow> replay_artifact list \<Rightarrow> replay_options \<Rightarrow> (replay_event \<Rightarrow> 's \<Rightarrow> (unit, 's) outcome) \<Rightarrow> 's \<Rightarrow>
   unit res \<times> replay_summary \<times> 's" where
  "emitResponseReplayEvents response artifacts options emit s =
     visit_events emit (ro_starting_after options)
       (forEachResponseReplayEvent response artifacts (ro_obfuscation options) (ro_profile options))
       \<lparr>rsum_class = rpf_class (ro_profile options),
        rsum_capabilities = responseReplayCapabilityNames (rpf_capabilities (ro_profile options)),
        rsum_events = 0, rsum_last = [], rsum_emitted = 0\<rparr> s"

text \<open>The emitter that writes to the client; its state is what the client has received.\<close>

definition sse_emit :: "string \<Rightarrow> json res \<Rightarrow> string \<Rightarrow> (unit, string) outcome" where
  "sse_emit eventType body out =
     (case body of Inl e \<Rightarrow> (Inl e, out) | Inr j \<Rightarrow> (Inr (), out @ sse_write eventType (json_text j)))"

definition sseReplayEmit :: "replay_event \<Rightarrow> string \<Rightarrow> (unit, string) outcome" where
  "sseReplayEmit event = sse_emit (re_type event) (marshal_payload (re_payload event))"

definition writeResponseReplayAsSSE ::
  "bool \<Rightarrow> response \<Rightarrow> replay_artifact list \<Rightarrow> int \<Rightarrow> bool \<Rightarrow> string \<Rightarrow> (unit, string) outcome" where
  "writeResponseReplayAsSSE flusher response artifacts startingAfter includeObfuscation out =
     (if \<not> flusher then (Inl (Errorf ''response writer does not support streaming''), out)
      else case emitResponseReplayEvents response artifacts
          \<lparr>ro_obfuscation = includeObfuscation, ro_starting_after = startingAfter, ro_profile = retrieveResponseReplayProfile\<rparr>
          sseReplayEmit out of
        (Inl e, _, out1) \<Rightarrow> (Inl e, out1)
      | (Inr _, _, out1) \<Rightarrow> (Inr (), out1 @ sse_done))"

section \<open>What a replay writes\<close>

subsection \<open>Every event prints\<close>

lemma map_res_ok_iff: "(\<exists>ys. map_res f xs = Inr ys) \<longleftrightarrow> (\<forall>x \<in> set xs. \<exists>y. f x = Inr y)"
  by (induction xs) (auto split: sum.splits)

lemma marshal_payload_ok_iff: "(\<exists>j. marshal_payload p = Inr j) \<longleftrightarrow> (\<forall>(k, v) \<in> set p. \<exists>j. marshal_any v = Inr j)"
proof -
  have "(\<exists>j. marshal_payload p = Inr j) \<longleftrightarrow> (\<exists>ys. map_res (\<lambda>(k, v). map_sum id (Pair k) (marshal_any v)) p = Inr ys)"
    by (auto simp: marshal_payload_def map_sum_Inr_iff)
  then show ?thesis unfolding map_res_ok_iff by (fastforce simp: map_sum_Inr_iff)
qed

lemma set_gomap_set: "set (gomap_set k v m) \<subseteq> insert (k, v) (set m)"
  by (induction m) (auto split: if_splits)

lemma set_gomap_of: "set (gomap_of kvs) \<subseteq> set kvs"
proof -
  have "set (fold (\<lambda>(k, v). gomap_set k v) kvs m) \<subseteq> set kvs \<union> set m" for m :: "'a gomap"
    using set_gomap_set by (induction kvs arbitrary: m) (fastforce simp: subset_iff)+
  from this [of "[]"] show ?thesis by (simp add: gomap_of_def)
qed

lemma numbered_prints:
  assumes "\<exists>j. marshal_payload (re_payload e) = Inr j"
  shows "\<exists>j. marshal_payload (re_payload (number_event n e)) = Inr j"
  using assms set_gomap_set [of "''sequence_number''" "AnyJson (JNat n)" "re_payload e"]
  unfolding marshal_payload_ok_iff by (fastforce simp: number_event_def)

lemma doc_payload_prints: "\<exists>j. marshal_payload (doc_payload kvs) = Inr j"
  using set_gomap_of [of "map (\<lambda>(k, v). (k, AnyJson v)) kvs"]
  unfolding marshal_payload_ok_iff doc_payload_def by fastforce

lemma doc_event_prints: "\<exists>j. marshal_payload (re_payload (doc_event ty kvs)) = Inr j"
  by (simp add: doc_event_def doc_payload_prints)

lemma response_event_prints:
  assumes "Response_MarshalJSON r = Inr doc"
  shows "\<exists>j. marshal_payload (re_payload (response_event ty r)) = Inr j"
proof -
  have "\<exists>j. marshal_any (AnyResponse r) = Inr j" using assms by (auto simp: Response_MarshalJSON_def split: sum.splits)
  then show ?thesis
    using set_gomap_of [of "[(''type'', AnyJson (JStr ty)), (''response'', AnyResponse r)]"]
    unfolding marshal_payload_ok_iff response_event_def by fastforce
qed

lemma marshal_response_ok_iff: "(\<exists>doc. Response_MarshalJSON r = Inr doc) \<longleftrightarrow> (\<forall>(k, m) \<in> set (response_entries r). \<exists>j. m = Inr j)"
proof -
  have "(\<exists>doc. Response_MarshalJSON r = Inr doc) \<longleftrightarrow>
      (\<exists>ys. map_res (\<lambda>(k, m). case m of Inl e \<Rightarrow> Inl e | Inr j \<Rightarrow> Inr (k, j)) (response_entries r) = Inr ys)"
    by (auto simp: Response_MarshalJSON_def split: sum.splits)
  then show ?thesis unfolding map_res_ok_iff by (fastforce split: sum.splits)
qed

lemma snapshot_prints:
  assumes "Response_MarshalJSON r = Inr doc"
  shows "\<exists>doc. Response_MarshalJSON (responseReplaySnapshot r st False) = Inr doc"
proof -
  have "\<forall>(k, m) \<in> set (response_entries r). \<exists>j. m = Inr j" using assms marshal_response_ok_iff by blast
  then show ?thesis unfolding marshal_response_ok_iff
    by (auto simp: response_entries_def responseReplaySnapshot_def items_json_def split: option.splits)
qed

text \<open>The events of an item are documents.\<close>

definition documents :: "replay_event list \<Rightarrow> bool" where
  "documents events \<longleftrightarrow> (\<forall>e \<in> set events. \<exists>ty kvs. e = doc_event ty kvs)"

lemma documents_append [simp]: "documents (a @ b) \<longleftrightarrow> documents a \<and> documents b"
  by (auto simp: documents_def)

lemma documents_Cons [simp]: "documents (e # b) \<longleftrightarrow> (\<exists>ty kvs. e = doc_event ty kvs) \<and> documents b" "documents []"
  by (auto simp: documents_def)

lemma documents_concat: "(\<And>x. x \<in> set xs \<Longrightarrow> documents (f x)) \<Longrightarrow> documents (concat (map f xs))"
  by (auto simp: documents_def)

lemmas event_defs = contentPartEvent_def responseReplayTextDeltaEvent_def responseReplayToolDeltaEvent_def
  responseReplayReasoningDeltaEvent_def hostedToolReplayEvent_def outputItemEvent_def

lemma is_doc_event: "\<exists>t k. doc_event ty kvs = doc_event t k"
  by blast

lemma body_documents: "documents (itemBodyEvents rid i item obf profile)"
proof -
  have "documents (messagePartEvents rid iid i obf ip)" for iid ip
    by (auto simp: messagePartEvents_def Let_def event_defs is_doc_event documents_def
        forEachResponseReplayTextAnnotationEvent_def split: prod.splits)
  moreover have "documents (reasoningPartEvents iid i ip)" for iid ip
    by (auto simp: reasoningPartEvents_def Let_def event_defs is_doc_event split: prod.splits)
  moreover have "documents (toolCallEvents ty rid iid i obf item)" for ty iid
    by (auto simp: toolCallEvents_def Let_def event_defs is_doc_event split: prod.splits)
  moreover have "documents (shellCommandEvents i obf ic)" for ic
    by (auto simp: shellCommandEvents_def Let_def is_doc_event split: prod.splits)
  then have "documents (forEachLocalCodingToolReplayEvent m iid i obf profile)" for m iid
    by (auto simp: forEachLocalCodingToolReplayEvent_def Let_def is_doc_event intro: documents_concat)
  moreover have "documents (forEachCodeInterpreterReplayEvent m iid i obf)" for m iid
    by (auto simp: forEachCodeInterpreterReplayEvent_def Let_def event_defs is_doc_event)
  moreover have "documents (map (hostedToolReplayEvent iid i) tys)" for iid tys
    by (auto simp: documents_def event_defs)
  ultimately show ?thesis by (auto simp: itemBodyEvents_def Let_def intro: documents_concat)
qed

lemma artifact_prints: "e \<in> set (artifactEvent i iid a) \<Longrightarrow> \<exists>j. marshal_payload (re_payload e) = Inr j"
proof -
  assume "e \<in> set (artifactEvent i iid a)"
  then obtain ty p where e: "re_payload e = gomap_set ''type'' (AnyJson (JStr ty)) (map (\<lambda>(k, v). (k, AnyJson v)) p)"
    by (auto simp: artifactEvent_def Let_def split: if_splits option.splits)
  show ?thesis
    using set_gomap_set [of "''type''" "AnyJson (JStr ty)" "map (\<lambda>(k, v). (k, AnyJson v)) p"]
    unfolding marshal_payload_ok_iff e by fastforce
qed

lemma replay_prints:
  assumes "Response_MarshalJSON r = Inr doc" "e \<in> set (forEachResponseReplayEvent r artifacts obf profile)"
  shows "\<exists>j. marshal_payload (re_payload e) = Inr j"
proof -
  obtain doc' where s: "Response_MarshalJSON (responseReplaySnapshot r ''in_progress'' False) = Inr doc'"
    using snapshot_prints [OF assms(1)] by blast
  consider ty where "e = response_event ty r \<or> e = response_event ty (responseReplaySnapshot r ''in_progress'' False)"
    | i item where "e \<in> set (forEachResponseReplayOutputItemEvent (rp_id r) i item artifacts obf profile)"
    using assms(2) by (auto simp: forEachResponseReplayEvent_def Let_def)
  then show ?thesis
  proof cases
    case 1
    then show ?thesis using response_event_prints [OF assms(1)] response_event_prints [OF s] by blast
  next
    case 2
    then show ?thesis using body_documents [of "rp_id r" i item obf profile] doc_event_prints artifact_prints
      by (auto simp: forEachResponseReplayOutputItemEvent_def documents_def event_defs
          forEachResponseReplayArtifactEventForItem_def split: if_splits)
  qed
qed


subsection \<open>Starting after an event\<close>

definition numbered_from :: "nat \<Rightarrow> replay_event list \<Rightarrow> replay_event list" where
  "numbered_from n events = map (\<lambda>(i, e). number_event i e) (List.enumerate n events)"

text \<open>An event as it is written: its name and its document.\<close>

definition printed_event :: "replay_event \<Rightarrow> string \<times> json" where
  "printed_event e = (re_type e, case marshal_payload (re_payload e) of Inr j \<Rightarrow> j | Inl _ \<Rightarrow> JNull)"

definition written :: "replay_event list \<Rightarrow> string" where
  "written events = concat (map (\<lambda>(t, j). sse_write t (json_text j)) (map printed_event events))"

lemma sse_replay_emit:
  "\<exists>j. marshal_payload (re_payload e) = Inr j \<Longrightarrow> sseReplayEmit e out = (Inr (), out @ written [e])"
  by (auto simp: sseReplayEmit_def sse_emit_def printed_event_def written_def)

lemma visit_skip:
  assumes "k > 0" "int (Suc (rsum_events sm)) \<le> k"
  shows "visit_events emit k (e # events) sm out =
    visit_events emit k events (sm\<lparr>rsum_events := Suc (rsum_events sm), rsum_last := re_type e\<rparr>) out"
  using assms by (simp add: Let_def)

lemma visit_emit:
  assumes "\<not> (k > 0 \<and> int (Suc (rsum_events sm)) \<le> k)" "emit (number_event (Suc (rsum_events sm)) e) out = (Inr (), out1)"
  shows "visit_events emit k (e # events) sm out =
    visit_events emit k events (sm\<lparr>rsum_events := Suc (rsum_events sm), rsum_last := re_type e,
      rsum_emitted := Suc (rsum_emitted sm)\<rparr>) out1"
  using assms by (auto simp: Let_def)

declare visit_events.simps(2) [simp del]

lemma numbered_from_Cons: "numbered_from m (e # events) = number_event m e # numbered_from (Suc m) events"
  by (simp add: numbered_from_def)

lemma written_Cons: "written (f # fs) = written [f] @ written fs"
  by (simp add: written_def)

lemma visit_writes:
  assumes "\<forall>e \<in> set events. \<exists>j. marshal_payload (re_payload e) = Inr j"
  shows "\<exists>sm'. visit_events sseReplayEmit k events sm out =
    (Inr (), sm', out @ written (drop (nat k - rsum_events sm) (numbered_from (Suc (rsum_events sm)) events)))"
  using assms
proof (induction events arbitrary: sm out)
  case Nil
  have "numbered_from n [] = []" "written [] = []" for n by (simp_all add: numbered_from_def written_def)
  then show ?case by (simp only: visit_events.simps(1) drop_Nil append_Nil2) blast
next
  case (Cons e events)
  let ?n = "Suc (rsum_events sm)"
  have p: "\<forall>e \<in> set events. \<exists>j. marshal_payload (re_payload e) = Inr j" using Cons.prems by simp
  have sel: "rsum_events (sm\<lparr>rsum_events := ?n, rsum_last := re_type e\<rparr>) = ?n"
    "rsum_events (sm\<lparr>rsum_events := ?n, rsum_last := re_type e, rsum_emitted := Suc (rsum_emitted sm)\<rparr>) = ?n" by simp_all
  show ?case
  proof (cases "k > 0 \<and> int ?n \<le> k")
    case True
    then have "nat k - rsum_events sm = Suc (nat k - ?n)" by linarith
    then have d: "drop (nat k - rsum_events sm) (numbered_from ?n (e # events)) = drop (nat k - ?n) (numbered_from (Suc ?n) events)"
      by (simp only: numbered_from_Cons drop_Suc_Cons)
    have k: "k > 0" "int ?n \<le> k" using True by auto
    show ?thesis
      using Cons.IH [OF p, of "sm\<lparr>rsum_events := ?n, rsum_last := re_type e\<rparr>" out]
      by (simp only: visit_skip [OF k] d sel)
  next
    case False
    then have z: "nat k - rsum_events sm = 0" "nat k - ?n = 0" by linarith+
    have em: "sseReplayEmit (number_event ?n e) out = (Inr (), out @ written [number_event ?n e])"
      by (rule sse_replay_emit, rule numbered_prints) (use Cons.prems in simp)
    have w: "written (number_event ?n e # numbered_from (Suc ?n) events) =
        written [number_event ?n e] @ written (numbered_from (Suc ?n) events)" by (rule written_Cons)
    note v = visit_emit [of k sm sseReplayEmit e out, OF False em]
    show ?thesis
      using Cons.IH [OF p, of "sm\<lparr>rsum_events := ?n, rsum_last := re_type e, rsum_emitted := Suc (rsum_emitted sm)\<rparr>"
          "out @ written [number_event ?n e]"]
      by (simp only: v z sel drop_0 numbered_from_Cons w append_assoc)
  qed
qed

lemma replay_written:
  assumes "Response_MarshalJSON r = Inr doc"
  shows "writeResponseReplayAsSSE True r artifacts k obf out =
    (Inr (), out @ written (drop (nat k) (numbered_from 1
       (forEachResponseReplayEvent r artifacts obf retrieveResponseReplayProfile))) @ sse_done)"
proof -
  let ?evs = "forEachResponseReplayEvent r artifacts obf retrieveResponseReplayProfile"
  let ?sm = "\<lparr>rsum_class = rpf_class retrieveResponseReplayProfile,
    rsum_capabilities = responseReplayCapabilityNames (rpf_capabilities retrieveResponseReplayProfile),
    rsum_events = 0, rsum_last = [], rsum_emitted = 0\<rparr>"
  have "\<forall>e \<in> set ?evs. \<exists>j. marshal_payload (re_payload e) = Inr j" using replay_prints [OF assms] by blast
  then obtain sm' where "visit_events sseReplayEmit k ?evs ?sm out =
      (Inr (), sm', out @ written (drop (nat k - rsum_events ?sm) (numbered_from (Suc (rsum_events ?sm)) ?evs)))"
    using visit_writes by blast
  then show ?thesis by (simp add: writeResponseReplayAsSSE_def emitResponseReplayEvents_def)
qed

text \<open>C6: a client that resumes a stream after the event it saw last receives exactly the events that follow
  it. For a response that prints, the replay succeeds from every starting point; what it writes, read as an
  event stream, are the events of the whole replay without the first ones, numbered from one on in the whole
  replay, and the end marker.\<close>

theorem replay_resumes:
  assumes "Response_MarshalJSON r = Inr doc"
    and events: "events = numbered_from 1 (forEachResponseReplayEvent r artifacts obf retrieveResponseReplayProfile)"
    and "\<forall>e \<in> set (drop (nat k) events). writable (printed_event e)"
  shows "\<exists>out. writeResponseReplayAsSSE True r artifacts k obf [] = (Inr (), out) \<and>
    ParseReader out = Inr \<lparr>es_count = length events - nat k + 1, es_done = True,
      es_events = drop (nat k) (map (\<lambda>e. read_event (printed_event e)) events) @ [end_marker]\<rparr> \<and>
    (\<forall>i < length events. map_of (re_payload (events ! i)) ''sequence_number'' = Some (AnyJson (JNat (Suc i))))"
proof -
  let ?evs = "map printed_event (drop (nat k) events)"
  have w: "writeResponseReplayAsSSE True r artifacts k obf [] = (Inr (), sse_body ?evs)"
    using replay_written [OF assms(1), of artifacts k obf "[]"] by (simp add: events written_def sse_body_def)
  have "\<forall>e \<in> set ?evs. writable e" using assms(3) by auto
  from stream_reads_back_core [OF this]
  have "ParseReader (sse_body ?evs) = Inr \<lparr>es_count = length events - nat k + 1, es_done = True,
      es_events = drop (nat k) (map (\<lambda>e. read_event (printed_event e)) events) @ [end_marker]\<rparr>"
    by (simp add: drop_map comp_def)
  moreover have "map_of (re_payload (events ! i)) ''sequence_number'' = Some (AnyJson (JNat (Suc i)))" if "i < length events" for i
    using that by (auto simp: events numbered_from_def number_event_def map_of_gomap_set nth_enumerate_eq)
  ultimately show ?thesis using w by blast
qed

end
