(* ===== verification/Api_Errors.thy ===== *)
theory Api_Errors
  imports Response_Replay
begin

text \<open>
  Errors of the interface (\<^verbatim>\<open>httpapi/errors.go\<close>, \<^verbatim>\<open>backend_failure_policy.go\<close>): the classes of failures of
  the backend and what is decided for each, the answer for an error, and the canonical form of an error the
  upstream reports, also of one that is quoted inside a message.
\<close>

section \<open>The text of an error\<close>

text \<open>\<^verbatim>\<open>err.Error()\<close>; the text of an error of \<^verbatim>\<open>encoding/json\<close> is a parameter.\<close>

fun error_text :: "string \<Rightarrow> error \<Rightarrow> string" where
  "error_text je (ValidationError p m) = m"
| "error_text je ErrUnsupportedShape = ''unsupported input shape''"
| "error_text je StorageErrNotFound = ''not found''"
| "error_text je StorageErrConflict = ''conflict''"
| "error_text je ErrNotFound = ''resource not found''"
| "error_text je ErrConflict = ''conflict''"
| "error_text je ErrUpstreamFailure = ''upstream failure''"
| "error_text je ErrUpstreamTimeout = ''upstream timeout''"
| "error_text je (TimeoutError m) = (if m = [] then ''llama upstream timeout'' else m)"
| "error_text je (UpstreamError c m) = ''llama upstream returned '' @ int_text c @ '': '' @ m"
| "error_text je (InvalidResponseError m) = m"
| "error_text je RawToolCallMarkupError = ''model emitted raw tool-call markup''"
| "error_text je (UpstreamBodyTooLargeError surface n) =
     (if trim_space surface = [] then ''upstream response'' else trim_space surface) @ '' body exceeded '' @ int_text n @ '' bytes''"
| "error_text je (ToolChoiceIncompatibleError m) = trim_space m"
| "error_text je (RateLimitExceededError m c) = (if trim_space m = [] then ''rate limit exceeded'' else m)"
| "error_text je DeadlineExceeded = ''context deadline exceeded''"
| "error_text je (NetError t m) = m"
| "error_text je JSONError = je"
| "error_text je (GoPanic m) = m"
| "error_text je (Errorf m) = m"
| "error_text je (Wrap m e) = m @ '': '' @ error_text je e"

text \<open>\<^verbatim>\<open>errors.As\<close>: the first error of a chain that has the wanted type.\<close>

fun errors_as :: "(error \<Rightarrow> 'a option) \<Rightarrow> error \<Rightarrow> 'a option" where
  "errors_as f (Wrap m e) = errors_as f e"
| "errors_as f e = f e"

fun as_timeout :: "error \<Rightarrow> string option" where
  "as_timeout (TimeoutError m) = Some m" | "as_timeout _ = None"
fun as_upstream :: "error \<Rightarrow> (int \<times> string) option" where
  "as_upstream (UpstreamError c m) = Some (c, m)" | "as_upstream _ = None"
fun as_invalid_response :: "error \<Rightarrow> string option" where
  "as_invalid_response (InvalidResponseError m) = Some m" | "as_invalid_response _ = None"
fun as_raw_markup :: "error \<Rightarrow> unit option" where
  "as_raw_markup RawToolCallMarkupError = Some ()" | "as_raw_markup _ = None"
fun as_too_large :: "error \<Rightarrow> unit option" where
  "as_too_large (UpstreamBodyTooLargeError s n) = Some ()" | "as_too_large _ = None"
fun as_net :: "error \<Rightarrow> bool option" where
  "as_net (NetError t m) = Some t" | "as_net DeadlineExceeded = Some True" | "as_net _ = None"
fun as_validation :: "error \<Rightarrow> (string \<times> string) option" where
  "as_validation (ValidationError p m) = Some (p, m)" | "as_validation _ = None"
fun as_tool_choice :: "error \<Rightarrow> string option" where
  "as_tool_choice (ToolChoiceIncompatibleError m) = Some (trim_space m)" | "as_tool_choice _ = None"
fun as_rate_limit :: "error \<Rightarrow> (string \<times> string) option" where
  "as_rate_limit (RateLimitExceededError m c) = Some (if trim_space m = [] then ''rate limit exceeded'' else m, c)"
| "as_rate_limit _ = None"

section \<open>Failures of the backend\<close>

datatype backend_failure_class =
    AuthFailure | PermissionFailure | QuotaExhausted | RateLimitRetryable | ModelUnavailable | UnsupportedToolOrParam
  | TransportTimeout | StreamIdleTimeout | MalformedBackendResponse | BackendCapabilityMismatch | LocalRuntimeUnavailable
  | UpstreamServerError | TransportError | UnknownFailure

record backend_failure_decision =
  bd_class :: backend_failure_class
  bd_retryable :: bool
  bd_cooldown :: bool
  bd_cooldown_seconds :: int
  bd_fallback :: bool
  bd_status :: int
  bd_type :: string
  bd_code :: string
  bd_message :: string

definition contains_any :: "string \<Rightarrow> string list \<Rightarrow> bool" where
  "contains_any s ps \<longleftrightarrow> list_ex (contains s) ps"

definition looksLikeCapabilityMismatch :: "string \<Rightarrow> bool" where
  "looksLikeCapabilityMismatch message \<longleftrightarrow> contains_any message
     [''capability'', ''not supported by backend'', ''incompatible backend'', ''unsupported response format'', ''unsupported tool_choice'']"

definition looksLikeUnsupportedToolOrParam :: "string \<Rightarrow> bool" where
  "looksLikeUnsupportedToolOrParam message \<longleftrightarrow> contains_any message
     [''unsupported'', ''unknown parameter'', ''unknown field'', ''invalid tool'', ''tool_choice is invalid'', ''invalid_request_error'']"

definition classifyBackendHTTPFailure :: "int \<Rightarrow> string \<Rightarrow> backend_failure_class" where
  "classifyBackendHTTPFailure status message =
     (let normalized = to_lower message;
          rest = (if status \<ge> 500 then UpstreamServerError else UnknownFailure)
      in if status = 401 then AuthFailure
         else if status = 403 then PermissionFailure
         else if status = 429 then
           (if contains_any normalized [''quota'', ''billing'', ''insufficient_quota'', ''credits''] then QuotaExhausted
            else RateLimitRetryable)
         else if status = 408 \<or> status = 504 then TransportTimeout
         else if status = 404 then (if contains normalized ''model'' then ModelUnavailable else rest)
         else if status = 400 \<or> status = 422 \<or> status = 501 then
           (if looksLikeCapabilityMismatch normalized then BackendCapabilityMismatch
            else if looksLikeUnsupportedToolOrParam normalized then UnsupportedToolOrParam else rest)
         else if status = 503 then
           (if contains_any normalized [''overload'', ''unavailable'', ''try again'', ''slow down''] then ModelUnavailable else rest)
         else rest)"

definition classifyInvalidBackendResponse :: "string \<Rightarrow> backend_failure_class" where
  "classifyInvalidBackendResponse message =
     (let normalized = to_lower message in
      if looksLikeCapabilityMismatch normalized then BackendCapabilityMismatch
      else if looksLikeUnsupportedToolOrParam normalized then UnsupportedToolOrParam
      else MalformedBackendResponse)"

definition decide :: "backend_failure_class \<Rightarrow> bool \<Rightarrow> bool \<Rightarrow> int \<Rightarrow> bool \<Rightarrow> int \<Rightarrow> string \<Rightarrow> string \<Rightarrow> string \<Rightarrow> backend_failure_decision" where
  "decide c retryable cooldown seconds fallback status ty code message =
     \<lparr>bd_class = c, bd_retryable = retryable, bd_cooldown = cooldown, bd_cooldown_seconds = seconds, bd_fallback = fallback,
      bd_status = status, bd_type = ty, bd_code = code, bd_message = message\<rparr>"

fun backendFailureDecisionFor :: "backend_failure_class \<Rightarrow> backend_failure_decision" where
  "backendFailureDecisionFor AuthFailure = decide AuthFailure False False 0 False 401 ''authentication_error''
     ''upstream_auth_failure'' ''upstream authentication failed''"
| "backendFailureDecisionFor PermissionFailure = decide PermissionFailure False False 0 False 403 ''permission_error''
     ''upstream_permission_failure'' ''upstream permission denied''"
| "backendFailureDecisionFor QuotaExhausted = decide QuotaExhausted False True 900 False 429 ''rate_limit_error''
     ''insufficient_quota'' ''upstream quota exhausted''"
| "backendFailureDecisionFor RateLimitRetryable = decide RateLimitRetryable True True 60 True 429 ''rate_limit_error''
     ''upstream_rate_limit'' ''upstream rate limit exceeded''"
| "backendFailureDecisionFor ModelUnavailable = decide ModelUnavailable True True 30 True 502 ''upstream_error''
     ''model_unavailable'' ''upstream model is unavailable''"
| "backendFailureDecisionFor UnsupportedToolOrParam = decide UnsupportedToolOrParam False False 0 False 502 ''upstream_error''
     ''unsupported_tool_or_param'' ''upstream rejected a tool or parameter''"
| "backendFailureDecisionFor TransportTimeout = decide TransportTimeout True True 15 True 504 ''upstream_timeout_error''
     ''upstream_timeout'' ''upstream request timed out''"
| "backendFailureDecisionFor StreamIdleTimeout = decide StreamIdleTimeout True True 15 True 504 ''upstream_timeout_error''
     ''upstream_stream_idle_timeout'' ''upstream stream timed out''"
| "backendFailureDecisionFor MalformedBackendResponse = decide MalformedBackendResponse True False 0 True 502 ''upstream_error''
     ''malformed_backend_response'' ''upstream returned a malformed response''"
| "backendFailureDecisionFor BackendCapabilityMismatch = decide BackendCapabilityMismatch False False 0 True 502 ''upstream_error''
     ''backend_capability_mismatch'' ''upstream backend does not support the requested capability''"
| "backendFailureDecisionFor LocalRuntimeUnavailable = decide LocalRuntimeUnavailable False True 30 False 503 ''service_unavailable''
     ''local_runtime_unavailable'' ''local runtime is unavailable''"
| "backendFailureDecisionFor TransportError = decide TransportError True True 15 True 502 ''upstream_error''
     ''transport_error'' ''upstream transport failed''"
| "backendFailureDecisionFor UnknownFailure = decide UnknownFailure False False 0 False 502 ''upstream_error''
     ''unknown_backend_failure'' ''upstream request failed''"
| "backendFailureDecisionFor UpstreamServerError = decide UpstreamServerError True True 30 True 502 ''upstream_error''
     ''upstream_server_error'' ''upstream request failed''"

text \<open>The phrases that mark a failure in the text of an error.\<close>

definition classifyText :: "string \<Rightarrow> backend_failure_class option" where
  "classifyText message =
     (if contains message ''stream idle timeout'' then Some StreamIdleTimeout
      else if contains message ''local runtime'' \<and> contains message ''not ready'' then Some LocalRuntimeUnavailable
      else if contains message ''raw tool-call markup'' then Some MalformedBackendResponse
      else if contains message ''unsupported'' \<and> contains_any message [''tool'', ''parameter'', ''param''] then Some UnsupportedToolOrParam
      else if contains message ''call llama:'' then Some TransportError
      else None)"

definition classifyBackendFailure :: "string \<Rightarrow> error \<Rightarrow> backend_failure_decision option" where
  "classifyBackendFailure je err =
     map_option backendFailureDecisionFor
       (if errors_as as_timeout err \<noteq> None \<or> errors_is err ErrUpstreamTimeout \<or> errors_is err DeadlineExceeded \<or>
           errors_as as_net err = Some True then Some TransportTimeout
        else case errors_as as_upstream err of
          Some (c, m) \<Rightarrow> Some (classifyBackendHTTPFailure c m)
        | None \<Rightarrow>
            if errors_as as_too_large err \<noteq> None then Some MalformedBackendResponse
            else if errors_as as_raw_markup err \<noteq> None then Some MalformedBackendResponse
            else case errors_as as_invalid_response err of
              Some m \<Rightarrow> Some (classifyInvalidBackendResponse m)
            | None \<Rightarrow>
                if errors_is err ErrUpstreamFailure then Some UpstreamServerError
                else classifyText (to_lower (error_text je err)))"

section \<open>Errors of the interface\<close>

record api_error =
  ae_message :: string
  ae_type :: string
  ae_param :: "string option"
  ae_code :: "string option"

definition optionalString :: "string \<Rightarrow> string option" where
  "optionalString v = (if v = [] then None else Some v)"

definition newAPIError :: "string \<Rightarrow> string \<Rightarrow> string \<Rightarrow> string \<Rightarrow> api_error" where
  "newAPIError errType message param code =
     \<lparr>ae_message = message, ae_type = errType, ae_param = optionalString param, ae_code = optionalString code\<rparr>"

definition string_ptr_json :: "string option \<Rightarrow> json" where
  "string_ptr_json p = (case p of None \<Rightarrow> JNull | Some s \<Rightarrow> JStr s)"

definition api_error_json :: "api_error \<Rightarrow> json" where
  "api_error_json e = JObj [(''message'', JStr (ae_message e)), (''type'', JStr (ae_type e)),
     (''param'', string_ptr_json (ae_param e)), (''code'', string_ptr_json (ae_code e))]"

text \<open>The classes whose decision is the answer; the others are mapped by the kind of the error.\<close>

definition answered_classes :: "backend_failure_class list" where
  "answered_classes = [AuthFailure, PermissionFailure, QuotaExhausted, RateLimitRetryable, ModelUnavailable, TransportTimeout,
     StreamIdleTimeout, MalformedBackendResponse, BackendCapabilityMismatch, LocalRuntimeUnavailable, TransportError]"

definition mapMappedError :: "string \<Rightarrow> error \<Rightarrow> int \<times> api_error" where
  "mapMappedError je mapped =
     (case errors_as as_validation mapped of
        Some (p, m) \<Rightarrow> (400, newAPIError ''invalid_request_error'' m p [])
      | None \<Rightarrow>
      case errors_as as_tool_choice mapped of
        Some m \<Rightarrow> (501, newAPIError ''server_error'' m ''tool_choice'' ''tool_choice_incompatible_backend'')
      | None \<Rightarrow>
      case errors_as as_rate_limit mapped of
        Some (m, c) \<Rightarrow> (429, newAPIError ''rate_limit_error'' m [] c)
      | None \<Rightarrow>
        if errors_is mapped ErrUnsupportedShape then (400, newAPIError ''invalid_request_error'' ''unsupported input shape'' ''input'' [])
        else if errors_is mapped StorageErrNotFound \<or> errors_is mapped ErrNotFound
          then (404, newAPIError ''not_found_error'' (error_text je mapped) [] [])
        else if errors_is mapped StorageErrConflict \<or> errors_is mapped ErrConflict
          then (409, newAPIError ''conflict_error'' ''conversation state changed during generation, retry the request'' [] [])
        else if errors_is mapped ErrUpstreamTimeout then (504, newAPIError ''upstream_timeout_error'' ''upstream request timed out'' [] [])
        else if errors_is mapped ErrUpstreamFailure then (502, newAPIError ''upstream_error'' ''upstream request failed'' [] [])
        else (500, newAPIError ''internal_error'' ''internal server error'' [] []))"

definition MapError :: "string \<Rightarrow> error \<Rightarrow> int \<times> api_error" where
  "MapError je err =
     (case classifyBackendFailure je err of
        Some d \<Rightarrow>
          if bd_class d \<in> set answered_classes then (bd_status d, newAPIError (bd_type d) (bd_message d) [] (bd_code d))
          else mapMappedError je (MapGeneratorError (MapStorageError err))
      | None \<Rightarrow> mapMappedError je (MapGeneratorError (MapStorageError err)))"

section \<open>Errors of the upstream\<close>

definition hasAPIErrorValue :: "json \<Rightarrow> bool" where
  "hasAPIErrorValue v \<longleftrightarrow> (case v of JNull \<Rightarrow> False | JStr s \<Rightarrow> trim_space s \<noteq> [] | _ \<Rightarrow> True)"

text \<open>The value under a key, \<^verbatim>\<open>nil\<close> when it is absent.\<close>

definition any_entry :: "json gomap \<Rightarrow> string \<Rightarrow> json" where
  "any_entry m k = (case map_of m k of None \<Rightarrow> JNull | Some v \<Rightarrow> v)"

definition api_error_keys :: "string list" where
  "api_error_keys = [''message'', ''type'', ''param'', ''code'']"

definition mergeAPIErrorFields :: "json gomap \<Rightarrow> json gomap \<Rightarrow> json gomap" where
  "mergeAPIErrorFields base over =
     gomap_of (map (\<lambda>k. (k, if hasAPIErrorValue (any_entry over k) then any_entry over k else any_entry base k)) api_error_keys)"

text \<open>The text from an opening brace up to the brace that closes it.\<close>

fun scan_object :: "string \<Rightarrow> int \<Rightarrow> bool \<Rightarrow> bool \<Rightarrow> string option" where
  "scan_object [] depth inString escaped = None"
| "scan_object (ch # rest) depth inString escaped =
     map_option ((#) ch)
       (if inString then
          (if escaped then scan_object rest depth True False
           else if byte ch = 92 then scan_object rest depth True True
           else if byte ch = 34 then scan_object rest depth False False
           else scan_object rest depth True False)
        else if byte ch = 34 then scan_object rest depth True escaped
        else if ch = CHR ''{'' then scan_object rest (depth + 1) False escaped
        else if ch = CHR ''}'' then (if depth - 1 = 0 then Some [] else scan_object rest (depth - 1) False escaped)
        else scan_object rest depth False escaped)"

definition extractEmbeddedJSONObject :: "string \<Rightarrow> string option" where
  "extractEmbeddedJSONObject message =
     (let at = (case index_of message (CHR ''{'' # CHR 34 # ''error'' @ [CHR 34]) of
                  Some i \<Rightarrow> Some i
                | None \<Rightarrow> index_of message (CHR ''{'' # CHR 34 # ''message'' @ [CHR 34]))
      in case at of None \<Rightarrow> None | Some i \<Rightarrow> scan_object (drop i message) 0 False False)"

definition extractEmbeddedAPIError :: "string \<Rightarrow> json gomap option" where
  "extractEmbeddedAPIError message =
     (case extractEmbeddedJSONObject message of
        None \<Rightarrow> None
      | Some t \<Rightarrow>
          (case unmarshal_any_map (raw_of_text t) of
             None \<Rightarrow> None
           | Some payload \<Rightarrow> (case map_of payload ''error'' of Some (JObj e) \<Rightarrow> Some e | _ \<Rightarrow> None)))"

definition normalizeAPIErrorType :: "int \<Rightarrow> string \<Rightarrow> string" where
  "normalizeAPIErrorType status r =
     (let t = to_lower (trim_space r) in
      if t \<in> set [''invalid_request_error'', ''server_error'', ''not_found_error'', ''conflict_error'', ''rate_limit_error'',
                  ''authentication_error'', ''permission_error''] then t
      else if t \<in> set [''bad request'', ''bad_request''] then ''invalid_request_error''
      else if t \<in> set [''not found'', ''not_found''] then ''not_found_error''
      else if t = ''conflict'' then ''conflict_error''
      else if t \<in> set [''too many requests'', ''rate limit'', ''rate_limit''] then ''rate_limit_error''
      else if t = ''unauthorized'' then ''authentication_error''
      else if t = ''forbidden'' then ''permission_error''
      else if t \<in> set [''server error'', ''internal server error''] then ''server_error''
      else if status = 404 then ''not_found_error''
      else if status = 409 then ''conflict_error''
      else if status = 429 then ''rate_limit_error''
      else if status \<ge> 500 then ''server_error''
      else ''invalid_request_error'')"

fun normalizeAPIErrorParam :: "json \<Rightarrow> json" where
  "normalizeAPIErrorParam (JStr param) = (if trim_space param = [] then JNull else JStr param)"
| "normalizeAPIErrorParam _ = JNull"

fun normalizeAPIErrorCode :: "json \<Rightarrow> json" where
  "normalizeAPIErrorCode (JStr v) =
     (let trimmed = trim_space v in
      if trimmed = [] then JNull else if atoi trimmed \<noteq> None then JNull else JStr trimmed)"
| "normalizeAPIErrorCode _ = JNull"

definition normalizeAPIErrorPayload :: "int \<Rightarrow> json gomap \<Rightarrow> json gomap option" where
  "normalizeAPIErrorPayload status errorPayload =
     (let base = gomap_of (map (\<lambda>k. (k, any_entry errorPayload k)) api_error_keys);
          payload = (case extractEmbeddedAPIError (as_string (any_entry errorPayload ''message'')) of
                       Some embedded \<Rightarrow> mergeAPIErrorFields base embedded | None \<Rightarrow> base);
          message = trim_space (as_string (any_entry payload ''message''))
      in if message = [] then None
         else Some (gomap_of [(''message'', JStr message),
           (''type'', JStr (normalizeAPIErrorType status (as_string (any_entry payload ''type'')))),
           (''param'', normalizeAPIErrorParam (any_entry payload ''param'')),
           (''code'', normalizeAPIErrorCode (any_entry payload ''code''))]))"

definition canonicalizeAPIErrorBody :: "int \<Rightarrow> raw \<Rightarrow> raw option res" where
  "canonicalizeAPIErrorBody status body =
     (case unmarshal_any_map body of
        None \<Rightarrow> Inl JSONError
      | Some payload \<Rightarrow>
          (case map_of payload ''error'' of
             Some (JObj errorPayload) \<Rightarrow>
               (case normalizeAPIErrorPayload status errorPayload of
                  None \<Rightarrow> Inr None
                | Some canonical \<Rightarrow> Inr (Some (RawJson (JObj (gomap_set ''error'' (JObj canonical) payload)))))
           | _ \<Rightarrow> Inr None))"

section \<open>Answers\<close>

text \<open>The error at the end of a chain.\<close>

fun cause :: "error \<Rightarrow> error" where
  "cause (Wrap m e) = cause e"
| "cause e = e"

lemma cause_leaf: "cause e \<noteq> Wrap m x"
  by (induction e) auto

lemma errors_as_cause: "errors_as f e = f (cause e)"
  by (induction e) auto

lemma errors_is_cause: "(\<And>m y. t \<noteq> Wrap m y) \<Longrightarrow> errors_is e t \<longleftrightarrow> cause e = t"
  by (induction e) auto

lemma errors_as_upstream_cause: "errors_as_upstream e \<longleftrightarrow> errors_as_upstream (cause e)" "errors_as_timeout e \<longleftrightarrow> errors_as_timeout (cause e)"
  by (induction e) auto


text \<open>C35: a request that fails validation is answered with status 400, the message and the parameter of the
  error, exactly when the text of the error has none of the phrases by which failures of the backend are
  recognised; with such a phrase, which may come from the request itself, it is reported as a failure of the
  backend.\<close>

theorem validation_answer:
  assumes "errors_as as_validation e = Some (p, m)" and c: "c = classifyText (to_lower (error_text je e))"
  shows "(c = None \<or> c = Some UnsupportedToolOrParam \<longrightarrow> MapError je e = (400, newAPIError ''invalid_request_error'' m p [])) \<and>
    (c \<noteq> None \<and> c \<noteq> Some UnsupportedToolOrParam \<longrightarrow> fst (MapError je e) \<ge> 502)"
proof -
  have e: "cause e = ValidationError p m" using assms(1) unfolding errors_as_cause by (cases "cause e") auto
  have cl: "classifyBackendFailure je e = map_option backendFailureDecisionFor c"
    by (simp add: classifyBackendFailure_def errors_as_cause errors_is_cause e c)
  have "MapGeneratorError (MapStorageError e) = e"
    using errors_as_upstream_cause [of e] by (simp add: MapStorageError_def MapGeneratorError_def errors_is_cause e)
  then have m: "mapMappedError je (MapGeneratorError (MapStorageError e)) = (400, newAPIError ''invalid_request_error'' m p [])"
    using assms(1) by (simp add: mapMappedError_def)
  have "c \<in> {None, Some StreamIdleTimeout, Some LocalRuntimeUnavailable, Some MalformedBackendResponse, Some UnsupportedToolOrParam, Some TransportError}"
    by (simp add: c classifyText_def)
  with cl m show ?thesis by (auto simp: MapError_def decide_def answered_classes_def)
qed


theorem validation_answer_witness:
  "fst (MapError [] (ValidationError ''stream_options'' ''unsupported stream_options field: stream idle timeout'')) \<ge> 502"
proof -
  have "classifyText (to_lower ''unsupported stream_options field: stream idle timeout'') = Some StreamIdleTimeout" by code_simp
  with validation_answer [of "ValidationError ''stream_options'' ''unsupported stream_options field: stream idle timeout''"
      "''stream_options''" "''unsupported stream_options field: stream idle timeout''" _ "[]"]
  show ?thesis by simp
qed

section \<open>An embedded document is found\<close>

text \<open>A text the scanner passes over, inside a string literal and outside.\<close>

definition passed_in :: "string \<Rightarrow> bool" where
  "passed_in u \<longleftrightarrow> (\<forall>rest d. scan_object (u @ rest) d True False = map_option (\<lambda>x. u @ x) (scan_object rest d True False))"

definition passed :: "string \<Rightarrow> bool" where
  "passed u \<longleftrightarrow> (\<forall>rest d. 1 \<le> d \<longrightarrow> scan_object (u @ rest) d False False = map_option (\<lambda>x. u @ x) (scan_object rest d False False))"

lemma passed_in_append: "passed_in u \<Longrightarrow> passed_in v \<Longrightarrow> passed_in (u @ v)"
  by (simp add: passed_in_def option.map_comp comp_def)

lemma passed_append: "passed u \<Longrightarrow> passed v \<Longrightarrow> passed (u @ v)"
  by (simp add: passed_def option.map_comp comp_def)

lemma passed_empty: "passed_in []" "passed []"
  by (simp_all add: passed_in_def passed_def option.map_ident)

lemma passed_in_char: "byte c \<noteq> 34 \<Longrightarrow> byte c \<noteq> 92 \<Longrightarrow> passed_in [c]"
  by (simp add: passed_in_def)

lemma passed_in_escape: "passed_in [CHR 92, c]"
  by (simp add: passed_in_def option.map_comp comp_def)

lemma passed_in_chars: "\<forall>c \<in> set u. byte c \<noteq> 34 \<and> byte c \<noteq> 92 \<Longrightarrow> passed_in u"
proof (induction u)
  case (Cons c u)
  then have "passed_in ([c] @ u)" by (intro passed_in_append passed_in_char) auto
  then show ?case by simp
qed (simp add: passed_empty)

lemma passed_char: "byte c \<noteq> 34 \<Longrightarrow> c \<noteq> CHR ''{'' \<Longrightarrow> c \<noteq> CHR ''}'' \<Longrightarrow> passed [c]"
  by (simp add: passed_def)

lemma passed_chars: "\<forall>c \<in> set u. byte c \<noteq> 34 \<and> c \<noteq> CHR ''{'' \<and> c \<noteq> CHR ''}'' \<Longrightarrow> passed u"
proof (induction u)
  case (Cons c u)
  then have "passed ([c] @ u)" by (intro passed_append passed_char) auto
  then show ?case by simp
qed (simp add: passed_empty)

lemma esc_char_passed: "byte c < 0x80 \<Longrightarrow> passed_in (esc_char c)"
proof -
  assume c: "byte c < 0x80"
  have hx: "byte (hex_digit n) \<noteq> 34" "byte (hex_digit n) \<noteq> 92" if "n < 16" for n using that by (auto simp: hex_digit_def)
  have "passed_in ([CHR 92, CHR ''u''] @ [CHR ''0'', CHR ''0'', hex_digit (byte c div 16), hex_digit (byte c mod 16)])"
    using c hx by (intro passed_in_append passed_in_escape passed_in_chars) auto
  then show ?thesis using passed_in_escape passed_in_char [of c] by (auto simp: esc_char_def)
qed

lemma esc_string_passed: "passed_in (esc_string s)"
proof (induction s rule: esc_string.induct)
  case (2 c cs)
  define w where "w = rune_width (c # cs)"
  have u: "passed_in (CHR 92 # CHR ''u'' # x)" if "\<forall>c \<in> set x. byte c \<noteq> 34 \<and> byte c \<noteq> 92" for x
    using passed_in_append [OF passed_in_escape [of "CHR ''u''"] passed_in_chars [OF that]] by simp
  consider "w = 0" | "w = 1" | "w \<noteq> 0" "w \<noteq> 1" by blast
  then show ?case
  proof cases
    case 1
    have "passed_in (([CHR 92] @ ''ufffd'') @ esc_string cs)"
      using 1 2(1) u [of "''fffd''"] by (intro passed_in_append [of "[CHR 92] @ ''ufffd''"]) (simp_all add: w_def)
    then show ?thesis using 1 by (simp add: w_def)
  next
    case w: 2
    then have "byte c < 0x80" using rune_width_1 [of c cs] by (simp add: w_def)
    moreover have "passed_in (esc_string cs)" using 2(2) w by (simp add: w_def)
    ultimately have "passed_in (esc_char c @ esc_string cs)" by (intro passed_in_append esc_char_passed)
    then show ?thesis using w by (simp add: w_def)
  next
    case 3
    have "is_rune (c # take (w - 1) cs)" using rune_width_take [of c cs w] 3(1) by (simp add: w_def)
    moreover have "length (c # take (w - 1) cs) \<noteq> 1" using rune_width_le [of "c # cs"] 3 by (auto simp: w_def)
    ultimately have "list_all (\<lambda>d. 0x80 \<le> byte d) (c # take (w - 1) cs)" by (rule rune_high)
    then have r: "passed_in (c # take (w - 1) cs)" by (intro passed_in_chars) (auto simp: list_all_iff)
    have h: "passed_in (if map byte (c # take (w - 1) cs) = [0xE2, 0x80, 0xA8] then [CHR 92] @ ''u2028''
      else if map byte (c # take (w - 1) cs) = [0xE2, 0x80, 0xA9] then [CHR 92] @ ''u2029'' else c # take (w - 1) cs)"
      using r u [of "''2028''"] u [of "''2029''"] by simp
    have "passed_in (esc_string (drop (w - 1) cs))" using 2(2) 3 by (simp add: w_def)
    from passed_in_append [OF h this] show ?thesis
      using 3 unfolding esc_string.simps Let_def w_def [symmetric] by (simp only: if_False)
  qed
qed (simp add: passed_empty)

lemma literal_passed: "passed ([CHR 34] @ esc_string s @ [CHR 34])"
  using esc_string_passed [of s] by (auto simp: passed_def passed_in_def option.map_comp comp_def)

lemma join_passed: "\<forall>x \<in> set xs. passed x \<Longrightarrow> passed sep \<Longrightarrow> passed (join xs sep)"
  by (induction xs sep rule: join.induct) (auto simp: passed_empty intro!: passed_append)

definition num_char :: "char \<Rightarrow> bool" where
  "num_char c \<longleftrightarrow> is_digit c \<or> c \<in> {CHR ''-'', CHR ''+'', CHR ''.'', CHR ''e'', CHR ''E''}"

lemma num_char_intros: "is_digit c \<Longrightarrow> num_char c" "num_char (CHR ''-'')" "num_char (CHR ''+'')" "num_char (CHR ''.'')"
  "num_char (CHR ''e'')" "num_char (CHR ''E'')" "num_char (CHR ''0'')" "list_all num_char (takeWhile is_digit s)"
  by (auto simp: num_char_def is_digit_def list_all_iff dest: set_takeWhileD)

lemma number_chars: "valid_number t \<Longrightarrow> list_all num_char t"
proof -
  assume "valid_number t"
  then obtain a b c d s1 s2 s3 where p: "sign_part t = Some (a, s1)" "int_part s1 = Some (b, s2)"
    "frac_part s2 = Some (c, s3)" "exp_part s3 = Some (d, [])" "t = a @ b @ c @ d"
    by (auto simp: valid_number_def read_number_def split: option.splits prod.splits)
  note i = num_char_intros
  have "list_all num_char a" using p(1) i by (auto simp: sign_part_def split: list.splits if_splits)
  moreover have "list_all num_char b"
    using p(2) i by (auto simp: int_part_def simp del: takeWhile.simps split: list.splits if_splits)
  moreover have "list_all num_char c"
    using p(3) i by (auto simp: frac_part_def simp del: takeWhile.simps split: list.splits if_splits)
  moreover have "list_all num_char d"
    using p(4) i by (auto simp: exp_part_def simp del: takeWhile.simps split: list.splits if_splits)
  ultimately show ?thesis unfolding p(5) by simp
qed

lemma number_passed: "valid_number t \<Longrightarrow> passed t"
proof (rule passed_chars, rule ballI)
  fix c assume "valid_number t" "c \<in> set t"
  then have "num_char c" using number_chars by (auto simp: list_all_iff)
  then show "byte c \<noteq> 34 \<and> c \<noteq> CHR ''{'' \<and> c \<noteq> CHR ''}''" by (auto simp: num_char_def is_digit_def)
qed

lemma object_passed: "passed u \<Longrightarrow> passed (''{'' @ u @ ''}'')"
  by (auto simp: passed_def option.map_comp comp_def)

lemma json_text_passed:
  "wf_json j \<Longrightarrow> passed (json_text j)"
  "wf_fields kvs \<Longrightarrow> \<forall>x \<in> set (fields_text kvs). passed x"
  "wf_list js \<Longrightarrow> \<forall>x \<in> set (list_text js). passed x"
proof (induction j and kvs and js rule: json_text_fields_text_list_text.induct)
  case (3 t)
  then show ?case by (simp add: number_passed)
next
  case (4 s)
  show ?case using literal_passed [of s] by simp
next
  case (5 js)
  have "passed (''['' @ join (list_text js) '','' @ '']'')"
    using 5 by (intro passed_append join_passed passed_chars) auto
  then show ?case by simp
next
  case (6 kvs)
  have "passed (join (fields_text kvs) '','')" using 6 by (intro join_passed passed_chars) auto
  from object_passed [OF this] show ?case by simp
next
  case (10 kv kvs)
  have "passed (([CHR 34] @ esc_string (fst kv) @ [CHR 34]) @ '':'' @ json_text (snd kv))"
    by (rule passed_append [OF literal_passed passed_append [OF passed_chars]]) (use 10 in auto)
  then show ?case using 10 by simp
qed (auto intro!: passed_chars)

lemma scan_document:
  assumes "wf_json (JObj kvs)"
  shows "scan_object (json_text (JObj kvs) @ post) 0 False False = Some (json_text (JObj kvs))"
proof -
  have "passed (join (fields_text kvs) '','')" using json_text_passed(2) [of kvs] assms by (intro join_passed passed_chars) auto
  then show ?thesis by (simp add: passed_def)
qed

lemma index_of_after:
  assumes "c \<notin> set pre" "has_prefix s p" "p = c # cs"
  shows "index_of (pre @ s) p = Some (length pre)"
  using assms
proof (induction pre)
  case Nil
  then show ?case by (cases s) (auto simp: has_prefix_def)
next
  case (Cons a pre)
  then have "\<not> has_prefix (a # pre @ s) p" by (auto simp: has_prefix_def)
  then show ?case using Cons by simp
qed

text \<open>An error document of the upstream that is quoted inside a message is found and read whole: for a
  message that holds the printed document after a text without braces, the extraction returns the error of
  that document, decoded, whatever follows.\<close>

theorem embedded_error_found:
  assumes "wf_json (JObj ((''error'', JObj err) # kvs))" "''error'' \<notin> fst ` set kvs" "CHR ''{'' \<notin> set pre"
    and "any_of (JObj ((''error'', JObj err) # kvs)) = Some (JObj payload)"
  shows "\<exists>e. map_of payload ''error'' = Some (JObj e) \<and> any_of (JObj err) = Some (JObj e) \<and>
    extractEmbeddedAPIError (pre @ json_text (JObj ((''error'', JObj err) # kvs)) @ post) = Some e"
proof -
  let ?doc = "JObj ((''error'', JObj err) # kvs)"
  let ?pat = "CHR ''{'' # CHR 34 # ''error'' @ [CHR 34]"
  have "esc_string ''error'' = ''error''" by (simp add: esc_char_def)
  then have "has_prefix (json_text ?doc @ post) ?pat" by (simp add: has_prefix_def join_Cons)
  then have "index_of (pre @ json_text ?doc @ post) ?pat = Some (length pre)" using assms(3) by (intro index_of_after) auto
  then have x: "extractEmbeddedJSONObject (pre @ json_text ?doc @ post) = Some (json_text ?doc)"
    using scan_document [OF assms(1), of post] by (simp add: extractEmbeddedJSONObject_def)
  obtain fs where fs: "any_fields ((''error'', JObj err) # kvs) = Some fs" "payload = gomap_of fs" using assms(4) by auto
  then obtain e es where e: "any_of (JObj err) = Some e" "any_fields kvs = Some es" "fs = (''error'', e) # es"
    by (auto split: option.splits)
  obtain e' where e': "e = JObj e'" using e(1) by auto
  have "map fst es = map fst kvs" using e(2) by (induction kvs arbitrary: es) (auto split: option.splits)
  then have "''error'' \<notin> fst ` set es" using assms(2) by (metis list.set_map)
  then have m: "map_of payload ''error'' = Some (JObj e')"
    unfolding fs(2) map_of_gomap_of e(3) e' by (simp add: map_add_Some_iff map_of_eq_None_iff)
  have "unmarshal_any_map (raw_of_text (json_text ?doc)) = Some payload"
    unfolding raw_of_text_def read_json_text [OF assms(1)] using fs by simp
  then show ?thesis using x m e(1) e' by (simp add: extractEmbeddedAPIError_def)
qed

section \<open>Canonical errors\<close>

definition canonical_types :: "string set" where
  "canonical_types = {''invalid_request_error'', ''server_error'', ''not_found_error'', ''conflict_error'', ''rate_limit_error'',
     ''authentication_error'', ''permission_error''}"

lemma canonical_type: "normalizeAPIErrorType status r \<in> canonical_types"
  by (simp add: normalizeAPIErrorType_def canonical_types_def Let_def)

lemma canonical_type_stable: "t \<in> canonical_types \<Longrightarrow> normalizeAPIErrorType status t = t"
proof -
  assume "t \<in> canonical_types"
  moreover have "\<forall>t \<in> canonical_types. to_lower (trim_space t) = t" unfolding canonical_types_def by code_simp
  ultimately show ?thesis by (auto simp: normalizeAPIErrorType_def canonical_types_def)
qed

lemma canonical_param_stable: "normalizeAPIErrorParam (normalizeAPIErrorParam v) = normalizeAPIErrorParam v"
  by (cases v rule: normalizeAPIErrorParam.cases) auto

lemma canonical_code_stable: "normalizeAPIErrorCode (normalizeAPIErrorCode v) = normalizeAPIErrorCode v"
  by (cases v rule: normalizeAPIErrorCode.cases) (auto simp: Let_def trim_space_idem)

text \<open>The four fields of a canonical error.\<close>

definition canonical_fields :: "string \<Rightarrow> string \<Rightarrow> json \<Rightarrow> json \<Rightarrow> json gomap" where
  "canonical_fields message ty param code =
     gomap_of [(''message'', JStr message), (''type'', JStr ty), (''param'', param), (''code'', code)]"

lemma canonical_entries:
  "any_entry (canonical_fields m t p c) ''message'' = JStr m" "any_entry (canonical_fields m t p c) ''type'' = JStr t"
  "any_entry (canonical_fields m t p c) ''param'' = p" "any_entry (canonical_fields m t p c) ''code'' = c"
  by (simp_all add: any_entry_def canonical_fields_def map_of_gomap_of)

lemma base_entries:
  "k \<in> set api_error_keys \<Longrightarrow> any_entry (gomap_of (map (\<lambda>k. (k, any_entry m k)) api_error_keys)) k = any_entry m k"
  by (auto simp: any_entry_def [of "gomap_of kvs" for kvs] map_of_gomap_of api_error_keys_def)

lemma normalized_payload:
  assumes "normalizeAPIErrorPayload status payload = Some c"
  obtains m r p x where "c = canonical_fields (trim_space m) (normalizeAPIErrorType status r) (normalizeAPIErrorParam p) (normalizeAPIErrorCode x)"
    "trim_space m \<noteq> []"
  using assms by (auto simp: normalizeAPIErrorPayload_def canonical_fields_def Let_def split: if_splits)

text \<open>An error of the upstream is brought into one shape, and that shape is stable. The canonical error has a
  message that is not blank, one of seven types, and a parameter and a code that are null or a text, never a
  number; unless its message quotes another error document, canonicalising it again changes nothing.\<close>

theorem canonical_error_stable:
  assumes "normalizeAPIErrorPayload status payload = Some c"
  shows "\<exists>m t p x. c = canonical_fields m t p x \<and> m \<noteq> [] \<and> trim_space m = m \<and> t \<in> canonical_types \<and>
    (p = JNull \<or> (\<exists>s. p = JStr s \<and> trim_space s \<noteq> [])) \<and> (x = JNull \<or> (\<exists>s. x = JStr s \<and> s \<noteq> [] \<and> atoi s = None)) \<and>
    (extractEmbeddedAPIError m = None \<longrightarrow> normalizeAPIErrorPayload status c = Some c)"
proof -
  obtain m r p x where c: "c = canonical_fields (trim_space m) (normalizeAPIErrorType status r) (normalizeAPIErrorParam p) (normalizeAPIErrorCode x)"
    "trim_space m \<noteq> []" using assms by (rule normalized_payload)
  have "normalizeAPIErrorPayload status c = Some c" if "extractEmbeddedAPIError (trim_space m) = None"
  proof -
    have keys: "''message'' \<in> set api_error_keys" "''type'' \<in> set api_error_keys" "''param'' \<in> set api_error_keys" "''code'' \<in> set api_error_keys"
      by (simp_all add: api_error_keys_def)
    show ?thesis
      unfolding normalizeAPIErrorPayload_def Let_def c(1) canonical_entries as_string.simps that option.case
        base_entries [OF keys(1)] base_entries [OF keys(2)] base_entries [OF keys(3)] base_entries [OF keys(4)]
      using c(2) by (simp add: canonical_entries trim_space_idem canonical_type_stable [OF canonical_type] canonical_param_stable
          canonical_code_stable canonical_fields_def)
  qed
  moreover have "normalizeAPIErrorParam p = JNull \<or> (\<exists>s. normalizeAPIErrorParam p = JStr s \<and> trim_space s \<noteq> [])"
    by (cases p rule: normalizeAPIErrorParam.cases) auto
  moreover have "normalizeAPIErrorCode x = JNull \<or> (\<exists>s. normalizeAPIErrorCode x = JStr s \<and> s \<noteq> [] \<and> atoi s = None)"
    by (cases x rule: normalizeAPIErrorCode.cases) (auto simp: Let_def)
  ultimately show ?thesis
    by (intro exI [of _ "trim_space m"] exI [of _ "normalizeAPIErrorType status r"] exI [of _ "normalizeAPIErrorParam p"]
        exI [of _ "normalizeAPIErrorCode x"] conjI impI) (use c canonical_type in \<open>simp_all\<close>)
qed

theorem canonical_error_stable_witness:
  "\<exists>c. normalizeAPIErrorPayload 404 [(''code'', JNum ''404''), (''message'', JStr '' gone '')] = Some c \<and>
    c = canonical_fields ''gone'' ''not_found_error'' JNull JNull \<and> normalizeAPIErrorPayload 404 c = Some c"
proof -
  have n: "normalizeAPIErrorPayload 404 [(''code'', JNum ''404''), (''message'', JStr '' gone '')] =
      Some (canonical_fields ''gone'' ''not_found_error'' JNull JNull)" by code_simp
  have x: "extractEmbeddedAPIError ''gone'' = None" by code_simp
  obtain m t p y where "canonical_fields ''gone'' ''not_found_error'' JNull JNull = canonical_fields m t p y"
    "extractEmbeddedAPIError m = None \<longrightarrow>
      normalizeAPIErrorPayload 404 (canonical_fields ''gone'' ''not_found_error'' JNull JNull) =
      Some (canonical_fields ''gone'' ''not_found_error'' JNull JNull)"
    using canonical_error_stable [OF n] by (elim exE conjE) (rule that; assumption)
  moreover from this(1) have "m = ''gone''" using canonical_entries(1) by (metis json.inject(3))
  ultimately show ?thesis using n x by simp
qed

theorem embedded_error_found_witness:
  "extractEmbeddedAPIError (''upstream said: '' @ json_text (JObj [(''error'', JObj [(''message'', JStr ''boom'')])]) @ ''.'') =
    Some [(''message'', JStr ''boom'')]"
proof -
  have "wf_json (JObj [(''error'', JObj [(''message'', JStr ''boom'')])])" by (simp add: valid_utf8_all_ascii del: valid_utf8.simps)
  moreover have a: "any_of (JObj [(''error'', JObj [(''message'', JStr ''boom'')])]) =
      Some (JObj [(''error'', JObj [(''message'', JStr ''boom'')])])" by (simp add: gomap_of_def)
  ultimately show ?thesis
    using embedded_error_found [of "[(''message'', JStr ''boom'')]" "[]" "''upstream said: ''" "[(''error'', JObj [(''message'', JStr ''boom'')])]" "''.''"]
    by auto
qed

end
