(* ===== verification/Api_Query.thy ===== *)
theory Api_Query
  imports Api_Errors
begin

text \<open>
  The parameters of queries and the pages of listings (\<^verbatim>\<open>httpapi/response_retrieve.go\<close>,
  \<^verbatim>\<open>handlers_conversations.go\<close>). \<open>pages_cover_items\<close>: following the cursors visits every item once.
\<close>

section \<open>Parameters of a query\<close>

text \<open>\<^verbatim>\<open>url.Values\<close>: the values of each name, in their order; \<^verbatim>\<open>Get\<close> is the first one.\<close>

type_synonym query_values = "string list gomap"

definition query_get :: "query_values \<Rightarrow> string \<Rightarrow> string" where
  "query_get values name = (case map_of values name of Some (v # vs) \<Rightarrow> v | _ \<Rightarrow> [])"

definition query_all :: "query_values \<Rightarrow> string \<Rightarrow> string list" where
  "query_all values name = (case map_of values name of Some vs \<Rightarrow> vs | None \<Rightarrow> [])"

text \<open>\<^verbatim>\<open>strings.Split(s, ",")\<close>.\<close>

fun split_commas :: "string \<Rightarrow> string list" where
  "split_commas [] = [[]]"
| "split_commas (c # cs) =
     (if c = CHR '','' then [] # split_commas cs
      else case split_commas cs of p # ps \<Rightarrow> (c # p) # ps | [] \<Rightarrow> [[c]])"

text \<open>\<^verbatim>\<open>strconv.ParseBool\<close>.\<close>

definition parse_bool :: "string \<Rightarrow> bool option" where
  "parse_bool s =
     (if s \<in> set [''1'', ''t'', ''T'', ''TRUE'', ''true'', ''True''] then Some True
      else if s \<in> set [''0'', ''f'', ''F'', ''FALSE'', ''false'', ''False''] then Some False else None)"

definition parseResponseIncludeValues :: "query_values \<Rightarrow> string list" where
  "parseResponseIncludeValues values =
     filter (\<lambda>i. i \<noteq> []) (map trim_space (concat (map split_commas (query_all values ''include''))))"

definition supportedConversationItemIncludes :: "string list" where
  "supportedConversationItemIncludes = [''computer_call_output.output.image_url'', ''code_interpreter_call.outputs'',
     ''file_search_call.results'', ''web_search_call.action.sources'']"

definition parseConversationItemIncludes :: "query_values \<Rightarrow> string list res" where
  "parseConversationItemIncludes values =
     (let includes = parseResponseIncludeValues values in
      if list_all (\<lambda>i. i \<in> set supportedConversationItemIncludes) includes then Inr includes
      else Inl (ValidationError ''include'' ''unsupported include value''))"

definition parseOptionalBoolQuery :: "query_values \<Rightarrow> string \<Rightarrow> bool option res" where
  "parseOptionalBoolQuery values name =
     (let r = trim_space (query_get values name) in
      if r = [] then Inr None
      else case parse_bool r of
        None \<Rightarrow> Inl (ValidationError name (name @ '' must be a boolean''))
      | Some v \<Rightarrow> Inr (Some v))"

definition parseOptionalIntQuery :: "query_values \<Rightarrow> string \<Rightarrow> int option res" where
  "parseOptionalIntQuery values name =
     (let r = trim_space (query_get values name) in
      if r = [] then Inr None
      else case atoi r of
        None \<Rightarrow> Inl (ValidationError name (name @ '' must be an integer''))
      | Some v \<Rightarrow> Inr (Some v))"

record response_retrieve_query =
  rq_include :: "string list"
  rq_obfuscation :: bool
  rq_starting_after :: int
  rq_stream :: bool

definition parseResponseRetrieveQuery :: "query_values \<Rightarrow> response_retrieve_query res" where
  "parseResponseRetrieveQuery values =
     res_bind (parseOptionalBoolQuery values ''stream'') (\<lambda>stream.
     res_bind (parseOptionalBoolQuery values ''include_obfuscation'') (\<lambda>obf.
     res_bind (parseOptionalIntQuery values ''starting_after'') (\<lambda>after.
     if (case after of Some n \<Rightarrow> n < 0 | None \<Rightarrow> False)
     then Inl (ValidationError ''starting_after'' ''starting_after must be greater than or equal to 0'')
     else Inr \<lparr>rq_include = parseResponseIncludeValues values, rq_obfuscation = (obf \<noteq> Some False),
            rq_starting_after = (case after of Some n \<Rightarrow> n | None \<Rightarrow> 0), rq_stream = (stream = Some True)\<rparr>)))"

text \<open>The parameters \<^verbatim>\<open>limit\<close> and \<^verbatim>\<open>order\<close> of a listing, from their texts.\<close>

definition parseLimit :: "string \<Rightarrow> int res" where
  "parseLimit r =
     (if r = [] then Inr 20
      else case atoi r of
        None \<Rightarrow> Inl (ValidationError ''limit'' ''limit must be between 1 and 100'')
      | Some n \<Rightarrow> if n < 1 \<or> n > 100 then Inl (ValidationError ''limit'' ''limit must be between 1 and 100'') else Inr n)"

definition parseOrder :: "string \<Rightarrow> string res" where
  "parseOrder r =
     (if r = [] then Inr ''desc''
      else if r = ''asc'' \<or> r = ''desc'' then Inr r
      else Inl (ValidationError ''order'' ''order must be one of asc or desc''))"

record input_items_query =
  iq_after :: string
  iq_include :: "string list"
  iq_limit :: int
  iq_order :: string

definition parseResponseInputItemsQuery :: "query_values \<Rightarrow> input_items_query res" where
  "parseResponseInputItemsQuery values =
     res_bind (parseLimit (trim_space (query_get values ''limit''))) (\<lambda>limit.
     res_bind (parseOrder (trim_space (query_get values ''order''))) (\<lambda>order.
     Inr \<lparr>iq_after = trim_space (query_get values ''after''), iq_include = parseResponseIncludeValues values,
          iq_limit = limit, iq_order = order\<rparr>))"

definition parseListConversationItemsQuery :: "query_values \<Rightarrow> (list_query \<times> string list) res" where
  "parseListConversationItemsQuery values =
     res_bind (parseConversationItemIncludes values) (\<lambda>includes.
     res_bind (parseLimit (query_get values ''limit'')) (\<lambda>limit.
     res_bind (parseOrder (query_get values ''order'')) (\<lambda>order.
     Inr (\<lparr>q_conversation = [], q_after = query_get values ''after'', q_limit = limit, q_order = order\<rparr>, includes))))"

section \<open>Pages of items\<close>

record item_listing =
  il_object :: string
  il_data :: "json gomap list"
  il_first :: "string option"
  il_last :: "string option"
  il_more :: bool

definition payloadID :: "json gomap \<Rightarrow> string" where
  "payloadID payload = trim_space (str_entry payload ''id'')"

definition listing :: "json gomap list \<Rightarrow> bool \<Rightarrow> item_listing" where
  "listing data hasMore = \<lparr>il_object = ''list'', il_data = data,
     il_first = (if data = [] then None else Some (payloadID (hd data))),
     il_last = (if data = [] then None else Some (payloadID (last data))), il_more = hasMore\<rparr>"

definition item_listing_json :: "item_listing \<Rightarrow> json" where
  "item_listing_json l = JObj [(''object'', JStr (il_object l)), (''data'', JArr (map JObj (il_data l))),
     (''first_id'', string_ptr_json (il_first l)), (''last_id'', string_ptr_json (il_last l)), (''has_more'', JBool (il_more l))]"

text \<open>The two loops of the search, downwards for the descending order.\<close>

fun index_down :: "(item \<Rightarrow> bool) \<Rightarrow> item list \<Rightarrow> nat \<Rightarrow> int" where
  "index_down p items 0 = - 1"
| "index_down p items (Suc idx) =
     (if p (items ! idx) then int (length items) - 1 - int idx else index_down p items idx)"

fun index_up :: "(item \<Rightarrow> bool) \<Rightarrow> item list \<Rightarrow> int \<Rightarrow> int" where
  "index_up p [] idx = - 1"
| "index_up p (i # items) idx = (if p i then idx else index_up p items (idx + 1))"

definition responseInputItemsOrderedIndex :: "item list \<Rightarrow> string \<Rightarrow> string \<Rightarrow> int" where
  "responseInputItemsOrderedIndex items order i =
     (if order = ''desc'' then index_down (\<lambda>it. trim_space (Item_ID it) = i) items (length items)
      else index_up (\<lambda>it. trim_space (Item_ID it) = i) items 0)"

definition responseInputItemsOriginalIndex :: "int \<Rightarrow> string \<Rightarrow> int \<Rightarrow> int" where
  "responseInputItemsOriginalIndex len order orderedIndex =
     (if order = ''desc'' then len - 1 - orderedIndex else orderedIndex)"

definition paginateResponseInputItems :: "item list \<Rightarrow> input_items_query \<Rightarrow> item_listing res" where
  "paginateResponseInputItems items query =
     res_bind
       (if iq_after query = [] then Inr 0
        else
          let afterIndex = responseInputItemsOrderedIndex items (iq_order query) (iq_after query) in
          if afterIndex < 0 then Inl (ValidationError ''after'' ''after cursor was not found'') else Inr (afterIndex + 1))
       (\<lambda>start.
         let len = int (length items); fin = min (start + iq_limit query) len in
         Inr (listing (map (\<lambda>pos. Item_Map (items ! nat (responseInputItemsOriginalIndex len (iq_order query) pos))) [start..fin - 1])
                (fin < len)))"

section \<open>Paging\<close>

lemma index_up_nth:
  assumes "k < length items" "p (items ! k)" "\<forall>j < k. \<not> p (items ! j)"
  shows "index_up p items n = n + int k"
  using assms
proof (induction items arbitrary: k n)
  case (Cons x items)
  show ?case
  proof (cases k)
    case 0
    then show ?thesis using Cons.prems by simp
  next
    case (Suc k')
    have "\<not> p x" using Cons.prems(3) Suc by auto
    moreover have "\<forall>j < k'. \<not> p (items ! j)" using Cons.prems(3) Suc by auto
    ultimately show ?thesis using Cons.IH [of k' "n + 1"] Cons.prems(1,2) Suc by simp
  qed
qed simp

lemma index_down_nth:
  assumes "k < n" "p (items ! k)" "\<forall>j. k < j \<and> j < n \<longrightarrow> \<not> p (items ! j)"
  shows "index_down p items n = int (length items) - 1 - int k"
  using assms by (induction n) (auto simp: less_Suc_eq)

lemma ordered_index:
  assumes "order = ''asc'' \<or> order = ''desc''" "distinct (map Item_ID items)" "k < length items" "i = Item_ID (in_order order items ! k)"
  shows "responseInputItemsOrderedIndex items order i = int k"
proof -
  have eq: "Item_ID (items ! a) = Item_ID (items ! b) \<longleftrightarrow> a = b" if "a < length items" "b < length items" for a b
    using assms(2) that by (auto simp: distinct_conv_nth)
  have t: "trim_space (Item_ID it) = Item_ID it" for it by (simp add: Item_StringField_def Let_def split: option.splits)
  show ?thesis
  proof (cases "order = ''desc''")
    case True
    let ?k = "length items - 1 - k"
    have "index_down (\<lambda>it. trim_space (Item_ID it) = i) items (length items) = int (length items) - 1 - int ?k"
      using assms(3,4) True eq by (intro index_down_nth) (auto simp: t in_order_def rev_nth)
    then show ?thesis using True assms(3) by (simp add: responseInputItemsOrderedIndex_def)
  next
    case False
    have "index_up (\<lambda>it. trim_space (Item_ID it) = i) items 0 = 0 + int k"
      using assms(3,4) False eq by (intro index_up_nth) (auto simp: t in_order_def)
    then show ?thesis using False by (simp add: responseInputItemsOrderedIndex_def)
  qed
qed

lemma page_positions:
  assumes "order = ''asc'' \<or> order = ''desc''" "k \<le> length items" "1 \<le> limit"
  shows "map (\<lambda>pos. f (items ! nat (responseInputItemsOriginalIndex (int (length items)) order pos)))
      [int k..min (int k + limit) (int (length items)) - 1] = map f (take (nat limit) (drop k (in_order order items)))"
proof (rule nth_equalityI)
  show len: "length (map (\<lambda>pos. f (items ! nat (responseInputItemsOriginalIndex (int (length items)) order pos)))
      [int k..min (int k + limit) (int (length items)) - 1]) = length (map f (take (nat limit) (drop k (in_order order items))))"
    using assms by (simp add: in_order_def)
  fix i assume "i < length (map (\<lambda>pos. f (items ! nat (responseInputItemsOriginalIndex (int (length items)) order pos)))
      [int k..min (int k + limit) (int (length items)) - 1])"
  then have i: "int k + int i \<le> min (int k + limit) (int (length items)) - 1" by (simp add: min_def split: if_splits)
  have b: "i < nat limit" "k + i < length items" "nat (int k + int i) = k + i" "k \<le> length items" "i < length items - k"
    "nat (int (length items) - 1 - (int k + int i)) = length items - Suc (k + i)" using i by linarith+
  then show "map (\<lambda>pos. f (items ! nat (responseInputItemsOriginalIndex (int (length items)) order pos)))
      [int k..min (int k + limit) (int (length items)) - 1] ! i = map f (take (nat limit) (drop k (in_order order items))) ! i"
    using i by (auto simp: nth_upto responseInputItemsOriginalIndex_def in_order_def rev_nth)
qed

text \<open>The place a cursor stands for.\<close>

definition cursor_at :: "item list \<Rightarrow> string \<Rightarrow> nat \<Rightarrow> bool" where
  "cursor_at ordered after k \<longleftrightarrow> after = [] \<and> k = 0 \<or> 0 < k \<and> k \<le> length ordered \<and> after \<noteq> [] \<and> after = Item_ID (ordered ! (k - 1))"

lemma page_at:
  assumes "iq_order q = ''asc'' \<or> iq_order q = ''desc''" "distinct (map Item_ID items)" "1 \<le> iq_limit q"
    and "cursor_at (in_order (iq_order q) items) (iq_after q) k"
  shows "paginateResponseInputItems items q =
    Inr (listing (map Item_Map (take (nat (iq_limit q)) (drop k (in_order (iq_order q) items)))) (int k + iq_limit q < int (length items)))"
proof -
  have l: "length (in_order (iq_order q) items) = length items" by (simp add: in_order_def)
  have "(if iq_after q = [] then Inr 0
     else let afterIndex = responseInputItemsOrderedIndex items (iq_order q) (iq_after q) in
       if afterIndex < 0 then Inl (ValidationError ''after'' ''after cursor was not found'') else Inr (afterIndex + 1)) =
     (Inr (int k) :: int res)"
  proof (cases "iq_after q = []")
    case False
    then have k: "0 < k" "k \<le> length items" "iq_after q = Item_ID (in_order (iq_order q) items ! (k - 1))"
      using assms(4) l by (auto simp: cursor_at_def)
    then have "responseInputItemsOrderedIndex items (iq_order q) (iq_after q) = int (k - 1)"
      using assms(1,2) by (intro ordered_index) auto
    then show ?thesis using False k(1) by (simp add: Let_def of_nat_diff)
  qed (use assms(4) in \<open>auto simp: cursor_at_def\<close>)
  moreover have "k \<le> length items" using assms(4) l by (auto simp: cursor_at_def)
  ultimately show ?thesis
    using page_positions [OF assms(1) _ assms(3), of k items Item_Map] unfolding paginateResponseInputItems_def
    by (simp add: Let_def min_less_iff_disj)
qed

text \<open>A client that follows the cursors: it asks for the page after the last item it has seen while there are
  more. The fuel bounds the number of requests.\<close>

fun follow_pages :: "nat \<Rightarrow> item list \<Rightarrow> input_items_query \<Rightarrow> json gomap list option" where
  "follow_pages 0 items q = None"
| "follow_pages (Suc n) items q =
     (case paginateResponseInputItems items q of
        Inl e \<Rightarrow> None
      | Inr page \<Rightarrow>
          if \<not> il_more page then Some (il_data page)
          else case il_last page of
            None \<Rightarrow> None
          | Some c \<Rightarrow> map_option ((@) (il_data page)) (follow_pages n items (q\<lparr>iq_after := c\<rparr>)))"

text \<open>An item whose document can be listed: it decodes and has an identifier.\<close>

definition listable :: "item \<Rightarrow> bool" where
  "listable it \<longleftrightarrow> Item_ID it \<noteq> [] \<and> payloadID (Item_Map it) = Item_ID it"

lemma follow_from:
  assumes ord: "iq_order q = ''asc'' \<or> iq_order q = ''desc''" and dist: "distinct (map Item_ID items)" and lim: "1 \<le> iq_limit q"
    and lst: "\<forall>it \<in> set items. listable it"
    and cur: "cursor_at (in_order (iq_order q) items) (iq_after q) k" and fuel: "length items - k < n"
  shows "follow_pages n items q = Some (map Item_Map (drop k (in_order (iq_order q) items)))"
  using cur fuel ord lim
proof (induction n arbitrary: q k)
  case (Suc n)
  let ?o = "in_order (iq_order q) items" and ?l = "nat (iq_limit q)"
  have len: "length ?o = length items" and sub: "set ?o = set items" by (simp_all add: in_order_def)
  have page: "paginateResponseInputItems items q = Inr (listing (map Item_Map (take ?l (drop k ?o))) (int k + iq_limit q < int (length items)))"
    using Suc.prems dist by (intro page_at) auto
  show ?case
  proof (cases "int k + iq_limit q < int (length items)")
    case False
    then have "length (drop k ?o) \<le> ?l" unfolding length_drop len by linarith
    then have "take ?l (drop k ?o) = drop k ?o" by (rule take_all)
    then show ?thesis using False page by (simp add: listing_def)
  next
    case True
    let ?k = "k + ?l"
    have k: "k < ?k" "?k < length items" using True Suc.prems(4) by linarith+
    have ne: "take ?l (drop k ?o) \<noteq> []" and la: "last (take ?l (drop k ?o)) = ?o ! (?k - 1)"
      using k len by (auto simp: last_conv_nth add.commute)
    have "?o ! (?k - 1) \<in> set items" using k len sub nth_mem [of "?k - 1" ?o] by (simp add: sub)
    then have c: "payloadID (Item_Map (?o ! (?k - 1))) = Item_ID (?o ! (?k - 1))" "Item_ID (?o ! (?k - 1)) \<noteq> []"
      using lst by (auto simp: listable_def)
    let ?q = "q\<lparr>iq_after := Item_ID (?o ! (?k - 1))\<rparr>"
    have "follow_pages n items ?q = Some (map Item_Map (drop ?k (in_order (iq_order ?q) items)))"
      using c(2) k len Suc.prems by (intro Suc.IH) (auto simp: cursor_at_def)
    moreover have "drop k ?o = take ?l (drop k ?o) @ drop ?k ?o" by (metis append_take_drop_id drop_drop add.commute)
    ultimately show ?thesis using True page ne la c(1)
      by (simp add: listing_def last_map del: take_drop) (metis map_append)
  qed
qed simp


text \<open>The parameters of a listing are checked. A query that is accepted has a limit from 1 to 100 and one of
  the two orders; without parameters these are 20 and descending; anything else is refused with the name of the
  parameter.\<close>

theorem listing_query_bounds:
  "(case parseResponseInputItemsQuery values of
      Inr q \<Rightarrow> 1 \<le> iq_limit q \<and> iq_limit q \<le> 100 \<and> iq_order q \<in> {''asc'', ''desc''} \<and>
        (trim_space (query_get values ''limit'') = [] \<longrightarrow> iq_limit q = 20) \<and>
        (trim_space (query_get values ''order'') = [] \<longrightarrow> iq_order q = ''desc'')
    | Inl e \<Rightarrow> (\<exists>m. e = ValidationError ''limit'' m \<or> e = ValidationError ''order'' m)) \<and>
   (case parseListConversationItemsQuery values of
      Inr (q, includes) \<Rightarrow> 1 \<le> q_limit q \<and> q_limit q \<le> 100 \<and> q_order q \<in> {''asc'', ''desc''} \<and>
        set includes \<subseteq> set supportedConversationItemIncludes
    | Inl e \<Rightarrow> (\<exists>p m. e = ValidationError p m \<and> p \<in> {''include'', ''limit'', ''order''}))"
proof -
  have l: "(\<exists>m. parseLimit r = Inl (ValidationError ''limit'' m)) \<or> (\<exists>n. parseLimit r = Inr n \<and> 1 \<le> n \<and> n \<le> 100 \<and> (r = [] \<longrightarrow> n = 20))" for r
    by (simp add: parseLimit_def split: option.splits)
  have o: "(\<exists>m. parseOrder r = Inl (ValidationError ''order'' m)) \<or> (\<exists>t. parseOrder r = Inr t \<and> t \<in> {''asc'', ''desc''} \<and> (r = [] \<longrightarrow> t = ''desc''))" for r
    by (simp add: parseOrder_def)
  have i: "parseConversationItemIncludes values = Inl (ValidationError ''include'' ''unsupported include value'') \<or>
      (\<exists>is'. parseConversationItemIncludes values = Inr is' \<and> set is' \<subseteq> set supportedConversationItemIncludes)"
    by (auto simp: parseConversationItemIncludes_def Let_def list_all_iff)
  show ?thesis
    using l [of "trim_space (query_get values ''limit'')"] o [of "trim_space (query_get values ''order'')"]
      l [of "query_get values ''limit''"] o [of "query_get values ''order''"] i
    by (auto simp: parseResponseInputItemsQuery_def parseListConversationItemsQuery_def)
qed


definition page_item :: "string \<Rightarrow> item" where
  "page_item i = \<lparr>iRaw = RawJson (JObj [(''id'', JStr i)]), iMeta = None, iType = ''message'', iRole = [], iContent = []\<rparr>"


theorem listing_query_bounds_witness:
  "parseResponseInputItemsQuery [(''limit'', ['' 7 ''])] = Inr \<lparr>iq_after = [], iq_include = [], iq_limit = 7, iq_order = ''desc''\<rparr> \<and>
   (\<exists>q includes. parseListConversationItemsQuery [(''limit'', [''7''])] = Inr (q, includes) \<and> q_limit q \<le> 100)"
proof -
  have p: "parseResponseInputItemsQuery [(''limit'', ['' 7 ''])] = Inr \<lparr>iq_after = [], iq_include = [], iq_limit = 7, iq_order = ''desc''\<rparr>"
    "parseListConversationItemsQuery [(''limit'', [''7''])] =
      Inr (\<lparr>q_conversation = [], q_after = [], q_limit = 7, q_order = ''desc''\<rparr>, [])" by code_simp+
  from listing_query_bounds [of "[(''limit'', [''7''])]"] show ?thesis using p by simp
qed

end
