(* ===== verification/Response_Streaming.thy ===== *)
theory Response_Streaming
  imports Api_Errors Response_Lifecycle
begin

text \<open>
  Creating a response as a stream: the options of the stream, the normalisation of the finished response
  (\<^verbatim>\<open>httpapi/response_streaming.go\<close>), the emitter (\<^verbatim>\<open>httpapi/sse.go\<close>) and the handler that feeds it from
  the hooks of the service (\<^verbatim>\<open>createStream\<close> and \<^verbatim>\<open>emitResponseStreamPrefixItem\<close> of
  \<^verbatim>\<open>httpapi/handlers_responses.go\<close>). The parameter \<open>flusher\<close> says whether the writer can flush; a write
  to the connection succeeds, so a step of the emitter fails only when its payload does not print.
  \<open>streamed_creation\<close> is what the client receives.
\<close>

section \<open>Options\<close>

text \<open>\<^verbatim>\<open>decodeRawFields\<close> and the decoding of \<^verbatim>\<open>stream_options\<close>; every key but \<^verbatim>\<open>include_obfuscation\<close> is refused (the
  loop over the keys is run in key order).\<close>

definition decodeRawFields :: "raw \<Rightarrow> json gomap res" where
  "decodeRawFields r = (case unmarshal_raw_map r of None \<Rightarrow> Inl JSONError | Some m \<Rightarrow> Inr m)"

definition parseCreateResponseStreamOptions :: "bool option \<Rightarrow> raw \<Rightarrow> bool res" where
  "parseCreateResponseStreamOptions stream r =
     (if raw_absent r then Inr True
      else if stream \<noteq> Some True then Inl (ValidationError ''stream_options'' ''stream_options is only supported when stream=true'')
      else case decodeRawFields r of
        Inl e \<Rightarrow> Inl (ValidationError ''stream_options'' ''stream_options must be an object'')
      | Inr m \<Rightarrow>
          (case filter (\<lambda>k. k \<noteq> ''include_obfuscation'') (map fst m) of
             k # _ \<Rightarrow> Inl (ValidationError ''stream_options'' (''unsupported stream_options field: '' @ k))
           | [] \<Rightarrow>
               (case r of
                  RawJson (JObj kvs) \<Rightarrow>
                    (case struct_bool_ptr ''include_obfuscation'' kvs None of
                       None \<Rightarrow> Inl (ValidationError ''stream_options'' ''stream_options must be an object'')
                     | Some None \<Rightarrow> Inr True
                     | Some (Some b) \<Rightarrow> Inr b)
                | _ \<Rightarrow> Inr True)))"

section \<open>Normalising a response for a stream\<close>

definition default_text_part :: "string \<Rightarrow> json gomap" where
  "default_text_part t = gomap_of [(''type'', JStr ''output_text''), (''text'', JStr t), (''annotations'', JArr [])]"

definition with_annotations :: "json gomap \<Rightarrow> json gomap" where
  "with_annotations part =
     (if trim_space (str_entry part ''type'') = ''output_text'' \<and> map_of part ''annotations'' = None
      then gomap_set ''annotations'' (JArr []) part else part)"

definition normalizeStreamingMessageContent :: "json option \<Rightarrow> string \<Rightarrow> json gomap list" where
  "normalizeStreamingMessageContent content fallbackText =
     (case content of
        Some (JArr entries) \<Rightarrow>
          (let parts = map with_annotations (object_parts entries) in
           if entries = [] \<or> parts = [] then [default_text_part fallbackText] else parts)
      | _ \<Rightarrow> [default_text_part fallbackText])"

fun fallbackString :: "string list \<Rightarrow> string" where
  "fallbackString [] = []"
| "fallbackString (v # vs) = (if trim_space v \<noteq> [] then trim_space v else fallbackString vs)"

definition blank_entry :: "json gomap \<Rightarrow> string \<Rightarrow> bool" where
  "blank_entry payload k \<longleftrightarrow> trim_space (str_entry payload k) = []"

definition set_blank :: "string \<Rightarrow> string \<Rightarrow> json gomap \<Rightarrow> json gomap" where
  "set_blank k v payload = (if blank_entry payload k then gomap_set k (JStr v) payload else payload)"

definition streamingItemPayload :: "string \<Rightarrow> string \<Rightarrow> item \<Rightarrow> json gomap" where
  "streamingItemPayload outputText preferred item =
     (let p0 = Item_Map item;
          p1 = (if trim_space preferred \<noteq> [] then gomap_set ''id'' (JStr (trim_space preferred)) p0 else p0);
          p2 = set_blank ''type'' (fallbackString [iType item, ''message'']) p1
      in if trim_space (str_entry p2 ''type'') = ''message'' then
           let p3 = set_blank ''status'' ''completed'' (set_blank ''role'' (fallbackString [iRole item, ''assistant'']) p2)
           in gomap_set ''content'' (JArr (map JObj (normalizeStreamingMessageContent (map_of p3 ''content'') outputText))) p3
         else p2)"

definition normalizeResponseForStreaming ::
  "(nat \<Rightarrow> string option) \<Rightarrow> nat \<Rightarrow> response \<Rightarrow> (nat \<times> string) list \<Rightarrow> (response \<times> nat) res" where
  "normalizeResponseForStreaming uuid n response preferredItemIDs =
     (let outputItems = responseReplayOutputItems response in
      if outputItems = [] then Inr (response, n)
      else
        res_bind (map_res (\<lambda>(index, item). Item_WithMap item
            (streamingItemPayload (rp_output_text response)
               (case map_of preferredItemIDs index of Some i \<Rightarrow> i | None \<Rightarrow> []) item))
          (List.enumerate 0 outputItems)) (\<lambda>rewritten.
        res_bind (EnsureItemIDs uuid n rewritten) (\<lambda>(items, n1).
        Inr (response\<lparr>rp_output := items,
               rp_output_text := (if trim_space (rp_output_text response) = [] \<and> items \<noteq> [] then MessageText (hd items)
                                  else rp_output_text response)\<rparr>, n1))))"

section \<open>The emitter\<close>

record stream_emitter =
  em_out :: string
  em_seq :: nat
  em_obfuscation :: bool

text \<open>\<^verbatim>\<open>nextSequence\<close> and \<^verbatim>\<open>write\<close>: the number is taken before the payload is printed.\<close>

definition emit_next :: "replay_event \<Rightarrow> stream_emitter \<Rightarrow> (unit, stream_emitter) outcome" where
  "emit_next event em =
     (let n = Suc (em_seq em) in
      case sseReplayEmit (number_event n event) (em_out em) of (r, out) \<Rightarrow> (r, em\<lparr>em_seq := n, em_out := out\<rparr>))"

definition emitter_responseCreated :: "response \<Rightarrow> stream_emitter \<Rightarrow> (unit, stream_emitter) outcome" where
  "emitter_responseCreated r = emit_next (response_event ''response.created'' r)"

definition emitter_responseInProgress :: "response \<Rightarrow> stream_emitter \<Rightarrow> (unit, stream_emitter) outcome" where
  "emitter_responseInProgress r = emit_next (response_event ''response.in_progress'' r)"

definition emitter_outputItemAddedAt :: "nat \<Rightarrow> json gomap \<Rightarrow> stream_emitter \<Rightarrow> (unit, stream_emitter) outcome" where
  "emitter_outputItemAddedAt outputIndex item = emit_next (outputItemEvent ''response.output_item.added'' outputIndex item)"

definition announced_message :: "string \<Rightarrow> json gomap" where
  "announced_message itemID = gomap_of [(''id'', JStr itemID), (''type'', JStr ''message''), (''status'', JStr ''in_progress''),
     (''role'', JStr ''assistant''), (''content'', JArr [])]"

definition emitter_outputItemAddedMessage :: "string \<Rightarrow> nat \<Rightarrow> stream_emitter \<Rightarrow> (unit, stream_emitter) outcome" where
  "emitter_outputItemAddedMessage itemID outputIndex = emitter_outputItemAddedAt outputIndex (announced_message itemID)"

definition emitter_contentPartAddedAt :: "string \<Rightarrow> nat \<Rightarrow> stream_emitter \<Rightarrow> (unit, stream_emitter) outcome" where
  "emitter_contentPartAddedAt itemID outputIndex =
     emit_next (contentPartEvent ''response.content_part.added'' itemID outputIndex 0 (default_text_part []))"

definition emitter_outputTextDeltaAt :: "string \<Rightarrow> string \<Rightarrow> nat \<Rightarrow> string \<Rightarrow> stream_emitter \<Rightarrow> (unit, stream_emitter) outcome" where
  "emitter_outputTextDeltaAt responseID itemID outputIndex delta em =
     emit_next (responseReplayTextDeltaEvent responseID itemID outputIndex 0 delta (em_obfuscation em)) em"

definition text_done_event :: "string \<Rightarrow> string \<Rightarrow> nat \<Rightarrow> nat \<Rightarrow> string \<Rightarrow> replay_event" where
  "text_done_event responseID itemID outputIndex contentIndex t = doc_event ''response.output_text.done''
     [(''response_id'', JStr responseID), (''item_id'', JStr itemID), (''output_index'', JNat outputIndex),
      (''content_index'', JNat contentIndex), (''text'', JStr t)]"

definition emitter_outputTextDoneAt :: "string \<Rightarrow> string \<Rightarrow> nat \<Rightarrow> string \<Rightarrow> stream_emitter \<Rightarrow> (unit, stream_emitter) outcome" where
  "emitter_outputTextDoneAt responseID itemID outputIndex t = emit_next (text_done_event responseID itemID outputIndex 0 t)"

definition emitter_contentPartDoneAt :: "string \<Rightarrow> nat \<Rightarrow> string \<Rightarrow> stream_emitter \<Rightarrow> (unit, stream_emitter) outcome" where
  "emitter_contentPartDoneAt itemID outputIndex t =
     emit_next (contentPartEvent ''response.content_part.done'' itemID outputIndex 0 (default_text_part t))"

definition emitter_outputItemDoneAt :: "string \<Rightarrow> item \<Rightarrow> nat \<Rightarrow> stream_emitter \<Rightarrow> (unit, stream_emitter) outcome" where
  "emitter_outputItemDoneAt itemID item outputIndex =
     emit_next (outputItemEvent ''response.output_item.done'' outputIndex (gomap_set ''id'' (JStr itemID) (Item_Map item)))"

definition emitter_responseCompleted :: "response \<Rightarrow> stream_emitter \<Rightarrow> (unit, stream_emitter) outcome" where
  "emitter_responseCompleted r = emit_next (response_event ''response.completed'' r)"

definition emitter_error :: "api_error \<Rightarrow> stream_emitter \<Rightarrow> (unit, stream_emitter) outcome" where
  "emitter_error payload = emit_next (doc_event ''error'' [(''error'', api_error_json payload)])"

definition emitter_done :: "stream_emitter \<Rightarrow> stream_emitter" where
  "emitter_done em = em\<lparr>em_out := em_out em @ sse_done\<rparr>"

definition newResponseStreamEmitter :: "bool \<Rightarrow> bool \<Rightarrow> stream_emitter res" where
  "newResponseStreamEmitter flusher includeObfuscation =
     (if flusher then Inr \<lparr>em_out = [], em_seq = 0, em_obfuscation = includeObfuscation\<rparr>
      else Inl (Errorf ''response writer does not support streaming''))"

section \<open>Creating a response as a stream\<close>

definition emitResponseStreamPrefixItem :: "nat \<times> item \<Rightarrow> stream_emitter \<Rightarrow> (unit, stream_emitter) outcome" where
  "emitResponseStreamPrefixItem ii em =
     (case ii of (outputIndex, item) \<Rightarrow>
        sr_bind (emitter_outputItemAddedAt outputIndex (replayItemPayload item) em) (\<lambda>_ em1.
          emitter_outputItemDoneAt (trim_space (Item_ID item)) item outputIndex em1))"

fun emit_each :: "('a \<Rightarrow> 's \<Rightarrow> (unit, 's) outcome) \<Rightarrow> 'a list \<Rightarrow> 's \<Rightarrow> (unit, 's) outcome" where
  "emit_each f [] s = (Inr (), s)"
| "emit_each f (x # xs) s = sr_bind (f x s) (\<lambda>_ s1. emit_each f xs s1)"

text \<open>The variables the hooks share: the emitter, which is \<^verbatim>\<open>nil\<close> until the response is announced, the identifiers,
  the index of the message, and the supply of identifiers.\<close>

record stream_client =
  sc_emitter :: "stream_emitter option"
  sc_response :: string
  sc_item :: string
  sc_index :: nat
  sc_next :: nat

definition on_emitter :: "(stream_emitter \<Rightarrow> (unit, stream_emitter) outcome) \<Rightarrow> stream_client \<Rightarrow> (unit, stream_client) outcome" where
  "on_emitter f cl =
     (case sc_emitter cl of
        None \<Rightarrow> (Inl (GoPanic ''nil pointer dereference''), cl)
      | Some em \<Rightarrow> (case f em of (r, em1) \<Rightarrow> (r, cl\<lparr>sc_emitter := Some em1\<rparr>)))"

definition onCreated ::
  "(nat \<Rightarrow> string option) \<Rightarrow> bool \<Rightarrow> bool \<Rightarrow> response \<Rightarrow> item list \<Rightarrow> stream_client \<Rightarrow> (unit, stream_client) outcome" where
  "onCreated huuid flusher obf response outputPrefix cl =
     sr_bind (pure_step (newResponseStreamEmitter flusher obf) cl) (\<lambda>em cl.
     let cl1 = cl\<lparr>sc_emitter := Some em, sc_response := rp_id response\<rparr> in
     sr_bind (pure_step (EnsureItemIDs huuid (sc_next cl1) outputPrefix) cl1) (\<lambda>(pre, n1) cl1.
     sr_bind (pure_step (NewPrefixedID huuid n1 ''msg'') (cl1\<lparr>sc_next := n1\<rparr>)) (\<lambda>itemID cl2.
     let cl3 = cl2\<lparr>sc_item := itemID, sc_next := Suc n1\<rparr> in
     sr_bind (on_emitter (emitter_responseCreated response) cl3) (\<lambda>_ cl4.
     sr_bind (on_emitter (emitter_responseInProgress response) cl4) (\<lambda>_ cl5.
     sr_bind (on_emitter (emit_each emitResponseStreamPrefixItem (List.enumerate 0 pre)) cl5) (\<lambda>_ cl6.
     let cl7 = cl6\<lparr>sc_index := length pre\<rparr> in
     sr_bind (on_emitter (emitter_outputItemAddedMessage itemID (sc_index cl7)) cl7) (\<lambda>_ cl8.
     on_emitter (emitter_contentPartAddedAt itemID (sc_index cl8)) cl8)))))))"

definition onDelta :: "string \<Rightarrow> stream_client \<Rightarrow> (unit, stream_client) outcome" where
  "onDelta delta cl = on_emitter (emitter_outputTextDeltaAt (sc_response cl) (sc_item cl) (sc_index cl) delta) cl"

definition streamHooks :: "(nat \<Rightarrow> string option) \<Rightarrow> bool \<Rightarrow> bool \<Rightarrow> stream_client stream_hooks" where
  "streamHooks huuid flusher obf = \<lparr>sh_created = Some (onCreated huuid flusher obf), sh_delta = Some onDelta\<rparr>"

text \<open>The part of \<^verbatim>\<open>createStream\<close> after the service has returned the response. A write that fails ends the stream
  without an error.\<close>

definition finishWrites :: "response \<Rightarrow> stream_client \<Rightarrow> (unit, stream_client) outcome" where
  "finishWrites response cl =
     (let item = rp_output response ! sc_index cl;
          outputText = (if trim_space (rp_output_text response) = [] then MessageText item else rp_output_text response)
      in sr_bind (on_emitter (emitter_outputTextDoneAt (sc_response cl) (sc_item cl) (sc_index cl) outputText) cl) (\<lambda>_ cl1.
         sr_bind (on_emitter (emitter_contentPartDoneAt (sc_item cl1) (sc_index cl1) outputText) cl1) (\<lambda>_ cl2.
         sr_bind (on_emitter (emitter_outputItemDoneAt (sc_item cl2) item (sc_index cl2)) cl2) (\<lambda>_ cl3.
         sr_bind (on_emitter (emitter_responseCompleted response) cl3) (\<lambda>_ cl4.
         (Inr (), cl4\<lparr>sc_emitter := map_option emitter_done (sc_emitter cl4)\<rparr>))))))"

definition finishStream :: "(nat \<Rightarrow> string option) \<Rightarrow> response \<Rightarrow> stream_client \<Rightarrow> error option \<times> stream_client" where
  "finishStream huuid response0 cl =
     (case normalizeResponseForStreaming huuid (sc_next cl) response0 [(sc_index cl, sc_item cl)] of
        Inl e \<Rightarrow> (Some e, cl)
      | Inr (response, n1) \<Rightarrow>
          if length (rp_output response) \<le> sc_index cl
          then (Some (Errorf ''local stream completed without message output item''), cl)
          else (None, snd (finishWrites response (cl\<lparr>sc_next := n1\<rparr>))))"

definition createStream ::
  "'s response_service \<Rightarrow> (nat \<Rightarrow> string option) \<Rightarrow> (nat \<Rightarrow> string option) \<Rightarrow> clock \<Rightarrow> string \<Rightarrow> bool \<Rightarrow> bool \<Rightarrow>
   create_response_input \<Rightarrow> nat \<Rightarrow> 's \<Rightarrow> error option \<times> 's \<times> stream_client" where
  "createStream svc uuid huuid ck je flusher obf input n s =
     (case CreateStream svc uuid ck input (streamHooks huuid flusher obf) n
         (s, \<lparr>sc_emitter = None, sc_response = [], sc_item = [], sc_index = 0, sc_next = 0\<rparr>) of
        (Inl e, s', cl) \<Rightarrow>
          (case sc_emitter cl of
             None \<Rightarrow> (Some e, s', cl)
           | Some em \<Rightarrow> (None, s', cl\<lparr>sc_emitter := Some (snd (emitter_error (snd (MapError je e)) em))\<rparr>))
      | (Inr response, s', cl) \<Rightarrow> (case finishStream huuid response cl of (e, cl1) \<Rightarrow> (e, s', cl1)))"

section \<open>What a created stream holds\<close>

definition advance :: "replay_event list \<Rightarrow> stream_emitter \<Rightarrow> stream_emitter" where
  "advance events em = em\<lparr>em_seq := em_seq em + length events,
     em_out := em_out em @ written (numbered_from (Suc (em_seq em)) events)\<rparr>"

lemma written_append: "written (a @ b) = written a @ written b"
  by (simp add: written_def)

lemma numbered_from_append: "numbered_from n (a @ b) = numbered_from n a @ numbered_from (n + length a) b"
  by (induction a arbitrary: n) (simp_all add: numbered_from_def)

lemma advance_append: "advance b (advance a em) = advance (a @ b) em"
  by (simp add: advance_def written_append numbered_from_append)

lemma advance_Nil: "advance [] em = em"
  by (simp add: advance_def written_def numbered_from_def)

lemma advance_obfuscation [simp]: "em_obfuscation (advance events em) = em_obfuscation em"
  by (simp add: advance_def)

lemma emit_next_Inr: "emit_next e em = (Inr u, em') \<Longrightarrow> em' = advance [e] em"
  by (auto simp: emit_next_def Let_def sseReplayEmit_def sse_emit_def advance_def written_def numbered_from_def printed_event_def number_event_def
      split: prod.splits sum.splits)

lemma emit_next_ok: "\<exists>j. marshal_payload (re_payload e) = Inr j \<Longrightarrow> emit_next e em = (Inr (), advance [e] em)"
proof -
  assume "\<exists>j. marshal_payload (re_payload e) = Inr j"
  then have "\<exists>j. marshal_payload (re_payload (number_event (Suc (em_seq em)) e)) = Inr j" by (rule numbered_prints)
  from sse_replay_emit [OF this] show ?thesis
    by (simp add: emit_next_def Let_def advance_def numbered_from_def)
qed

text \<open>The events of one item of the pre.\<close>

definition prefix_events :: "nat \<times> item \<Rightarrow> replay_event list" where
  "prefix_events ii = (case ii of (i, item) \<Rightarrow>
     [outputItemEvent ''response.output_item.added'' i (replayItemPayload item),
      outputItemEvent ''response.output_item.done'' i (gomap_set ''id'' (JStr (trim_space (Item_ID item))) (Item_Map item))])"

lemma emit_prefix_Inr: "emitResponseStreamPrefixItem ii em = (Inr u, em') \<Longrightarrow> em' = advance (prefix_events ii) em"
  by (auto simp: emitResponseStreamPrefixItem_def sr_bind_Inr_iff emitter_outputItemAddedAt_def emitter_outputItemDoneAt_def
      prefix_events_def advance_append dest!: emit_next_Inr split: prod.splits)

lemma emit_each_Inr:
  "emit_each emitResponseStreamPrefixItem xs em = (Inr u, em') \<Longrightarrow> em' = advance (concat (map prefix_events xs)) em"
proof (induction xs arbitrary: em)
  case (Cons x xs)
  obtain em1 where "em1 = advance (prefix_events x) em" "emit_each emitResponseStreamPrefixItem xs em1 = (Inr u, em')"
    using Cons.prems by (auto simp: sr_bind_Inr_iff dest!: emit_prefix_Inr)
  with Cons.IH [of em1] show ?case by (simp add: advance_append)
qed (simp add: advance_Nil)

lemma on_emitter_Inr:
  "on_emitter f cl = (Inr u, cl') \<longleftrightarrow> (\<exists>em em'. sc_emitter cl = Some em \<and> f em = (Inr u, em') \<and> cl' = cl\<lparr>sc_emitter := Some em'\<rparr>)"
  by (auto simp: on_emitter_def split: option.splits prod.splits)

definition start_events :: "response \<Rightarrow> item list \<Rightarrow> string \<Rightarrow> replay_event list" where
  "start_events a pre itemID =
     [response_event ''response.created'' a, response_event ''response.in_progress'' a] @
     concat (map prefix_events (List.enumerate 0 pre)) @
     [outputItemEvent ''response.output_item.added'' (length pre) (announced_message itemID),
      contentPartEvent ''response.content_part.added'' itemID (length pre) 0 (default_text_part [])]"

lemma created_events:
  assumes "onCreated huuid flusher obf a items cl = (Inr (), cl')"
  obtains pre n1 itemID em where "EnsureItemIDs huuid (sc_next cl) items = Inr (pre, n1)" "NewPrefixedID huuid n1 ''msg'' = Inr itemID"
    "flusher" "em = \<lparr>em_out = [], em_seq = 0, em_obfuscation = obf\<rparr>"
    "cl' = \<lparr>sc_emitter = Some (advance (start_events a pre itemID) em), sc_response = rp_id a, sc_item = itemID,
       sc_index = length pre, sc_next = Suc n1\<rparr>"
proof -
  let ?em = "\<lparr>em_out = [], em_seq = 0, em_obfuscation = obf\<rparr> :: stream_emitter"
  have fl: "flusher" "newResponseStreamEmitter flusher obf = Inr ?em"
    using assms by (auto simp: onCreated_def outcome_simps newResponseStreamEmitter_def split: if_splits)
  obtain pre n1 itemID where p: "EnsureItemIDs huuid (sc_next cl) items = Inr (pre, n1)" "NewPrefixedID huuid n1 ''msg'' = Inr itemID"
    and st: "cl' = \<lparr>sc_emitter = Some (advance (start_events a pre itemID) ?em), sc_response = rp_id a, sc_item = itemID,
       sc_index = length pre, sc_next = Suc n1\<rparr>"
    using assms unfolding onCreated_def fl(2)
    by (auto simp: outcome_simps Let_def on_emitter_Inr emitter_responseCreated_def emitter_responseInProgress_def
        emitter_outputItemAddedMessage_def emitter_outputItemAddedAt_def emitter_contentPartAddedAt_def advance_append start_events_def
        dest!: emit_next_Inr emit_each_Inr)
  show thesis by (rule that [OF p fl(1) refl st])
qed

lemma hooked_stream:
  assumes "CreateStream svc uuid ck input (streamHooks huuid flusher obf) n (s, h) = (Inr r, s', h')"
  obtains p0 n0 s0 p n1 ctx b config md t h1 where "prepareCreate svc uuid ck input n s = (Inr (p0, n0), s0)"
    "applyAutomaticCompaction svc input p0 n0 = Inr (p, n1)"
    "buildLocalTextGenerationContext (pr_context p) (rl_summary_bytes (sv_limits svc)) = Inr (ctx, b)"
    "PrepareLocalResponseText input ctx = Inr config"
    "generateLocalResponseText (sv_generate svc) input ctx = Inr t" "trim_space t \<noteq> []"
    "completeCreate svc uuid ck p ctx input t n1 s0 = (Inr r, s')"
    "onCreated huuid flusher obf (announcedResponse p input config md) (pr_output_prefix p) h = (Inr (), h1)"
    "onDelta t h1 = (Inr (), h')"
  using assms unfolding CreateStream_def streamHooks_def
  by (auto simp: outcome_simps on_store_iff on_client_def split: if_splits prod.splits)

text \<open>The events after the answer of the model.\<close>

definition end_events :: "string \<Rightarrow> string \<Rightarrow> nat \<Rightarrow> response \<Rightarrow> replay_event list" where
  "end_events responseID itemID i r =
     (let t = (if trim_space (rp_output_text r) = [] then MessageText (rp_output r ! i) else rp_output_text r) in
      [text_done_event responseID itemID i 0 t,
       contentPartEvent ''response.content_part.done'' itemID i 0 (default_text_part t),
       outputItemEvent ''response.output_item.done'' i (gomap_set ''id'' (JStr itemID) (Item_Map (rp_output r ! i))),
       response_event ''response.completed'' r])"

lemma finish_writes:
  assumes "Response_MarshalJSON r = Inr doc" "sc_emitter cl = Some em"
  shows "finishWrites r cl =
    (Inr (), cl\<lparr>sc_emitter := Some (emitter_done (advance (end_events (sc_response cl) (sc_item cl) (sc_index cl) r) em))\<rparr>)"
  by (simp add: finishWrites_def Let_def on_emitter_def assms(2) emitter_outputTextDoneAt_def emitter_contentPartDoneAt_def
      emitter_outputItemDoneAt_def emitter_responseCompleted_def emit_next_ok doc_event_prints response_event_prints [OF assms(1)]
      text_done_event_def contentPartEvent_def outputItemEvent_def advance_append end_events_def)

abbreviation new_client :: stream_client where
  "new_client \<equiv> \<lparr>sc_emitter = None, sc_response = [], sc_item = [], sc_index = 0, sc_next = 0\<rparr>"

abbreviation new_emitter :: "bool \<Rightarrow> stream_emitter" where
  "new_emitter obf \<equiv> \<lparr>em_out = [], em_seq = 0, em_obfuscation = obf\<rparr>"

lemma with_map_wf: "Item_WithMap i p = Inr j \<Longrightarrow> item_wf j"
  by (auto simp: Item_WithMap_def NewItem_wf split: sum.splits)

lemma ensured_wf:
  assumes "EnsureItemIDs uuid n items = Inr (out, n')" "\<forall>i \<in> set items. item_wf i"
  shows "(\<forall>i \<in> set out. item_wf i) \<and> length out = length items"
proof -
  have l: "list_all2 (assigned uuid n n') items out" using EnsureItemIDs_spec [OF assms(1)] by blast
  have "item_wf j" if "assigned uuid n n' i j" "item_wf i" for i j
    using that by (auto simp: assigned_def Item_WithField_def intro: with_map_wf split: if_splits)
  with l assms(2) show ?thesis by (metis list_all2_conv_all_nth in_set_conv_nth)
qed

lemma wf_items_print: "\<forall>i \<in> set items. item_wf i \<Longrightarrow> \<exists>j. items_json items = Inr j"
proof -
  assume "\<forall>i \<in> set items. item_wf i"
  then have "\<forall>i \<in> set items. \<exists>j. item_json i = Inr j"
    by (auto simp: item_json_def Item_MarshalJSON_def elim!: item_wf_obtain)
  from map_res_all [OF this] show ?thesis by (simp add: items_json_def)
qed

text \<open>A response that prints still prints after it has been normalised, with as many items.\<close>

lemma normalized_for_stream:
  assumes "normalizeResponseForStreaming uuid n r preferred = Inr (r', n')" "Response_MarshalJSON r = Inr doc" "rp_output r \<noteq> []"
  shows "length (rp_output r') = length (rp_output r) \<and> (\<exists>doc. Response_MarshalJSON r' = Inr doc)"
proof -
  let ?rewrite = "\<lambda>(i, item). Item_WithMap item
    (streamingItemPayload (rp_output_text r) (case map_of preferred i of Some x \<Rightarrow> x | None \<Rightarrow> []) item)"
  obtain xs out where x: "map_res ?rewrite (List.enumerate 0 (rp_output r)) = Inr xs" "EnsureItemIDs uuid n xs = Inr (out, n')"
    and r': "r' = r\<lparr>rp_output := out, rp_output_text := rp_output_text r'\<rparr>"
    using assms(1,3) by (auto simp: normalizeResponseForStreaming_def Let_def responseReplayOutputItems_def res_bind_Inr_iff)
  have "\<forall>i \<in> set xs. item_wf i" using map_res_set [OF x(1)] with_map_wf by (fastforce split: prod.splits)
  from ensured_wf [OF x(2) this] have o: "\<forall>i \<in> set out. item_wf i" "length out = length xs" by auto
  obtain js where js: "items_json out = Inr js" using wf_items_print [OF o(1)] by blast
  have "\<forall>(k, m) \<in> set (response_entries r). \<exists>j. m = Inr j" using assms(2) marshal_response_ok_iff by blast
  then have "\<exists>doc. Response_MarshalJSON r' = Inr doc" unfolding marshal_response_ok_iff
    by (subst r') (auto simp: response_entries_def js split: option.splits)
  moreover have "length (rp_output r') = length (rp_output r)"
    using o(2) map_res_length [OF x(1)] by (subst r') simp
  ultimately show ?thesis by blast
qed

lemma completed_output:
  assumes "completeCreate svc uuid ck p ctx input t n s = (Inr r, s')"
  shows "length (rp_output r) = Suc (length (pr_output_prefix p)) \<and> (\<exists>doc. Response_MarshalJSON r = Inr doc)"
proof -
  obtain stored n1 where "completedRow uuid p ctx input t n = Inr (r, stored, n1)"
    using assms by (auto simp: completeCreate_def outcome_simps)
  then show ?thesis
  proof (rule completed_row_facts)
    fix doc n3 assume m: "marshalResponseJSON r = Inr doc"
      and e: "EnsureItemIDs uuid n3 (pr_output_prefix p @ [NewOutputTextMessage (rp_output_text r)]) = Inr (rp_output r, n1)"
    have "length (rp_output r) = Suc (length (pr_output_prefix p))"
      using list_all2_lengthD [OF ensured_identified [OF e]] by simp
    moreover have "\<exists>doc. Response_MarshalJSON r = Inr doc"
      using m by (auto simp: marshalResponseJSON_def split: sum.splits)
    ultimately show ?thesis by blast
  qed
qed


section \<open>A witness\<close>

abbreviation hello_part :: json where
  "hello_part \<equiv> JObj [(''annotations'', JArr []), (''logprobs'', JArr []), (''text'', JStr ''hello''), (''type'', JStr ''output_text'')]"

abbreviation hello_map :: "string \<Rightarrow> json gomap" where
  "hello_map i \<equiv> [(''content'', JArr [hello_part]), (''id'', JStr i), (''role'', JStr ''assistant''),
     (''status'', JStr ''completed''), (''type'', JStr ''message'')]"

lemma hello_item: "\<exists>j. NewItem (RawJson (JObj (hello_map i))) = Inr j \<and> Item_Map j = hello_map i \<and> Item_ID j = trim_space i"
proof -
  have k: "fold_case ''id'' = ''id''" by (simp add: fold_case.simps lower_char_def)
  show ?thesis
    by (simp add: NewItem_def key_folds k fold_case_output_keys Let_def Item_Map_def gomap_of_def less_list_code
        Item_StringField_def Item_RawField_def raw_entry_def)
qed

lemma streamed_item:
  assumes "Item_WithID (output_message ''hello'') ''item_u'' = Inr j"
  shows "\<exists>j'. Item_WithMap j (streamingItemPayload ''hello'' ''msg_u'' j) = Inr j' \<and> trim_space (Item_ID j') \<noteq> []"
proof -
  have "Item_Map (output_message ''hello'') = remove1 (''id'', JStr []) (hello_map [])"
    by (simp add: Item_Map_def output_message_def gomap_of_def less_list_code)
  then have "Item_WithMap (output_message ''hello'') (hello_map ''item_u'') = Inr j"
    using assms no_ids(2) by (simp add: Item_WithID_def Item_WithField_def less_list_code)
  then have j: "Item_Map j = hello_map ''item_u''"
    using hello_item [of "''item_u''"] by (auto simp: Item_WithMap_def Item_Map_def split: sum.splits)
  have "streamingItemPayload ''hello'' ''msg_u'' j = hello_map ''msg_u''"
    by (simp add: streamingItemPayload_def j Let_def set_blank_def blank_entry_def str_entry_def trim_space_word less_list_code
        normalizeStreamingMessageContent_def with_annotations_def List.map_filter_def)
  moreover obtain j' where "NewItem (RawJson (JObj (hello_map ''msg_u''))) = Inr j'" "Item_ID j' = ''msg_u''"
    using hello_item by (fastforce simp: trim_space_word)
  moreover have "Item_ID (j'\<lparr>iMeta := m\<rparr>) = Item_ID j'" for m by (simp add: Item_StringField_def Item_RawField_def)
  ultimately show ?thesis by (simp add: Item_WithMap_def trim_space_word)
qed

lemma sample_streamed:
  assumes c: "completeCreate sample_service sample_uuid sample_clock sample_answered (pc_context sample_context)
      (plain_request None) ''hello'' 1 empty_db = (Inr r, d')" "rp_output_text r = ''hello''"
  shows "\<exists>r' n'. normalizeResponseForStreaming sample_uuid 1 r [(0, ''msg_u'')] = Inr (r', n')"
proof -
  obtain stored n1 where "completedRow sample_uuid sample_answered (pc_context sample_context) (plain_request None) ''hello'' 1 = Inr (r, stored, n1)"
    using c by (auto simp: completeCreate_def outcome_simps)
  then show ?thesis
  proof (rule completed_row_facts)
    fix n3 assume "EnsureItemIDs sample_uuid n3 (pr_output_prefix sample_answered @ [NewOutputTextMessage (rp_output_text r)]) = Inr (rp_output r, n1)"
    then obtain j where j: "Item_WithID (output_message ''hello'') ''item_u'' = Inr j" "rp_output r = [j]"
      using c(2) no_ids by (auto simp: sample_answered_def NewOutputTextMessage_eq quotable_def unquotable_def NewPrefixedID_def sample_uuid_def
          trim_space_word split: sum.splits)
    obtain j' where "Item_WithMap j (streamingItemPayload ''hello'' ''msg_u'' j) = Inr j'" "trim_space (Item_ID j') \<noteq> []"
      using streamed_item [OF j(1)] by blast
    then show ?thesis using c(2) j(2)
      by (simp add: normalizeResponseForStreaming_def Let_def responseReplayOutputItems_def)
  qed
qed


end
