(* ===== verification/Request_Decoding.thy ===== *)
theory Request_Decoding
  imports Response_Streaming
begin

text \<open>
  The decoding of a request to create a response and the decision where it is answered
  (\<^verbatim>\<open>decodeCreateResponseRequestBody\<close> and the functions after it in \<^verbatim>\<open>httpapi/handlers_responses.go\<close>,
  \<^verbatim>\<open>mcp_tool_validation.go\<close>, \<^verbatim>\<open>handlers_responses_modes.go\<close>): the fields of the body, the checks of
  remote tools and of compaction policies, the options of the generation, the fields the server can answer itself,
  the errors for those it cannot, and the route of a request. What a route needs to know of the tools is its
  argument, as it is in the code. Loops over the keys of a map run in key order.
\<close>

section \<open>Tools of a request\<close>

definition decodeToolList :: "json gomap \<Rightarrow> json gomap list" where
  "decodeToolList rawFields =
     (case map_of rawFields ''tools'' of
        None \<Rightarrow> []
      | Some rawTools \<Rightarrow> (case unmarshal_any_maps (RawJson rawTools) of None \<Rightarrow> [] | Some tools \<Rightarrow> tools))"

abbreviation tools_error :: "string \<Rightarrow> 'a res" where
  "tools_error message \<equiv> Inl (ValidationError ''tools'' message)"

definition supportedConnectorIDs :: "string list" where
  "supportedConnectorIDs = [''connector_dropbox'', ''connector_gmail'', ''connector_googlecalendar'', ''connector_googledrive'',
     ''connector_microsoftteams'', ''connector_outlookcalendar'', ''connector_outlookemail'', ''connector_sharepoint'']"

text \<open>The headers of a tool are visited in key order.\<close>

fun checkHeaders :: "bool \<Rightarrow> bool \<Rightarrow> (string \<times> json) list \<Rightarrow> unit res" where
  "checkHeaders connector hasAuthorization [] = Inr ()"
| "checkHeaders connector hasAuthorization ((key, entry) # headers) =
     (case entry of
        JStr _ \<Rightarrow>
          if \<not> equal_fold (trim_space key) ''Authorization'' then checkHeaders connector hasAuthorization headers
          else if connector then tools_error ''connectors must not send headers.Authorization''
          else if hasAuthorization then tools_error ''mcp tools must not send both authorization and headers.Authorization''
          else checkHeaders connector hasAuthorization headers
      | _ \<Rightarrow> tools_error ''mcp.headers must be an object of string values'')"

definition validateMCPToolHeaders :: "json option \<Rightarrow> bool \<Rightarrow> bool \<Rightarrow> unit res" where
  "validateMCPToolHeaders v connector hasAuthorization =
     (case v of
        None \<Rightarrow> Inr ()
      | Some JNull \<Rightarrow> Inr ()
      | Some (JObj headers) \<Rightarrow> checkHeaders connector hasAuthorization headers
      | _ \<Rightarrow> tools_error ''mcp.headers must be an object of string values'')"

definition trimmed_entry :: "json gomap \<Rightarrow> string \<Rightarrow> string" where
  "trimmed_entry tool k = trim_space (str_entry tool k)"

definition validateMCPTool :: "json gomap \<Rightarrow> unit res" where
  "validateMCPTool tool =
     (let serverURL = trimmed_entry tool ''server_url''; connectorID = trimmed_entry tool ''connector_id'' in
      if (serverURL \<noteq> []) = (connectorID \<noteq> []) then tools_error ''mcp tools must set exactly one of server_url or connector_id''
      else if connectorID \<noteq> [] \<and> connectorID \<notin> set supportedConnectorIDs then tools_error ''invalid mcp.connector_id''
      else validateMCPToolHeaders (map_of tool ''headers'') (connectorID \<noteq> []) (trimmed_entry tool ''authorization'' \<noteq> []))"

fun validateMCPTools :: "string list \<Rightarrow> json gomap list \<Rightarrow> unit res" where
  "validateMCPTools seenLabels [] = Inr ()"
| "validateMCPTools seenLabels (tool # tools) =
     (if trimmed_entry tool ''type'' \<noteq> ''mcp'' then validateMCPTools seenLabels tools
      else
        let serverLabel = trimmed_entry tool ''server_label'' in
        if serverLabel = [] then tools_error ''mcp.server_label is required''
        else if serverLabel \<in> set seenLabels then tools_error ''duplicate mcp.server_label values are not supported''
        else res_bind (validateMCPTool tool) (\<lambda>_. validateMCPTools (serverLabel # seenLabels) tools))"

definition validateMCPToolDefinitions :: "json gomap \<Rightarrow> unit res" where
  "validateMCPToolDefinitions rawFields = validateMCPTools [] (decodeToolList rawFields)"

section \<open>Context management\<close>

abbreviation management_error :: "string \<Rightarrow> 'a res" where
  "management_error message \<equiv> Inl (ValidationError ''context_management'' message)"

definition in_quotes :: "string \<Rightarrow> string" where
  "in_quotes s = [CHR 34] @ s @ [CHR 34]"

text \<open>The keys of a policy are visited in key order. A document that decodes into the map of its fields is
  an object or \<^verbatim>\<open>null\<close>, and \<^verbatim>\<open>null\<close> has no type.\<close>

definition validateCreateResponseContextManagementEntry :: "json \<Rightarrow> unit res" where
  "validateCreateResponseContextManagementEntry entry =
     (case unmarshal_raw_map (RawJson entry) of
        None \<Rightarrow> management_error ''context_management entries must be objects''
      | Some m \<Rightarrow>
          (case map_of m ''type'' of
             None \<Rightarrow> management_error ''context_management entries require type''
           | Some typeRaw \<Rightarrow>
               (case unmarshal_string (RawJson typeRaw) of
                  None \<Rightarrow> management_error ''context_management entries require type''
                | Some policyType \<Rightarrow>
                    if trim_space policyType = [] then management_error ''context_management entries require type''
                    else if policyType \<noteq> ''compaction''
                    then management_error (''unsupported context_management type '' @ in_quotes policyType)
                    else case find (\<lambda>k. k \<noteq> ''type'' \<and> k \<noteq> ''compact_threshold'') (map fst m) of
                      Some key \<Rightarrow> management_error (''unsupported context_management field '' @ in_quotes key @ '' in compaction policy'')
                    | None \<Rightarrow>
                        (case entry of
                           JObj kvs \<Rightarrow>
                             (case struct_int_ptr ''compact_threshold'' kvs None of
                                None \<Rightarrow> management_error ''context_management entries must be objects''
                              | Some (Some n) \<Rightarrow>
                                  if n \<le> 0 then management_error ''context_management compaction policy requires compact_threshold > 0''
                                  else Inr ()
                              | Some None \<Rightarrow> management_error ''context_management compaction policy requires compact_threshold > 0'')
                         | _ \<Rightarrow> management_error ''context_management compaction policy requires compact_threshold > 0''))))"

fun each_ok :: "('a \<Rightarrow> unit res) \<Rightarrow> 'a list \<Rightarrow> unit res" where
  "each_ok f [] = Inr ()"
| "each_ok f (x # xs) = res_bind (f x) (\<lambda>_. each_ok f xs)"

definition validateCreateResponseContextManagement :: "raw \<Rightarrow> unit res" where
  "validateCreateResponseContextManagement r =
     (if raw_absent r then Inr ()
      else case unmarshal_raw_list r of
        None \<Rightarrow> management_error ''context_management must be an array''
      | Some entries \<Rightarrow> each_ok validateCreateResponseContextManagementEntry entries)"

section \<open>The body of a request\<close>

record create_request =
  cq_model :: string
  cq_input :: raw
  cq_text :: raw
  cq_metadata :: raw
  cq_context_management :: raw
  cq_store :: "bool option"
  cq_stream :: "bool option"
  cq_stream_options :: raw
  cq_background :: "bool option"
  cq_previous :: string
  cq_conversation :: string
  cq_instructions :: string

definition empty_create_request :: create_request where
  "empty_create_request = \<lparr>cq_model = [], cq_input = RawEmpty, cq_text = RawEmpty, cq_metadata = RawEmpty,
     cq_context_management = RawEmpty, cq_store = None, cq_stream = None, cq_stream_options = RawEmpty, cq_background = None,
     cq_previous = [], cq_conversation = [], cq_instructions = []\<rparr>"

definition decodeCreateResponseConversationID :: "raw \<Rightarrow> string res" where
  "decodeCreateResponseConversationID r =
     (let bad = Inl (ValidationError ''conversation'' ''conversation must be a string or object with id'') in
      if raw_absent r then Inr []
      else case unmarshal_string r of
        Some conversationID \<Rightarrow> Inr (trim_space conversationID)
      | None \<Rightarrow>
          (case r of
             RawJson (JObj kvs) \<Rightarrow>
               (case struct_string ''id'' kvs [] of
                  None \<Rightarrow> bad
                | Some i \<Rightarrow>
                    if trim_space i = [] then Inl (ValidationError ''conversation'' ''conversation.id is required'')
                    else Inr (trim_space i))
           | _ \<Rightarrow> bad))"

text \<open>The fields of the body, with the conversation still undecoded; \<open>None\<close> is a decoding error.\<close>

fun decode_payload :: "json \<Rightarrow> (create_request \<times> raw) option" where
  "decode_payload (JObj kvs) =
     (case (struct_string ''model'' kvs [], struct_string ''previous_response_id'' kvs [], struct_string ''instructions'' kvs [],
            struct_bool_ptr ''store'' kvs None, struct_bool_ptr ''stream'' kvs None, struct_bool_ptr ''background'' kvs None) of
        (Some model, Some previous, Some instructions, Some store, Some stream, Some background) \<Rightarrow>
          Some (\<lparr>cq_model = model, cq_input = struct_raw ''input'' kvs RawEmpty, cq_text = struct_raw ''text'' kvs RawEmpty,
                 cq_metadata = struct_raw ''metadata'' kvs RawEmpty,
                 cq_context_management = struct_raw ''context_management'' kvs RawEmpty, cq_store = store, cq_stream = stream,
                 cq_stream_options = struct_raw ''stream_options'' kvs RawEmpty, cq_background = background,
                 cq_previous = previous, cq_conversation = [], cq_instructions = instructions\<rparr>,
               struct_raw ''conversation'' kvs RawEmpty)
      | _ \<Rightarrow> None)"
| "decode_payload JNull = Some (empty_create_request, RawEmpty)"
| "decode_payload _ = None"

definition decodeCreateResponseRequestBody :: "string \<Rightarrow> bool \<Rightarrow> (create_request \<times> json gomap \<times> raw) res" where
  "decodeCreateResponseRequestBody rawBody allowEmpty =
     (let trimmed = trim_space rawBody in
      if trimmed = [] then
        (if allowEmpty then Inr (empty_create_request, [], RawJson (JObj [])) else Inl (Errorf ''EOF''))
      else case read_json trimmed of
        None \<Rightarrow> Inl JSONError
      | Some j \<Rightarrow>
          (case decode_payload j of
             None \<Rightarrow> Inl JSONError
           | Some (request, conversation) \<Rightarrow>
               res_bind (decodeRawFields (RawJson j)) (\<lambda>rawFields.
               res_bind (validateMCPToolDefinitions rawFields) (\<lambda>_.
               res_bind (validateCreateResponseContextManagement (cq_context_management request)) (\<lambda>_.
               res_bind (decodeCreateResponseConversationID conversation) (\<lambda>conversationID.
               Inr (request\<lparr>cq_conversation := conversationID\<rparr>, rawFields,
                    SanitizeResponseRequestSurfaceJSON (RawJson j))))))))"

section \<open>Options of the generation\<close>

definition shimLocalGenerationFields :: "string list" where
  "shimLocalGenerationFields = [''temperature'', ''top_p'', ''frequency_penalty'', ''presence_penalty'', ''stop'', ''reasoning'',
     ''thinking'', ''max_output_tokens'']"

definition buildChatResponseFormatFromResponsesText :: "raw \<Rightarrow> json option" where
  "buildChatResponseFormatFromResponsesText r =
     (case ParseResponseTextConfig r of
        Inl e \<Rightarrow> None
      | Inr config \<Rightarrow>
          if tf_type config = ''json_object'' then Some (JObj [(''type'', JStr ''json_object'')])
          else if tf_type config = ''json_schema'' then
            (case marshal_raw (tf_schema config) of
               Inl e \<Rightarrow> None
             | Inr schema \<Rightarrow>
                 let name = (if trim_space (tf_name config) = [] then ''response'' else trim_space (tf_name config)) in
                 Some (JObj (gomap_of [(''type'', JStr ''json_schema''),
                   (''json_schema'', JObj (gomap_of ([(''name'', JStr name), (''schema'', schema)] @
                      (case tf_strict config of None \<Rightarrow> [] | Some b \<Rightarrow> [(''strict'', JBool b)]))))])))
          else None)"

definition buildGenerationOptions :: "json gomap \<Rightarrow> json gomap" where
  "buildGenerationOptions rawFields =
     (let options = filter (\<lambda>(k, v). k \<in> set shimLocalGenerationFields) rawFields in
      case buildChatResponseFormatFromResponsesText (raw_entry rawFields ''text'') of
        Some responseFormat \<Rightarrow> gomap_set ''response_format'' responseFormat options
      | None \<Rightarrow> options)"

text \<open>The input of the service, as \<^verbatim>\<open>create\<close> and \<^verbatim>\<open>createStream\<close> build it from a decoded request.\<close>

definition service_input :: "create_request \<Rightarrow> raw \<Rightarrow> json gomap \<Rightarrow> create_response_input" where
  "service_input request requestJSON options =
     \<lparr>in_model = cq_model request, in_input = cq_input request, in_text_config = cq_text request, in_metadata = cq_metadata request,
      in_context_management = cq_context_management request, in_store = cq_store request, in_stream = cq_stream request,
      in_background = cq_background request, in_force_shadow = False, in_previous = cq_previous request,
      in_conversation = cq_conversation request, in_instructions = cq_instructions request, in_request_json = requestJSON,
      in_options = options\<rparr>"

section \<open>What the server can answer itself\<close>

definition shimLocalStateBaseFields :: "string list" where
  "shimLocalStateBaseFields = [''model'', ''input'', ''text'', ''metadata'', ''context_management'', ''store'', ''stream'',
     ''stream_options'', ''previous_response_id'', ''conversation'', ''instructions'']"

definition shimLocalDerivedResponsesBaseFields :: "string list" where
  "shimLocalDerivedResponsesBaseFields = [''model'', ''input'', ''text'', ''metadata'', ''previous_response_id'', ''conversation'',
     ''instructions'', ''prompt_cache_key'', ''prompt_cache_retention'']"

definition isEmptyJSONArray :: "json \<Rightarrow> bool" where
  "isEmptyJSONArray j \<longleftrightarrow> unmarshal_raw_list (RawJson j) = Some []"

definition isEmptyNoopLocalField :: "string \<Rightarrow> json \<Rightarrow> bool" where
  "isEmptyNoopLocalField key j \<longleftrightarrow> (key = ''include'' \<or> key = ''tools'') \<and> isEmptyJSONArray j"

definition local_field :: "string list \<Rightarrow> string \<times> json \<Rightarrow> bool" where
  "local_field base kv \<longleftrightarrow> (case kv of (key, j) \<Rightarrow>
     key \<in> set base \<or> key \<in> set shimLocalGenerationFields \<or> isEmptyNoopLocalField key j)"

definition supportsLocalShimState :: "json gomap \<Rightarrow> bool" where
  "supportsLocalShimState rawFields \<longleftrightarrow> list_all (local_field shimLocalStateBaseFields) rawFields"

definition supportsLocalDerivedResponsesState :: "json gomap \<Rightarrow> bool" where
  "supportsLocalDerivedResponsesState rawFields \<longleftrightarrow> list_all (local_field shimLocalDerivedResponsesBaseFields) rawFields"

definition hasLocalContextManagementRequest :: "json gomap \<Rightarrow> bool" where
  "hasLocalContextManagementRequest rawFields \<longleftrightarrow> \<not> raw_absent (raw_entry rawFields ''context_management'')"

definition unsupportedLocalShimFields :: "json gomap \<Rightarrow> string list" where
  "unsupportedLocalShimFields rawFields = sort (map fst (filter (\<lambda>kv. \<not> local_field shimLocalStateBaseFields kv) rawFields))"

definition unsupportedLocalDerivedFields :: "json gomap \<Rightarrow> string list" where
  "unsupportedLocalDerivedFields rawFields =
     sort (map fst (filter (\<lambda>kv. \<not> local_field shimLocalDerivedResponsesBaseFields kv) rawFields))"

definition joinCSV :: "string list \<Rightarrow> string" where
  "joinCSV vs = join vs '', ''"

definition modePreferLocal :: string where "modePreferLocal = ''prefer_local''"
definition modePreferUpstream :: string where "modePreferUpstream = ''prefer_upstream''"
definition modeLocalOnly :: string where "modeLocalOnly = ''local_only''"
definition transportResponses :: string where "transportResponses = ''responses''"
definition transportChatCompletions :: string where "transportChatCompletions = ''chat_completions''"

definition normalizeResponsesMode :: "string \<Rightarrow> string" where
  "normalizeResponsesMode v =
     (let m = to_lower (trim_space v) in if m = modePreferUpstream \<or> m = modeLocalOnly then m else modePreferLocal)"

definition normalizeResponsesUpstreamTransport :: "string \<Rightarrow> string" where
  "normalizeResponsesUpstreamTransport v =
     (if to_lower (trim_space v) = transportChatCompletions then transportChatCompletions else transportResponses)"

abbreviation mode_error :: "string \<Rightarrow> error" where
  "mode_error message \<equiv> ValidationError ''responses.mode'' message"

definition newLocalShimUnsupportedFieldsError :: "string \<Rightarrow> json gomap \<Rightarrow> error" where
  "newLocalShimUnsupportedFieldsError responsesMode rawFields =
     (let names = unsupportedLocalShimFields rawFields in
      if responsesMode \<noteq> modeLocalOnly then
        (if names = []
         then mode_error ''request is not supported by shim-local Responses handling and native /v1/responses proxy is unavailable''
         else mode_error (''request uses fields that are not supported by shim-local Responses handling and native /v1/responses proxy is unavailable: '' @ joinCSV names))
      else if names = [] then mode_error ''request is not supported when responses.mode=local_only''
      else mode_error (''request uses fields that require upstream /v1/responses and are not supported when responses.mode=local_only: '' @ joinCSV names))"

definition newLocalOnlyUnsupportedDerivedFieldsError :: "string \<Rightarrow> json gomap \<Rightarrow> error" where
  "newLocalOnlyUnsupportedDerivedFieldsError endpoint rawFields =
     (let names = unsupportedLocalDerivedFields rawFields in
      if names = [] then mode_error ''request is not supported when responses.mode=local_only''
      else mode_error (''request uses fields that require upstream '' @ endpoint @ '' and are not supported when responses.mode=local_only: '' @ joinCSV names))"

definition newLocalStateUnsupportedDerivedFieldsError :: "string \<Rightarrow> json gomap \<Rightarrow> error" where
  "newLocalStateUnsupportedDerivedFieldsError endpoint rawFields =
     (let names = unsupportedLocalDerivedFields rawFields in
      if names = [] then ValidationError ''input'' (''request depends on shim-local state and is not supported by '' @ endpoint)
      else ValidationError ''input'' (''request depends on shim-local state but uses fields that require upstream '' @ endpoint @ '': '' @ joinCSV names))"

definition normalizeLocalOnlyCreateError :: "string \<Rightarrow> error \<Rightarrow> error" where
  "normalizeLocalOnlyCreateError responsesMode err =
     (if responsesMode = modeLocalOnly \<and> errors_is err ErrUnsupportedShape
      then ValidationError ''input'' ''input shape is not supported when responses.mode=local_only'' else err)"

definition shouldFallbackLocalState :: "string \<Rightarrow> string \<Rightarrow> error \<Rightarrow> bool" where
  "shouldFallbackLocalState je responsesMode err =
     (if errors_is err ErrUnsupportedShape then responsesMode \<noteq> modeLocalOnly
      else if responsesMode \<noteq> modePreferUpstream then False
      else case classifyBackendFailure je err of
        Some decision \<Rightarrow> bd_fallback decision
      | None \<Rightarrow> errors_is (MapGeneratorError err) ErrUpstreamFailure \<or> errors_is (MapGeneratorError err) ErrUpstreamTimeout)"

definition hasLocalCreateState :: "'s response_service \<Rightarrow> string \<Rightarrow> create_request \<Rightarrow> 's \<Rightarrow> bool res" where
  "hasLocalCreateState svc responsesMode request s =
     (if cq_conversation request \<noteq> [] then Inr True
      else if cq_previous request = [] then Inr False
      else case HasPreviousResponse svc (cq_previous request) s of
        Inr ok \<Rightarrow> Inr ok
      | Inl err \<Rightarrow>
          if errors_is (MapStorageError err) ErrNotFound then
            (if responsesMode = modeLocalOnly then Inl (MapStorageError err) else Inr False)
          else Inl err)"

section \<open>Routes\<close>

datatype create_route =
    RouteProxy | RouteLocalWebSearch | RouteLocalImageGeneration | RouteLocalFileSearch | RouteLocalComputer | RouteLocalMCP
  | RouteLocalToolSearch | RouteLocalCodeInterpreter | RouteLocalToolLoop | RouteLocalState | RouteLocalStateViaUpstream
  | RouteLocalOnlyUnsupported | RouteLocalWebSearchDisabled | RouteLocalImageGenerationDisabled | RouteLocalComputerDisabled
  | RouteLocalCodeInterpreterDisabled

record route_inputs =
  NativeResponsesProxy :: bool
  HasLocalState :: bool
  LocalToolLoop :: bool
  LocalToolSearchRequested :: bool
  LocalToolSearch :: bool
  LocalFileSearchRequested :: bool
  LocalFileSearch :: bool
  LocalWebSearchRequested :: bool
  LocalWebSearchRuntimeEnabled :: bool
  LocalWebSearch :: bool
  LocalImageGenerationRequested :: bool
  LocalImageGenerationRuntimeEnabled :: bool
  LocalImageGeneration :: bool
  LocalComputerRequested :: bool
  LocalComputerRuntimeEnabled :: bool
  LocalComputer :: bool
  LocalMCPRequested :: bool
  LocalMCP :: bool
  LocalCodeInterpreterRequested :: bool
  LocalCodeInterpreterRuntimeEnabled :: bool
  LocalCodeInterpreter :: bool
  LocalSupported :: bool

definition selectResponsesCreateRoute :: "string \<Rightarrow> route_inputs \<Rightarrow> create_route" where
  "selectResponsesCreateRoute responsesMode p =
     (let localOnly = (responsesMode = modeLocalOnly) in
      if responsesMode = modePreferUpstream \<and> \<not> HasLocalState p \<and> NativeResponsesProxy p then RouteProxy
      else if LocalWebSearch p then RouteLocalWebSearch
      else if LocalWebSearchRequested p \<and> localOnly then
        (if \<not> LocalWebSearchRuntimeEnabled p then RouteLocalWebSearchDisabled else RouteLocalWebSearch)
      else if LocalImageGeneration p then RouteLocalImageGeneration
      else if LocalImageGenerationRequested p \<and> localOnly then
        (if \<not> LocalImageGenerationRuntimeEnabled p then RouteLocalImageGenerationDisabled else RouteLocalImageGeneration)
      else if LocalFileSearch p then RouteLocalFileSearch
      else if LocalFileSearchRequested p \<and> localOnly then RouteLocalFileSearch
      else if LocalComputer p then RouteLocalComputer
      else if LocalComputerRequested p \<and> localOnly then
        (if \<not> LocalComputerRuntimeEnabled p then RouteLocalComputerDisabled else RouteLocalComputer)
      else if LocalMCP p then RouteLocalMCP
      else if LocalMCPRequested p \<and> localOnly then RouteLocalMCP
      else if LocalToolSearch p then RouteLocalToolSearch
      else if LocalToolSearchRequested p \<and> localOnly then RouteLocalToolSearch
      else if LocalCodeInterpreter p then RouteLocalCodeInterpreter
      else if LocalCodeInterpreterRequested p \<and> localOnly then
        (if \<not> LocalCodeInterpreterRuntimeEnabled p then RouteLocalCodeInterpreterDisabled else RouteLocalCodeInterpreter)
      else if LocalToolLoop p then RouteLocalToolLoop
      else if LocalSupported p then RouteLocalState
      else if HasLocalState p \<and> localOnly then RouteLocalOnlyUnsupported
      else if HasLocalState p then RouteLocalStateViaUpstream
      else if localOnly then RouteLocalOnlyUnsupported
      else if \<not> NativeResponsesProxy p then RouteLocalOnlyUnsupported
      else RouteProxy)"

section \<open>Fields of an object with distinct keys\<close>

definition only_key :: "string \<Rightarrow> (string \<times> json) list \<Rightarrow> bool" where
  "only_key f kvs \<longleftrightarrow> distinct (map fst kvs) \<and> (\<forall>k \<in> fst ` set kvs. equal_fold k f \<longrightarrow> k = f)"

lemma only_key_Cons: "only_key f ((k, v) # kvs) \<Longrightarrow> only_key f kvs \<and> (equal_fold k f \<longrightarrow> k = f \<and> map_of kvs f = None)"
  by (auto simp: only_key_def map_of_eq_None_iff)

lemma struct_string_only:
  "only_key f kvs \<Longrightarrow> struct_string f kvs acc =
     (case map_of kvs f of None \<Rightarrow> Some acc | Some JNull \<Rightarrow> Some acc | Some (JStr s) \<Rightarrow> Some s | _ \<Rightarrow> None)"
proof (induction kvs arbitrary: acc)
  case (Cons kv kvs)
  obtain k v where kv: "kv = (k, v)" by (cases kv)
  with only_key_Cons [of f k v kvs] Cons.prems
  have o: "only_key f kvs" "equal_fold k f \<Longrightarrow> k = f \<and> map_of kvs f = None" by auto
  show ?case
    by (cases "equal_fold k f") (use o(2) Cons.IH [OF o(1)] in \<open>auto simp: kv split: json.splits\<close>)
qed simp

lemma struct_int_only:
  "only_key f kvs \<Longrightarrow> struct_int f kvs acc =
     (case map_of kvs f of None \<Rightarrow> Some acc | Some JNull \<Rightarrow> Some acc | Some (JNum t) \<Rightarrow> int_of_number t | _ \<Rightarrow> None)"
proof (induction kvs arbitrary: acc)
  case (Cons kv kvs)
  obtain k v where kv: "kv = (k, v)" by (cases kv)
  with only_key_Cons [of f k v kvs] Cons.prems
  have o: "only_key f kvs" "equal_fold k f \<Longrightarrow> k = f \<and> map_of kvs f = None" by auto
  show ?case
    by (cases "equal_fold k f") (use o(2) Cons.IH [OF o(1)] in \<open>auto simp: kv split: json.splits option.splits\<close>)
qed simp

lemma struct_int_ptr_only:
  "only_key f kvs \<Longrightarrow> struct_int_ptr f kvs acc =
     (case map_of kvs f of None \<Rightarrow> Some acc | Some JNull \<Rightarrow> Some None | Some (JNum t) \<Rightarrow> map_option Some (int_of_number t) | _ \<Rightarrow> None)"
proof (induction kvs arbitrary: acc)
  case (Cons kv kvs)
  obtain k v where kv: "kv = (k, v)" by (cases kv)
  with only_key_Cons [of f k v kvs] Cons.prems
  have o: "only_key f kvs" "equal_fold k f \<Longrightarrow> k = f \<and> map_of kvs f = None" by auto
  show ?case
    by (cases "equal_fold k f") (use o(2) Cons.IH [OF o(1)] in \<open>auto simp: kv split: json.splits option.splits\<close>)
qed simp

lemma gomap_of_distinct: "distinct (map fst kvs) \<Longrightarrow> map_of (gomap_of kvs) k = map_of kvs k"
  using map_of_inject_set [of "rev kvs" kvs] by (simp add: map_of_gomap_of rev_map [symmetric])

section \<open>Policies\<close>

lemma policy_keys: "\<not> equal_fold ''type'' ''compact_threshold''" "\<not> equal_fold ''compact_threshold'' ''type''"
  by (simp_all add: equal_fold_def fold_case.simps lower_char_def)

lemma entry_cases:
  assumes "validateCreateResponseContextManagementEntry (JObj kvs) = Inr ()"
  obtains j n where "map_of (gomap_of kvs) ''type'' = Some j" "unmarshal_string (RawJson j) = Some ''compaction''"
    "find (\<lambda>k. k \<noteq> ''type'' \<and> k \<noteq> ''compact_threshold'') (map fst (gomap_of kvs)) = None"
    "struct_int_ptr ''compact_threshold'' kvs None = Some (Some n)" "0 < n"
  using assms unfolding validateCreateResponseContextManagementEntry_def
  by (auto split: option.splits if_splits)

lemma entry_accepted:
  assumes "validateCreateResponseContextManagementEntry (JObj kvs) = Inr ()" and d: "distinct (map fst kvs)"
  shows "\<exists>n > 0. management_entry (JObj kvs) = Some (''compaction'', n)"
  using assms(1)
proof (rule entry_cases)
  fix j n
  assume j: "map_of (gomap_of kvs) ''type'' = Some j" "unmarshal_string (RawJson j) = Some ''compaction''"
    and f: "find (\<lambda>k. k \<noteq> ''type'' \<and> k \<noteq> ''compact_threshold'') (map fst (gomap_of kvs)) = None"
    and n: "struct_int_ptr ''compact_threshold'' kvs None = Some (Some n)" "0 < n"
  have keys: "k = ''type'' \<or> k = ''compact_threshold''" if "k \<in> fst ` set kvs" for k
  proof -
    have "map_of (gomap_of kvs) k \<noteq> None" using that by (simp add: gomap_of_distinct [OF d] map_of_eq_None_iff)
    then have "k \<in> set (map fst (gomap_of kvs))" by (simp add: map_of_eq_None_iff)
    then have "\<not> (k \<noteq> ''type'' \<and> k \<noteq> ''compact_threshold'')" using f unfolding find_None_iff by blast
    then show ?thesis by argo
  qed
  have o: "only_key ''type'' kvs" "only_key ''compact_threshold'' kvs"
    unfolding only_key_def using d keys policy_keys by (metis (no_types))+
  have s: "struct_string ''type'' kvs [] = Some ''compaction''"
    using j by (cases j) (simp_all add: struct_string_only [OF o(1)] gomap_of_distinct [OF d])
  have "struct_int ''compact_threshold'' kvs 0 = Some n"
    using n(1) unfolding struct_int_only [OF o(2)] struct_int_ptr_only [OF o(2)] by (simp split: option.splits json.splits)
  with s n(2) show ?thesis by simp
qed

lemma each_ok_iff: "each_ok f xs = Inr () \<longleftrightarrow> (\<forall>x \<in> set xs. f x = Inr ())"
  by (induction xs) (auto simp: res_bind_Inr_iff)

definition distinct_keys :: "json \<Rightarrow> bool" where
  "distinct_keys j \<longleftrightarrow> (case j of JObj kvs \<Rightarrow> distinct (map fst kvs) | _ \<Rightarrow> True)"

lemma accepted_entries:
  assumes "\<forall>j \<in> set js. validateCreateResponseContextManagementEntry j = Inr () \<and> distinct_keys j"
  shows "\<exists>ns. all_some (map management_entry js) = Some (map (Pair ''compaction'') ns) \<and> (\<forall>n \<in> set ns. 0 < n) \<and> length ns = length js"
  using assms
proof (induction js)
  case (Cons j js)
  obtain ns where ns: "all_some (map management_entry js) = Some (map (Pair ''compaction'') ns)" "\<forall>n \<in> set ns. 0 < n"
    "length ns = length js" using Cons by auto
  have "\<exists>kvs. j = JObj kvs"
    using Cons.prems by (cases j) (auto simp: validateCreateResponseContextManagementEntry_def)
  then obtain n where "0 < n" "management_entry j = Some (''compaction'', n)"
    using Cons.prems entry_accepted by (force simp: distinct_keys_def)
  with ns show ?case by (intro exI [of _ "n # ns"]) simp
qed simp

text \<open>A compaction policy that the decoder of requests accepts is one that the service applies. When no entry
  repeats a key, the service reads the policy without an error; it finds a threshold exactly when the request
  has an entry, and the threshold is positive.\<close>

theorem accepted_policy_applies:
  assumes ok: "validateCreateResponseContextManagement r = Inr ()"
    and distinct: "\<forall>js. unmarshal_raw_list r = Some js \<longrightarrow> list_all distinct_keys js"
  shows "\<exists>threshold. parseCompactionThreshold r = Inr threshold \<and> (\<forall>n. threshold = Some n \<longrightarrow> 0 < n) \<and>
    (threshold = None \<longleftrightarrow> raw_absent r \<or> unmarshal_raw_list r = Some [])"
proof (cases "raw_absent r")
  case True
  then show ?thesis by (simp add: parseCompactionThreshold_def)
next
  case False
  then obtain js where js: "unmarshal_raw_list r = Some js" "each_ok validateCreateResponseContextManagementEntry js = Inr ()"
    using ok by (auto simp: validateCreateResponseContextManagement_def split: option.splits)
  then obtain ns where ns: "all_some (map management_entry js) = Some (map (Pair ''compaction'') ns)" "\<forall>n \<in> set ns. 0 < n"
    "length ns = length js"
    using accepted_entries [of js] distinct by (auto simp: each_ok_iff list_all_iff)
  have "trim_space ''compaction'' = ''compaction''" by (simp add: trim_space_word)
  with False js(1) ns show ?thesis
    by (cases ns) (auto simp: parseCompactionThreshold_def)
qed

section \<open>Tools\<close>

abbreviation is_mcp :: "json gomap \<Rightarrow> bool" where
  "is_mcp tool \<equiv> trimmed_entry tool ''type'' = ''mcp''"

lemma checked_headers:
  "checkHeaders c a hs = Inr () \<Longrightarrow> (k, v) \<in> set hs \<Longrightarrow> (\<exists>s. v = JStr s) \<and>
     (equal_fold (trim_space k) ''Authorization'' \<longrightarrow> \<not> c \<and> \<not> a)"
  by (induction hs) (auto split: json.splits if_splits)

lemma validated_tools:
  "validateMCPTools seen tools = Inr () \<Longrightarrow>
     (\<forall>t \<in> set (filter is_mcp tools). trimmed_entry t ''server_label'' \<noteq> [] \<and> validateMCPTool t = Inr ()) \<and>
     distinct (map (\<lambda>t. trimmed_entry t ''server_label'') (filter is_mcp tools)) \<and>
     set (map (\<lambda>t. trimmed_entry t ''server_label'') (filter is_mcp tools)) \<inter> set seen = {}"
  by (induction seen tools rule: validateMCPTools.induct) (auto simp: Let_def res_bind_Inr_iff split: if_splits)

lemma validated_tool:
  assumes "validateMCPTool t = Inr ()"
  shows "(trimmed_entry t ''server_url'' \<noteq> []) \<noteq> (trimmed_entry t ''connector_id'' \<noteq> []) \<and>
    (trimmed_entry t ''connector_id'' \<noteq> [] \<longrightarrow> trimmed_entry t ''connector_id'' \<in> set supportedConnectorIDs) \<and>
    (\<forall>hs k v. map_of t ''headers'' = Some (JObj hs) \<longrightarrow> (k, v) \<in> set hs \<longrightarrow> equal_fold (trim_space k) ''Authorization'' \<longrightarrow>
       trimmed_entry t ''connector_id'' = [] \<and> trimmed_entry t ''authorization'' = [])"
  using assms unfolding validateMCPTool_def validateMCPToolHeaders_def
  by (auto simp: Let_def dest: checked_headers split: if_splits)

text \<open>The remote tools of an accepted request are usable and unambiguous. Their labels are not blank and
  pairwise different, each names either a server or a known connector but not both, and no tool
  authenticates in two ways: a header for the authorization stands only where there is neither a connector nor
  a separate authorization.\<close>

theorem accepted_remote_tools:
  assumes "decodeCreateResponseRequestBody body allowEmpty = Inr (request, rawFields, requestJSON)"
    and tools: "tools = filter is_mcp (decodeToolList rawFields)"
  shows "distinct (map (\<lambda>t. trimmed_entry t ''server_label'') tools) \<and>
    (\<forall>t \<in> set tools. trimmed_entry t ''server_label'' \<noteq> [] \<and>
       (trimmed_entry t ''server_url'' \<noteq> []) \<noteq> (trimmed_entry t ''connector_id'' \<noteq> []) \<and>
       (trimmed_entry t ''connector_id'' \<noteq> [] \<longrightarrow> trimmed_entry t ''connector_id'' \<in> set supportedConnectorIDs) \<and>
       (\<forall>hs k v. map_of t ''headers'' = Some (JObj hs) \<longrightarrow> (k, v) \<in> set hs \<longrightarrow> equal_fold (trim_space k) ''Authorization'' \<longrightarrow>
          trimmed_entry t ''connector_id'' = [] \<and> trimmed_entry t ''authorization'' = []))"
proof -
  have "validateMCPTools [] (decodeToolList rawFields) = Inr ()"
  proof (cases "trim_space body = []")
    case True
    then show ?thesis using assms(1)
      by (simp add: decodeCreateResponseRequestBody_def decodeToolList_def split: if_splits)
  next
    case False
    then show ?thesis using assms(1)
      by (auto simp: decodeCreateResponseRequestBody_def validateMCPToolDefinitions_def Let_def res_bind_Inr_iff split: option.splits)
  qed
  from validated_tools [OF this] show ?thesis unfolding tools using validated_tool by simp
qed

section \<open>The mode\<close>


section \<open>Witnesses\<close>

abbreviation sample_policy :: raw where
  "sample_policy \<equiv> RawJson (JArr [JObj [(''type'', JStr ''compaction''), (''compact_threshold'', JNum ''5'')]])"

theorem accepted_policy_applies_witness:
  "validateCreateResponseContextManagement sample_policy = Inr () \<and> (\<exists>n > 0. parseCompactionThreshold sample_policy = Inr (Some n))"
proof -
  have v: "validateCreateResponseContextManagement sample_policy = Inr ()" by code_simp
  have "\<forall>js. unmarshal_raw_list sample_policy = Some js \<longrightarrow> list_all distinct_keys js" by (simp add: distinct_keys_def)
  from accepted_policy_applies [OF v this] v show ?thesis by (auto simp: raw_absent_def)
qed

definition sample_body :: json where
  "sample_body = JObj [(''model'', JStr ''x''), (''tools'', JArr [JObj [(''type'', JStr ''mcp''), (''server_label'', JStr ''a''),
     (''server_url'', JStr ''u'')]])]"

abbreviation sample_tool :: "json gomap" where
  "sample_tool \<equiv> [(''server_label'', JStr ''a''), (''server_url'', JStr ''u''), (''type'', JStr ''mcp'')]"

theorem accepted_remote_tools_witness:
  "\<exists>request rawFields requestJSON. decodeCreateResponseRequestBody (json_text sample_body) False = Inr (request, rawFields, requestJSON) \<and>
     filter is_mcp (decodeToolList rawFields) = [sample_tool] \<and>
     trimmed_entry sample_tool ''server_url'' \<noteq> [] \<and> trimmed_entry sample_tool ''connector_id'' = []"
proof -
  let ?decoded = "decodeCreateResponseRequestBody (json_text sample_body) False"
  have "case ?decoded of Inr (q, rawFields, j) \<Rightarrow> decodeToolList rawFields = [sample_tool] | Inl e \<Rightarrow> False" by code_simp
  then obtain q rawFields j where d: "?decoded = Inr (q, rawFields, j)" "decodeToolList rawFields = [sample_tool]"
    by (auto split: sum.splits)
  have m: "is_mcp sample_tool" by code_simp
  from accepted_remote_tools [OF d(1) refl] d m show ?thesis by (auto simp: trimmed_entry_def str_entry_def)
qed

definition plain_profile :: route_inputs where
  "plain_profile = \<lparr>NativeResponsesProxy = True, HasLocalState = True, LocalToolLoop = False, LocalToolSearchRequested = False,
     LocalToolSearch = False, LocalFileSearchRequested = False, LocalFileSearch = False, LocalWebSearchRequested = False,
     LocalWebSearchRuntimeEnabled = False, LocalWebSearch = False, LocalImageGenerationRequested = False,
     LocalImageGenerationRuntimeEnabled = False, LocalImageGeneration = False, LocalComputerRequested = False,
     LocalComputerRuntimeEnabled = False, LocalComputer = False, LocalMCPRequested = False, LocalMCP = False,
     LocalCodeInterpreterRequested = False, LocalCodeInterpreterRuntimeEnabled = False, LocalCodeInterpreter = False,
     LocalSupported = False\<rparr>"


end
