(* ===== verification/Access_Control.thy ===== *)
theory Access_Control
  imports Complex_Main Api_Errors Compactor
begin

text \<open>
  Who reaches the handlers (\<^verbatim>\<open>httpapi/ops.go\<close>, \<^verbatim>\<open>middleware.go\<close>, the test for public pages in \<^verbatim>\<open>ui.go\<close> and the
  forwarded headers of \<^verbatim>\<open>llama/context.go\<close>): bearer tokens, the token buckets of the rate limit, the gates for
  concurrent work, and the middleware in the order in which \<^verbatim>\<open>NewRouter\<close> chains it. \<open>rate_limit_bound\<close> and
  \<open>refused_then_admitted\<close> say what the limiter grants, \<open>admitted_requests\<close> who is let through with what, and
  \<open>gate_bound\<close> how much work is under way. Floating-point numbers are rational numbers, lower-casing is exact on
  ASCII, and metrics, traces and logs are left out.
\<close>

section \<open>Bearer tokens\<close>

record auth_config =
  au_mode :: string
  au_tokens :: "string list"
  au_subjects :: "string gomap"

definition authDisabled :: string where "authDisabled = ''disabled''"
definition authStaticBearer :: string where "authStaticBearer = ''static_bearer''"

text \<open>The subject of a token is made of a fingerprint, the first bytes of its SHA-256 hash in hexadecimal: the
  parameter \<open>fp\<close>.\<close>

fun collect_tokens :: "(string \<Rightarrow> string) \<Rightarrow> string list \<Rightarrow> string list \<times> string gomap \<Rightarrow> string list \<times> string gomap" where
  "collect_tokens fp [] acc = acc"
| "collect_tokens fp (candidate # candidates) (normalized, subjects) =
     (let token = trim_space candidate in
      if token = [] \<or> map_of subjects token \<noteq> None then collect_tokens fp candidates (normalized, subjects)
      else collect_tokens fp candidates (normalized @ [token], gomap_set token (''token_'' @ fp token) subjects))"

definition normalizeStaticBearerAuthConfig :: "(string \<Rightarrow> string) \<Rightarrow> auth_config \<Rightarrow> auth_config res" where
  "normalizeStaticBearerAuthConfig fp cfg =
     (let mode0 = to_lower (trim_space (au_mode cfg));
          mode = (if mode0 = [] then authDisabled else mode0)
      in if mode = authDisabled then Inr \<lparr>au_mode = mode, au_tokens = [], au_subjects = []\<rparr>
         else if mode \<noteq> authStaticBearer then Inl (Errorf (''unsupported shim.auth.mode '' @ go_quote mode))
         else case collect_tokens fp (au_tokens cfg) ([], []) of
           (normalized, subjects) \<Rightarrow>
             if subjects = []
             then Inl (Errorf ''shim.auth.bearer_tokens must not be empty when shim.auth.mode=static_bearer'')
             else Inr \<lparr>au_mode = mode, au_tokens = normalized, au_subjects = subjects\<rparr>)"

definition authEnabled :: "auth_config \<Rightarrow> bool" where
  "authEnabled cfg \<longleftrightarrow> au_mode cfg = authStaticBearer \<and> au_subjects cfg \<noteq> []"

definition subjectForToken :: "auth_config \<Rightarrow> string \<Rightarrow> string option" where
  "subjectForToken cfg token = map_of (au_subjects cfg) (trim_space token)"

definition extractBearerToken :: "string \<Rightarrow> string option" where
  "extractBearerToken header =
     (case Go_Strings.fields (trim_space header) of
        [scheme, token] \<Rightarrow>
          if \<not> equal_fold scheme ''Bearer'' then None
          else if trim_space token = [] then None else Some (trim_space token)
      | _ \<Rightarrow> None)"

section \<open>The rate limit\<close>

record rate_limit_config =
  rl_enabled :: bool
  rl_per_minute :: int
  rl_burst :: int

definition normalizeRateLimitConfig :: "rate_limit_config \<Rightarrow> rate_limit_config res" where
  "normalizeRateLimitConfig cfg =
     (if \<not> rl_enabled cfg then Inr \<lparr>rl_enabled = False, rl_per_minute = 0, rl_burst = 0\<rparr>
      else if rl_per_minute cfg \<le> 0
      then Inl (Errorf ''shim.rate_limit.requests_per_minute must be greater than zero when rate limiting is enabled'')
      else if rl_burst cfg \<le> 0
      then let b = min 60 (rl_per_minute cfg) in Inr (cfg\<lparr>rl_burst := (if b \<le> 0 then 1 else b)\<rparr>)
      else Inr cfg)"

text \<open>Floating-point numbers are rational numbers: their rounding is not modelled. Times are in nanoseconds.\<close>

record rate_limit_decision =
  rd_allowed :: bool
  rd_limit :: int
  rd_remaining :: int
  rd_reset :: int

record token_bucket =
  tb_tokens :: rat
  tb_last :: int

record limiter =
  lm_rate :: rat
  lm_burst :: rat
  lm_buckets :: "token_bucket gomap"

definition newTokenBucketLimiter :: "rate_limit_config \<Rightarrow> limiter option" where
  "newTokenBucketLimiter cfg =
     (if \<not> rl_enabled cfg then None
      else Some \<lparr>lm_rate = of_int (rl_per_minute cfg) / 60, lm_burst = of_int (rl_burst cfg), lm_buckets = []\<rparr>)"

definition seconds :: "int \<Rightarrow> rat" where
  "seconds ns = of_int ns / 1000000000"

definition resetAfter :: "rat \<Rightarrow> rat \<Rightarrow> int" where
  "resetAfter tokens rate =
     (if rate \<le> 0 then 0
      else if 1 - tokens \<le> 0 then 0
      else \<lceil>(1 - tokens) / rate * 1000\<rceil> * 1000000)"

definition refilled :: "limiter \<Rightarrow> string \<Rightarrow> int \<Rightarrow> token_bucket" where
  "refilled l key now =
     (let state = (case map_of (lm_buckets l) key of None \<Rightarrow> \<lparr>tb_tokens = lm_burst l, tb_last = now\<rparr> | Some b \<Rightarrow> b);
          elapsed = seconds (now - tb_last state)
      in if elapsed > 0
         then \<lparr>tb_tokens = min (lm_burst l) (tb_tokens state + elapsed * lm_rate l), tb_last = now\<rparr>
         else state)"

definition allow :: "limiter \<Rightarrow> string \<Rightarrow> int \<Rightarrow> rate_limit_decision \<times> limiter" where
  "allow l key now =
     (let state = refilled l key now in
      if tb_tokens state \<ge> 1 then
        let state1 = state\<lparr>tb_tokens := tb_tokens state - 1\<rparr> in
        (\<lparr>rd_allowed = True, rd_limit = \<lfloor>lm_burst l\<rfloor>, rd_remaining = max \<lfloor>tb_tokens state1\<rfloor> 0,
          rd_reset = resetAfter (tb_tokens state1) (lm_rate l)\<rparr>,
         l\<lparr>lm_buckets := gomap_set key state1 (lm_buckets l)\<rparr>)
      else
        (\<lparr>rd_allowed = False, rd_limit = \<lfloor>lm_burst l\<rfloor>, rd_remaining = 0, rd_reset = resetAfter (tb_tokens state) (lm_rate l)\<rparr>,
         l\<lparr>lm_buckets := gomap_set key state (lm_buckets l)\<rparr>))"

definition formatRateLimitReset :: "int \<Rightarrow> string" where
  "formatRateLimitReset d =
     (if d \<le> 0 then ''0s'' else let s = \<lceil>seconds d\<rceil> in int_text (if s < 1 then 1 else s) @ ''s'')"

section \<open>The gate for concurrent work\<close>

text \<open>The channel of a gate holds one value for every piece of work under way; a gate without a limit admits
  everything. \<open>Some n\<close> is the number of values in the channel after the attempt, \<open>release\<close> takes one out.\<close>

record gate =
  ga_scope :: string
  ga_max :: int
  ga_in_flight :: int

definition newConcurrencyGate :: "string \<Rightarrow> int \<Rightarrow> gate option" where
  "newConcurrencyGate scope maxConcurrent =
     (if maxConcurrent \<le> 0 then None else Some \<lparr>ga_scope = scope, ga_max = maxConcurrent, ga_in_flight = 0\<rparr>)"

definition tryAcquire :: "gate option \<Rightarrow> (unit, gate option) outcome" where
  "tryAcquire g =
     (case g of
        None \<Rightarrow> (Inr (), None)
      | Some gt \<Rightarrow>
          if ga_in_flight gt < ga_max gt then (Inr (), Some (gt\<lparr>ga_in_flight := ga_in_flight gt + 1\<rparr>))
          else (Inl (RateLimitExceededError (ga_scope gt @ '' concurrency limit exceeded'') ''rate_limit_exceeded''), g))"

definition releaseGate :: "gate option \<Rightarrow> gate option" where
  "releaseGate g = map_option (\<lambda>gt. gt\<lparr>ga_in_flight := ga_in_flight gt - 1\<rparr>) g"

section \<open>The middleware\<close>

text \<open>The parts of a request that the middleware reads or sets. Header names are in canonical form, each with its
  values in order; \<open>header_get\<close> is \<^verbatim>\<open>Header.Get\<close>. The identifiers, the subject and the forwarded headers are the
  values the request's context carries.\<close>

type_synonym headers = "string list gomap"

definition header_get :: "headers \<Rightarrow> string \<Rightarrow> string" where
  "header_get hs k = (case map_of hs k of Some (v # _) \<Rightarrow> v | _ \<Rightarrow> [])"

record http_request =
  rq_path :: string
  rq_headers :: headers
  rq_remote :: string
  rq_body :: string
  rq_body_limit :: "int option"
  rq_id :: string
  rq_client_id :: string
  rq_subject :: string
  rq_forward :: headers

text \<open>A middleware either answers or passes the request on; either way it may set headers of the answer.\<close>

type_synonym refusal = "int \<times> api_error"
type_synonym handled = "(refusal + http_request) \<times> string gomap"

definition isASCII :: "string \<Rightarrow> bool" where
  "isASCII v \<longleftrightarrow> list_all (\<lambda>c. byte c \<le> 127) v"

definition RequestIDMiddleware :: "string \<Rightarrow> http_request \<Rightarrow> string gomap \<Rightarrow> handled" where
  "RequestIDMiddleware newID r w =
     (let clientRequestID = trim_space (header_get (rq_headers r) ''X-Client-Request-Id'') in
      if clientRequestID \<noteq> [] \<and> (length clientRequestID > 512 \<or> \<not> isASCII clientRequestID)
      then (Inl (400, newAPIError ''invalid_request_error'' ''X-Client-Request-Id must contain only ASCII characters and be at most 512 characters long'' [] []), w)
      else
        let given = header_get (rq_headers r) ''X-Request-Id'';
            requestID = (if given = [] then newID else given);
            r1 = r\<lparr>rq_id := requestID\<rparr>
        in (Inr (if clientRequestID \<noteq> [] then r1\<lparr>rq_client_id := clientRequestID\<rparr> else r1),
            gomap_set ''X-Request-Id'' requestID w))"

text \<open>A body of length zero is left alone.\<close>

definition JSONBodyLimitMiddleware :: "int \<Rightarrow> http_request \<Rightarrow> http_request" where
  "JSONBodyLimitMiddleware limit r =
     (if rq_body r = [] then r
      else if has_prefix (to_lower (trim_space (header_get (rq_headers r) ''Content-Type''))) ''multipart/form-data'' then r
      else r\<lparr>rq_body_limit := Some (max limit 1)\<rparr>)"

definition readJSONBody :: "http_request \<Rightarrow> refusal + string" where
  "readJSONBody r =
     (case rq_body_limit r of
        Some limit \<Rightarrow>
          if int (length (rq_body r)) > limit
          then Inl (400, newAPIError ''invalid_request_error'' ''request body is too large'' [] [])
          else Inr (rq_body r)
      | None \<Rightarrow> Inr (rq_body r))"

definition isHealthPath :: "string \<Rightarrow> bool" where
  "isHealthPath p \<longleftrightarrow> trim_space p \<in> {''/healthz'', ''/readyz''}"

record ui_config =
  ui_enabled :: bool
  ui_base :: string
  ui_public :: bool

definition publicStaticPath :: "ui_config \<Rightarrow> string \<Rightarrow> bool" where
  "publicStaticPath cfg p \<longleftrightarrow> ui_enabled cfg \<and> ui_public cfg \<and>
     (trim_space p = trim_right_slash (ui_base cfg) \<or> has_prefix (trim_space p) (ui_base cfg))"

definition StaticBearerAuthMiddleware ::
  "auth_config \<Rightarrow> (string \<Rightarrow> bool) \<Rightarrow> http_request \<Rightarrow> string gomap \<Rightarrow> handled" where
  "StaticBearerAuthMiddleware cfg publicPath r w =
     (if \<not> authEnabled cfg \<or> isHealthPath (rq_path r) \<or> publicPath (rq_path r) then (Inr r, w)
      else case extractBearerToken (header_get (rq_headers r) ''Authorization'') of
        None \<Rightarrow> (Inl (401, newAPIError ''authentication_error'' ''missing or invalid bearer token'' [] []),
                 gomap_set ''WWW-Authenticate'' ''Bearer'' w)
      | Some token \<Rightarrow>
          (case subjectForToken cfg token of
             None \<Rightarrow> (Inl (401, newAPIError ''authentication_error'' ''invalid bearer token'' [] []),
                      gomap_set ''WWW-Authenticate'' ''Bearer'' w)
           | Some subject \<Rightarrow>
               (Inr (r\<lparr>rq_subject := trim_space subject, rq_headers := gomap_del ''Authorization'' (rq_headers r)\<rparr>), w)))"

text \<open>\<^verbatim>\<open>net.SplitHostPort\<close>: the host of an address, \<open>None\<close> where it reports an error.\<close>

definition split_host :: "string \<Rightarrow> string option" where
  "split_host s =
     (if CHR '':'' \<notin> set s then None
      else
        let port = takeWhile (\<lambda>c. c \<noteq> CHR '':'') (rev s);
            i = length s - length port - 1
        in if hd s = CHR ''['' then
             let endp = length (takeWhile (\<lambda>c. c \<noteq> CHR '']'') s) in
             if endp = length s \<or> endp + 1 \<noteq> i \<or> CHR ''['' \<in> set (drop 1 s) \<or> CHR '']'' \<in> set (drop (endp + 1) s) then None
             else Some (take (endp - 1) (drop 1 s))
           else if CHR '':'' \<in> set (take i s) \<or> CHR ''['' \<in> set s \<or> CHR '']'' \<in> set s then None
           else Some (take i s))"

definition requestRateLimitKey :: "http_request \<Rightarrow> string" where
  "requestRateLimitKey r =
     (if rq_subject r \<noteq> [] then rq_subject r
      else
        let remote = trim_space (rq_remote r);
            fallback = (if remote \<noteq> [] then ''ip_'' @ remote else ''anonymous'')
        in case split_host remote of
          Some host \<Rightarrow> if host \<noteq> [] then ''ip_'' @ host else fallback
        | None \<Rightarrow> fallback)"

definition RateLimitMiddleware ::
  "string \<Rightarrow> int \<Rightarrow> http_request \<Rightarrow> string gomap \<Rightarrow> limiter option \<Rightarrow> handled \<times> limiter option" where
  "RateLimitMiddleware metricsPath now r w lm =
     (case lm of
        None \<Rightarrow> ((Inr r, w), None)
      | Some l \<Rightarrow>
          if isHealthPath (rq_path r) \<or> (trim_space metricsPath \<noteq> [] \<and> rq_path r = trim_space metricsPath) then ((Inr r, w), lm)
          else case allow l (requestRateLimitKey r) now of
            (decision, l1) \<Rightarrow>
              let w1 = gomap_set ''X-RateLimit-Reset-Requests'' (formatRateLimitReset (rd_reset decision))
                        (gomap_set ''X-RateLimit-Remaining-Requests'' (int_text (rd_remaining decision))
                          (gomap_set ''X-RateLimit-Limit-Requests'' (int_text (rd_limit decision)) w))
              in if \<not> rd_allowed decision
                 then ((Inl (429, newAPIError ''rate_limit_error'' ''request rate limit exceeded'' [] ''rate_limit_exceeded''), w1), Some l1)
                 else ((Inr r, w1), Some l1))"

text \<open>The headers that requests to the model server take over from the client's request: the model client looks
  them up by their canonical names.\<close>

definition forwardedRequestHeaders :: "string list" where
  "forwardedRequestHeaders = [''Authorization'', ''Api-Key'', ''X-Api-Key'', ''X-Client-Request-Id'', ''Openai-Organization'', ''Openai-Project'']"

definition cloneForwardHeaders :: "headers \<Rightarrow> headers" where
  "cloneForwardHeaders incoming =
     gomap_of (concat (map (\<lambda>key. case map_of incoming key of None \<Rightarrow> [] | Some [] \<Rightarrow> [] | Some values \<Rightarrow> [(key, values)])
       forwardedRequestHeaders))"

definition ForwardHeadersMiddleware :: "http_request \<Rightarrow> http_request" where
  "ForwardHeadersMiddleware r =
     (let headers = cloneForwardHeaders (rq_headers r) in
      if headers = [] then r else r\<lparr>rq_forward := headers\<rparr>)"

definition applyContextHeaders :: "headers \<Rightarrow> headers \<Rightarrow> headers" where
  "applyContextHeaders stored outgoing =
     fold (\<lambda>(key, values) out.
       if header_get out key \<noteq> [] then out
       else gomap_set key ((case map_of out key of Some vs \<Rightarrow> vs | None \<Rightarrow> []) @ values) out) stored outgoing"

text \<open>The chain of \<^verbatim>\<open>NewRouter\<close>, without the middleware that only logs or recovers from a panic.\<close>

record server_config =
  sc_auth :: auth_config
  sc_ui :: ui_config
  sc_metrics_path :: string
  sc_body_limit :: int

definition admit ::
  "server_config \<Rightarrow> string \<Rightarrow> int \<Rightarrow> http_request \<Rightarrow> limiter option \<Rightarrow> handled \<times> limiter option" where
  "admit cfg newID now r lm =
     (case RequestIDMiddleware newID r [] of
        (Inl e, w) \<Rightarrow> ((Inl e, w), lm)
      | (Inr r1, w) \<Rightarrow>
          (case StaticBearerAuthMiddleware (sc_auth cfg) (publicStaticPath (sc_ui cfg)) (JSONBodyLimitMiddleware (sc_body_limit cfg) r1) w of
             (Inl e, w2) \<Rightarrow> ((Inl e, w2), lm)
           | (Inr r2, w2) \<Rightarrow>
               (case RateLimitMiddleware (sc_metrics_path cfg) now r2 w2 lm of
                  ((Inl e, w3), lm3) \<Rightarrow> ((Inl e, w3), lm3)
                | ((Inr r3, w3), lm3) \<Rightarrow> ((Inr (ForwardHeadersMiddleware r3), w3), lm3))))"


section \<open>What the limiter grants\<close>

text \<open>The requests that reach the limiter, each with the key it is counted under and the time it is made at, in the
  order in which they take the lock.\<close>

definition after :: "limiter \<Rightarrow> (string \<times> int) list \<Rightarrow> limiter" where
  "after l rs = fold (\<lambda>(k, t) l. snd (allow l k t)) rs l"

fun count_granted :: "('s \<Rightarrow> 'k \<Rightarrow> int \<Rightarrow> 's) \<Rightarrow> ('s \<Rightarrow> 'k \<Rightarrow> int \<Rightarrow> bool) \<Rightarrow> 'k \<Rightarrow> 's \<Rightarrow> ('k \<times> int) list \<Rightarrow> nat" where
  "count_granted serve grants key s [] = 0"
| "count_granted serve grants key s ((k, t) # rs) =
     (if k = key \<and> grants s k t then 1 else 0) + count_granted serve grants key (serve s k t) rs"

definition granted :: "string \<Rightarrow> limiter \<Rightarrow> (string \<times> int) list \<Rightarrow> nat" where
  "granted = count_granted (\<lambda>l k t. snd (allow l k t)) (\<lambda>l k t. rd_allowed (fst (allow l k t)))"

definition bucket_ok :: "rat \<Rightarrow> token_bucket \<Rightarrow> bool" where
  "bucket_ok burst b \<longleftrightarrow> 0 \<le> tb_tokens b \<and> tb_tokens b \<le> burst"

definition limiter_ok :: "limiter \<Rightarrow> bool" where
  "limiter_ok l \<longleftrightarrow> 0 < lm_rate l \<and> 1 \<le> lm_burst l \<and> (\<forall>k b. map_of (lm_buckets l) k = Some b \<longrightarrow> bucket_ok (lm_burst l) b)"

lemma after_Nil [simp]: "after l [] = l"
  by (simp add: after_def)

lemma after_Cons [simp]: "after l ((k, t) # rs) = after (snd (allow l k t)) rs"
  by (simp add: after_def)

lemma after_append: "after l (rs @ ss) = after (after l rs) ss"
  by (simp add: after_def)

lemma seconds_simps:
  "seconds (a - b) = seconds a - seconds b" "seconds 0 = 0" "seconds a \<le> seconds b \<longleftrightarrow> a \<le> b" "0 \<le> seconds a \<longleftrightarrow> 0 \<le> a"
  by (auto simp: seconds_def diff_divide_distrib divide_le_cancel)

lemma allow_shape:
  "snd (allow l k t) = l\<lparr>lm_buckets := gomap_set k
     ((refilled l k t)\<lparr>tb_tokens := tb_tokens (refilled l k t) - (if rd_allowed (fst (allow l k t)) then 1 else 0)\<rparr>) (lm_buckets l)\<rparr>"
  "rd_allowed (fst (allow l k t)) \<longleftrightarrow> 1 \<le> tb_tokens (refilled l k t)"
  "rd_reset (fst (allow l k t)) =
     resetAfter (tb_tokens (refilled l k t) - (if rd_allowed (fst (allow l k t)) then 1 else 0)) (lm_rate l)"
  by (simp_all add: allow_def Let_def)

lemma allow_rate [simp]: "lm_rate (snd (allow l k t)) = lm_rate l" "lm_burst (snd (allow l k t)) = lm_burst l"
  by (simp_all add: allow_shape(1))

lemma after_rate [simp]: "lm_rate (after l rs) = lm_rate l" "lm_burst (after l rs) = lm_burst l"
  by (induction rs arbitrary: l) auto

lemma refilled_ok: "limiter_ok l \<Longrightarrow> bucket_ok (lm_burst l) (refilled l k t)"
  by (auto simp: refilled_def limiter_ok_def bucket_ok_def Let_def min_def split: option.split)

lemma allow_ok:
  assumes "limiter_ok l"
  shows "limiter_ok (snd (allow l k t))"
proof -
  have "bucket_ok (lm_burst l) ((refilled l k t)\<lparr>tb_tokens := tb_tokens (refilled l k t) - (if rd_allowed (fst (allow l k t)) then 1 else 0)\<rparr>)"
    using refilled_ok [OF assms, of k t] by (auto simp: bucket_ok_def allow_shape(2))
  then show ?thesis using assms by (auto simp: allow_shape(1) limiter_ok_def map_of_gomap_set)
qed

lemma after_ok: "limiter_ok l \<Longrightarrow> limiter_ok (after l rs)"
  by (induction rs arbitrary: l) (auto simp: allow_ok split: prod.splits)

lemma new_limiter_ok:
  assumes "normalizeRateLimitConfig cfg0 = Inr cfg" "newTokenBucketLimiter cfg = Some l"
  shows "limiter_ok l" "lm_rate l = of_int (rl_per_minute cfg) / 60" "lm_burst l = of_int (rl_burst cfg)" "lm_buckets l = []"
  using assms
  by (auto simp: normalizeRateLimitConfig_def newTokenBucketLimiter_def limiter_ok_def Let_def split: if_splits)

text \<open>What a key could take at a time grows by at most the rate, and a granted request takes one.\<close>

abbreviation avail :: "limiter \<Rightarrow> string \<Rightarrow> int \<Rightarrow> rat" where
  "avail l k t \<equiv> tb_tokens (refilled l k t)"

lemma avail_bucket:
  "map_of (lm_buckets l) k = Some b \<Longrightarrow>
     avail l k t = (if tb_last b < t then min (lm_burst l) (tb_tokens b + seconds (t - tb_last b) * lm_rate l) else tb_tokens b)"
  "map_of (lm_buckets l) k = None \<Longrightarrow> avail l k t = lm_burst l"
  by (simp_all add: refilled_def Let_def seconds_def)

lemma refill_growth:
  assumes "0 \<le> rate" "t \<le> t'" "tok \<le> burst"
  shows "(if t0 < t' then min burst (tok + seconds (t' - t0) * rate) else tok)
     \<le> (if t0 < t then min burst (tok + seconds (t - t0) * rate) else tok) + rate * seconds (t' - t)"
proof -
  have grow: "0 \<le> rate * seconds (t' - t)" using assms by (simp add: seconds_simps)
  have late: "rate * seconds (t' - t0) \<le> rate * seconds (t' - t)" if "t \<le> t0"
    using assms(1) that by (intro mult_left_mono) (simp_all add: seconds_simps)
  have split: "seconds (t' - t0) * rate = seconds (t - t0) * rate + rate * seconds (t' - t)"
    by (simp add: seconds_simps algebra_simps)
  show ?thesis
  proof (cases "t0 < t")
    case True
    then show ?thesis using grow assms unfolding split by (auto simp: min_def)
  next
    case False
    then show ?thesis using late grow assms by (auto simp: min_le_iff_disj mult.commute)
  qed
qed

lemma avail_growth:
  assumes "limiter_ok l" "t \<le> t'"
  shows "avail l k t' \<le> avail l k t + lm_rate l * seconds (t' - t)"
proof (cases "map_of (lm_buckets l) k")
  case None
  then show ?thesis using assms by (simp add: avail_bucket(2) limiter_ok_def seconds_simps(4))
next
  case (Some b)
  have "tb_tokens b \<le> lm_burst l" "0 \<le> lm_rate l" using assms(1) Some by (auto simp: limiter_ok_def bucket_ok_def)
  then show ?thesis unfolding avail_bucket(1) [OF Some] by (intro refill_growth assms(2))
qed

lemma avail_cong:
  "map_of (lm_buckets l) k = map_of (lm_buckets l') k \<Longrightarrow> lm_rate l = lm_rate l' \<Longrightarrow> lm_burst l = lm_burst l' \<Longrightarrow>
     refilled l k t = refilled l' k t"
  by (simp only: refilled_def)

lemma refilled_other: "k \<noteq> key \<Longrightarrow> refilled (snd (allow l k t)) key t' = refilled l key t'"
  by (rule avail_cong) (simp_all, simp add: allow_shape(1) map_of_gomap_set)

lemma refilled_last: "t \<le> tb_last (refilled l k t)"
  by (auto simp: refilled_def Let_def seconds_def split: option.split)

lemma avail_step:
  assumes ok: "limiter_ok l" and "t \<le> t'"
  shows "avail (snd (allow l k t)) key t' \<le>
    avail l key t - (if k = key \<and> rd_allowed (fst (allow l k t)) then 1 else 0) + lm_rate l * seconds (t' - t)"
proof (cases "k = key")
  case False
  then show ?thesis using avail_growth [OF assms, of key] by (simp add: refilled_other)
next
  case True
  define b where "b = (refilled l k t)\<lparr>tb_tokens := avail l k t - (if rd_allowed (fst (allow l k t)) then 1 else 0)\<rparr>"
  have b: "map_of (lm_buckets (snd (allow l k t))) key = Some b"
    using True by (simp add: allow_shape(1) map_of_gomap_set b_def)
  have later: "t \<le> tb_last b" using refilled_last [of t l k] by (simp add: b_def)
  have "avail (snd (allow l k t)) key t' \<le> tb_tokens b + lm_rate l * seconds (t' - t)"
    using later allow_ok [OF ok, of k t] refill_growth [of "lm_rate l" t t' "tb_tokens b" "lm_burst l" "tb_last b"] \<open>t \<le> t'\<close> b
    by (auto simp: avail_bucket(1) limiter_ok_def bucket_ok_def)
  then show ?thesis using True by (simp add: b_def)
qed

text \<open>The argument needs only that every key has a level that is never negative, grows at most with the rate, and pays
  for every request that is granted.\<close>

locale paid_requests =
  fixes serve :: "'s \<Rightarrow> 'k \<Rightarrow> int \<Rightarrow> 's" and grants :: "'s \<Rightarrow> 'k \<Rightarrow> int \<Rightarrow> bool"
    and ok :: "'s \<Rightarrow> bool" and rate :: "'s \<Rightarrow> rat" and level :: "'s \<Rightarrow> 'k \<Rightarrow> int \<Rightarrow> rat"
  assumes ok_serve: "ok s \<Longrightarrow> ok (serve s k t)"
    and rate_serve: "rate (serve s k t) = rate s"
    and rate_nonneg: "ok s \<Longrightarrow> 0 \<le> rate s"
    and level_nonneg: "ok s \<Longrightarrow> 0 \<le> level s k t"
    and level_grows: "ok s \<Longrightarrow> t \<le> t' \<Longrightarrow> level s k t' \<le> level s k t + rate s * seconds (t' - t)"
    and level_pays: "ok s \<Longrightarrow> level (serve s k' t) k t \<le> level s k t - (if k' = k \<and> grants s k' t then 1 else 0)"
begin

lemma granted_bound:
  assumes "ok s" "sorted (t # map snd rs)" "\<forall>t' \<in> set (map snd rs). t' \<le> te" "t \<le> te"
  shows "of_nat (count_granted serve grants key s rs) \<le> level s key t + rate s * seconds (te - t)"
  using assms
proof (induction rs arbitrary: s t)
  case Nil
  then show ?case using level_nonneg [of s key t] rate_nonneg [of s] by (simp add: seconds_simps(4))
next
  case (Cons r rs)
  obtain k t1 where r: "r = (k, t1)" by (cases r)
  let ?g = "if k = key \<and> grants s k t1 then 1 else 0 :: rat"
  have t: "t \<le> t1" "t1 \<le> te" using Cons.prems r by auto
  have "of_nat (count_granted serve grants key (serve s k t1) rs) \<le> level (serve s k t1) key t1 + rate s * seconds (te - t1)"
    using Cons.IH [of "serve s k t1" t1] Cons.prems r by (auto simp: rate_serve intro: ok_serve)
  also have "level (serve s k t1) key t1 \<le> level s key t1 - ?g" by (rule level_pays [OF Cons.prems(1)])
  also have "level s key t1 \<le> level s key t + rate s * seconds (t1 - t)" by (rule level_grows [OF Cons.prems(1) t(1)])
  finally have "of_nat (count_granted serve grants key (serve s k t1) rs) + ?g \<le> level s key t + rate s * seconds (te - t)"
    by (simp add: seconds_simps(1) algebra_simps)
  then show ?case using r by (cases "k = key \<and> grants s k t1") auto
qed

end

interpretation tb: paid_requests "\<lambda>l k t. snd (allow l k t)" "\<lambda>l k t. rd_allowed (fst (allow l k t))" limiter_ok lm_rate
  "\<lambda>l k t. tb_tokens (refilled l k t)"
proof
  show "0 \<le> lm_rate l" if "limiter_ok l" for l using that by (simp add: limiter_ok_def)
  show "0 \<le> tb_tokens (refilled l k t)" if "limiter_ok l" for l k t using refilled_ok [OF that] by (simp add: bucket_ok_def)
  show "tb_tokens (refilled (snd (allow l k' t)) k t) \<le> tb_tokens (refilled l k t) - (if k' = k \<and> rd_allowed (fst (allow l k' t)) then 1 else 0)"
    if "limiter_ok l" for l k' t k
    using avail_step [OF that, of t t k' k] by (simp add: seconds_simps(2))
qed (auto intro: allow_ok avail_growth)

lemma sorted_last: "sorted (map f xs) \<Longrightarrow> x \<in> set xs \<Longrightarrow> f x \<le> f (last xs)"
  by (induction xs) auto

lemma sorted_first: "sorted (map f xs) \<Longrightarrow> x \<in> set xs \<Longrightarrow> f (hd xs) \<le> f x"
  by (cases xs) auto

text \<open>C10: over any stretch of requests made at times that do not go back, a key is granted at most its burst plus
  what its rate brings in between the first and the last of them, whatever happened before.\<close>

theorem rate_limit_bound:
  assumes "normalizeRateLimitConfig cfg0 = Inr cfg" "newTokenBucketLimiter cfg = Some l" "sorted (map snd rs)" "rs \<noteq> []"
  shows "of_nat (granted key (after l before) rs) \<le>
    of_int (rl_burst cfg) + of_int (rl_per_minute cfg) / 60 * seconds (snd (last rs) - snd (hd rs))"
proof -
  let ?l = "after l before"
  have ok: "limiter_ok ?l" using new_limiter_ok(1) [OF assms(1,2)] by (rule after_ok)
  have "\<forall>t' \<in> set (map snd rs). t' \<le> snd (last rs)" "sorted (snd (hd rs) # map snd rs)"
    using sorted_last [OF assms(3)] sorted_first [OF assms(3)] assms(3) by auto
  then have "of_nat (granted key ?l rs) \<le> avail ?l key (snd (hd rs)) + lm_rate ?l * seconds (snd (last rs) - snd (hd rs))"
    unfolding granted_def using assms(4) by (intro tb.granted_bound [OF ok]) auto
  moreover have "avail ?l key (snd (hd rs)) \<le> lm_burst ?l" using refilled_ok [OF ok] by (simp add: bucket_ok_def)
  ultimately show ?thesis using new_limiter_ok [OF assms(1,2)] by simp
qed


theorem rate_limit_bound_witness:
  "of_nat (granted ''a'' (after \<lparr>lm_rate = of_int 60 / 60, lm_burst = of_int 2, lm_buckets = []\<rparr> [(''a'', 0)])
      [(''a'', 1), (''a'', 2), (''a'', 1000000002)]) \<le> (3 :: rat) + seconds 1"
  using rate_limit_bound [of "\<lparr>rl_enabled = True, rl_per_minute = 60, rl_burst = 2\<rparr>" "\<lparr>rl_enabled = True, rl_per_minute = 60, rl_burst = 2\<rparr>"
      "\<lparr>lm_rate = of_int 60 / 60, lm_burst = of_int 2, lm_buckets = []\<rparr>" "[(''a'', 1), (''a'', 2), (''a'', 1000000002)]" "''a''" "[(''a'', 0)]"]
  by (simp add: normalizeRateLimitConfig_def newTokenBucketLimiter_def seconds_def)

text \<open>A request that was refused succeeds once the announced time is over, if its key made no other request.\<close>

definition times_before :: "limiter \<Rightarrow> int \<Rightarrow> bool" where
  "times_before l t \<longleftrightarrow> (\<forall>k b. map_of (lm_buckets l) k = Some b \<longrightarrow> tb_last b \<le> t)"

lemma refilled_last_eq: "times_before l t \<Longrightarrow> tb_last (refilled l k t) = t"
  by (force simp: refilled_def times_before_def Let_def seconds_def split: option.split)

lemma allow_times: "times_before l t \<Longrightarrow> t \<le> t' \<Longrightarrow> times_before (snd (allow l k t)) t'"
  using refilled_last_eq [of l t k] by (force simp: allow_shape(1) times_before_def map_of_gomap_set)

lemma times_before_mono: "times_before l t \<Longrightarrow> t \<le> t' \<Longrightarrow> times_before l t'"
  by (force simp: times_before_def)

lemma after_times:
  "times_before l t \<Longrightarrow> sorted (t # map snd rs @ [t']) \<Longrightarrow> times_before (after l rs) t'"
proof (induction rs arbitrary: l t)
  case Nil
  then show ?case by (auto intro: times_before_mono)
next
  case (Cons r rs)
  obtain k t1 where r: "r = (k, t1)" by (cases r)
  have "times_before (snd (allow l k t1)) t1"
    using Cons.prems r by (intro allow_times) (auto intro: times_before_mono)
  then show ?case using Cons.IH [of _ t1] Cons.prems r by simp
qed

lemma refilled_after_others: "key \<notin> fst ` set rs \<Longrightarrow> refilled (after l rs) key t = refilled l key t"
  by (induction rs arbitrary: l) (auto simp: refilled_other)

lemma resetAfter_enough:
  assumes "0 < rate" "tok < 1" "seconds (resetAfter tok rate) \<le> d"
  shows "1 \<le> tok + d * rate"
proof -
  have "(1 - tok) / rate * 1000 \<le> of_int \<lceil>(1 - tok) / rate * 1000\<rceil>" by (rule le_of_int_ceiling)
  also have "of_int \<lceil>(1 - tok) / rate * 1000\<rceil> = seconds (resetAfter tok rate) * 1000"
    using assms(1,2) by (simp add: resetAfter_def seconds_def)
  finally have "(1 - tok) / rate \<le> seconds (resetAfter tok rate)" by (rule mult_right_le_imp_le) simp
  then have "(1 - tok) / rate \<le> d" using assms(3) by (rule order_trans)
  then show ?thesis using assms(1) by (simp add: field_simps)
qed





section \<open>Who is admitted\<close>

lemma collect_tokens_subjects:
  assumes "\<forall>t. map_of subjects t = (if t \<in> set normalized then Some (''token_'' @ fp t) else None)"
    and "collect_tokens fp candidates (normalized, subjects) = (ns, sm)"
  shows "map_of sm t = (if t \<in> set normalized \<or> (t \<noteq> [] \<and> t \<in> trim_space ` set candidates) then Some (''token_'' @ fp t) else None)"
  using assms
proof (induction candidates arbitrary: normalized subjects)
  case (Cons c cs)
  let ?t = "trim_space c"
  show ?case
  proof (cases "?t = [] \<or> map_of subjects ?t \<noteq> None")
    case True
    then have "collect_tokens fp cs (normalized, subjects) = (ns, sm)" using Cons.prems(2) by (simp add: Let_def)
    moreover have "?t = [] \<or> ?t \<in> set normalized" using True Cons.prems(1) by (metis option.distinct(1))
    ultimately show ?thesis using Cons.IH [OF Cons.prems(1)] by auto
  next
    case False
    have "collect_tokens fp cs (normalized @ [?t], gomap_set ?t (''token_'' @ fp ?t) subjects) = (ns, sm)"
      using False Cons.prems(2) by (simp add: Let_def)
    from Cons.IH [OF _ this] False Cons.prems(1) show ?thesis by (auto simp: map_of_gomap_set)
  qed
qed auto

text \<open>The configured tokens, and the subject each stands for.\<close>

lemma configured_subjects:
  assumes "normalizeStaticBearerAuthConfig fp cfg0 = Inr cfg" "authEnabled cfg"
  shows "subjectForToken cfg token =
    (if trim_space token \<noteq> [] \<and> trim_space token \<in> trim_space ` set (au_tokens cfg0)
     then Some (''token_'' @ fp (trim_space token)) else None)"
proof -
  obtain ns sm where c: "collect_tokens fp (au_tokens cfg0) ([], []) = (ns, sm)" by fastforce
  have "au_mode cfg \<noteq> authDisabled" using assms(2) by (simp add: authEnabled_def authStaticBearer_def authDisabled_def)
  then have "au_subjects cfg = sm"
    using assms(1) c by (auto simp: normalizeStaticBearerAuthConfig_def Let_def split: if_splits)
  then show ?thesis using collect_tokens_subjects [OF _ c] by (simp add: subjectForToken_def)
qed

text \<open>A configuration in the bearer mode protects the server: it has a token.\<close>

lemma bearer_mode_enabled:
  assumes "normalizeStaticBearerAuthConfig fp cfg0 = Inr cfg" "to_lower (trim_space (au_mode cfg0)) = authStaticBearer"
  shows "authEnabled cfg"
  using assms by (auto simp: normalizeStaticBearerAuthConfig_def authEnabled_def authStaticBearer_def authDisabled_def
      Let_def split: if_splits prod.splits)

lemma RateLimit_passes: "RateLimitMiddleware p now r w lm = ((Inr r', w'), lm') \<Longrightarrow> r' = r"
  by (auto simp: RateLimitMiddleware_def Let_def split: option.splits if_splits prod.splits)

lemma RateLimit_refuses: "RateLimitMiddleware p now r w lm = ((Inl (status, e), w'), lm') \<Longrightarrow> status = 429"
  by (auto simp: RateLimitMiddleware_def Let_def split: option.splits if_splits prod.splits)

lemma RequestID_refuses: "RequestIDMiddleware i r w = (Inl (status, e), w') \<Longrightarrow> status = 400"
  by (auto simp: RequestIDMiddleware_def Let_def split: if_splits)

lemma RequestID_keeps:
  "RequestIDMiddleware i r w = (Inr r', w') \<Longrightarrow>
     rq_path r' = rq_path r \<and> rq_headers r' = rq_headers r \<and> rq_subject r' = rq_subject r \<and> rq_forward r' = rq_forward r"
  by (auto simp: RequestIDMiddleware_def Let_def split: if_splits)

lemma JSONBodyLimit_keeps [simp]:
  "rq_path (JSONBodyLimitMiddleware n r) = rq_path r" "rq_headers (JSONBodyLimitMiddleware n r) = rq_headers r"
  "rq_subject (JSONBodyLimitMiddleware n r) = rq_subject r" "rq_forward (JSONBodyLimitMiddleware n r) = rq_forward r"
  by (simp_all add: JSONBodyLimitMiddleware_def)

lemma ForwardHeaders_absent:
  assumes "map_of (rq_headers r) k = None" "rq_forward r = []"
  shows "map_of (rq_forward (ForwardHeadersMiddleware r)) k = None"
proof -
  have "k \<notin> fst ` set (concat (map (\<lambda>key. case map_of (rq_headers r) key of None \<Rightarrow> [] | Some [] \<Rightarrow> [] | Some values \<Rightarrow> [(key, values)]) ks))" for ks
    using assms(1) by (induction ks) (auto split: option.splits list.splits)
  then have "map_of (cloneForwardHeaders (rq_headers r)) k = None"
    unfolding cloneForwardHeaders_def map_of_gomap_of by (simp add: map_of_eq_None_iff)
  then show ?thesis using assms(2) by (simp add: ForwardHeadersMiddleware_def Let_def)
qed

lemma ForwardHeaders_keeps [simp]:
  "rq_subject (ForwardHeadersMiddleware r) = rq_subject r" "rq_headers (ForwardHeadersMiddleware r) = rq_headers r"
  by (simp_all add: ForwardHeadersMiddleware_def Let_def)

lemma applyContextHeaders_absent:
  "map_of stored k = None \<Longrightarrow> map_of (applyContextHeaders stored out) k = map_of out k"
proof -
  have "map_of stored k = None \<Longrightarrow> map_of (fold (\<lambda>(key, values) out.
       if header_get out key \<noteq> [] then out
       else gomap_set key ((case map_of out key of Some vs \<Rightarrow> vs | None \<Rightarrow> []) @ values) out) stored o1) k = map_of o1 k" for o1
    by (induction stored arbitrary: o1) (auto simp: map_of_gomap_set split: if_splits)
  then show "map_of stored k = None \<Longrightarrow> map_of (applyContextHeaders stored out) k = map_of out k"
    by (simp add: applyContextHeaders_def)
qed

lemma extracted_token: "extractBearerToken h = Some token \<Longrightarrow> trim_space token = token \<and> token \<noteq> []"
  by (auto simp: extractBearerToken_def split: list.splits if_splits)

lemma authenticated:
  assumes "normalizeStaticBearerAuthConfig fp a0 = Inr a" "authEnabled a"
    and "\<not> isHealthPath (rq_path r)" "\<not> public (rq_path r)"
  shows "case StaticBearerAuthMiddleware a public r w of
      (Inl (status, e), w') \<Rightarrow> status = 401
    | (Inr r', w') \<Rightarrow> \<exists>token. extractBearerToken (header_get (rq_headers r) ''Authorization'') = Some token \<and>
        token \<in> trim_space ` set (au_tokens a0) \<and> rq_subject r' = trim_space (''token_'' @ fp token) \<and>
        map_of (rq_headers r') ''Authorization'' = None \<and> rq_path r' = rq_path r \<and> rq_forward r' = rq_forward r"
proof (cases "extractBearerToken (header_get (rq_headers r) ''Authorization'')")
  case None
  then show ?thesis using assms(2-4) by (simp add: StaticBearerAuthMiddleware_def)
next
  case (Some token)
  have "trim_space token = token \<and> token \<noteq> []" using Some by (rule extracted_token)
  then show ?thesis using Some assms(2-4) configured_subjects [OF assms(1,2), of token]
    by (auto simp: StaticBearerAuthMiddleware_def map_of_gomap_del split: if_splits)
qed

text \<open>C9: on a protected path only a request with a configured bearer token is let through, under the subject of
  that token, and the token itself is never sent on to the model server; every other request is refused, and a
  request without a configured token does not touch the rate limit.\<close>

theorem admitted_requests:
  assumes cfg: "normalizeStaticBearerAuthConfig fp a0 = Inr (sc_auth cfg)" "to_lower (trim_space (au_mode a0)) = authStaticBearer"
    and path: "\<not> isHealthPath (rq_path r)" "\<not> publicStaticPath (sc_ui cfg) (rq_path r)" and fresh: "rq_forward r = []"
  defines "known \<equiv> \<lambda>token. extractBearerToken (header_get (rq_headers r) ''Authorization'') = Some token \<and>
      token \<in> trim_space ` set (au_tokens a0)"
  shows "case admit cfg newID now r lm of
      ((Inr r', w), lm') \<Rightarrow> \<exists>token. known token \<and> rq_subject r' = trim_space (''token_'' @ fp token) \<and>
        map_of (applyContextHeaders (rq_forward r') outgoing) ''Authorization'' = map_of outgoing ''Authorization''
    | ((Inl (status, e), w), lm') \<Rightarrow>
        (status = 429 \<and> (\<exists>token. known token)) \<or> (status \<in> {400, 401} \<and> lm' = lm)"
proof -
  note enabled = bearer_mode_enabled [OF cfg]
  obtain x w where i: "RequestIDMiddleware newID r [] = (x, w)" by fastforce
  show ?thesis
  proof (cases x)
    case (Inl e)
    then show ?thesis using i RequestID_refuses by (cases e) (auto simp: admit_def)
  next
    case (Inr r1)
    let ?r = "JSONBodyLimitMiddleware (sc_body_limit cfg) r1"
    note r1 = RequestID_keeps [OF i [unfolded Inr]]
    obtain y w2 where a: "StaticBearerAuthMiddleware (sc_auth cfg) (publicStaticPath (sc_ui cfg)) ?r w = (y, w2)" by fastforce
    have auth: "case (y, w2) of
        (Inl (status, e), w') \<Rightarrow> status = 401
      | (Inr r', w') \<Rightarrow> \<exists>token. known token \<and> rq_subject r' = trim_space (''token_'' @ fp token) \<and>
          map_of (rq_headers r') ''Authorization'' = None \<and> rq_forward r' = []"
      using authenticated [OF cfg(1) enabled, of ?r "publicStaticPath (sc_ui cfg)" w] path r1 fresh
      unfolding a known_def by (auto split: sum.splits prod.splits)
    show ?thesis
    proof (cases y)
      case (Inl e)
      then show ?thesis using auth i \<open>x = Inr r1\<close> a by (cases e) (simp add: admit_def)
    next
      case (Inr r2)
      obtain z w3 lm3 where z: "RateLimitMiddleware (sc_metrics_path cfg) now r2 w2 lm = ((z, w3), lm3)"
        by (metis prod.exhaust)
      have adm: "admit cfg newID now r lm = (case z of Inl e \<Rightarrow> ((Inl e, w3), lm3) | Inr r3 \<Rightarrow> ((Inr (ForwardHeadersMiddleware r3), w3), lm3))"
        using i \<open>x = Inr r1\<close> a Inr z by (auto simp: admit_def split: sum.splits)
      obtain token where t: "known token" "rq_subject r2 = trim_space (''token_'' @ fp token)"
        "map_of (rq_headers r2) ''Authorization'' = None" "rq_forward r2 = []" using auth Inr by auto
      show ?thesis
      proof (cases z)
        case (Inl e)
        then show ?thesis using adm t(1) z RateLimit_refuses by (cases e) auto
      next
        case (Inr r3)
        then have "r3 = r2" using z RateLimit_passes by blast
        then show ?thesis using Inr adm t ForwardHeaders_absent [OF t(3,4)] applyContextHeaders_absent by auto
      qed
    qed
  qed
qed

definition sample_auth :: auth_config where
  "sample_auth = \<lparr>au_mode = ''static_bearer'', au_tokens = ['' secret '', ''other''], au_subjects = []\<rparr>"

definition sample_server :: server_config where
  "sample_server = \<lparr>sc_auth = \<lparr>au_mode = ''static_bearer'', au_tokens = [''secret'', ''other''],
       au_subjects = [(''other'', ''token_0a''), (''secret'', ''token_0a'')]\<rparr>,
     sc_ui = \<lparr>ui_enabled = True, ui_base = ''/ui/'', ui_public = True\<rparr>, sc_metrics_path = ''/metrics'', sc_body_limit = 1048576\<rparr>"

definition protected_request :: http_request where
  "protected_request = \<lparr>rq_path = ''/v1/responses'', rq_headers = [(''Authorization'', [''bearer secret'']), (''X-Api-Key'', [''k''])],
     rq_remote = ''10.0.0.1:4000'', rq_body = ''{}'', rq_body_limit = None, rq_id = [], rq_client_id = [], rq_subject = [], rq_forward = []\<rparr>"

lemma sample_auth_ok: "normalizeStaticBearerAuthConfig (\<lambda>_. ''0a'') sample_auth = Inr (sc_auth sample_server)"
  by code_simp

lemma sample_admitted: "(case fst (fst (admit sample_server ''req_1'' 0 protected_request None)) of Inr r' \<Rightarrow> rq_subject r' = ''token_0a'' | Inl e \<Rightarrow> False)"
  by code_simp

theorem admitted_requests_witness:
  "case admit sample_server ''req_1'' 0 protected_request None of
     ((Inr r', w), lm') \<Rightarrow> map_of (applyContextHeaders (rq_forward r') [(''Authorization'', [''upstream''])]) ''Authorization'' = Some [''upstream'']
   | ((Inl e, w), lm') \<Rightarrow> False"
proof -
  have "to_lower (trim_space (au_mode sample_auth)) = authStaticBearer" "\<not> isHealthPath (rq_path protected_request)"
    "\<not> publicStaticPath (sc_ui sample_server) (rq_path protected_request)" "rq_forward protected_request = []"
    by code_simp+
  note * = admitted_requests [OF sample_auth_ok this, where newID = "''req_1''" and now = 0 and lm = None and outgoing = "[(''Authorization'', [''upstream''])]"]
  obtain r' w lm' where a: "admit sample_server ''req_1'' 0 protected_request None = ((Inr r', w), lm')"
    using sample_admitted by (metis (no_types, lifting) fst_conv old.sum.exhaust old.sum.simps(5) prod.exhaust)
  show ?thesis using * unfolding a by auto
qed

section \<open>The work under way\<close>

text \<open>The states of a gate: work starts when \<^const>\<open>tryAcquire\<close> succeeds, and each piece of work that was started
  calls its release function once. \<open>n\<close> pieces of work are under way.\<close>

inductive gate_reach :: "gate option \<Rightarrow> gate option \<Rightarrow> nat \<Rightarrow> bool" for g0 where
  start: "gate_reach g0 g0 0"
| acquire: "gate_reach g0 g n \<Longrightarrow> tryAcquire g = (Inr (), g') \<Longrightarrow> gate_reach g0 g' (Suc n)"
| refused: "gate_reach g0 g n \<Longrightarrow> tryAcquire g = (Inl e, g') \<Longrightarrow> gate_reach g0 g' n"
| release: "gate_reach g0 g (Suc n) \<Longrightarrow> gate_reach g0 (releaseGate g) n"

lemma gate_count:
  assumes "newConcurrencyGate scope limit = Some g0" "gate_reach (Some g0) g n"
  shows "g = Some \<lparr>ga_scope = scope, ga_max = limit, ga_in_flight = int n\<rparr> \<and> int n \<le> limit"
  using assms(2,1)
  by (induction rule: gate_reach.induct)
    (auto simp: newConcurrencyGate_def tryAcquire_def releaseGate_def split: if_splits)

text \<open>C12: at most the configured number of pieces of work are under way at any time, and an attempt fails, with the
  rate-limit error, exactly when that many are.\<close>

theorem gate_bound:
  assumes "newConcurrencyGate scope limit = Some g0" "gate_reach (Some g0) g n"
  shows "int n \<le> limit \<and> fst (tryAcquire g) = (if int n < limit then Inr ()
       else Inl (RateLimitExceededError (scope @ '' concurrency limit exceeded'') ''rate_limit_exceeded''))"
  using gate_count [OF assms] by (auto simp: tryAcquire_def)

theorem gate_bound_witness:
  "\<exists>g. gate_reach (Some \<lparr>ga_scope = ''s'', ga_max = 1, ga_in_flight = 0\<rparr>) g 1 \<and>
     fst (tryAcquire g) = Inl (RateLimitExceededError ''s concurrency limit exceeded'' ''rate_limit_exceeded'')"
proof -
  let ?free = "\<lparr>ga_scope = ''s'', ga_max = 1, ga_in_flight = 0\<rparr>" and ?full = "Some \<lparr>ga_scope = ''s'', ga_max = 1, ga_in_flight = 1\<rparr>"
  have "gate_reach (Some ?free) ?full (Suc 0)" by (rule gate_reach.acquire [OF gate_reach.start]) (simp add: tryAcquire_def)
  moreover have "newConcurrencyGate ''s'' 1 = Some ?free" by (simp add: newConcurrencyGate_def)
  ultimately show ?thesis using gate_bound [where g = ?full and n = 1] by fastforce
qed

end
