(* ===== verification/Provider_Routing.thy ===== *)
theory Provider_Routing
  imports Access_Control Response_Model Memory_Service "HOL-Library.Multiset"
begin

text \<open>
  Several model servers behind one (\<^verbatim>\<open>httpapi/upstream_provider_routing.go\<close>, \<^verbatim>\<open>parseLlamaProviders\<close> of
  \<^verbatim>\<open>config/config.go\<close> and the credentials of \<^verbatim>\<open>llama/client.go\<close>): the checks of the configured providers, the
  resolver of public model names, the credentials and model names of routed requests and answers, and the list of
  models with its concurrent requests for catalogues. The context of a routed request is the route it carries: a
  route that a name resolves to has a provider, so it is always stored there. \<open>listed_models_resolve\<close>,
  \<open>routed_credentials\<close>, \<open>routed_model_names\<close> and \<open>model_list_answer\<close> are what clients rely on.
\<close>

section \<open>The configured providers\<close>

record provider_model =
  pm_model :: string
  pm_upstream :: string

record llama_provider =
  lp_id :: string
  lp_base_url :: string
  lp_token_env :: string
  lp_token :: string
  lp_models :: "provider_model list"

definition has_blank :: "string \<Rightarrow> bool" where
  "has_blank s = list_ex (\<lambda>c. c \<in> set [CHR '' '', CHR 9, CHR 13, CHR 10]) s"

abbreviation providers_error :: "string \<Rightarrow> 'a res" where
  "providers_error m \<equiv> Inl (Errorf (''parse llama.providers: '' @ m))"

fun parse_models :: "string \<Rightarrow> string list \<Rightarrow> provider_model list \<Rightarrow> provider_model list res" where
  "parse_models pid seen [] = Inr []"
| "parse_models pid seen (m # ms) =
     (let model = trim_space (pm_model m); upstream = trim_space (pm_upstream m) in
      if model = [] then providers_error (''model is required for provider '' @ go_quote pid)
      else if has_prefix model ''/'' \<or> has_suffix model ''/'' \<or> has_blank model
      then providers_error (''model '' @ go_quote model @ '' for provider '' @ go_quote pid @ '' must not have empty slash parts or whitespace'')
      else if model \<in> set seen then providers_error (''duplicate model '' @ go_quote model @ '' for provider '' @ go_quote pid)
      else case parse_models pid (model # seen) ms of
        Inl e \<Rightarrow> Inl e
      | Inr rest \<Rightarrow> Inr (\<lparr>pm_model = model, pm_upstream = (if upstream = [] then model else upstream)\<rparr> # rest))"

text \<open>The list as the configuration library reads it is the argument; \<open>getenv\<close> is the environment.\<close>

fun parseLlamaProviders :: "(string \<Rightarrow> string) \<Rightarrow> string list \<Rightarrow> llama_provider list \<Rightarrow> llama_provider list res" where
  "parseLlamaProviders getenv seen [] = Inr []"
| "parseLlamaProviders getenv seen (p # ps) =
     (let pid = trim_space (lp_id p); base = trim_right_slash (trim_space (lp_base_url p)); env = trim_space (lp_token_env p) in
      if pid = [] then providers_error ''id is required''
      else if contains pid ''/'' \<or> has_blank pid
      then providers_error (''id '' @ go_quote pid @ '' must not contain slashes or whitespace'')
      else if pid \<in> set seen then providers_error (''duplicate provider id '' @ go_quote pid)
      else if base = [] then providers_error (''base_url is required for provider '' @ go_quote pid)
      else if lp_models p = [] then providers_error (''provider '' @ go_quote pid @ '' must configure at least one model'')
      else case parse_models pid [] (lp_models p) of
        Inl e \<Rightarrow> Inl e
      | Inr models \<Rightarrow>
          (case parseLlamaProviders getenv (pid # seen) ps of
             Inl e \<Rightarrow> Inl e
           | Inr rest \<Rightarrow>
               Inr (\<lparr>lp_id = pid, lp_base_url = base, lp_token_env = env,
                     lp_token = (if env \<noteq> [] then trim_space (getenv env) else lp_token p), lp_models = models\<rparr> # rest)))"

section \<open>The resolver\<close>

record provider_config =
  pc_id :: string
  pc_plugin :: string
  pc_version :: string
  pc_base_url :: string
  pc_token :: string
  pc_models :: "provider_model gomap"

record public_model =
  mo_id :: string
  mo_provider :: string
  mo_upstream :: string

record resolver =
  rs_providers :: "provider_config gomap"
  rs_models :: "public_model list"

record upstream_route =
  ur_provider :: string
  ur_public :: string
  ur_upstream :: string
  ur_plugin :: string
  ur_version :: string
  ur_base_url :: string
  ur_token :: string

definition modelProviderPluginVersion :: string where "modelProviderPluginVersion = ''v1''"

definition upstreamProviderPluginID :: "string \<Rightarrow> string" where
  "upstreamProviderPluginID providerID =
     (let pid = trim_space providerID in if pid = [] then [] else ''provider.'' @ pid)"

text \<open>The models of a provider that have a name, trimmed, with the model's own name where no other is given.\<close>

definition named_models :: "provider_model list \<Rightarrow> provider_model list" where
  "named_models ms = map (\<lambda>m. let s = trim_space (pm_model m); u = trim_space (pm_upstream m) in
       \<lparr>pm_model = s, pm_upstream = (if u = [] then s else u)\<rparr>)
     (filter (\<lambda>m. trim_space (pm_model m) \<noteq> []) ms)"

definition provider_entry :: "llama_provider \<Rightarrow> provider_config" where
  "provider_entry p =
     (let pid = trim_space (lp_id p) in
      \<lparr>pc_id = pid, pc_plugin = upstreamProviderPluginID pid, pc_version = modelProviderPluginVersion,
       pc_base_url = trim_right_slash (trim_space (lp_base_url p)), pc_token = trim_space (lp_token p),
       pc_models = gomap_of (map (\<lambda>m. (pm_model m, m)) (named_models (lp_models p)))\<rparr>)"

definition provider_listing :: "llama_provider \<Rightarrow> public_model list" where
  "provider_listing p =
     (let pid = trim_space (lp_id p) in
      map (\<lambda>m. \<lparr>mo_id = pid @ ''/'' @ pm_model m, mo_provider = pid, mo_upstream = pm_upstream m\<rparr>) (named_models (lp_models p)))"

definition newUpstreamProviderResolver :: "llama_provider list \<Rightarrow> resolver option" where
  "newUpstreamProviderResolver providers =
     (let ps = filter (\<lambda>p. trim_space (lp_id p) \<noteq> []) providers;
          r = \<lparr>rs_providers = gomap_of (map (\<lambda>p. (trim_space (lp_id p), provider_entry p)) ps),
               rs_models = sort_key mo_id (concat (map provider_listing ps))\<rparr>
      in if rs_providers r = [] then None else Some r)"

definition no_route :: upstream_route where
  "no_route = \<lparr>ur_provider = [], ur_public = [], ur_upstream = [], ur_plugin = [], ur_version = [], ur_base_url = [], ur_token = []\<rparr>"

definition Resolve :: "resolver option \<Rightarrow> string \<Rightarrow> upstream_route res" where
  "Resolve res publicModel =
     (case res of
        None \<Rightarrow> Inr no_route
      | Some r \<Rightarrow>
          if rs_providers r = [] then Inr no_route else
          let name = trim_space publicModel;
              pid = trim_space (takeWhile (\<lambda>c. c \<noteq> CHR ''/'') name);
              suffixed = trim_space (drop 1 (dropWhile (\<lambda>c. c \<noteq> CHR ''/'') name))
          in if CHR ''/'' \<notin> set name \<or> pid = [] \<or> suffixed = []
             then Inl (ValidationError ''model'' ''model must use configured provider/model form'')
             else case map_of (rs_providers r) pid of
               None \<Rightarrow> Inl (ValidationError ''model'' (''unknown model provider '' @ go_quote pid))
             | Some p \<Rightarrow>
                 (case map_of (pc_models p) suffixed of
                    None \<Rightarrow> Inl (ValidationError ''model'' (''unknown model '' @ go_quote suffixed @ '' for provider '' @ go_quote (pc_id p)))
                  | Some m \<Rightarrow>
                      Inr \<lparr>ur_provider = pc_id p, ur_public = pc_id p @ ''/'' @ pm_model m, ur_upstream = pm_upstream m,
                           ur_plugin = pc_plugin p, ur_version = pc_version p, ur_base_url = pc_base_url p, ur_token = pc_token p\<rparr>))"

text \<open>The route that the context of a request carries on from here.\<close>

definition ContextForModel :: "resolver option \<Rightarrow> string \<Rightarrow> upstream_route option res" where
  "ContextForModel res publicModel =
     (case res of
        None \<Rightarrow> Inr None
      | Some r \<Rightarrow>
          if rs_providers r = [] then Inr None
          else case Resolve res publicModel of Inl e \<Rightarrow> Inl e | Inr route \<Rightarrow> Inr (Some route))"

section \<open>Routed requests\<close>

definition applyBearerAuth :: "headers \<Rightarrow> string \<Rightarrow> headers" where
  "applyBearerAuth outgoing bearerToken =
     (if trim_space bearerToken = [] then outgoing
      else if trim_space (header_get outgoing ''Authorization'') \<noteq> [] then outgoing
      else gomap_set ''Authorization'' [''Bearer '' @ trim_space bearerToken] outgoing)"

definition applyUpstreamAuth :: "upstream_route option \<Rightarrow> headers \<Rightarrow> string \<Rightarrow> headers" where
  "applyUpstreamAuth ctx outgoing bearerToken =
     (case ctx of
        Some route \<Rightarrow>
          applyBearerAuth (gomap_del ''X-Api-Key'' (gomap_del ''Api-Key'' (gomap_del ''Authorization'' outgoing))) (ur_token route)
      | None \<Rightarrow> applyBearerAuth outgoing bearerToken)"

definition rewriteRawFieldsModel :: "json gomap \<Rightarrow> string \<Rightarrow> json gomap" where
  "rewriteRawFieldsModel m model =
     (if trim_space model = [] then m else gomap_set ''model'' (JStr model) m)"

definition upstreamRawFieldsForContext :: "upstream_route option \<Rightarrow> json gomap \<Rightarrow> json gomap" where
  "upstreamRawFieldsForContext ctx m =
     (case ctx of
        None \<Rightarrow> m
      | Some route \<Rightarrow> if trim_space (ur_upstream route) = [] then m else rewriteRawFieldsModel m (ur_upstream route))"

definition RewriteJSONModelForUpstreamRoute :: "upstream_route option \<Rightarrow> raw \<Rightarrow> raw res" where
  "RewriteJSONModelForUpstreamRoute ctx body =
     (case ctx of
        None \<Rightarrow> Inr body
      | Some route \<Rightarrow>
          if trim_space (ur_upstream route) = [] then Inr body
          else case unmarshal_raw_map body of
            None \<Rightarrow> Inl (Wrap ''rewrite routed upstream model'' JSONError)
          | Some payload \<Rightarrow>
              if body = RawJson JNull then Inl (GoPanic ''assignment to entry in nil map'')
              else Inr (RawJson (JObj (gomap_set ''model'' (JStr (ur_upstream route)) payload))))"

definition restoreRoutedModelInResponseBody :: "upstream_route option \<Rightarrow> raw \<Rightarrow> raw res" where
  "restoreRoutedModelInResponseBody ctx body =
     (case ctx of
        None \<Rightarrow> Inr body
      | Some route \<Rightarrow>
          if trim_space (ur_public route) = [] then Inr body
          else case unmarshal_raw_map body of
            None \<Rightarrow> Inr body
          | Some payload \<Rightarrow>
              if body = RawJson JNull then Inl (GoPanic ''assignment to entry in nil map'')
              else Inr (RawJson (JObj (gomap_set ''model'' (JStr (ur_public route)) payload))))"

definition restoreRoutedModelInResponse :: "upstream_route option \<Rightarrow> response \<Rightarrow> response" where
  "restoreRoutedModelInResponse ctx r =
     (case ctx of
        Some route \<Rightarrow> if trim_space (ur_public route) \<noteq> [] then r\<lparr>rp_model := ur_public route\<rparr> else r
      | None \<Rightarrow> r)"

section \<open>Catalogues and readiness\<close>

text \<open>\<open>list_models\<close> is the model client: the names of the models at the server of a route.\<close>

definition provider_route :: "provider_config \<Rightarrow> upstream_route" where
  "provider_route p = no_route\<lparr>ur_provider := pc_id p, ur_plugin := pc_plugin p, ur_version := pc_version p,
     ur_base_url := pc_base_url p, ur_token := pc_token p\<rparr>"

definition providerModelCatalogReadyError :: "provider_config \<Rightarrow> string list \<Rightarrow> error option" where
  "providerModelCatalogReadyError p models =
     (if pc_models p = [] then None
      else
        let catalog = filter (\<lambda>m. m \<noteq> []) (map trim_space models);
            configured = filter (\<lambda>m. m \<noteq> []) (map (\<lambda>(k, m). trim_space (pm_upstream m)) (pc_models p))
        in if list_ex (\<lambda>m. m \<in> set catalog) configured then None
           else Some (Errorf (''model catalog does not contain any configured upstream models: '' @ join (sort configured) '', '')))"

definition ProviderReadiness :: "(upstream_route \<Rightarrow> string list res) \<Rightarrow> resolver option \<Rightarrow> error option gomap" where
  "ProviderReadiness list_models res =
     (case res of
        None \<Rightarrow> []
      | Some r \<Rightarrow>
          map (\<lambda>(pid, p).
            (pid, map_option (Wrap (''provider '' @ go_quote (pc_id p) @ '' is not ready''))
              (case list_models (provider_route p) of Inl e \<Rightarrow> Some e | Inr models \<Rightarrow> providerModelCatalogReadyError p models)))
            (rs_providers r))"

fun first_ready :: "error option \<Rightarrow> error option gomap \<Rightarrow> error option" where
  "first_ready firstErr [] = firstErr"
| "first_ready firstErr ((pid, err) # rest) =
     (case err of None \<Rightarrow> None
      | Some e \<Rightarrow> first_ready (case firstErr of None \<Rightarrow> Some e | Some f \<Rightarrow> Some f) rest)"

definition providerReadinessAggregateError :: "error option gomap \<Rightarrow> error option" where
  "providerReadinessAggregateError readiness = first_ready None readiness"

definition resolver_CheckReady :: "(upstream_route \<Rightarrow> string list res) \<Rightarrow> resolver option \<Rightarrow> error option" where
  "resolver_CheckReady list_models res = providerReadinessAggregateError (ProviderReadiness list_models res)"

text \<open>The catalogues are requested at the same time; \<open>order\<close> lists the providers in the order in which their answers come in.\<close>

fun collect_catalogs :: "(string \<times> string list res) list \<Rightarrow> string list gomap \<Rightarrow> error option \<Rightarrow> string list gomap \<times> error option" where
  "collect_catalogs [] catalogs firstErr = (catalogs, firstErr)"
| "collect_catalogs ((pid, answer) # rest) catalogs firstErr =
     (case answer of
        Inl e \<Rightarrow> collect_catalogs rest catalogs (case firstErr of None \<Rightarrow> Some e | Some f \<Rightarrow> Some f)
      | Inr models \<Rightarrow> collect_catalogs rest (gomap_set pid models catalogs) firstErr)"

definition catalog_answer :: "(upstream_route \<Rightarrow> string list res) \<Rightarrow> provider_config \<Rightarrow> string \<times> string list res" where
  "catalog_answer list_models p =
     (pc_id p,
      case list_models (provider_route p) of
        Inl e \<Rightarrow> Inl (Wrap (''provider '' @ go_quote (pc_id p) @ '' model catalog is not ready'') e)
      | Inr models \<Rightarrow> Inr models)"

definition LiveProviderModelCatalogs ::
  "(upstream_route \<Rightarrow> string list res) \<Rightarrow> provider_config list \<Rightarrow> resolver option \<Rightarrow> string list gomap res" where
  "LiveProviderModelCatalogs list_models order res =
     (case res of
        None \<Rightarrow> Inl (Errorf ''upstream provider routing is not enabled'')
      | Some r \<Rightarrow>
          (case collect_catalogs (map (catalog_answer list_models) order) [] None of
             (catalogs, firstErr) \<Rightarrow>
               (case firstErr of
                  Some e \<Rightarrow> if catalogs = [] then Inl e else Inr catalogs
                | None \<Rightarrow> Inr catalogs)))"

definition model_json :: "public_model \<Rightarrow> json" where
  "model_json m = JObj [(''created'', JNum ''0''), (''id'', JStr (mo_id m)), (''object'', JStr ''model''),
     (''owned_by'', JStr (''provider:'' @ mo_provider m))]"

definition WriteModels ::
  "(upstream_route \<Rightarrow> string list res) \<Rightarrow> provider_config list \<Rightarrow> resolver \<Rightarrow> refusal + json" where
  "WriteModels list_models order r =
     (let unready = Inl (503, newAPIError ''service_unavailable'' ''upstream provider model catalog is not ready'' [] []) in
      case LiveProviderModelCatalogs list_models order (Some r) of
        Inl e \<Rightarrow> unready
      | Inr catalogs \<Rightarrow>
          let listed = filter (\<lambda>m. case map_of catalogs (mo_provider m) of None \<Rightarrow> False | Some names \<Rightarrow> mo_upstream m \<in> set names) (rs_models r)
          in if listed = [] then unready
             else Inr (JObj [(''data'', JArr (map model_json listed)), (''object'', JStr ''list'')]))"

section \<open>What a valid configuration gives\<close>

definition models_ok :: "provider_model list \<Rightarrow> bool" where
  "models_ok ms \<longleftrightarrow> distinct (map pm_model ms) \<and>
     (\<forall>m \<in> set ms. trim_space (pm_model m) = pm_model m \<and> pm_model m \<noteq> [] \<and> trim_space (pm_upstream m) = pm_upstream m \<and> pm_upstream m \<noteq> [])"

definition providers_ok :: "llama_provider list \<Rightarrow> bool" where
  "providers_ok ps \<longleftrightarrow> distinct (map lp_id ps) \<and>
     (\<forall>p \<in> set ps. trim_space (lp_id p) = lp_id p \<and> lp_id p \<noteq> [] \<and> CHR ''/'' \<notin> set (lp_id p) \<and> models_ok (lp_models p))"

lemma parse_models_ok:
  "parse_models pid seen ms = Inr ms' \<Longrightarrow> models_ok ms' \<and> set seen \<inter> pm_model ` set ms' = {}"
  by (induction ms arbitrary: seen ms') (fastforce simp: models_ok_def Let_def split: if_splits sum.splits)+

lemma contains_single: "contains s [c] \<longleftrightarrow> c \<in> set s"
  by (auto simp: contains_iff in_set_conv_decomp)

lemma parse_providers_ok:
  "parseLlamaProviders getenv seen ps0 = Inr ps \<Longrightarrow> providers_ok ps \<and> set seen \<inter> lp_id ` set ps = {}"
proof (induction ps0 arbitrary: seen ps)
  case (Cons p ps0)
  from Cons.prems obtain models rest where *: "trim_space (lp_id p) \<noteq> []" "CHR ''/'' \<notin> set (trim_space (lp_id p))" "trim_space (lp_id p) \<notin> set seen"
    "parse_models (trim_space (lp_id p)) [] (lp_models p) = Inr models"
    "parseLlamaProviders getenv (trim_space (lp_id p) # seen) ps0 = Inr rest"
    "\<exists>b e t. ps = \<lparr>lp_id = trim_space (lp_id p), lp_base_url = b, lp_token_env = e, lp_token = t, lp_models = models\<rparr> # rest"
    by (auto simp: Let_def contains_single split: if_splits sum.splits)
  then show ?case using Cons.IH [OF *(5)] parse_models_ok [OF *(4)] by (auto simp: providers_ok_def) blast
qed (simp add: providers_ok_def)

lemma named_models_ok: "models_ok ms \<Longrightarrow> named_models ms = ms"
proof -
  assume ok: "models_ok ms"
  then have "filter (\<lambda>m. trim_space (pm_model m) \<noteq> []) ms = ms" by (auto simp: models_ok_def filter_id_conv)
  then show ?thesis using ok by (auto simp: named_models_def models_ok_def Let_def intro!: map_idI)
qed

text \<open>The resolver of a valid configuration.\<close>

lemma resolver_providers:
  assumes "providers_ok ps" "newUpstreamProviderResolver ps = Some r"
  shows "map_of (rs_providers r) pid = Some c \<longleftrightarrow> (\<exists>p \<in> set ps. lp_id p = pid \<and> c = provider_entry p)"
    and "set (rs_models r) = \<Union> (set ` provider_listing ` set ps)"
    and "rs_providers r \<noteq> []"
proof -
  have f: "filter (\<lambda>p. trim_space (lp_id p) \<noteq> []) ps = ps" using assms(1) by (auto simp: providers_ok_def filter_id_conv)
  have m: "map (\<lambda>p. (trim_space (lp_id p), provider_entry p)) ps = map (\<lambda>p. (lp_id p, provider_entry p)) ps"
    using assms(1) by (auto simp: providers_ok_def)
  have r: "r = \<lparr>rs_providers = gomap_of (map (\<lambda>p. (lp_id p, provider_entry p)) ps), rs_models = sort_key mo_id (concat (map provider_listing ps))\<rparr>"
    "rs_providers r \<noteq> []"
    using assms(2) by (auto simp: newUpstreamProviderResolver_def Let_def f m split: if_splits)
  have "distinct (map fst (map (\<lambda>p. (lp_id p, provider_entry p)) ps))" using assms(1) by (simp add: providers_ok_def comp_def)
  then show "map_of (rs_providers r) pid = Some c \<longleftrightarrow> (\<exists>p \<in> set ps. lp_id p = pid \<and> c = provider_entry p)"
    unfolding r(1) by (auto simp: map_of_gomap_of map_of_rev_distinct map_of_eq_Some_iff)
  show "set (rs_models r) = \<Union> (set ` provider_listing ` set ps)" "rs_providers r \<noteq> []" using r by auto
qed

lemma entry_models:
  assumes "models_ok (lp_models p)"
  shows "map_of (pc_models (provider_entry p)) s = Some m \<longleftrightarrow> m \<in> set (lp_models p) \<and> pm_model m = s"
proof -
  have "distinct (map fst (map (\<lambda>m. (pm_model m, m)) (lp_models p)))" using assms by (simp add: models_ok_def comp_def)
  then show ?thesis
    by (auto simp: provider_entry_def Let_def named_models_ok [OF assms] map_of_gomap_of map_of_rev_distinct map_of_eq_Some_iff)
qed

lemma trim_space_joined:
  assumes "a \<noteq> []" "trim_space a = a" "b \<noteq> []" "trim_space b = b"
  shows "trim_space (a @ ''/'' @ b) = a @ ''/'' @ b"
proof (rule trim_space_fixed)
  have "space_width a = 0" using trim_space_width [of a] assms(2) by simp
  then show "space_width (a @ ''/'' @ b) = 0" using assms(1)
    by (cases a rule: space_width.cases; cases b) (auto simp: two_space_def three_space_def split: if_splits)
  have "space_width_rev (rev b) = 0" using trim_space_width_rev [of b] assms(4) by simp
  then show "space_width_rev (rev (a @ ''/'' @ b)) = 0"
    using space_width_rev_append [of "rev b" "CHR ''/''" "rev a"] assms(3) by simp
qed

text \<open>A name resolves to a model of the provider it names, and to nothing else.\<close>

lemma Resolve_iff:
  assumes ok: "providers_ok ps" and r: "newUpstreamProviderResolver ps = Some r"
  shows "Resolve (Some r) name = Inr route \<longleftrightarrow>
    CHR ''/'' \<in> set (trim_space name) \<and>
    (\<exists>p \<in> set ps. \<exists>m \<in> set (lp_models p).
       trim_space (takeWhile (\<lambda>c. c \<noteq> CHR ''/'') (trim_space name)) = lp_id p \<and>
       trim_space (drop 1 (dropWhile (\<lambda>c. c \<noteq> CHR ''/'') (trim_space name))) = pm_model m \<and>
       route = \<lparr>ur_provider = lp_id p, ur_public = lp_id p @ ''/'' @ pm_model m, ur_upstream = pm_upstream m,
         ur_plugin = upstreamProviderPluginID (lp_id p), ur_version = modelProviderPluginVersion,
         ur_base_url = trim_right_slash (trim_space (lp_base_url p)), ur_token = trim_space (lp_token p)\<rparr>)"
proof -
  have p: "trim_space (lp_id p) = lp_id p" "lp_id p \<noteq> []" "models_ok (lp_models p)" if "p \<in> set ps" for p
    using ok that by (auto simp: providers_ok_def)
  have m: "pm_model m \<noteq> []" if "p \<in> set ps" "m \<in> set (lp_models p)" for p m
    using p(3) [OF that(1)] that(2) by (auto simp: models_ok_def)
  have e: "pc_id (provider_entry p) = lp_id p" "pc_plugin (provider_entry p) = upstreamProviderPluginID (lp_id p)"
    "pc_version (provider_entry p) = modelProviderPluginVersion"
    "pc_base_url (provider_entry p) = trim_right_slash (trim_space (lp_base_url p))" "pc_token (provider_entry p) = trim_space (lp_token p)"
    if "p \<in> set ps" for p using p(1) [OF that] by (simp_all add: provider_entry_def Let_def)
  note rs = resolver_providers [OF ok r]
  show ?thesis (is "?L \<longleftrightarrow> ?R")
  proof
    assume ?L
    then show ?R
      using rs(3) by (auto simp: Resolve_def Let_def rs(1) entry_models p e split: if_splits option.splits) (metis e entry_models p(3))+
  next
    assume ?R
    then obtain q n where q: "CHR ''/'' \<in> set (trim_space name)" "q \<in> set ps" "n \<in> set (lp_models q)"
      "trim_space (takeWhile (\<lambda>c. c \<noteq> CHR ''/'') (trim_space name)) = lp_id q"
      "trim_space (drop 1 (dropWhile (\<lambda>c. c \<noteq> CHR ''/'') (trim_space name))) = pm_model n"
      "route = \<lparr>ur_provider = lp_id q, ur_public = lp_id q @ ''/'' @ pm_model n, ur_upstream = pm_upstream n,
         ur_plugin = upstreamProviderPluginID (lp_id q), ur_version = modelProviderPluginVersion,
         ur_base_url = trim_right_slash (trim_space (lp_base_url q)), ur_token = trim_space (lp_token q)\<rparr>" by auto
    have "map_of (rs_providers r) (lp_id q) = Some (provider_entry q)" using rs(1) q(2) by blast
    moreover have "map_of (pc_models (provider_entry q)) (pm_model n) = Some n" using entry_models p(3) q(2,3) by blast
    ultimately show ?L using q rs(3) p(2) [OF q(2)] m [OF q(2,3)] e [OF q(2)] by (simp add: Resolve_def Let_def)
  qed
qed

definition as_listed :: "upstream_route \<Rightarrow> public_model" where
  "as_listed route = \<lparr>mo_id = ur_public route, mo_provider = ur_provider route, mo_upstream = ur_upstream route\<rparr>"

lemma listing_iff:
  assumes "providers_ok ps" "newUpstreamProviderResolver ps = Some r"
  shows "m \<in> set (rs_models r) \<longleftrightarrow> (\<exists>p \<in> set ps. \<exists>n \<in> set (lp_models p).
      m = \<lparr>mo_id = lp_id p @ ''/'' @ pm_model n, mo_provider = lp_id p, mo_upstream = pm_upstream n\<rparr>)"
  using assms(1) by (fastforce simp: resolver_providers(2) [OF assms] provider_listing_def providers_ok_def named_models_ok Let_def)

lemma listed_name_parts:
  assumes "providers_ok ps" "p \<in> set ps" "n \<in> set (lp_models p)"
  defines "name \<equiv> trim_space (lp_id p @ ''/'' @ pm_model n)"
  shows "CHR ''/'' \<in> set name" "trim_space (takeWhile (\<lambda>c. c \<noteq> CHR ''/'') name) = lp_id p"
    "trim_space (drop 1 (dropWhile (\<lambda>c. c \<noteq> CHR ''/'') name)) = pm_model n"
proof -
  have p: "trim_space (lp_id p) = lp_id p" "lp_id p \<noteq> []" "CHR ''/'' \<notin> set (lp_id p)"
    and n: "trim_space (pm_model n) = pm_model n" "pm_model n \<noteq> []"
    using assms(1-3) by (auto simp: providers_ok_def models_ok_def)
  have name: "name = lp_id p @ ''/'' @ pm_model n"
    unfolding name_def by (rule trim_space_joined [OF p(2,1) n(2,1)])
  have "takeWhile (\<lambda>c. c \<noteq> CHR ''/'') name = lp_id p" "dropWhile (\<lambda>c. c \<noteq> CHR ''/'') name = ''/'' @ pm_model n"
    using p(3) by (auto simp: name takeWhile_append dropWhile_append dropWhile_eq_Nil_conv)
  then show "CHR ''/'' \<in> set name" "trim_space (takeWhile (\<lambda>c. c \<noteq> CHR ''/'') name) = lp_id p"
    "trim_space (drop 1 (dropWhile (\<lambda>c. c \<noteq> CHR ''/'') name)) = pm_model n" by (simp_all add: p n, simp add: name)
qed

text \<open>C13: with a configuration that was accepted, every model the server lists can be asked for under its listed name
  and is answered by the listed provider and model, and every name the resolver accepts stands for a listed model.\<close>

theorem listed_models_resolve:
  assumes "parseLlamaProviders getenv [] ps0 = Inr ps" "newUpstreamProviderResolver ps = Some r"
  shows "(\<forall>m \<in> set (rs_models r). \<exists>route. Resolve (Some r) (mo_id m) = Inr route \<and> as_listed route = m) \<and>
    (\<forall>name route. Resolve (Some r) name = Inr route \<longrightarrow> as_listed route \<in> set (rs_models r))"
proof -
  have ok: "providers_ok ps" using parse_providers_ok [OF assms(1)] by simp
  note parts = listed_name_parts [OF ok]
  have "\<exists>route. Resolve (Some r) (mo_id m) = Inr route \<and> as_listed route = m" if "m \<in> set (rs_models r)" for m
    using that parts unfolding listing_iff [OF ok assms(2)] Resolve_iff [OF ok assms(2)] as_listed_def by fastforce
  moreover have "as_listed route \<in> set (rs_models r)" if "Resolve (Some r) name = Inr route" for name route
    using that unfolding listing_iff [OF ok assms(2)] Resolve_iff [OF ok assms(2)] as_listed_def by fastforce
  ultimately show ?thesis by blast
qed


text \<open>The client of a routed request sees the model it asked for: the request goes out under the provider's name of
  the model, and the answer comes back under the public name with every other key as it was; an answer that is not
  an object is passed on, except that the document null ends in a panic.\<close>

theorem routed_model_names:
  assumes "trim_space (ur_upstream route) \<noteq> []" "trim_space (ur_public route) \<noteq> []"
  shows "map_of (upstreamRawFieldsForContext (Some route) sent) k = (if k = ''model'' then Some (JStr (ur_upstream route)) else map_of sent k) \<and>
    restoreRoutedModelInResponseBody (Some route) body =
      (case body of
         RawJson (JObj kvs) \<Rightarrow> Inr (RawJson (JObj (gomap_set ''model'' (JStr (ur_public route)) (gomap_of kvs))))
       | RawJson JNull \<Rightarrow> Inl (GoPanic ''assignment to entry in nil map'')
       | _ \<Rightarrow> Inr body)"
  using assms
  by (auto simp: upstreamRawFieldsForContext_def rewriteRawFieldsModel_def restoreRoutedModelInResponseBody_def map_of_gomap_set
      split: raw.splits json.splits)

section \<open>The list of models\<close>

lemma collect_catalogs_map:
  "distinct (map fst answers) \<Longrightarrow> collect_catalogs answers catalogs firstErr = (cs, e) \<Longrightarrow>
     map_of cs pid = (case map_of answers pid of Some (Inr models) \<Rightarrow> Some models | _ \<Rightarrow> map_of catalogs pid)"
proof (induction answers catalogs firstErr rule: collect_catalogs.induct)
  case (2 pid' answer rest catalogs firstErr)
  then show ?case
    by (cases answer) (auto simp: map_of_gomap_set map_of_eq_None_iff [THEN iffD2] split: option.splits sum.splits)
qed simp

lemma resolver_ids:
  assumes "providers_ok ps" "newUpstreamProviderResolver ps = Some r"
  shows "map pc_id (map snd (rs_providers r)) = map fst (rs_providers r)" "distinct (map fst (rs_providers r))"
proof -
  have "gomap_wf (rs_providers r)"
    using assms(2) by (auto simp: newUpstreamProviderResolver_def Let_def gomap_wf_of split: if_splits)
  then show d: "distinct (map fst (rs_providers r))" by (rule gomap_wf_distinct)
  have "pc_id c = pid" if mem: "(pid, c) \<in> set (rs_providers r)" for pid c
  proof -
    obtain p where "p \<in> set ps" "lp_id p = pid" "c = provider_entry p"
      using resolver_providers(1) [OF assms, of pid c] map_of_is_SomeI [OF d mem] by blast
    then show ?thesis using assms(1) by (auto simp: providers_ok_def provider_entry_def Let_def)
  qed
  then show "map pc_id (map snd (rs_providers r)) = map fst (rs_providers r)" by auto
qed

lemma catalog_of_answers:
  assumes "distinct (map pc_id order)" "p \<in> set order"
  shows "map_of (map (catalog_answer list_models) order) (pc_id p) = Some (snd (catalog_answer list_models p))"
proof -
  have "distinct (map fst (map (catalog_answer list_models) order))"
    using assms(1) by (simp add: catalog_answer_def comp_def)
  then show ?thesis using assms(2) by (auto simp: catalog_answer_def map_of_eq_Some_iff image_iff)
qed

definition live_model :: "(upstream_route \<Rightarrow> string list res) \<Rightarrow> provider_config list \<Rightarrow> public_model \<Rightarrow> bool" where
  "live_model list_models ps m = list_ex (\<lambda>p. pc_id p = mo_provider m \<and>
     (case list_models (provider_route p) of Inl e \<Rightarrow> False | Inr names \<Rightarrow> mo_upstream m \<in> set names)) ps"

lemma live_catalog:
  assumes ids: "distinct (map pc_id order)" and c: "collect_catalogs (map (catalog_answer list_models) order) [] None = (cs, e)"
  shows "(case map_of cs (mo_provider m) of None \<Rightarrow> False | Some names \<Rightarrow> mo_upstream m \<in> set names) \<longleftrightarrow> live_model list_models order m"
proof -
  have "distinct (map fst (map (catalog_answer list_models) order))" using ids by (simp add: catalog_answer_def comp_def)
  note cs = collect_catalogs_map [OF this c]
  show ?thesis
  proof (cases "mo_provider m \<in> pc_id ` set order")
    case True
    then obtain p where p: "p \<in> set order" "pc_id p = mo_provider m" by auto
    have one: "q = p" if "q \<in> set order" "pc_id q = mo_provider m" for q
      using ids p that by (metis distinct_map inj_onD)
    have "map_of cs (mo_provider m) = (case list_models (provider_route p) of Inl e \<Rightarrow> None | Inr names \<Rightarrow> Some names)"
      using catalog_of_answers [OF ids p(1), of list_models] cs [of "pc_id p"] p(2) by (auto simp: catalog_answer_def split: sum.splits)
    moreover have "live_model list_models order m \<longleftrightarrow> (case list_models (provider_route p) of Inl e \<Rightarrow> False | Inr names \<Rightarrow> mo_upstream m \<in> set names)"
      unfolding live_model_def list_ex_iff using one p by blast
    ultimately show ?thesis by (auto split: sum.splits)
  next
    case False
    then have "map_of (map (catalog_answer list_models) order) (mo_provider m) = None"
      by (auto simp: map_of_eq_None_iff catalog_answer_def)
    then have "map_of cs (mo_provider m) = None" using cs [of "mo_provider m"] by simp
    moreover have "\<not> live_model list_models order m" using False unfolding live_model_def list_ex_iff by (metis imageI)
    ultimately show ?thesis by simp
  qed
qed

text \<open>C15: whatever the order in which the providers answer, the list of models is that of the configured models, in the
  order of their names, whose provider answers and has the model; with none of them the answer is 503.\<close>

theorem model_list_answer:
  assumes "parseLlamaProviders getenv [] ps0 = Inr ps" "newUpstreamProviderResolver ps = Some r"
    and order: "mset order = mset (map snd (rs_providers r))"
  shows "WriteModels list_models order r =
    (let listed = filter (live_model list_models (map snd (rs_providers r))) (rs_models r) in
     if listed = []
     then Inl (503, newAPIError ''service_unavailable'' ''upstream provider model catalog is not ready'' [] [])
     else Inr (JObj [(''data'', JArr (map model_json listed)), (''object'', JStr ''list'')])) \<and>
    sorted (map mo_id (rs_models r))"
proof -
  have ok: "providers_ok ps" using parse_providers_ok [OF assms(1)] by simp
  have set: "set order = set (map snd (rs_providers r))" by (rule mset_eq_setD [OF order])
  have "mset (map pc_id order) = mset (map fst (rs_providers r))"
    using order resolver_ids(1) [OF ok assms(2)] by (metis mset_map)
  then have ids: "distinct (map pc_id order)" using resolver_ids(2) [OF ok assms(2)] by (metis mset_eq_imp_distinct_iff)
  obtain cs e where c: "collect_catalogs (map (catalog_answer list_models) order) [] None = (cs, e)" by fastforce
  have live: "(case map_of cs (mo_provider m) of None \<Rightarrow> False | Some names \<Rightarrow> mo_upstream m \<in> set names) \<longleftrightarrow>
      live_model list_models (map snd (rs_providers r)) m" for m
    using live_catalog [OF ids c, of m] set by (simp add: live_model_def list_ex_iff)
  have "filter (live_model list_models (map snd (rs_providers r))) (rs_models r) = []" if "cs = []"
    using live that by (auto simp: filter_empty_conv)
  then have "WriteModels list_models order r =
    (let listed = filter (live_model list_models (map snd (rs_providers r))) (rs_models r) in
     if listed = []
     then Inl (503, newAPIError ''service_unavailable'' ''upstream provider model catalog is not ready'' [] [])
     else Inr (JObj [(''data'', JArr (map model_json listed)), (''object'', JStr ''list'')]))"
    by (cases "cs = []") (simp_all add: WriteModels_def LiveProviderModelCatalogs_def c Let_def live split: option.splits)
  moreover have "sorted (map mo_id (rs_models r))"
    using assms(2) by (auto simp: newUpstreamProviderResolver_def Let_def split: if_splits)
  ultimately show ?thesis by simp
qed

text \<open>The server is ready when one of the providers is.\<close>

lemma first_ready_None: "first_ready f rs = None \<longleftrightarrow> (\<exists>pid. (pid, None) \<in> set rs) \<or> (rs = [] \<and> f = None)"
  by (induction f rs rule: first_ready.induct) (auto split: option.splits)

lemma ready_when_a_provider_is:
  assumes "rs_providers r \<noteq> []"
  shows "resolver_CheckReady list_models (Some r) = None \<longleftrightarrow>
    (\<exists>(pid, p) \<in> set (rs_providers r). case list_models (provider_route p) of
       Inl e \<Rightarrow> False | Inr models \<Rightarrow> providerModelCatalogReadyError p models = None)"
proof -
  have ready: "(case x of Inl e \<Rightarrow> Some e | Inr models \<Rightarrow> f models) = None \<longleftrightarrow>
      (case x of Inl e \<Rightarrow> False | Inr models \<Rightarrow> f models = None)" for f and x :: "string list res"
    by (simp split: sum.split)
  have "(\<exists>pid. (pid, None) \<in> set (map (\<lambda>(pid, p). (pid, g p)) xs)) \<longleftrightarrow> (\<exists>(pid, p) \<in> set xs. g p = None)" for xs :: "provider_config gomap" and g :: "provider_config \<Rightarrow> error option"
    by (force simp: image_iff)
  then show ?thesis
    using assms by (simp add: resolver_CheckReady_def providerReadinessAggregateError_def ProviderReadiness_def first_ready_None ready)
qed

section \<open>A sample configuration\<close>

definition sample_providers :: "llama_provider list" where
  "sample_providers =
     [\<lparr>lp_id = '' b '', lp_base_url = ''http://b/v1/'', lp_token_env = ''B_KEY'', lp_token = [],
       lp_models = [\<lparr>pm_model = ''m'', pm_upstream = ''M-1''\<rparr>, \<lparr>pm_model = ''org/n'', pm_upstream = []\<rparr>]\<rparr>,
      \<lparr>lp_id = ''a'', lp_base_url = ''http://a'', lp_token_env = [], lp_token = [], lp_models = [\<lparr>pm_model = ''m'', pm_upstream = []\<rparr>]\<rparr>]"

definition sample_env :: "string \<Rightarrow> string" where
  "sample_env name = (if name = ''B_KEY'' then ''key-b'' else [])"

definition accepted_providers :: "llama_provider list" where
  "accepted_providers = (case parseLlamaProviders sample_env [] sample_providers of Inr ps \<Rightarrow> ps | Inl e \<Rightarrow> [])"

definition sample_resolver :: resolver where
  "sample_resolver = (case newUpstreamProviderResolver accepted_providers of Some r \<Rightarrow> r | None \<Rightarrow> \<lparr>rs_providers = [], rs_models = []\<rparr>)"

lemma sample_accepted: "parseLlamaProviders sample_env [] sample_providers = Inr accepted_providers"
  by code_simp

lemma sample_resolved: "newUpstreamProviderResolver accepted_providers = Some sample_resolver"
  by code_simp

theorem listed_models_resolve_witness:
  "\<exists>route. Resolve (Some sample_resolver) ''b/org/n'' = Inr route \<and>
     as_listed route = \<lparr>mo_id = ''b/org/n'', mo_provider = ''b'', mo_upstream = ''org/n''\<rparr>"
proof -
  have "\<lparr>mo_id = ''b/org/n'', mo_provider = ''b'', mo_upstream = ''org/n''\<rparr> \<in> set (rs_models sample_resolver)" by code_simp
  with listed_models_resolve [OF sample_accepted sample_resolved] show ?thesis by fastforce
qed

lemma sample_route:
  "ContextForModel (Some sample_resolver) '' b/org/n '' = Inr (Some \<lparr>ur_provider = ''b'', ur_public = ''b/org/n'', ur_upstream = ''org/n'',
     ur_plugin = ''provider.b'', ur_version = ''v1'', ur_base_url = ''http://b/v1'', ur_token = ''key-b''\<rparr>)"
  by code_simp


theorem routed_model_names_witness:
  "restoreRoutedModelInResponseBody (Some (no_route\<lparr>ur_public := ''b/m'', ur_upstream := ''M-1''\<rparr>))
     (RawJson (JObj [(''id'', JStr ''r''), (''model'', JStr ''M-1'')])) = Inr (RawJson (JObj [(''id'', JStr ''r''), (''model'', JStr ''b/m'')]))"
proof -
  have "trim_space (ur_upstream (no_route\<lparr>ur_public := ''b/m'', ur_upstream := ''M-1''\<rparr>)) \<noteq> []"
    "trim_space (ur_public (no_route\<lparr>ur_public := ''b/m'', ur_upstream := ''M-1''\<rparr>)) \<noteq> []" by code_simp+
  note routed_model_names [OF this, THEN conjunct2, of "RawJson (JObj [(''id'', JStr ''r''), (''model'', JStr ''M-1'')])"]
  then show ?thesis by (simp add: gomap_of_def less_list_code no_route_def)
qed

theorem model_list_answer_witness:
  "WriteModels (\<lambda>route. if ur_provider route = ''b'' then Inr [''M-1''] else Inl DeadlineExceeded) (rev (map snd (rs_providers sample_resolver))) sample_resolver =
     Inr (JObj [(''data'', JArr [model_json \<lparr>mo_id = ''b/m'', mo_provider = ''b'', mo_upstream = ''M-1''\<rparr>]), (''object'', JStr ''list'')])"
proof -
  let ?ask = "\<lambda>route. if ur_provider route = ''b'' then Inr [''M-1''] else Inl DeadlineExceeded :: string list res"
  have live: "filter (live_model ?ask (map snd (rs_providers sample_resolver))) (rs_models sample_resolver) =
      [\<lparr>mo_id = ''b/m'', mo_provider = ''b'', mo_upstream = ''M-1''\<rparr>]" by code_simp
  show ?thesis
    using model_list_answer [OF sample_accepted sample_resolved, of "rev (map snd (rs_providers sample_resolver))" ?ask] unfolding live by simp
qed

end
