(* ===== verification/Config_Values.thy ===== *)
theory Config_Values
  imports Provider_Routing Event_Stream "HOL-Library.Word"
begin

text \<open>
  The values of the configuration (\<^verbatim>\<open>config/config.go\<close>, and the defaults of \<^verbatim>\<open>httpapi/ops.go\<close> and \<^verbatim>\<open>ui.go\<close>): enumerations,
  numbers, sizes, the path of the operator's pages, the rules for models and what clients are told of the models.
  Reading files and the environment is the configuration library's: the values it finds are the arguments.
  \<open>byte_size_value\<close> reads sizes with their units, \<open>public_paths_not_reserved\<close> keeps the public pages apart from the
  protected ones, and \<open>accepted_metadata\<close> says what accepted metadata looks like.
\<close>

section \<open>Paths\<close>

text \<open>\<^verbatim>\<open>path.Clean\<close>: the segments of a path one after the other, on a stack.\<close>

fun split_slash :: "string \<Rightarrow> string list" where
  "split_slash [] = [[]]"
| "split_slash (c # cs) =
     (if c = CHR ''/'' then [] # split_slash cs
      else case split_slash cs of [] \<Rightarrow> [[c]] | s # ss \<Rightarrow> (c # s) # ss)"

fun clean_segments :: "bool \<Rightarrow> string list \<Rightarrow> string list \<Rightarrow> string list" where
  "clean_segments rooted stack [] = rev stack"
| "clean_segments rooted stack (s # ss) =
     (if s = [] \<or> s = ''.'' then clean_segments rooted stack ss
      else if s = ''..'' then
        (case stack of
           [] \<Rightarrow> clean_segments rooted (if rooted then [] else [s]) ss
         | seg # below \<Rightarrow> if seg = ''..'' then clean_segments rooted (s # stack) ss else clean_segments rooted below ss)
      else clean_segments rooted (s # stack) ss)"

definition path_clean :: "string \<Rightarrow> string" where
  "path_clean p =
     (let rooted = has_prefix p ''/'';
          cleaned = join (clean_segments rooted [] (split_slash p)) ''/''
      in if rooted then ''/'' @ cleaned else if cleaned = [] then ''.'' else cleaned)"

section \<open>Values of the configuration\<close>

definition syntax_error :: "'a res" where "syntax_error = Inl (Errorf ''invalid syntax'')"

definition normalizeStringList :: "string list \<Rightarrow> string list" where
  "normalizeStringList values = filter (\<lambda>v. v \<noteq> []) (map trim_space values)"

definition normalizeConfigEnum :: "string \<Rightarrow> string \<Rightarrow> string list \<Rightarrow> string res" where
  "normalizeConfigEnum v defaultValue allowed =
     (let normalized = to_lower (trim_space v) in
      if normalized = [] then Inr defaultValue
      else if normalized \<in> set allowed then Inr normalized else syntax_error)"

definition one_of :: "string list \<Rightarrow> string \<Rightarrow> unit res" where
  "one_of allowed v = (if to_lower (trim_space v) \<in> set allowed then Inr () else syntax_error)"

definition parseCustomToolsMode :: "string \<Rightarrow> unit res" where
  "parseCustomToolsMode = one_of ['''', ''bridge'', ''passthrough'', ''auto'']"

definition parseConstrainedDecodingBackend :: "string \<Rightarrow> unit res" where
  "parseConstrainedDecodingBackend = one_of ['''', ''shim_validate_repair'', ''vllm'']"

definition parseResponsesMode :: "string \<Rightarrow> unit res" where
  "parseResponsesMode = one_of ['''', ''prefer_local'', ''prefer_upstream'', ''local_only'']"

definition parseResponsesUpstreamTransport :: "string \<Rightarrow> unit res" where
  "parseResponsesUpstreamTransport = one_of ['''', ''responses'', ''chat_completions'']"

definition parseShimAuthMode :: "string \<Rightarrow> unit res" where
  "parseShimAuthMode = one_of ['''', authDisabled, authStaticBearer]"

definition parseCodeInterpreterBackend :: "string \<Rightarrow> unit res" where
  "parseCodeInterpreterBackend = one_of [''disabled'', ''docker'']"

definition parseComputerBackend :: "string \<Rightarrow> unit res" where
  "parseComputerBackend = one_of ['''', ''disabled'', ''chat_completions'']"

definition parseCodeInterpreterInputFileURLPolicy :: "string \<Rightarrow> unit res" where
  "parseCodeInterpreterInputFileURLPolicy = one_of [''disabled'', ''allowlist'', ''unsafe_allow_http_https'']"

definition parseTelemetryProtocol :: "string \<Rightarrow> unit res" where
  "parseTelemetryProtocol = one_of [''otlp_http'', ''http/protobuf'', ''otlp_grpc'', ''grpc'']"

definition parsePositiveInt :: "string \<Rightarrow> int res" where
  "parsePositiveInt v =
     (case atoi (trim_space v) of
        None \<Rightarrow> Inl (atoi_error (trim_space v))
      | Some n \<Rightarrow> if n \<le> 0 then syntax_error else Inr n)"

definition parseNonNegativeInt :: "string \<Rightarrow> int res" where
  "parseNonNegativeInt v =
     (case atoi (trim_space v) of
        None \<Rightarrow> Inl (atoi_error (trim_space v))
      | Some n \<Rightarrow> if n < 0 then syntax_error else Inr n)"

text \<open>Sizes are 64-bit integers: the product with the scale wraps around.\<close>

definition size_units :: "(string \<times> int) list" where
  "size_units = [(''kib'', 2 ^ 10), (''mib'', 2 ^ 20), (''gib'', 2 ^ 30), (''kb'', 2 ^ 10), (''mb'', 2 ^ 20), (''gb'', 2 ^ 30), (''b'', 1)]"

definition wrap64 :: "int \<Rightarrow> int" where
  "wrap64 n = sint (word_of_int n :: 64 word)"

fun scaled_size :: "(string \<times> int) list \<Rightarrow> string \<Rightarrow> int res" where
  "scaled_size [] trimmed =
     (case atoi trimmed of None \<Rightarrow> syntax_error | Some n \<Rightarrow> if n \<le> 0 then syntax_error else Inr n)"
| "scaled_size ((unit, scale) # units) trimmed =
     (if \<not> has_suffix (to_lower trimmed) unit then scaled_size units trimmed
      else case atoi (trim_space (take (length trimmed - length unit) trimmed)) of
        None \<Rightarrow> syntax_error
      | Some n \<Rightarrow> if n \<le> 0 then syntax_error else Inr (wrap64 (n * scale)))"

definition parseByteSize :: "string \<Rightarrow> int res" where
  "parseByteSize v =
     (let trimmed = trim_space v in
      if trimmed = [] then syntax_error else scaled_size size_units trimmed)"

fun firstNonEmptyConfigString :: "string list \<Rightarrow> string" where
  "firstNonEmptyConfigString [] = []"
| "firstNonEmptyConfigString (v # vs) = (if trim_space v \<noteq> [] then trim_space v else firstNonEmptyConfigString vs)"

section \<open>The path of the operator's pages\<close>

definition reserved_paths :: "string list" where
  "reserved_paths = [''/v1'', ''/debug'', ''/healthz'', ''/readyz'', ''/metrics'', ''/api'']"

definition reservedUIBasePath :: "string \<Rightarrow> bool" where
  "reservedUIBasePath cleaned = list_ex (\<lambda>p. cleaned = p \<or> has_prefix cleaned (p @ ''/'')) reserved_paths"

definition normalizeUIBasePath :: "string \<Rightarrow> string res" where
  "normalizeUIBasePath v =
     (let given = trim_space v; trimmed = (if given = [] then ''/ui/'' else given) in
      if \<not> has_prefix trimmed ''/'' \<or> list_ex (\<lambda>c. c \<in> set [CHR ''?'', CHR ''#'', CHR 92]) trimmed \<or> contains trimmed ''..''
      then syntax_error
      else
        let cleaned = path_clean trimmed in
        if cleaned = ''/'' \<or> contains cleaned ''/../'' \<or> has_suffix cleaned ''/..'' \<or> reservedUIBasePath cleaned then syntax_error
        else Inr (trim_right_slash cleaned @ ''/''))"

text \<open>The function of the same name in the package of the server, which repeats the defaults.\<close>

definition httpapi_normalizeUIBasePath :: "string \<Rightarrow> string" where
  "httpapi_normalizeUIBasePath v =
     (let given = trim_space v;
          cleaned0 = path_clean (if given = [] then ''/ui/'' else given);
          cleaned = (if \<not> has_prefix cleaned0 ''/'' then ''/'' @ cleaned0 else cleaned0)
      in if cleaned = ''/'' then ''/ui/'' else trim_right_slash cleaned @ ''/'')"

section \<open>Rules for models\<close>

text \<open>The rules as the configuration library reads them are the arguments.\<close>

record chat_rule =
  cr_model :: string
  cr_remap_developer :: bool
  cr_thinking :: string
  cr_max_tokens :: int
  cr_schema_mode :: string
  cr_ensure_types :: bool
  cr_moonshot :: bool
  cr_omit_empty :: bool
  cr_retry_arguments :: bool
  cr_fallback :: string

definition chat_rules_key :: string where
  "chat_rules_key = ''parse chat_completions.upstream_compatibility.models: ''"

definition chat_rule_checked :: "chat_rule \<Rightarrow> chat_rule res" where
  "chat_rule_checked r =
     (let model = trim_space (cr_model r) in
      if model = [] then Inl (Errorf (chat_rules_key @ ''model is required''))
      else case normalizeConfigEnum (cr_thinking r) ''passthrough'' [''passthrough'', ''disabled''] of
        Inl e \<Rightarrow> Inl (Wrap (chat_rules_key @ ''default_thinking'') e)
      | Inr thinking \<Rightarrow>
          (case normalizeConfigEnum (cr_schema_mode r) ''passthrough'' [''passthrough'', ''json_object_instruction''] of
             Inl e \<Rightarrow> Inl (Wrap (chat_rules_key @ ''json_schema_mode'') e)
           | Inr mode \<Rightarrow>
               if cr_max_tokens r < 0
               then Inl (Errorf (chat_rules_key @ ''default_max_tokens must be greater than or equal to 0''))
               else Inr (r\<lparr>cr_model := model, cr_thinking := thinking, cr_schema_mode := mode\<rparr>)))"

definition parseChatCompletionsUpstreamCompatibility :: "chat_rule list \<Rightarrow> chat_rule list res" where
  "parseChatCompletionsUpstreamCompatibility rules = map_res chat_rule_checked rules"

record codex_input_rule =
  ci_model :: string
  ci_mode :: string

definition codex_input_key :: string where
  "codex_input_key = ''parse responses.codex.upstream_input_compatibility.models: ''"

definition codex_input_checked :: "codex_input_rule \<Rightarrow> codex_input_rule res" where
  "codex_input_checked r =
     (let model = trim_space (ci_model r) in
      if model = [] then Inl (Errorf (codex_input_key @ ''model is required''))
      else case normalizeConfigEnum (ci_mode r) ''auto'' [''auto'', ''structured'', ''stringify''] of
        Inl e \<Rightarrow> Inl (Wrap (codex_input_key @ ''mode'') e)
      | Inr mode \<Rightarrow> Inr (r\<lparr>ci_model := model, ci_mode := mode\<rparr>))"

definition parseResponsesCodexUpstreamInputCompatibility :: "codex_input_rule list \<Rightarrow> codex_input_rule list res" where
  "parseResponsesCodexUpstreamInputCompatibility rules = map_res codex_input_checked rules"

section \<open>What clients are told of the models\<close>

record codex_model =
  cm_model :: string
  cm_display :: string
  cm_description :: string
  cm_context :: int
  cm_max_context :: int
  cm_auto_compact :: int
  cm_percent :: int
  cm_level :: string
  cm_levels :: "string list"
  cm_summaries :: bool
  cm_summary :: string
  cm_shell :: string
  cm_apply_patch :: string
  cm_web_search :: string
  cm_parallel :: bool
  cm_verbosity_supported :: bool
  cm_verbosity :: string
  cm_image_detail :: bool
  cm_search_tool :: bool
  cm_modalities :: "string list"
  cm_visibility :: string
  cm_in_api :: "bool option"
  cm_priority :: "int option"
  cm_tiers :: "string list"
  cm_tools :: "string list"
  cm_nux :: string
  cm_truncation_mode :: string
  cm_truncation_limit :: int
  cm_instructions :: string

definition codex_error :: "string \<Rightarrow> 'a res" where
  "codex_error m = Inl (Errorf (''parse responses.codex.model_metadata.models: '' @ m))"

definition codex_enum :: "string \<Rightarrow> string \<Rightarrow> string list \<Rightarrow> string \<Rightarrow> string res" where
  "codex_enum key defaultValue allowed v =
     (case normalizeConfigEnum v defaultValue allowed of
        Inl e \<Rightarrow> Inl (Wrap (''parse responses.codex.model_metadata.models: '' @ key) e)
      | Inr x \<Rightarrow> Inr x)"

abbreviation reasoning_levels :: "string list" where
  "reasoning_levels \<equiv> [''none'', ''minimal'', ''low'', ''medium'', ''high'', ''xhigh'']"

definition codex_names :: "codex_model \<Rightarrow> codex_model res" where
  "codex_names m =
     (let model = trim_space (cm_model m); display = trim_space (cm_display m); description = trim_space (cm_description m) in
      if model = [] then codex_error ''model is required''
      else Inr (m\<lparr>cm_model := model, cm_display := (if display = [] then model else display),
        cm_description := (if description = [] then ''OpenAI-compatible upstream routed through llama_shim.'' else description)\<rparr>))"

definition codex_windows :: "codex_model \<Rightarrow> codex_model res" where
  "codex_windows m =
     (if cm_context m < 0 then codex_error ''context_window must be non-negative''
      else if cm_max_context m < 0 then codex_error ''max_context_window must be non-negative''
      else if cm_auto_compact m < 0 then codex_error ''auto_compact_token_limit must be non-negative''
      else if cm_percent m < 0 then codex_error ''effective_context_window_percent must be non-negative''
      else
        let percent = (if cm_percent m = 0 then 95 else cm_percent m) in
        if percent > 100 then codex_error ''effective_context_window_percent must be <= 100''
        else Inr (m\<lparr>cm_percent := percent\<rparr>))"

definition codex_reasoning :: "codex_model \<Rightarrow> codex_model res" where
  "codex_reasoning m =
     res_bind (codex_enum ''default_reasoning_level'' ''high'' reasoning_levels (cm_level m)) (\<lambda>level.
     res_bind (map_res (codex_enum ''supported_reasoning_levels'' [] reasoning_levels)
       (if cm_levels m = [] then [''low'', ''medium'', ''high''] else cm_levels m)) (\<lambda>levels.
     res_bind (codex_enum ''default_reasoning_summary'' ''none'' [''auto'', ''concise'', ''detailed'', ''none''] (cm_summary m)) (\<lambda>summary.
     Inr (m\<lparr>cm_level := level, cm_levels := levels, cm_summary := summary\<rparr>))))"

definition codex_tools :: "codex_model \<Rightarrow> codex_model res" where
  "codex_tools m =
     res_bind (codex_enum ''shell_type'' ''shell_command'' [''default'', ''local'', ''unified_exec'', ''disabled'', ''shell_command''] (cm_shell m)) (\<lambda>shellType.
     res_bind (codex_enum ''apply_patch_tool_type'' [] [''freeform'', ''function''] (cm_apply_patch m)) (\<lambda>applyPatch.
     res_bind (codex_enum ''web_search_tool_type'' ''text'' [''text'', ''text_and_image''] (cm_web_search m)) (\<lambda>webSearch.
     res_bind (codex_enum ''default_verbosity'' [] [''low'', ''medium'', ''high''] (cm_verbosity m)) (\<lambda>verbosity.
     Inr (m\<lparr>cm_shell := shellType, cm_apply_patch := applyPatch, cm_web_search := webSearch, cm_verbosity := verbosity\<rparr>)))))"

definition codex_surface :: "codex_model \<Rightarrow> codex_model res" where
  "codex_surface m =
     res_bind (map_res (codex_enum ''input_modalities'' [] [''text'', ''image'']) (if cm_modalities m = [] then [''text''] else cm_modalities m)) (\<lambda>modalities.
     res_bind (codex_enum ''visibility'' ''list'' [''list'', ''hide'', ''none''] (cm_visibility m)) (\<lambda>visibility.
     Inr (m\<lparr>cm_modalities := modalities, cm_visibility := visibility,
       cm_in_api := (case cm_in_api m of None \<Rightarrow> Some True | Some b \<Rightarrow> Some b),
       cm_priority := (case cm_priority m of None \<Rightarrow> Some 100 | Some n \<Rightarrow> Some n),
       cm_tiers := normalizeStringList (cm_tiers m), cm_tools := normalizeStringList (cm_tools m), cm_nux := trim_space (cm_nux m)\<rparr>)))"

definition codex_truncation :: "codex_model \<Rightarrow> codex_model res" where
  "codex_truncation m =
     res_bind (codex_enum ''truncation_policy.mode'' ''bytes'' [''bytes'', ''tokens''] (cm_truncation_mode m)) (\<lambda>mode.
     if cm_truncation_limit m < 0 then codex_error ''truncation_policy.limit must be non-negative''
     else Inr (m\<lparr>cm_truncation_mode := mode,
       cm_truncation_limit := (if cm_truncation_limit m = 0 then 10000 else cm_truncation_limit m)\<rparr>))"

definition codex_model_checked :: "codex_model \<Rightarrow> codex_model res" where
  "codex_model_checked m =
     res_bind (codex_names m) (\<lambda>m1. res_bind (codex_windows m1) (\<lambda>m2. res_bind (codex_reasoning m2) (\<lambda>m3.
     res_bind (codex_tools m3) (\<lambda>m4. res_bind (codex_surface m4) codex_truncation))))"

definition parseResponsesCodexModelMetadata :: "codex_model list \<Rightarrow> codex_model list res" where
  "parseResponsesCodexModelMetadata models = map_res codex_model_checked models"

section \<open>Limits of the services\<close>

record metrics_config =
  mt_enabled :: bool
  mt_path :: string

definition normalizeMetricsConfig :: "metrics_config \<Rightarrow> metrics_config" where
  "normalizeMetricsConfig cfg =
     (if \<not> mt_enabled cfg then cfg\<lparr>mt_path := []\<rparr>
      else
        let p = (if trim_space (mt_path cfg) = [] then ''/metrics'' else mt_path cfg)
        in cfg\<lparr>mt_path := (if has_prefix p ''/'' then p else ''/'' @ p)\<rparr>)"

record service_limits =
  sl_json_body :: int
  sl_upload :: int
  sl_shadow_bytes :: int
  sl_shadow_timeout :: int
  sl_proxy_buffer :: int
  sl_grammar :: int
  sl_pattern :: int
  sl_searches :: int
  sl_queries :: int
  sl_chunks :: int
  sl_runs :: int

definition or_default :: "int \<Rightarrow> int \<Rightarrow> int" where
  "or_default d n = (if n \<le> 0 then d else n)"

definition normalizeServiceLimits :: "service_limits \<Rightarrow> service_limits" where
  "normalizeServiceLimits l =
     \<lparr>sl_json_body = or_default (2 ^ 20) (sl_json_body l), sl_upload = or_default (64 * 2 ^ 20) (sl_upload l),
      sl_shadow_bytes = or_default (64 * 2 ^ 20) (sl_shadow_bytes l), sl_shadow_timeout = or_default 5000000000 (sl_shadow_timeout l),
      sl_proxy_buffer = or_default (64 * 2 ^ 20) (sl_proxy_buffer l), sl_grammar = or_default (16 * 2 ^ 10) (sl_grammar l),
      sl_pattern = or_default (32 * 2 ^ 10) (sl_pattern l), sl_searches = or_default 8 (sl_searches l),
      sl_queries = or_default 4 (sl_queries l), sl_chunks = or_default 20 (sl_chunks l), sl_runs = or_default 2 (sl_runs l)\<rparr>"

record interpreter_limits =
  il_files :: int
  il_file_bytes :: int
  il_total_bytes :: int
  il_input_bytes :: int

definition normalizeLocalCodeInterpreterLimits :: "interpreter_limits \<Rightarrow> interpreter_limits" where
  "normalizeLocalCodeInterpreterLimits l =
     \<lparr>il_files = or_default 8 (il_files l), il_file_bytes = or_default (2 * 2 ^ 20) (il_file_bytes l),
      il_total_bytes = or_default (8 * 2 ^ 20) (il_total_bytes l), il_input_bytes = or_default (50 * 2 ^ 20) (il_input_bytes l)\<rparr>"

section \<open>Sizes\<close>

lemma to_lower_ascii: "list_all (\<lambda>c. byte c < 0x80) s \<Longrightarrow> to_lower s = map lower_char s"
proof (induction s)
  case (Cons c s)
  then show ?case by (cases s) (auto simp: to_lower.simps)
qed (simp add: to_lower.simps)

lemma digit_byte: "is_digit c \<Longrightarrow> 48 \<le> byte c \<and> byte c < 58 \<and> lower_char c = c"
  by (auto simp: is_digit_def lower_char_def)

lemma sized_text:
  assumes "0 \<le> n" "unit \<in> fst ` set size_units"
  shows "trim_space (int_text n @ unit) = int_text n @ unit" "to_lower (int_text n @ unit) = int_text n @ unit"
    "trim_space (int_text n) = int_text n"
proof -
  note d = int_text_digits [OF assms(1)]
  have b: "48 \<le> byte c \<and> byte c < 58 \<and> lower_char c = c" if "c \<in> set (int_text n)" for c
    using d(2) that digit_byte by (auto simp: list_all_iff)
  have u: "unit \<noteq> []" "\<forall>c \<in> set unit. 97 \<le> byte c \<and> byte c < 123 \<and> lower_char c = c"
    using assms(2) by (auto simp: size_units_def lower_char_def)
  show "trim_space (int_text n) = int_text n"
    using d(1) b by (intro trim_space_word) (fastforce dest: hd_in_set last_in_set)+
  show "trim_space (int_text n @ unit) = int_text n @ unit"
    using d(1) b u by (intro trim_space_word) (fastforce dest: hd_in_set last_in_set)+
  have "list_all (\<lambda>c. byte c < 0x80) (int_text n @ unit)" using b u by (fastforce simp: list_all_iff)
  then show "to_lower (int_text n @ unit) = int_text n @ unit"
    using b u by (simp add: to_lower_ascii map_idI)
qed

lemma atoi_int_text: "0 \<le> n \<Longrightarrow> n < 2 ^ 63 \<Longrightarrow> atoi (int_text n) = Some n"
proof -
  assume n: "0 \<le> n" "n < 2 ^ 63"
  note d = int_text_digits [OF n(1)]
  obtain c cs where c: "int_text n = c # cs" using d(1) by (cases "int_text n") auto
  then have "is_digit c" using d(2) by simp
  then have "c \<noteq> CHR ''-''" "c \<noteq> CHR ''+''" by (auto simp: is_digit_def)
  then show "atoi (int_text n) = Some n" using d n c by (simp add: atoi_def)
qed

lemma wrap64_small: "- (2 ^ 63) \<le> n \<Longrightarrow> n < 2 ^ 63 \<Longrightarrow> wrap64 n = n"
  by (simp add: wrap64_def sint_sbintrunc' signed_take_bit_int_eq_self)

lemma has_suffix_rev: "has_suffix s p \<longleftrightarrow> has_prefix (rev s) (rev p)"
  by (auto simp: has_suffix_iff has_prefix_iff) (metis rev_append rev_rev_ident)

lemma has_prefix_Cons: "has_prefix (c # s) (d # p) \<longleftrightarrow> c = d \<and> has_prefix s p"
  by (auto simp: has_prefix_iff)

lemma digit_last: "is_digit c \<Longrightarrow> c \<noteq> CHR ''i'' \<and> c \<noteq> CHR ''k'' \<and> c \<noteq> CHR ''m'' \<and> c \<noteq> CHR ''g'' \<and> c \<noteq> CHR ''b''"
  by (auto simp: is_digit_def)

lemma scaled_text:
  assumes "list_all is_digit ds" "ds \<noteq> []" "(unit, scale) \<in> set size_units" "to_lower (ds @ unit) = ds @ unit"
    and "trim_space ds = ds" "atoi ds = Some n" "0 < n"
  shows "scaled_size size_units (ds @ unit) = Inr (wrap64 (n * scale))"
proof -
  obtain es c where ds: "rev ds = c # es" using assms(2) by (cases "rev ds") auto
  then have c: "c \<noteq> CHR ''i'' \<and> c \<noteq> CHR ''k'' \<and> c \<noteq> CHR ''m'' \<and> c \<noteq> CHR ''g'' \<and> c \<noteq> CHR ''b''"
    using assms(1) by (intro digit_last) (metis list.set_intros(1) list_all_iff set_rev)
  from assms(3) consider "unit = ''kib'' \<and> scale = 2 ^ 10" | "unit = ''mib'' \<and> scale = 2 ^ 20" | "unit = ''gib'' \<and> scale = 2 ^ 30"
    | "unit = ''kb'' \<and> scale = 2 ^ 10" | "unit = ''mb'' \<and> scale = 2 ^ 20" | "unit = ''gb'' \<and> scale = 2 ^ 30" | "unit = ''b'' \<and> scale = 1"
    by (auto simp: size_units_def)
  then show ?thesis
    by cases (use assms(4-) ds c in \<open>simp_all add: size_units_def has_suffix_rev has_prefix_Cons\<close>)
qed

text \<open>C37: a positive number with a unit is read as the number times the unit, as long as that is less than
  \<open>2 ^ 63\<close>; beyond that the size wraps around without an error.\<close>

theorem byte_size_value:
  assumes "0 < n" "n < 2 ^ 63" "(unit, scale) \<in> set size_units"
  shows "parseByteSize (int_text n @ unit) = Inr (if n * scale < 2 ^ 63 then n * scale else wrap64 (n * scale))"
proof -
  have n: "0 \<le> n" and unit: "unit \<in> fst ` set size_units" using assms by force+
  note d = int_text_digits [OF n] and t = sized_text [OF n unit]
  have "parseByteSize (int_text n @ unit) = Inr (wrap64 (n * scale))"
    using scaled_text [OF d(2,1) assms(3) t(2,3) atoi_int_text [OF n assms(2)] assms(1)] d(1)
    by (simp add: parseByteSize_def t(1))
  moreover have "0 \<le> n * scale" using assms(1,3) by (auto simp: size_units_def)
  ultimately show ?thesis using wrap64_small [of "n * scale"] by auto
qed

theorem byte_size_value_witness:
  "parseByteSize ''64mib'' = Inr 67108864 \<and> parseByteSize ''17179869184gib'' = Inr 0"
proof -
  have "int_text 64 = ''64''" "int_text 17179869184 = ''17179869184''" "wrap64 (17179869184 * 2 ^ 30) = 0" by code_simp+
  then show ?thesis
    using byte_size_value [of 64 "''mib''" "2 ^ 20"] byte_size_value [of 17179869184 "''gib''" "2 ^ 30"] by (simp add: size_units_def)
qed

section \<open>What the public pages leave protected\<close>

lemma split_slash_segments: "s \<in> set (split_slash p) \<Longrightarrow> CHR ''/'' \<notin> set s"
  by (induction p arbitrary: s rule: split_slash.induct) (fastforce split: if_splits list.splits)+

lemma clean_segments_subset: "set (clean_segments rooted stack ss) \<subseteq> set stack \<union> {s \<in> set ss. s \<noteq> []}"
proof (induction rooted stack ss rule: clean_segments.induct)
  case (2 rooted stack s ss)
  show ?case
  proof (cases "s = [] \<or> s = ''.''")
    case True
    then show ?thesis using "2.IH"(1) by auto
  next
    case False
    then show ?thesis
      using "2.IH"(2-)
      by (cases "s = ''..''"; cases stack) (simp_all del: not_Cons_self2, (blast | (simp split: if_splits, blast))+)
  qed
qed simp

lemma join_last: "xs \<noteq> [] \<Longrightarrow> last xs \<noteq> [] \<Longrightarrow> join xs sep \<noteq> [] \<and> last (join xs sep) = last (last xs)"
  by (induction xs sep rule: join.induct) auto

lemma path_clean_rooted:
  assumes "has_prefix p ''/''" "path_clean p \<noteq> ''/''"
  shows "\<exists>c. path_clean p = CHR ''/'' # c \<and> c \<noteq> [] \<and> last c \<noteq> CHR ''/''"
proof -
  let ?segs = "clean_segments True [] (split_slash p)"
  have ok: "\<forall>s \<in> set ?segs. s \<noteq> [] \<and> CHR ''/'' \<notin> set s"
    using split_slash_segments clean_segments_subset [of True "[]" "split_slash p"] by auto
  have c: "path_clean p = CHR ''/'' # join ?segs ''/''" using assms(1) by (simp add: path_clean_def)
  then have ne: "?segs \<noteq> []" using assms(2) by auto
  then have last: "last ?segs \<noteq> []" "CHR ''/'' \<notin> set (last ?segs)" using ok by auto
  then have "last (last ?segs) \<noteq> CHR ''/''" by (metis last_in_set)
  then show ?thesis using c join_last [OF ne last(1)] by auto
qed

lemma trim_right_slash_fixed: "c \<noteq> [] \<Longrightarrow> last c \<noteq> CHR ''/'' \<Longrightarrow> trim_right_slash c = c \<and> trim_right_slash (c @ ''/'') = c"
  by (cases c rule: rev_cases) (auto simp: trim_right_slash_def)

lemma reserved_slash: "r \<in> set reserved_paths \<Longrightarrow> \<exists>r'. r = CHR ''/'' # r' \<and> CHR ''/'' \<notin> set r'"
  by (auto simp: reserved_paths_def)

lemma slash_free_prefix: "a @ x # b = r @ x # u \<Longrightarrow> x \<notin> set r \<Longrightarrow> a = r \<or> (\<exists>v. a = r @ x # v)"
  by (auto simp: append_eq_append_conv2 append_eq_Cons_conv Cons_eq_append_conv)

lemma reserved_prefix:
  assumes "reservedUIBasePath (c @ ''/'' @ t)" "has_prefix c ''/''"
  shows "reservedUIBasePath c"
proof -
  obtain c' where c: "c = CHR ''/'' # c'" using assms(2) by (auto simp: has_prefix_iff)
  obtain r where r: "r \<in> set reserved_paths" "c @ ''/'' @ t = r \<or> (\<exists>u. c @ ''/'' @ t = r @ ''/'' @ u)"
    using assms(1) unfolding reservedUIBasePath_def list_ex_iff has_prefix_iff by auto
  obtain r' where r': "r = CHR ''/'' # r'" "CHR ''/'' \<notin> set r'" using reserved_slash [OF r(1)] by auto
  then obtain u where "c' @ CHR ''/'' # t = r' @ CHR ''/'' # u" using r(2) c by auto
  then have "c = r \<or> (\<exists>v. c = r @ ''/'' @ v)" using slash_free_prefix [OF _ r'(2)] c r'(1) by auto
  then show ?thesis using r(1) unfolding reservedUIBasePath_def list_ex_iff has_prefix_iff by auto
qed




section \<open>Accepted metadata\<close>

text \<open>The values an accepted entry can have.\<close>

definition windows_ok :: "int \<Rightarrow> int \<Rightarrow> int \<Rightarrow> int \<Rightarrow> bool" where
  "windows_ok context maxContext autoCompact percent \<longleftrightarrow>
     0 \<le> context \<and> 0 \<le> maxContext \<and> 0 \<le> autoCompact \<and> 0 < percent \<and> percent \<le> 100"

definition reasoning_ok :: "string \<Rightarrow> string list \<Rightarrow> string \<Rightarrow> bool" where
  "reasoning_ok level levels summary \<longleftrightarrow>
     level \<in> set reasoning_levels \<and> levels \<noteq> [] \<and> set levels \<subseteq> insert [] (set reasoning_levels) \<and>
     summary \<in> set [''auto'', ''concise'', ''detailed'', ''none'']"

definition tools_ok :: "string \<Rightarrow> string \<Rightarrow> string \<Rightarrow> string \<Rightarrow> bool" where
  "tools_ok shellType applyPatch webSearch verbosity \<longleftrightarrow>
     shellType \<in> set [''default'', ''local'', ''unified_exec'', ''disabled'', ''shell_command''] \<and>
     (applyPatch = [] \<or> applyPatch \<in> set [''freeform'', ''function'']) \<and>
     webSearch \<in> set [''text'', ''text_and_image''] \<and> (verbosity = [] \<or> verbosity \<in> set [''low'', ''medium'', ''high''])"

definition surface_ok :: "string list \<Rightarrow> string \<Rightarrow> bool" where
  "surface_ok modalities visibility \<longleftrightarrow>
     modalities \<noteq> [] \<and> set modalities \<subseteq> insert [] (set [''text'', ''image'']) \<and> visibility \<in> set [''list'', ''hide'', ''none'']"

definition truncation_ok :: "string \<Rightarrow> int \<Rightarrow> bool" where
  "truncation_ok mode limit \<longleftrightarrow> mode \<in> set [''bytes'', ''tokens''] \<and> 0 < limit"

definition codex_model_ok :: "codex_model \<Rightarrow> bool" where
  "codex_model_ok m \<longleftrightarrow>
     cm_model m \<noteq> [] \<and> cm_display m \<noteq> [] \<and> cm_description m \<noteq> [] \<and>
     windows_ok (cm_context m) (cm_max_context m) (cm_auto_compact m) (cm_percent m) \<and>
     reasoning_ok (cm_level m) (cm_levels m) (cm_summary m) \<and>
     tools_ok (cm_shell m) (cm_apply_patch m) (cm_web_search m) (cm_verbosity m) \<and>
     surface_ok (cm_modalities m) (cm_visibility m) \<and> cm_in_api m \<noteq> None \<and> cm_priority m \<noteq> None \<and>
     truncation_ok (cm_truncation_mode m) (cm_truncation_limit m)"

lemma codex_enum_Inr: "codex_enum key d allowed v = Inr x \<Longrightarrow> x = d \<or> x \<in> set allowed"
  by (auto simp: codex_enum_def normalizeConfigEnum_def syntax_error_def Let_def split: sum.splits if_splits)

lemma codex_enums_Inr: "map_res (codex_enum key d allowed) vs = Inr xs \<Longrightarrow> length xs = length vs \<and> set xs \<subseteq> insert d (set allowed)"
  by (induction vs arbitrary: xs) (auto split: sum.splits dest!: codex_enum_Inr)

definition plain_values :: "string list \<Rightarrow> bool" where
  "plain_values allowed = list_all (\<lambda>a. a \<noteq> [] \<and> to_lower (trim_space a) = a) allowed"

lemma codex_enum_fixed:
  "plain_values allowed \<Longrightarrow> d = [] \<or> d \<in> set allowed \<Longrightarrow> x = d \<or> x \<in> set allowed \<Longrightarrow> codex_enum key d allowed x = Inr x"
  by (auto simp: codex_enum_def normalizeConfigEnum_def plain_values_def list_all_iff to_lower.simps(1))

lemma codex_enums_fixed:
  "plain_values allowed \<Longrightarrow> d = [] \<or> d \<in> set allowed \<Longrightarrow> set xs \<subseteq> insert d (set allowed) \<Longrightarrow> map_res (codex_enum key d allowed) xs = Inr xs"
  by (induction xs) (auto simp: codex_enum_fixed)

lemma plain_enums:
  "plain_values reasoning_levels" "plain_values [''auto'', ''concise'', ''detailed'', ''none'']"
  "plain_values [''default'', ''local'', ''unified_exec'', ''disabled'', ''shell_command'']" "plain_values [''freeform'', ''function'']"
  "plain_values [''text'', ''text_and_image'']" "plain_values [''low'', ''medium'', ''high'']" "plain_values [''text'', ''image'']"
  "plain_values [''list'', ''hide'', ''none'']" "plain_values [''bytes'', ''tokens'']"
  by code_simp+

lemma list_normalised [simp]: "normalizeStringList (normalizeStringList xs) = normalizeStringList xs"
  by (induction xs) (auto simp: normalizeStringList_def)

definition names_ok :: "codex_model \<Rightarrow> bool" where
  "names_ok m \<longleftrightarrow> trim_space (cm_model m) = cm_model m \<and> trim_space (cm_display m) = cm_display m \<and>
     trim_space (cm_description m) = cm_description m \<and> trim_space (cm_nux m) = cm_nux m \<and>
     normalizeStringList (cm_tiers m) = cm_tiers m \<and> normalizeStringList (cm_tools m) = cm_tools m"

lemma default_description_trimmed:
  "trim_space ''OpenAI-compatible upstream routed through llama_shim.'' = ''OpenAI-compatible upstream routed through llama_shim.''"
  by code_simp

lemma in_allowed: "codex_enum key d allowed v = Inr x \<Longrightarrow> d \<in> set allowed \<Longrightarrow> x \<in> set allowed"
  using codex_enum_Inr by blast

lemma windows_stage:
  assumes "codex_windows m = Inr m'"
  shows "\<exists>p. m' = m\<lparr>cm_percent := p\<rparr> \<and> windows_ok (cm_context m) (cm_max_context m) (cm_auto_compact m) p"
  using assms
  by (intro exI [of _ "if cm_percent m = 0 then 95 else cm_percent m"])
    (auto simp: codex_windows_def codex_error_def windows_ok_def Let_def split: if_splits)

lemma reasoning_stage:
  assumes "codex_reasoning m = Inr m'"
  shows "\<exists>l ls su. m' = m\<lparr>cm_level := l, cm_levels := ls, cm_summary := su\<rparr> \<and> reasoning_ok l ls su"
proof -
  obtain l ls su where c: "codex_enum ''default_reasoning_level'' ''high'' reasoning_levels (cm_level m) = Inr l"
    "map_res (codex_enum ''supported_reasoning_levels'' [] reasoning_levels)
       (if cm_levels m = [] then [''low'', ''medium'', ''high''] else cm_levels m) = Inr ls"
    "codex_enum ''default_reasoning_summary'' ''none'' [''auto'', ''concise'', ''detailed'', ''none''] (cm_summary m) = Inr su"
    and m': "m' = m\<lparr>cm_level := l, cm_levels := ls, cm_summary := su\<rparr>"
    using assms unfolding codex_reasoning_def res_bind_Inr_iff by blast
  have "l \<in> set reasoning_levels" using c(1) by (rule in_allowed) simp
  moreover have "ls \<noteq> []" using codex_enums_Inr [OF c(2)] by (auto split: if_splits)
  moreover have "set ls \<subseteq> insert [] (set reasoning_levels)" using codex_enums_Inr [OF c(2)] by (rule conjunct2)
  moreover have "su \<in> set [''auto'', ''concise'', ''detailed'', ''none'']" using c(3) by (rule in_allowed) simp
  ultimately have "reasoning_ok l ls su" unfolding reasoning_ok_def by (intro conjI)
  then show ?thesis using m' by blast
qed

lemma tools_stage:
  assumes "codex_tools m = Inr m'"
  shows "\<exists>a b c v. m' = m\<lparr>cm_shell := a, cm_apply_patch := b, cm_web_search := c, cm_verbosity := v\<rparr> \<and> tools_ok a b c v"
proof -
  obtain a b c v where e: "codex_enum ''shell_type'' ''shell_command'' [''default'', ''local'', ''unified_exec'', ''disabled'', ''shell_command''] (cm_shell m) = Inr a"
    "codex_enum ''apply_patch_tool_type'' [] [''freeform'', ''function''] (cm_apply_patch m) = Inr b"
    "codex_enum ''web_search_tool_type'' ''text'' [''text'', ''text_and_image''] (cm_web_search m) = Inr c"
    "codex_enum ''default_verbosity'' [] [''low'', ''medium'', ''high''] (cm_verbosity m) = Inr v"
    and m': "m' = m\<lparr>cm_shell := a, cm_apply_patch := b, cm_web_search := c, cm_verbosity := v\<rparr>"
    using assms unfolding codex_tools_def res_bind_Inr_iff by blast
  have "a \<in> set [''default'', ''local'', ''unified_exec'', ''disabled'', ''shell_command'']" using e(1) by (rule in_allowed) simp
  moreover have "c \<in> set [''text'', ''text_and_image'']" using e(3) by (rule in_allowed) simp
  ultimately have "tools_ok a b c v"
    unfolding tools_ok_def using codex_enum_Inr [OF e(2)] codex_enum_Inr [OF e(4)] by (intro conjI)
  then show ?thesis using m' by blast
qed

lemma surface_stage:
  assumes "codex_surface m = Inr m'"
  shows "\<exists>ms vi i q. m' = m\<lparr>cm_modalities := ms, cm_visibility := vi, cm_in_api := Some i, cm_priority := Some q,
      cm_tiers := normalizeStringList (cm_tiers m), cm_tools := normalizeStringList (cm_tools m), cm_nux := trim_space (cm_nux m)\<rparr> \<and> surface_ok ms vi"
proof -
  obtain ms vi where e: "map_res (codex_enum ''input_modalities'' [] [''text'', ''image'']) (if cm_modalities m = [] then [''text''] else cm_modalities m) = Inr ms"
    "codex_enum ''visibility'' ''list'' [''list'', ''hide'', ''none''] (cm_visibility m) = Inr vi"
    and m': "m' = m\<lparr>cm_modalities := ms, cm_visibility := vi,
       cm_in_api := (case cm_in_api m of None \<Rightarrow> Some True | Some b \<Rightarrow> Some b),
       cm_priority := (case cm_priority m of None \<Rightarrow> Some 100 | Some n \<Rightarrow> Some n),
       cm_tiers := normalizeStringList (cm_tiers m), cm_tools := normalizeStringList (cm_tools m), cm_nux := trim_space (cm_nux m)\<rparr>"
    using assms unfolding codex_surface_def res_bind_Inr_iff by blast
  have "ms \<noteq> []" using codex_enums_Inr [OF e(1)] by (auto split: if_splits)
  moreover have "set ms \<subseteq> insert [] (set [''text'', ''image''])" using codex_enums_Inr [OF e(1)] by (rule conjunct2)
  moreover have "vi \<in> set [''list'', ''hide'', ''none'']" using e(2) by (rule in_allowed) simp
  ultimately have "surface_ok ms vi" unfolding surface_ok_def by (intro conjI)
  moreover obtain i where "(case cm_in_api m of None \<Rightarrow> Some True | Some b \<Rightarrow> Some b) = Some i" by (cases "cm_in_api m") auto
  moreover obtain q where "(case cm_priority m of None \<Rightarrow> Some 100 | Some n \<Rightarrow> Some n) = Some q" by (cases "cm_priority m") auto
  ultimately show ?thesis using m' by metis
qed

lemma truncation_stage:
  assumes "codex_truncation m = Inr m'"
  shows "\<exists>mo li. m' = m\<lparr>cm_truncation_mode := mo, cm_truncation_limit := li\<rparr> \<and> truncation_ok mo li"
proof -
  obtain mo where e: "codex_enum ''truncation_policy.mode'' ''bytes'' [''bytes'', ''tokens''] (cm_truncation_mode m) = Inr mo"
    and n: "\<not> cm_truncation_limit m < 0"
    and m': "m' = m\<lparr>cm_truncation_mode := mo, cm_truncation_limit := (if cm_truncation_limit m = 0 then 10000 else cm_truncation_limit m)\<rparr>"
    using assms unfolding codex_truncation_def res_bind_Inr_iff by (auto simp: codex_error_def split: if_splits)
  have "mo \<in> set [''bytes'', ''tokens'']" using e by (rule in_allowed) simp
  then have "truncation_ok mo (if cm_truncation_limit m = 0 then 10000 else cm_truncation_limit m)" using n by (auto simp: truncation_ok_def)
  then show ?thesis using m' by blast
qed

lemma codex_stages:
  assumes "codex_model_checked m = Inr m'"
  shows "codex_model_ok m' \<and> names_ok m'"
proof -
  obtain m1 m2 m3 m4 m5 where s: "codex_names m = Inr m1" "codex_windows m1 = Inr m2" "codex_reasoning m2 = Inr m3"
    "codex_tools m3 = Inr m4" "codex_surface m4 = Inr m5" "codex_truncation m5 = Inr m'"
    using assms by (auto simp: codex_model_checked_def res_bind_Inr_iff)
  from s(1) obtain d t where n: "m1 = m\<lparr>cm_model := trim_space (cm_model m), cm_display := d, cm_description := t\<rparr>"
    "trim_space (cm_model m) \<noteq> []" "d \<noteq> []" "trim_space d = d" "t \<noteq> []" "trim_space t = t"
    by (auto simp: codex_names_def codex_error_def Let_def default_description_trimmed split: if_splits)
  note windows_stage [OF s(2)] reasoning_stage [OF s(3)] tools_stage [OF s(4)] surface_stage [OF s(5)] truncation_stage [OF s(6)]
  then show ?thesis using n by (auto simp: codex_model_ok_def names_ok_def)
qed

lemma reasoning_fixed:
  assumes "reasoning_ok (cm_level m) (cm_levels m) (cm_summary m)"
  shows "codex_reasoning m = Inr m"
proof -
  have ok: "cm_level m \<in> set reasoning_levels" "cm_levels m \<noteq> []" "set (cm_levels m) \<subseteq> insert [] (set reasoning_levels)"
    "cm_summary m \<in> set [''auto'', ''concise'', ''detailed'', ''none'']"
    using assms unfolding reasoning_ok_def by blast+
  have "codex_enum ''default_reasoning_level'' ''high'' reasoning_levels (cm_level m) = Inr (cm_level m)"
    by (rule codex_enum_fixed [OF plain_enums(1) _ disjI2 [OF ok(1)]]) simp
  moreover have "map_res (codex_enum ''supported_reasoning_levels'' [] reasoning_levels) (cm_levels m) = Inr (cm_levels m)"
    by (rule codex_enums_fixed [OF plain_enums(1) _ ok(3)]) simp
  moreover have "codex_enum ''default_reasoning_summary'' ''none'' [''auto'', ''concise'', ''detailed'', ''none''] (cm_summary m) = Inr (cm_summary m)"
    by (rule codex_enum_fixed [OF plain_enums(2) _ disjI2 [OF ok(4)]]) simp
  ultimately show ?thesis using ok(2) by (simp add: codex_reasoning_def)
qed

lemma tools_fixed:
  assumes "tools_ok (cm_shell m) (cm_apply_patch m) (cm_web_search m) (cm_verbosity m)"
  shows "codex_tools m = Inr m"
proof -
  have ok: "cm_shell m \<in> set [''default'', ''local'', ''unified_exec'', ''disabled'', ''shell_command'']"
    "cm_apply_patch m = [] \<or> cm_apply_patch m \<in> set [''freeform'', ''function'']" "cm_web_search m \<in> set [''text'', ''text_and_image'']"
    "cm_verbosity m = [] \<or> cm_verbosity m \<in> set [''low'', ''medium'', ''high'']"
    using assms unfolding tools_ok_def by blast+
  have "codex_enum ''shell_type'' ''shell_command'' [''default'', ''local'', ''unified_exec'', ''disabled'', ''shell_command''] (cm_shell m) = Inr (cm_shell m)"
    by (rule codex_enum_fixed [OF plain_enums(3) _ disjI2 [OF ok(1)]]) simp
  moreover have "codex_enum ''apply_patch_tool_type'' [] [''freeform'', ''function''] (cm_apply_patch m) = Inr (cm_apply_patch m)"
    by (rule codex_enum_fixed [OF plain_enums(4) _ ok(2)]) simp
  moreover have "codex_enum ''web_search_tool_type'' ''text'' [''text'', ''text_and_image''] (cm_web_search m) = Inr (cm_web_search m)"
    by (rule codex_enum_fixed [OF plain_enums(5) _ disjI2 [OF ok(3)]]) simp
  moreover have "codex_enum ''default_verbosity'' [] [''low'', ''medium'', ''high''] (cm_verbosity m) = Inr (cm_verbosity m)"
    by (rule codex_enum_fixed [OF plain_enums(6) _ ok(4)]) simp
  ultimately show ?thesis by (simp add: codex_tools_def)
qed

lemma surface_fixed:
  assumes "surface_ok (cm_modalities m) (cm_visibility m)" "names_ok m" "cm_in_api m = Some i" "cm_priority m = Some q"
  shows "codex_surface m = Inr m"
proof -
  have ok: "cm_modalities m \<noteq> []" "set (cm_modalities m) \<subseteq> insert [] (set [''text'', ''image''])" "cm_visibility m \<in> set [''list'', ''hide'', ''none'']"
    using assms(1) unfolding surface_ok_def by blast+
  have "map_res (codex_enum ''input_modalities'' [] [''text'', ''image'']) (cm_modalities m) = Inr (cm_modalities m)"
    by (rule codex_enums_fixed [OF plain_enums(7) _ ok(2)]) simp
  moreover have "codex_enum ''visibility'' ''list'' [''list'', ''hide'', ''none''] (cm_visibility m) = Inr (cm_visibility m)"
    by (rule codex_enum_fixed [OF plain_enums(8) _ disjI2 [OF ok(3)]]) simp
  moreover have "m\<lparr>cm_in_api := Some i, cm_priority := Some q\<rparr> = m" using assms(3,4) by simp
  ultimately show ?thesis using ok(1) assms(2-4) by (simp add: codex_surface_def names_ok_def)
qed

lemma codex_fixed:
  assumes "codex_model_ok m" "names_ok m"
  shows "codex_model_checked m = Inr m"
proof -
  have ok: "cm_model m \<noteq> []" "cm_display m \<noteq> []" "cm_description m \<noteq> []"
    "windows_ok (cm_context m) (cm_max_context m) (cm_auto_compact m) (cm_percent m)"
    "reasoning_ok (cm_level m) (cm_levels m) (cm_summary m)"
    "tools_ok (cm_shell m) (cm_apply_patch m) (cm_web_search m) (cm_verbosity m)"
    "surface_ok (cm_modalities m) (cm_visibility m)" "cm_truncation_mode m \<in> set [''bytes'', ''tokens'']" "0 < cm_truncation_limit m"
    using assms(1) unfolding codex_model_ok_def truncation_ok_def by blast+
  obtain i q where iq: "cm_in_api m = Some i" "cm_priority m = Some q" using assms(1) by (auto simp: codex_model_ok_def)
  have "codex_names m = Inr m" using ok(1-3) assms(2) by (simp add: codex_names_def names_ok_def)
  moreover have "codex_windows m = Inr m" using ok(4) by (simp add: codex_windows_def windows_ok_def)
  moreover have "codex_enum ''truncation_policy.mode'' ''bytes'' [''bytes'', ''tokens''] (cm_truncation_mode m) = Inr (cm_truncation_mode m)"
    by (rule codex_enum_fixed [OF plain_enums(9) _ disjI2 [OF ok(8)]]) simp
  then have "codex_truncation m = Inr m" using ok(9) by (simp add: codex_truncation_def)
  ultimately show ?thesis
    using reasoning_fixed [OF ok(5)] tools_fixed [OF ok(6)] surface_fixed [OF ok(7) assms(2) iq] by (simp add: codex_model_checked_def)
qed

text \<open>C40: in the metadata of models that the configuration accepts every enumeration has one of its values, every number
  is within its range and every default is filled in, and reading accepted entries again changes nothing.\<close>

theorem accepted_metadata:
  assumes "parseResponsesCodexModelMetadata given = Inr models"
  shows "list_all codex_model_ok models \<and> parseResponsesCodexModelMetadata models = Inr models"
proof -
  have all: "codex_model_checked m = Inr m \<and> codex_model_ok m" if "m \<in> set models" for m
    using assms that codex_stages codex_fixed
    unfolding parseResponsesCodexModelMetadata_def map_res_Inr_iff list_all2_conv_all_nth by (metis in_set_conv_nth)
  then have "map_res codex_model_checked models = Inr models"
    unfolding map_res_Inr_iff by (simp add: list_all2_same)
  then show ?thesis using all by (simp add: parseResponsesCodexModelMetadata_def list_all_iff)
qed

definition sample_metadata :: codex_model where
  "sample_metadata = \<lparr>cm_model = '' m '', cm_display = [], cm_description = [], cm_context = 128000, cm_max_context = 0, cm_auto_compact = 0,
     cm_percent = 0, cm_level = ''Low'', cm_levels = [''HIGH''], cm_summaries = False, cm_summary = [], cm_shell = [], cm_apply_patch = [],
     cm_web_search = [], cm_parallel = False, cm_verbosity_supported = False, cm_verbosity = [], cm_image_detail = False, cm_search_tool = False,
     cm_modalities = [], cm_visibility = [], cm_in_api = None, cm_priority = None, cm_tiers = ['' fast '', []], cm_tools = [], cm_nux = [],
     cm_truncation_mode = [], cm_truncation_limit = 0, cm_instructions = []\<rparr>"

definition accepted_sample :: codex_model where
  "accepted_sample = (case codex_model_checked sample_metadata of Inr m \<Rightarrow> m | Inl e \<Rightarrow> sample_metadata)"

theorem accepted_metadata_witness:
  "parseResponsesCodexModelMetadata [sample_metadata] = Inr [accepted_sample] \<and> codex_model_ok accepted_sample \<and> cm_percent accepted_sample = 95"
proof -
  have "parseResponsesCodexModelMetadata [sample_metadata] = Inr [accepted_sample]" "cm_percent accepted_sample = 95" by code_simp+
  then show ?thesis using accepted_metadata by fastforce
qed

end
