(* ===== verification/Http_Handlers.thy ===== *)
theory Http_Handlers
  imports Config_Values Api_Query Request_Decoding Response_Replay Response_Streaming Conversation_Service
begin

text \<open>
  The handlers of stored objects: \<^verbatim>\<open>httpapi/handlers_conversations.go\<close> and, of \<^verbatim>\<open>httpapi/handlers_responses.go\<close>, the
  handlers that read, delete and cancel a response, list its input, count its tokens and compact it. A handler takes
  the query, the path values and the body that was read, and gives what it writes and the new store. The answer of the
  upstream is an argument (\<open>upstream_answer\<close>); a request that is passed on as it is, is \<open>Forwarded\<close>. The text \<open>je\<close> is the
  message of an error of the JSON package. The theorems follow an object through several requests.
\<close>

section \<open>Answers\<close>

text \<open>What a handler writes: a status with a document, or with no body when the value cannot be printed; the bytes of an
  upstream answer; a stream of events; or a request that is handed to the upstream as it is.\<close>

datatype reply =
    Reply int "json option"
  | RawReply int raw
  | PassThrough int
  | EventStream string
  | Forwarded

definition WriteJSON :: "int \<Rightarrow> json res \<Rightarrow> reply" where
  "WriteJSON status v = Reply status (case v of Inl e \<Rightarrow> None | Inr j \<Rightarrow> Some j)"

definition error_body :: "api_error \<Rightarrow> json" where
  "error_body e = JObj [(''error'', api_error_json e)]"

definition WriteError :: "int \<Rightarrow> string \<Rightarrow> string \<Rightarrow> string \<Rightarrow> reply" where
  "WriteError status errType message param = WriteJSON status (Inr (error_body (newAPIError errType message param [])))"

text \<open>An error of a service is mapped; a panic unwinds to the middleware that recovers from it.\<close>

definition panics :: "error \<Rightarrow> bool" where
  "panics err \<longleftrightarrow> errors_as (\<lambda>e. case e of GoPanic m \<Rightarrow> Some m | _ \<Rightarrow> None) err \<noteq> None"

definition writeError :: "string \<Rightarrow> error \<Rightarrow> reply" where
  "writeError je err =
     (if panics err then WriteError 500 ''internal_error'' ''internal server error'' []
      else case MapError je err of (status, payload) \<Rightarrow> WriteJSON status (Inr (error_body payload)))"

abbreviation malformed_body :: reply where
  "malformed_body \<equiv> WriteError 400 ''invalid_request_error'' ''malformed JSON body'' []"

section \<open>Conversations\<close>

text \<open>The creation time is read without trimming.\<close>

definition conversationPayload :: "conversation \<Rightarrow> json res" where
  "conversationPayload c =
     (if trim_space (c_created c) \<noteq> c_created c then Inl (Errorf ''parse conversation created_at'')
      else case ParseTimeUnix (c_created c) of
        None \<Rightarrow> Inl (Errorf ''parse conversation created_at'')
      | Some createdAt \<Rightarrow>
          Inr (JObj [(''id'', JStr (c_id c)), (''object'', JStr (c_object c)), (''created_at'', JNum (int_text createdAt)),
            (''metadata'', JObj (map (\<lambda>(k, v). (k, JStr v)) (c_metadata c)))]))"

definition conversationItemPayload :: "conversation_item \<Rightarrow> json gomap" where
  "conversationItemPayload ci =
     (let payload = Item_Map (ci_item ci) in
      if trim_space (str_entry payload ''id'') = [] then gomap_set ''id'' (JStr (ci_id ci)) payload else payload)"

definition conversationItemsPayload :: "conversation_item list \<Rightarrow> bool \<Rightarrow> item_listing" where
  "conversationItemsPayload items hasMore = listing (map conversationItemPayload items) hasMore"

definition conversation_answer :: "string \<Rightarrow> conversation \<Rightarrow> reply" where
  "conversation_answer je c = (case conversationPayload c of Inl e \<Rightarrow> writeError je e | Inr doc \<Rightarrow> WriteJSON 200 (Inr doc))"

text \<open>The fields of a request to create a conversation; \<open>None\<close> is a decoding error.\<close>

definition decode_create_conversation :: "string \<Rightarrow> (raw list \<times> raw) option" where
  "decode_create_conversation rawBody =
     (if trim_space rawBody = [] then Some ([], RawEmpty)
      else case read_json (trim_space rawBody) of
        Some (JObj kvs) \<Rightarrow>
          (case struct_raws ''items'' kvs [] of None \<Rightarrow> None | Some items \<Rightarrow> Some (items, struct_raw ''metadata'' kvs RawEmpty))
      | Some JNull \<Rightarrow> Some ([], RawEmpty)
      | _ \<Rightarrow> None)"

definition conversationHandler_create ::
  "string \<Rightarrow> 's conversation_store_ops \<Rightarrow> (nat \<Rightarrow> string option) \<Rightarrow> string \<Rightarrow> string \<Rightarrow> nat \<Rightarrow> 's \<Rightarrow> reply \<times> 's" where
  "conversationHandler_create je ops uuid now rawBody n s =
     (case decode_create_conversation rawBody of
        None \<Rightarrow> (malformed_body, s)
      | Some (items, metadata) \<Rightarrow>
          (case ConversationService_Create ops uuid now items metadata n s of
             Inl e \<Rightarrow> (writeError je e, s)
           | Inr (c, n', s') \<Rightarrow> (conversation_answer je c, s')))"

definition conversationHandler_get :: "string \<Rightarrow> 's conversation_store_ops \<Rightarrow> string \<Rightarrow> 's \<Rightarrow> reply" where
  "conversationHandler_get je ops cid s =
     (case ConversationService_Get ops cid s of Inl e \<Rightarrow> writeError je e | Inr c \<Rightarrow> conversation_answer je c)"

text \<open>\<open>null\<close> and an empty text are refused before the first byte decides; a text whose first byte opens an object or an
  array and that is JSON is one.\<close>

definition parseAppendConversationItemsBody :: "string \<Rightarrow> raw list res" where
  "parseAppendConversationItemsBody rawBody =
     (let trimmed = trim_space rawBody; bad = (\<lambda>m. Inl (ValidationError ''items'' m)) in
      if trimmed = [] \<or> trimmed = ''null'' then bad ''items is required''
      else if hd trimmed = CHR ''['' then
        (case read_json trimmed of
           Some (JArr js) \<Rightarrow> if js = [] then bad ''items must not be empty'' else Inr (map RawJson js)
         | _ \<Rightarrow> bad ''malformed JSON body'')
      else if hd trimmed = CHR ''{'' then
        (case read_json trimmed of
           Some (JObj kvs) \<Rightarrow>
             let payload = gomap_of kvs in
             (case map_of payload ''items'' of
                Some rawItems \<Rightarrow>
                  (case unmarshal_raw_list (RawJson rawItems) of
                     None \<Rightarrow> bad ''items must be an array''
                   | Some items \<Rightarrow> if items = [] then bad ''items must not be empty'' else Inr (map RawJson items))
              | None \<Rightarrow>
                  (case map_of payload ''item'' of
                     Some rawItem \<Rightarrow> Inr [RawJson rawItem]
                   | None \<Rightarrow> Inr [RawJson (JObj kvs)]))
         | _ \<Rightarrow> bad ''malformed JSON body'')
      else bad ''items must be JSON objects'')"

definition conversationHandler_appendItem ::
  "string \<Rightarrow> 's conversation_store_ops \<Rightarrow> (nat \<Rightarrow> string option) \<Rightarrow> string \<Rightarrow> query_values \<Rightarrow> string \<Rightarrow> string \<Rightarrow> nat \<Rightarrow> 's \<Rightarrow>
   reply \<times> 's" where
  "conversationHandler_appendItem je ops uuid now query cid rawBody n s =
     (case parseConversationItemIncludes query of
        Inl e \<Rightarrow> (writeError je e, s)
      | Inr includes \<Rightarrow>
          (case parseAppendConversationItemsBody rawBody of
             Inl e \<Rightarrow> (writeError je e, s)
           | Inr rawItems \<Rightarrow>
               (case ConversationService_AppendItems ops uuid now cid rawItems n s of
                  Inl e \<Rightarrow> (writeError je e, s)
                | Inr (items, n', s') \<Rightarrow> (WriteJSON 200 (Inr (item_listing_json (conversationItemsPayload items False))), s'))))"

definition conversationHandler_getItem ::
  "string \<Rightarrow> 's conversation_store_ops \<Rightarrow> query_values \<Rightarrow> string \<Rightarrow> string \<Rightarrow> 's \<Rightarrow> reply" where
  "conversationHandler_getItem je ops query cid itemID s =
     (case parseConversationItemIncludes query of
        Inl e \<Rightarrow> writeError je e
      | Inr includes \<Rightarrow>
          (case ConversationService_GetItem ops cid itemID s of
             Inl e \<Rightarrow> writeError je e
           | Inr ci \<Rightarrow> WriteJSON 200 (Inr (JObj (conversationItemPayload ci)))))"

definition conversationHandler_deleteItem ::
  "string \<Rightarrow> 's conversation_store_ops \<Rightarrow> string \<Rightarrow> string \<Rightarrow> string \<Rightarrow> 's \<Rightarrow> reply \<times> 's" where
  "conversationHandler_deleteItem je ops now cid itemID s =
     (case ConversationService_DeleteItem ops now cid itemID s of
        Inl e \<Rightarrow> (writeError je e, s)
      | Inr (c, s') \<Rightarrow> (conversation_answer je c, s'))"

definition conversationHandler_listItems :: "string \<Rightarrow> 's conversation_store_ops \<Rightarrow> query_values \<Rightarrow> string \<Rightarrow> 's \<Rightarrow> reply" where
  "conversationHandler_listItems je ops values cid s =
     (case parseListConversationItemsQuery values of
        Inl e \<Rightarrow> writeError je e
      | Inr (query, includes) \<Rightarrow>
          (case ConversationService_ListItems ops (query\<lparr>q_conversation := cid\<rparr>) s of
             Inl e \<Rightarrow> writeError je e
           | Inr page \<Rightarrow> WriteJSON 200 (Inr (item_listing_json (conversationItemsPayload (p_items page) (p_more page))))))"

section \<open>Responses\<close>

text \<open>How the handlers are configured: the mode, the transport of the upstream and the resolver of providers.\<close>

record handler_config =
  hc_mode :: string
  hc_transport :: string
  hc_resolver :: "resolver option"

definition canProxyNativeResponses :: "handler_config \<Rightarrow> bool" where
  "canProxyNativeResponses h \<longleftrightarrow> hc_transport h = transportResponses"

definition upstreamProviderRoutingEnabled :: "handler_config \<Rightarrow> bool" where
  "upstreamProviderRoutingEnabled h \<longleftrightarrow> (case hc_resolver h of None \<Rightarrow> False | Some r \<Rightarrow> rs_providers r \<noteq> [])"

definition canProxyNativeResponsesWithRoute :: "handler_config \<Rightarrow> string \<Rightarrow> bool \<Rightarrow> bool" where
  "canProxyNativeResponsesWithRoute h model routed =
     (if \<not> canProxyNativeResponses h then False
      else if \<not> upstreamProviderRoutingEnabled h then True
      else trim_space model \<noteq> [] \<and> routed)"

definition routeContextForResponseModel :: "handler_config \<Rightarrow> string \<Rightarrow> bool \<Rightarrow> upstream_route option res" where
  "routeContextForResponseModel h model requireModel =
     (if \<not> upstreamProviderRoutingEnabled h then Inr None
      else if trim_space model = [] then
        (if requireModel then Inl (ValidationError ''model'' ''model must use configured provider/model form'') else Inr None)
      else ContextForModel (hc_resolver h) model)"

text \<open>What came back from the upstream: an error of the client, a body that cannot be read, a body beyond the limit of
  the buffer, or a body.\<close>

datatype upstream_answer = UpFailed error | UpUnreadable | UpTooLarge int | UpAnswer int raw

definition canonical_body :: "int \<Rightarrow> raw \<Rightarrow> raw" where
  "canonical_body status body = (case canonicalizeAPIErrorBody status body of Inr (Some c) \<Rightarrow> c | _ \<Rightarrow> body)"

definition proxyBufferedJSONRequest :: "string \<Rightarrow> upstream_answer \<Rightarrow> reply" where
  "proxyBufferedJSONRequest je up =
     (case up of
        UpFailed e \<Rightarrow> writeError je e
      | UpUnreadable \<Rightarrow> WriteError 502 ''upstream_error'' ''failed to read upstream response'' []
      | UpTooLarge status \<Rightarrow> PassThrough status
      | UpAnswer status body \<Rightarrow> RawReply status (canonical_body status body))"

text \<open>The error of a read of a response: an unknown identifier is the upstream's, where there is one.\<close>

definition missing_answer :: "string \<Rightarrow> handler_config \<Rightarrow> error \<Rightarrow> reply" where
  "missing_answer je h err =
     (if errors_is (MapStorageError err) ErrNotFound
      then (if \<not> canProxyNativeResponses h then writeError je (MapStorageError err) else Forwarded)
      else writeError je err)"

definition marshal_response :: "response \<Rightarrow> json res" where
  "marshal_response r = res_bind (Response_MarshalJSON r) marshal_raw"

definition responseHandler_get :: "string \<Rightarrow> handler_config \<Rightarrow> 's response_service \<Rightarrow> bool \<Rightarrow> query_values \<Rightarrow> string \<Rightarrow> 's \<Rightarrow> reply" where
  "responseHandler_get je h svc flusher values rid s =
     (case parseResponseRetrieveQuery values of
        Inl e \<Rightarrow> writeError je e
      | Inr query \<Rightarrow>
          (case ResponseService_Get svc rid s of
             Inl e \<Rightarrow> missing_answer je h e
           | Inr response \<Rightarrow>
               if rq_stream query then
                 (case GetReplayArtifacts svc rid s of
                    Inl e \<Rightarrow> writeError je e
                  | Inr artifacts \<Rightarrow>
                      EventStream (snd (writeResponseReplayAsSSE flusher response artifacts (rq_starting_after query) (rq_obfuscation query) [])))
               else WriteJSON 200 (marshal_response response)))"

definition deletion_json :: "response_deletion \<Rightarrow> json" where
  "deletion_json d = JObj [(''id'', JStr (rd_id d)), (''object'', JStr (rd_object d)), (''deleted'', JBool (rd_deleted d))]"

definition responseHandler_delete :: "string \<Rightarrow> handler_config \<Rightarrow> 's response_service \<Rightarrow> string \<Rightarrow> 's \<Rightarrow> reply \<times> 's" where
  "responseHandler_delete je h svc rid s =
     (case ResponseService_Delete svc rid s of
        (Inl e, s') \<Rightarrow> (missing_answer je h e, s')
      | (Inr deletion, s') \<Rightarrow> (WriteJSON 200 (Inr (deletion_json deletion)), s'))"

definition responseHandler_getInputItems ::
  "string \<Rightarrow> handler_config \<Rightarrow> 's response_service \<Rightarrow> (nat \<Rightarrow> string option) \<Rightarrow> query_values \<Rightarrow> string \<Rightarrow> nat \<Rightarrow> 's \<Rightarrow> reply" where
  "responseHandler_getInputItems je h svc uuid values rid n s =
     (case parseResponseInputItemsQuery values of
        Inl e \<Rightarrow> writeError je e
      | Inr query \<Rightarrow>
          (case GetInputItems svc uuid rid n s of
             Inl e \<Rightarrow> missing_answer je h e
           | Inr (items, n') \<Rightarrow>
               (case paginateResponseInputItems items query of
                  Inl e \<Rightarrow> writeError je e
                | Inr page \<Rightarrow> WriteJSON 200 (Inr (item_listing_json page)))))"

text \<open>An upstream that cancelled a background response answers with its new state, which is stored and returned.\<close>

definition responseHandler_cancel ::
  "string \<Rightarrow> handler_config \<Rightarrow> 's response_service \<Rightarrow> (nat \<Rightarrow> string option) \<Rightarrow> upstream_answer \<Rightarrow> string \<Rightarrow> nat \<Rightarrow> 's \<Rightarrow> reply \<times> 's" where
  "responseHandler_cancel je h svc uuid up rid n s =
     (case ResponseService_Get svc rid s of
        Inl e \<Rightarrow> (missing_answer je h e, s)
      | Inr response \<Rightarrow>
          if rp_background response \<noteq> Some True
          then (WriteError 400 ''invalid_request_error'' ''only background responses can be cancelled'' ''background'', s)
          else if \<not> canProxyNativeResponses h
          then (WriteError 400 ''invalid_request_error'' ''cancel requires native upstream /v1/responses; responses.upstream_transport=chat_completions owns completed local responses only'' [], s)
          else case up of
            UpFailed e \<Rightarrow> (writeError je e, s)
          | UpUnreadable \<Rightarrow> (WriteError 502 ''upstream_error'' ''failed to read upstream response'' [], s)
          | UpTooLarge status \<Rightarrow> (PassThrough status, s)
          | UpAnswer status body0 \<Rightarrow>
              let body = canonical_body status body0 in
              if status < 200 \<or> 300 \<le> status then (RawReply status body, s)
              else case ParseUpstreamResponse body of
                Inl e \<Rightarrow> (RawReply status body, s)
              | Inr parsed \<Rightarrow>
                  (case ResponseService_Refresh svc uuid parsed n s of
                     (Inl e, s') \<Rightarrow> (RawReply status body, s')
                   | (Inr refreshed, s') \<Rightarrow>
                       (case Response_MarshalJSON refreshed of
                          Inl e \<Rightarrow> (RawReply status body, s')
                        | Inr encoded \<Rightarrow> (RawReply status encoded, s'))))"

definition derived_input :: "create_request \<Rightarrow> raw \<Rightarrow> create_response_input" where
  "derived_input request requestJSON =
     service_input (request\<lparr>cq_context_management := RawEmpty, cq_store := None, cq_stream := None, cq_background := None\<rparr>) requestJSON []"

text \<open>The two endpoints that compute something from a context. \<open>run\<close> is the call of the service, with the document of its
  result.\<close>

definition derived_endpoint ::
  "string \<Rightarrow> handler_config \<Rightarrow> 's response_service \<Rightarrow> upstream_answer \<Rightarrow> string \<Rightarrow> bool \<Rightarrow> (create_response_input \<Rightarrow> 's \<Rightarrow> json res res) \<Rightarrow>
   string \<Rightarrow> 's \<Rightarrow> reply" where
  "derived_endpoint je h svc up endpoint allowEmpty run rawBody s =
     (case decodeCreateResponseRequestBody rawBody allowEmpty of
        Inl e \<Rightarrow> (if panics e \<or> errors_as as_validation e \<noteq> None then writeError je e else malformed_body)
      | Inr (request, rawFields, requestJSON) \<Rightarrow>
          (case routeContextForResponseModel h (cq_model request) False of
             Inl e \<Rightarrow> writeError je e
           | Inr route \<Rightarrow>
               (case hasLocalCreateState svc (hc_mode h) request s of
                  Inl e \<Rightarrow> writeError je e
                | Inr hasLocalState \<Rightarrow>
                    let localSupported = supportsLocalDerivedResponsesState rawFields;
                        nativeResponsesProxy = canProxyNativeResponsesWithRoute h (cq_model request) (route \<noteq> None)
                    in if hc_mode h = modePreferUpstream \<and> \<not> hasLocalState \<and> nativeResponsesProxy then proxyBufferedJSONRequest je up
                       else if localSupported then
                         (case run (derived_input request requestJSON) s of
                            Inr doc \<Rightarrow> WriteJSON 200 doc
                          | Inl e \<Rightarrow>
                              if panics e then writeError je e
                              else if \<not> hasLocalState \<and> canProxyNativeResponses h \<and> shouldFallbackLocalState je (hc_mode h) e \<and> nativeResponsesProxy
                              then proxyBufferedJSONRequest je up
                              else writeError je (normalizeLocalOnlyCreateError (hc_mode h) e))
                       else if hasLocalState then writeError je (newLocalStateUnsupportedDerivedFieldsError endpoint rawFields)
                       else if hc_mode h = modeLocalOnly then writeError je (newLocalOnlyUnsupportedDerivedFieldsError endpoint rawFields)
                       else if nativeResponsesProxy then proxyBufferedJSONRequest je up
                       else writeError je (newLocalOnlyUnsupportedDerivedFieldsError endpoint rawFields))))"

definition responseHandler_inputTokens ::
  "string \<Rightarrow> handler_config \<Rightarrow> 's response_service \<Rightarrow> string \<Rightarrow> upstream_answer \<Rightarrow> string \<Rightarrow> 's \<Rightarrow> reply" where
  "responseHandler_inputTokens je h svc now up rawBody s =
     derived_endpoint je h svc up ''/v1/responses/input_tokens'' True
       (\<lambda>input s. map_sum id (\<lambda>count. Inr (JObj [(''object'', JStr ''response.input_tokens''), (''input_tokens'', JNum (int_text count))]))
         (CountInputTokens svc now input s)) rawBody s"

definition compaction_json :: "response_compaction \<Rightarrow> json res" where
  "compaction_json c =
     res_bind (items_json (rc_output c)) (\<lambda>out. res_bind (marshal_raw (rc_usage c)) (\<lambda>usage.
       Inr (JObj [(''id'', JStr (rc_id c)), (''object'', JStr ''response.compaction''), (''created_at'', JNum (int_text (rc_created_at c))),
         (''output'', out), (''usage'', usage)])))"

definition responseHandler_compact ::
  "string \<Rightarrow> handler_config \<Rightarrow> 's response_service \<Rightarrow> (nat \<Rightarrow> string option) \<Rightarrow> string \<Rightarrow> int \<Rightarrow> upstream_answer \<Rightarrow> string \<Rightarrow> nat \<Rightarrow> 's \<Rightarrow> reply" where
  "responseHandler_compact je h svc uuid now unixNow up rawBody n s =
     derived_endpoint je h svc up ''/v1/responses/compact'' False
       (\<lambda>input s. map_sum id (\<lambda>(c, n'). compaction_json c) (ResponseService_Compact svc uuid now unixNow input n s)) rawBody s"

text \<open>The answer for an identifier nobody knows.\<close>

definition not_found_json :: json where
  "not_found_json = error_body (newAPIError ''not_found_error'' ''resource not found'' [] [])"

text \<open>A configuration and a body the examples use.\<close>

definition sample_local_only :: handler_config where
  "sample_local_only = \<lparr>hc_mode = modeLocalOnly, hc_transport = transportResponses, hc_resolver = None\<rparr>"

definition sample_conversation_body :: string where
  "sample_conversation_body = json_text (JObj [(''metadata'', JObj [(''k'', JStr ''v'')])])"

section \<open>What the handlers share\<close>

lemma plain_retrieval: "parseResponseRetrieveQuery [] = Inr \<lparr>rq_include = [], rq_obfuscation = True, rq_starting_after = 0, rq_stream = False\<rparr>"
  by code_simp

lemma plain_get:
  "responseHandler_get je h svc f [] rid s =
     (case ResponseService_Get svc rid s of Inl e \<Rightarrow> missing_answer je h e | Inr r \<Rightarrow> WriteJSON 200 (marshal_response r))"
  by (simp add: responseHandler_get_def plain_retrieval split: sum.split)

lemma not_found_mapped: "MapError je ErrNotFound = (404, newAPIError ''not_found_error'' ''resource not found'' [] [])"
proof -
  have "MapError [] ErrNotFound = (404, newAPIError ''not_found_error'' ''resource not found'' [] [])" by code_simp
  moreover have "mapMappedError je (MapGeneratorError (MapStorageError ErrNotFound)) = mapMappedError [] (MapGeneratorError (MapStorageError ErrNotFound))"
    by (simp add: mapMappedError_def MapGeneratorError_def MapStorageError_def)
  then have "MapError je ErrNotFound = MapError [] ErrNotFound" by (simp add: MapError_def classifyBackendFailure_def split: option.split)
  ultimately show ?thesis by simp
qed

lemma missing_not_found:
  "missing_answer je h StorageErrNotFound = (if canProxyNativeResponses h then Forwarded else Reply 404 (Some not_found_json))"
  by (simp add: missing_answer_def MapStorageError_def writeError_def panics_def not_found_mapped WriteJSON_def not_found_json_def)

section \<open>Properties\<close>

text \<open>C3: a response over HTTP. When a request that is stored for the client and asks for no compaction is answered with a
  text, reading the response gives status 200 and the very document the creation printed; deleting it gives the
  document of a deletion; reading it again hands the request to the upstream if the transport is the native one, in
  every mode, and is status 404 otherwise; and no other response reads differently.\<close>

theorem response_over_http:
  assumes "ResponseService_Create svc uuid ck input n d = (Inr r, d')" and "publicStore input"
    and "PrepareCreateContext svc (ck_recall ck) input d = Inr (ctx, d0)" and "\<forall>i \<in> set (pc_effective ctx). storable i"
    and "sv_store svc = sqlite_response_ops uuid'" and "sv_memory_store svc = None \<or> sv_memory_store svc = Some sqlite_memory_ops"
    and "parseCompactionThreshold (in_context_management input) = Inr None"
    and "0 < ck_created ck" and "ck_created ck < 2 ^ 63" and "rp_output_text r \<noteq> []"
  shows "\<exists>doc d2. marshal_response r = Inr doc \<and> responseHandler_get je h svc f [] (rp_id r) d' = Reply 200 (Some doc) \<and>
    responseHandler_delete je h svc (rp_id r) d' =
      (Reply 200 (Some (JObj [(''id'', JStr (rp_id r)), (''object'', JStr ''response''), (''deleted'', JBool True)])), d2) \<and>
    responseHandler_get je h svc f [] (rp_id r) d2 =
      (if canProxyNativeResponses h then Forwarded else Reply 404 (Some not_found_json)) \<and>
    (\<forall>k. k \<noteq> rp_id r \<longrightarrow> responseHandler_get je h svc f [] k d2 = responseHandler_get je h svc f [] k d')"
proof -
  have "persistShadow input" using assms(2) by (simp add: persistShadow_def)
  then obtain stored where g: "GetResponse (rp_id r) d' = Inr stored" "rp_id r \<noteq> []" "sr_store stored"
    "settled r (map (\<lambda>i. i\<lparr>iMeta := None\<rparr>) (rp_output r))"
    "\<exists>doc. Response_MarshalJSON r = Inr doc \<and> stored_as r doc stored"
    "HydrateResponseRequestSurface r (sr_request stored) = r"
    using assms(2) by (rule_tac created_row [OF assms(1,3-10)]) simp_all
  then obtain doc where doc: "Response_MarshalJSON r = Inr doc" "stored_as r doc stored" by blast
  have ops: "rs_get (sqlite_response_ops uuid') = GetResponse" by (simp add: sqlite_response_ops_def)
  have "ResponseService_Get svc (rp_id r) d' = Inr (ResponseFromStored stored)"
    using rs.get_visible(1) [of svc uuid' "rp_id r" d' stored] g(1-3) assms(5) ops by simp
  moreover have "marshal_response (ResponseFromStored stored) = marshal_response r"
    using reread_prints [OF doc(1)] stored_reads_back [OF doc(1) g(4) doc(2) g(6)] g(4) doc(1)
    by (simp add: settled_def Response_MarshalJSON_def marshal_response_def)
  moreover obtain j where "marshal_response r = Inr j"
    using doc(1) by (auto simp: marshal_response_def Response_MarshalJSON_def split: sum.splits)
  ultimately have get: "marshal_response r = Inr j \<and> responseHandler_get je h svc f [] (rp_id r) d' = Reply 200 (Some j)"
    by (simp add: plain_get WriteJSON_def)
  obtain d2 where d2: "ResponseService_Delete svc (rp_id r) d' = (Inr \<lparr>rd_id = rp_id r, rd_object = ''response'', rd_deleted = True\<rparr>, d2)"
    "\<forall>k. GetResponse k d2 = (if k = rp_id r then Inl StorageErrNotFound else GetResponse k d')"
    using rs.deleted_gone(1) [of svc uuid' "rp_id r" d' stored] g(1-3) assms(5) ops by auto
  have "ResponseService_Get svc (rp_id r) d2 = Inl StorageErrNotFound"
    and "\<And>k. k \<noteq> rp_id r \<Longrightarrow> ResponseService_Get svc k d2 = ResponseService_Get svc k d'"
    using g(2) assms(5) ops d2(2) by (simp_all add: ResponseService_Get_def)
  then show ?thesis using get d2(1)
    by (simp add: plain_get responseHandler_delete_def WriteJSON_def missing_not_found deletion_json_def)
qed

theorem response_over_http_witness:
  "\<exists>r d' doc d2. ResponseService_Create sample_service sample_uuid sample_clock (plain_request None) 0 empty_db = (Inr r, d') \<and>
     responseHandler_get [] sample_local_only sample_service True [] ''resp_u'' d' =
       Reply 200 (Some doc) \<and>
     responseHandler_get [] sample_local_only sample_service True [] ''resp_u'' d2 =
       Forwarded"
proof -
  obtain r d' where c: "completeCreate sample_service sample_uuid sample_clock sample_answered (pc_context sample_context)
      (plain_request None) ''hello'' 1 empty_db = (Inr r, d')" "rp_output_text r = ''hello''" "rp_id r = ''resp_u''"
    by (rule plain_created)
  have "publicStore (plain_request None)" by (simp add: publicStore_def plain_request_sel)
  note t = response_over_http [OF plain_create_from [OF c(1)] this plain_prepared plain_storable sample_wiring(1) _ plain_threshold,
    where je = "[]" and h = sample_local_only and f = True]
  show ?thesis using t plain_create_from [OF c(1)] c(2,3) sample_wiring(2) by (auto simp: sample_clock_def canProxyNativeResponses_def sample_local_only_def)
qed

text \<open>C17: a conversation over HTTP. A body that decodes and is accepted by the service is answered with status 200 and a
  document that has the identifier, the time of the creation in seconds and the metadata; reading the conversation
  gives the same answer, and no other conversation reads differently.\<close>

theorem conversation_over_http:
  assumes "conv_inv d" and "decode_create_conversation body = Some (rawItems, metadata)"
    and "ConversationService_Create (sqlite_ops uuid) uuid now rawItems metadata n d = Inr (c, n', d')"
    and "\<forall>it \<in> set (c_items c). storable it" and "trim_space now = now" and "ParseTimeUnix now = Some t"
  shows "\<exists>doc. doc = JObj [(''id'', JStr (c_id c)), (''object'', JStr ''conversation''), (''created_at'', JNum (int_text t)),
      (''metadata'', JObj (map (\<lambda>(k, v). (k, JStr v)) (c_metadata c)))] \<and>
    conversationHandler_create je (sqlite_ops uuid) uuid now body n d = (Reply 200 (Some doc), d') \<and>
    conversationHandler_get je (sqlite_ops uuid) (c_id c) d' = Reply 200 (Some doc) \<and>
    (\<forall>k. k \<noteq> c_id c \<longrightarrow> conversationHandler_get je (sqlite_ops uuid) k d' = conversationHandler_get je (sqlite_ops uuid) k d)"
proof -
  have c: "c_object c = ''conversation''" "c_created c = now" using assms(3)
    by (auto simp: ConversationService_Create_def Let_def split: sum.splits if_splits)
  then have "conversation_answer je c = Reply 200 (Some (JObj [(''id'', JStr (c_id c)), (''object'', JStr ''conversation''),
      (''created_at'', JNum (int_text t)), (''metadata'', JObj (map (\<lambda>(k, v). (k, JStr v)) (c_metadata c)))]))"
    using assms(5,6) by (simp add: conversation_answer_def conversationPayload_def WriteJSON_def)
  moreover have "ConversationService_Get (sqlite_ops uuid) (c_id c) d' = Inr c"
    and "\<And>k. k \<noteq> c_id c \<Longrightarrow> GetConversation k d' = GetConversation k d"
    using service_create_conversation [OF assms(1,3,4)] by auto
  moreover from this(2) have "\<And>k. k \<noteq> c_id c \<Longrightarrow> ConversationService_Get (sqlite_ops uuid) k d' = ConversationService_Get (sqlite_ops uuid) k d"
    by (simp add: ConversationService_Get_def sqlite_ops_def)
  ultimately show ?thesis using assms(2,3) by (simp add: conversationHandler_create_def conversationHandler_get_def)
qed

theorem conversation_over_http_witness:
  "\<exists>c n' d' doc. ConversationService_Create (sqlite_ops (\<lambda>_. Some ''u'')) (\<lambda>_. Some ''u'') ''1970-01-01T00:00:07Z'' [] (RawJson (JObj [(''k'', JStr ''v'')])) 0
      empty_db = Inr (c, n', d') \<and>
    conversationHandler_create [] (sqlite_ops (\<lambda>_. Some ''u'')) (\<lambda>_. Some ''u'') ''1970-01-01T00:00:07Z'' sample_conversation_body 0 empty_db =
      (Reply 200 (Some doc), d') \<and>
    conversationHandler_get [] (sqlite_ops (\<lambda>_. Some ''u'')) ''conv_u'' d' = Reply 200 (Some doc)"
proof -
  have b: "decode_create_conversation sample_conversation_body = Some ([], RawJson (JObj [(''k'', JStr ''v'')]))" by code_simp
  have md: "NormalizeConversationMetadata (RawJson (JObj [(''k'', JStr ''v'')])) = Inr [(''k'', ''v'')]" by code_simp
  have md: "NormalizeConversationMetadata (RawJson (JObj [(''k'', JStr ''v'')])) = Inr [(''k'', ''v'')]" by code_simp
  have "trim_space ''1970-01-01T00:00:07Z'' = ''1970-01-01T00:00:07Z''" "ParseTimeUnix ''1970-01-01T00:00:07Z'' = Some 7" by code_simp+
  moreover obtain c n' d' where c: "ConversationService_Create (sqlite_ops (\<lambda>_. Some ''u'')) (\<lambda>_. Some ''u'') ''1970-01-01T00:00:07Z'' []
      (RawJson (JObj [(''k'', JStr ''v'')])) 0 empty_db = Inr (c, n', d')" "c_items c = []" "c_id c = ''conv_u''"
    by (simp add: ConversationService_Create_def md NewPrefixedID_def sqlite_ops_def CreateConversation_def empty_db_def tbl_insert_def tbl_has_def)
  ultimately show ?thesis using conversation_over_http [OF conv_inv_empty b c(1), where t = 7 and je = "[]"] c by auto
qed

text \<open>C18: with \<^verbatim>\<open>responses.mode=local_only\<close> the answers of \<^verbatim>\<open>input_tokens\<close> and \<^verbatim>\<open>compact\<close> do not depend on what an
  upstream would have answered, whatever the body, the transport and the providers.\<close>

theorem local_only_endpoints:
  assumes "hc_mode h = modeLocalOnly"
  shows "responseHandler_inputTokens je h svc now up body s = responseHandler_inputTokens je h svc now up' body s \<and>
    responseHandler_compact je h svc uuid now unixNow up body n s = responseHandler_compact je h svc uuid now unixNow up' body n s"
proof -
  have "modeLocalOnly \<noteq> modePreferUpstream" by (simp add: modeLocalOnly_def modePreferUpstream_def)
  then have "\<not> shouldFallbackLocalState je modeLocalOnly e" for je e by (simp add: shouldFallbackLocalState_def)
  then have "derived_endpoint je h svc up endpoint allowEmpty run body s = derived_endpoint je h svc up' endpoint allowEmpty run body s"
    for endpoint allowEmpty run
    using \<open>modeLocalOnly \<noteq> modePreferUpstream\<close> assms
    by (simp add: derived_endpoint_def Let_def split: sum.split prod.split)
  then show ?thesis by (simp add: responseHandler_inputTokens_def responseHandler_compact_def)
qed

theorem local_only_endpoints_witness:
  "responseHandler_inputTokens [] sample_local_only sample_service ''t''
      (UpAnswer 200 (RawJson (JObj []))) ''{}'' empty_db =
    responseHandler_inputTokens [] sample_local_only sample_service ''t''
      UpUnreadable ''{}'' empty_db"
  using local_only_endpoints [of sample_local_only "[]" sample_service "''t''"
      "UpAnswer 200 (RawJson (JObj []))" "''{}''" empty_db UpUnreadable] by (simp add: sample_local_only_def)

text \<open>A cancellation changes the store only when the upstream acknowledged it: the response is one that runs in the
  background, the transport is the native one, the upstream answered with success and a response document, and the
  change is the refresh with that document.\<close>

theorem cancel_needs_upstream:
  "snd (responseHandler_cancel je h svc uuid up rid n s) = s \<or>
   (\<exists>r status body parsed. ResponseService_Get svc rid s = Inr r \<and> rp_background r = Some True \<and> canProxyNativeResponses h \<and>
      up = UpAnswer status body \<and> 200 \<le> status \<and> status < 300 \<and> ParseUpstreamResponse (canonical_body status body) = Inr parsed \<and>
      snd (responseHandler_cancel je h svc uuid up rid n s) = snd (ResponseService_Refresh svc uuid parsed n s))"
proof (cases "ResponseService_Get svc rid s")
  case (Inl e)
  then show ?thesis by (simp add: responseHandler_cancel_def)
next
  case (Inr r)
  then show ?thesis by (cases up) (auto simp: responseHandler_cancel_def Let_def split: sum.splits prod.splits)
qed

end
