(* ===== verification/Spec2Isabelle.thy ===== *)
theory Spec2Isabelle
  imports Conversation_Service Tool_Markup Memory_Service Compactor Response_Context Response_Text Go_Time Response_Lifecycle Replay_Client Api_Query Request_Decoding Http_Handlers
begin

text \<open>
  A model of the core of \<^verbatim>\<open>llama_shim\<close>, an HTTP server that offers a stateful responses and
  conversations interface in front of a stateless text model. The HTTP layer decodes a request into
  the arguments of a service; the services keep responses, conversations and memory notes in a store,
  rebuild the context of a request from it, compact the context when it grows, let the model generate a
  text, check the text and store the result; the answer goes out as a document or as a stream of events.
  The development models the data, the stores over SQLite, the services and, of the HTTP layer, what decides the
  content of an answer: the decoding of requests, the errors, the listings, the streams. The tools the server runs
  for a model and the connection to the model are outside.

  \<^bold>\<open>Conventions.\<close> A Go string is a list of bytes. A \<^verbatim>\<open>json.RawMessage\<close> is of type \<open>raw\<close>: empty, a text that is not
  JSON, or a document; a document stands for the bytes that \<open>json_text\<close> prints for it. A Go map with string
  keys is an association list sorted by its keys. A method that may fail returns \<open>error + 'a\<close>; a panic is
  the error \<open>GoPanic\<close>. Time stamps are arguments. Random identifiers come from a parameter \<open>uuid\<close>, a
  function from a counter to an identifier or nothing, and the counter is threaded through. The tables
  of the database are the record \<open>db\<close>; a transaction that fails leaves it unchanged. Failures of the
  database driver and cancelled contexts are not modelled. The model behind the server is a parameter
  \<open>generator\<close>, with one function per attempt.

  \<^bold>\<open>The library of Go.\<close>
  \<^item> \<^verbatim>\<open>Go_Prelude\<close>: results, the error type, the collections of rewriting rules.
  \<^item> \<^verbatim>\<open>Go_Strings\<close>, \<^verbatim>\<open>Go_Utf8\<close>, \<^verbatim>\<open>Go_Base64\<close>, \<^verbatim>\<open>Go_Time\<close>: the parts of the packages \<^verbatim>\<open>strings\<close>, \<^verbatim>\<open>unicode/utf8\<close>,
    \<^verbatim>\<open>encoding/base64\<close> and \<^verbatim>\<open>time\<close> that the code uses.
  \<^item> \<^verbatim>\<open>Go_Json\<close>, \<^verbatim>\<open>Go_Json_Text\<close>: documents, maps (locale \<open>string_map\<close>), the decoding of structures with its
    case-insensitive keys, a printer and a reader of JSON texts with their round trip.

  \<^bold>\<open>Data.\<close>
  \<^item> \<^verbatim>\<open>Items\<close>, \<^verbatim>\<open>Item_Ids\<close> (\<^verbatim>\<open>domain/items.go\<close>, \<^verbatim>\<open>ids.go\<close>): items, their storage envelope, tool call references
    and identifiers. Items survive storage, except those that carry the key of the envelope.
  \<^item> \<^verbatim>\<open>Normalize\<close> (\<^verbatim>\<open>domain/normalize.go\<close>, \<^verbatim>\<open>conversation_metadata.go\<close>): what input and metadata become, and that
    the result is well formed and within the limits.
  \<^item> \<^verbatim>\<open>Compaction\<close> (\<^verbatim>\<open>domain/compaction.go\<close>): compaction items, their payload, their expansion, token estimates.
  \<^item> \<^verbatim>\<open>Response_Text\<close> (\<^verbatim>\<open>domain/response_text.go\<close>, \<^verbatim>\<open>service/response_text.go\<close>): text configurations, the supported
    schemas, and that the validator decides conformance to a schema.
  \<^item> \<^verbatim>\<open>Response_Model\<close>, \<^verbatim>\<open>Response_Printing\<close> (\<^verbatim>\<open>domain/response*.go\<close>): the response, what it echoes of its request,
    its document, and that a stored response is read back as the same document.
  \<^item> \<^verbatim>\<open>Tool_Markup\<close> (\<^verbatim>\<open>toolmarkup/raw.go\<close>): the scan for tool syntax in a text.

  \<^bold>\<open>Stores.\<close>
  \<^item> \<^verbatim>\<open>Store_Schema\<close>: tables with primary keys (locale \<open>primary_key\<close>), the rows and the record \<open>db\<close>.
  \<^item> \<^verbatim>\<open>Conversation_Store\<close>, \<^verbatim>\<open>Response_Store\<close>, \<^verbatim>\<open>Memory_Store\<close> (\<^verbatim>\<open>storage/sqlite\<close>): every operation of the three
    stores. Step relations collect the writes; the schema and the limits are invariants of every
    reachable database, a successful conditional write is never based on stale data, and the walk
    over previous responses is the chain of stored responses (it ends because each step visits a
    response not seen before).

  \<^bold>\<open>Services.\<close>
  \<^item> \<^verbatim>\<open>Conversation_Service\<close> (\<^verbatim>\<open>service/conversations.go\<close>, \<^verbatim>\<open>conversation_items.go\<close>): over the locale
    \<open>conversation_store\<close>, which the SQLite store interprets.
  \<^item> \<^verbatim>\<open>Memory_Service\<close> (\<^verbatim>\<open>service/memory.go\<close>): recall and capture over the locale \<open>memory_store\<close>.
  \<^item> \<^verbatim>\<open>Compactor\<close> (\<^verbatim>\<open>compactor/compactor.go\<close>): the heuristic and the model-assisted compactor, both instances of
    the locale \<open>compactor_contract\<close>; compaction returns a result whatever the model answers.
  \<^item> \<^verbatim>\<open>Response_Context\<close>, \<^verbatim>\<open>Local_Generation\<close> (\<^verbatim>\<open>domain/context_builder.go\<close>, \<^verbatim>\<open>service/responses.go\<close>): from a request to
    its context, automatic compaction, the attempts at an answer (at most three) and the checks of a
    structured answer.
  \<^item> \<^verbatim>\<open>Response_Service\<close>, \<^verbatim>\<open>Response_Lifecycle\<close> (\<^verbatim>\<open>service/responses.go\<close>): every method of the response service,
    over the locale \<open>service_stores\<close>. A method returns its result with the store, also when it fails. A
    hidden response is not served, a stream agrees with an ordinary
    creation, and a failed request leaves the store as it was.

  \<^bold>\<open>The HTTP layer\<close> (\<^verbatim>\<open>httpapi\<close>).
  \<^item> \<^verbatim>\<open>Event_Stream\<close> (\<^verbatim>\<open>sse.go\<close>, \<^verbatim>\<open>ssetrace/parser.go\<close>): the bytes of an event, the reader of streams, and their round
    trip for events whose lines are within the limit of the reader.
  \<^item> \<^verbatim>\<open>Response_Replay\<close>, \<^verbatim>\<open>Replay_Client\<close> (\<^verbatim>\<open>response_retrieve.go\<close>, \<^verbatim>\<open>response_stream_replay.go\<close>,
    \<^verbatim>\<open>response_replay_local_coding_tools.go\<close>): a stored response as a stream of events. The stream can be resumed after any
    event, and a client rebuilds the output and the texts of the response from it.
  \<^item> \<^verbatim>\<open>Response_Streaming\<close> (\<^verbatim>\<open>response_streaming.go\<close>, \<^verbatim>\<open>sse.go\<close>, \<^verbatim>\<open>createStream\<close>): the stream of a response being
    created, over the hooks of the service.
  \<^item> \<^verbatim>\<open>Api_Errors\<close> (\<^verbatim>\<open>errors.go\<close>, \<^verbatim>\<open>backend_failure_policy.go\<close>): from an error to a status and a body, and the canonical form
    of an upstream error.
  \<^item> \<^verbatim>\<open>Api_Query\<close> (\<^verbatim>\<open>response_retrieve.go\<close>, \<^verbatim>\<open>handlers_conversations.go\<close>): query parameters and pages; following the
    cursors visits every item once.
  \<^item> \<^verbatim>\<open>Request_Decoding\<close> (\<^verbatim>\<open>handlers_responses.go\<close>, \<^verbatim>\<open>handlers_responses_modes.go\<close>, \<^verbatim>\<open>mcp_tool_validation.go\<close>): the
    body of a request, its checks and the route it takes.
  \<^item> \<^verbatim>\<open>Access_Control\<close> (\<^verbatim>\<open>ops.go\<close>, \<^verbatim>\<open>middleware.go\<close>, \<^verbatim>\<open>llama/context.go\<close>): the middleware in front of the handlers. Who
    is let through, what is sent on to the model server, how many requests a key is granted (locale
    \<open>paid_requests\<close>) and how much work runs at a time.
  \<^item> \<^verbatim>\<open>Provider_Routing\<close> (\<^verbatim>\<open>upstream_provider_routing.go\<close>, parts of \<^verbatim>\<open>config/config.go\<close> and \<^verbatim>\<open>llama/client.go\<close>): several
    model servers behind one. Listed models can be asked for, and each server gets its own credentials only.
  \<^item> \<^verbatim>\<open>Config_Values\<close> (\<^verbatim>\<open>config/config.go\<close>, \<^verbatim>\<open>ui.go\<close>): the values of the configuration and their checks.
  \<^item> \<^verbatim>\<open>Http_Handlers\<close> (\<^verbatim>\<open>handlers_conversations.go\<close>, \<^verbatim>\<open>handlers_responses.go\<close>): the handlers of stored objects, composed of
    the layers above. A created response or conversation is served unchanged over HTTP, a deleted one is gone, and
    the derived endpoints of a local-only server do not depend on the upstream.

  \<^bold>\<open>Loops and bounds.\<close> Recursion is structural or has a measure: the size of a schema, the number of
  responses not seen, the number of attempts left, the length of a text. The reader of JSON texts uses
  twice the length of its input as fuel, which the round trip shows to be enough for every printed document.
  A line of a stream has at most \<open>2 ^ 24\<close> bytes. Following the pages of a listing of \<open>n\<close> items takes at most
  \<open>n + 1\<close> requests, which is the fuel of \<open>follow_pages\<close>.

  \<^bold>\<open>Not modelled.\<close> The handler that creates a response beyond its decoding, its route and its local stream; the proxy that rewrites the events of a live upstream, websockets, metrics and traces; the loops that
  run tools, the sandbox, retrieval with its floating-point scores, image generation and web search,
  which call external services; chat completions; the PostgreSQL store, a second implementation of the
  same interfaces; the library that reads configuration files, migrations, maintenance and the command line tools.
\<close>

end
